(* ===== verification/Prelude.thy ===== *)
theory Prelude
  imports Complex_Main "HOL-Library.List_Lexorder" "HOL-Library.Char_ord" "HOL-Library.Sublist"
begin

text \<open>
  Shared vocabulary of the development: the named collections of rewrite rules, the result type
  of fallible code, the string operations of the Python standard library that the kernel uses,
  and the dynamically typed values (JSON-like Python data) that travel through the kernel.

  A Python \<^verbatim>\<open>str\<close> is a list of code points. The model uses \<open>string = char list\<close>, that is
  code points 0 to 255 (Latin-1); the character classes below (\<open>is_upper\<close>, \<open>py_isspace\<close>,
  \<open>py_isdigit_char\<close>, \<open>lower_char\<close>) agree with CPython on that whole range, including the
  non-ASCII part of it. Instants (\<^verbatim>\<open>datetime\<close>) are \<open>int\<close>, a number of seconds.
\<close>

named_theorems py_simps \<open>unfolding rules of the Python library operations\<close>
named_theorems model_defs \<open>unfolding rules of the operations of the model\<close>

type_synonym instant = int
type_synonym ident = string

subsection \<open>Fallible code\<close>

text \<open>A call that raises \<open>e\<close> is \<open>Inl e\<close>; one that returns \<open>x\<close> is \<open>Inr x\<close>.\<close>

definition is_ok :: "'e + 'a \<Rightarrow> bool" where
  "is_ok r \<longleftrightarrow> (case r of Inl _ \<Rightarrow> False | Inr _ \<Rightarrow> True)"

lemma is_ok_simps [simp]: "is_ok (Inr x)" "\<not> is_ok (Inl e)"
  by (simp_all add: is_ok_def)

lemma is_ok_conv: "is_ok r \<longleftrightarrow> (\<exists>x. r = Inr x)"
  by (cases r) auto

text \<open>Sequencing of fallible pure calls: the first error wins.\<close>

definition rbind :: "'e + 'a \<Rightarrow> ('a \<Rightarrow> 'e + 'b) \<Rightarrow> 'e + 'b" where
  "rbind r f = (case r of Inl e \<Rightarrow> Inl e | Inr x \<Rightarrow> f x)"

lemma rbind_simps [simp]: "rbind (Inl e) f = Inl e" "rbind (Inr x) f = f x"
  by (simp_all add: rbind_def)

lemma rbind_Inr_iff: "rbind r f = Inr y \<longleftrightarrow> (\<exists>x. r = Inr x \<and> f x = Inr y)"
  by (cases r) auto

text \<open>Evaluating a fallible function along a list, stopping at the first error.\<close>

fun rmap :: "('a \<Rightarrow> 'e + 'b) \<Rightarrow> 'a list \<Rightarrow> 'e + 'b list" where
  "rmap f [] = Inr []"
| "rmap f (x # xs) = rbind (f x) (\<lambda>y. rbind (rmap f xs) (\<lambda>ys. Inr (y # ys)))"

lemma rmap_Inr: "rmap f xs = Inr ys \<Longrightarrow> list_all2 (\<lambda>x y. f x = Inr y) xs ys"
  by (induction xs arbitrary: ys) (auto simp: rbind_Inr_iff)

lemma rmap_cong [fundef_cong]:
  "xs = ys \<Longrightarrow> (\<And>x. x \<in> set ys \<Longrightarrow> f x = g x) \<Longrightarrow> rmap f xs = rmap g ys"
proof (induction xs arbitrary: ys)
  case Nil
  then show ?case by simp
next
  case (Cons x xs)
  then have "rmap f xs = rmap g xs" by (metis list.set_intros(2))
  with Cons.prems show ?case by auto
qed

subsection \<open>Operations of str\<close>

definition endswith :: "string \<Rightarrow> string \<Rightarrow> bool" where
  "endswith s suf \<longleftrightarrow> suffix suf s"

definition startswith :: "string \<Rightarrow> string \<Rightarrow> bool" where
  "startswith s pre \<longleftrightarrow> prefix pre s"

lemma startswith_code [code]: "startswith s pre \<longleftrightarrow> take (length pre) s = pre"
  by (metis append_eq_conv_conj append_take_drop_id prefixE prefixI startswith_def)

lemma endswith_code [code]:
  "endswith s suf \<longleftrightarrow> length suf \<le> length s \<and> drop (length s - length suf) s = suf"
proof
  assume "endswith s suf"
  then obtain p where "s = p @ suf" by (auto simp: endswith_def suffix_def)
  then show "length suf \<le> length s \<and> drop (length s - length suf) s = suf" by simp
next
  assume "length suf \<le> length s \<and> drop (length s - length suf) s = suf"
  then have "s = take (length s - length suf) s @ suf" by (metis append_take_drop_id)
  then show "endswith s suf" by (auto simp: endswith_def suffix_def)
qed

lemma endswithE:
  assumes "endswith s suf"
  obtains p where "s = p @ suf" and "take (length s - length suf) s = p"
  using assms by (auto simp: endswith_def suffix_def)

lemma endswith_append [simp]: "endswith (p @ suf) suf"
  by (auto simp: endswith_def suffix_def)

lemma startswith_append [simp]: "startswith (p @ r) p"
  by (simp add: startswith_def)

text \<open>\<^verbatim>\<open>s.rstrip(chars)\<close>: drop the trailing characters that occur in \<open>chars\<close>.\<close>

definition rstrip :: "string \<Rightarrow> string \<Rightarrow> string" where
  "rstrip chars s = rev (dropWhile (\<lambda>c. c \<in> set chars) (rev s))"

lemma rstrip_prefix: "prefix (rstrip chars s) s"
proof -
  have "suffix (dropWhile (\<lambda>c. c \<in> set chars) (rev s)) (rev s)"
    by (rule suffix_dropWhile)
  then show ?thesis by (simp add: rstrip_def suffix_to_prefix)
qed

lemma rstrip_append_stripped:
  "set t \<subseteq> set chars \<Longrightarrow> rstrip chars (s @ t) = rstrip chars s"
  by (auto simp: rstrip_def dropWhile_append2 subset_iff dropWhile_append)

lemma rstrip_last: "s \<noteq> [] \<Longrightarrow> last s \<notin> set chars \<Longrightarrow> rstrip chars s = s"
  by (cases s rule: rev_cases) (auto simp: rstrip_def)

text \<open>\<^verbatim>\<open>str.isspace\<close> on Latin-1, \<^verbatim>\<open>str.strip()\<close>.\<close>

definition py_isspace :: "char \<Rightarrow> bool" where
  "py_isspace c \<longleftrightarrow> (let n = (of_char c :: nat)
     in (9 \<le> n \<and> n \<le> 13) \<or> (28 \<le> n \<and> n \<le> 32) \<or> n = 133 \<or> n = 160)"

definition strip :: "string \<Rightarrow> string" where
  "strip s = rev (dropWhile py_isspace (rev (dropWhile py_isspace s)))"

text \<open>\<^verbatim>\<open>str.lower()\<close> on Latin-1.\<close>

definition lower_char :: "char \<Rightarrow> char" where
  "lower_char c = (let n = (of_char c :: nat)
     in if (65 \<le> n \<and> n \<le> 90) \<or> (192 \<le> n \<and> n \<le> 222 \<and> n \<noteq> 215)
        then char_of (n + 32) else c)"

definition lower :: "string \<Rightarrow> string" where
  "lower s = map lower_char s"

definition is_upper :: "char \<Rightarrow> bool" where
  "is_upper c \<longleftrightarrow> (let n = (of_char c :: nat) in 65 \<le> n \<and> n \<le> 90)"

definition is_lower :: "char \<Rightarrow> bool" where
  "is_lower c \<longleftrightarrow> (let n = (of_char c :: nat) in 97 \<le> n \<and> n \<le> 122)"

definition is_digit :: "char \<Rightarrow> bool" where
  "is_digit c \<longleftrightarrow> (let n = (of_char c :: nat) in 48 \<le> n \<and> n \<le> 57)"

text \<open>
  \<^verbatim>\<open>str.isdigit()\<close> also accepts the superscripts two, three and one (178, 179, 185), which
  \<^verbatim>\<open>int()\<close> refuses with a ValueError.
\<close>

definition py_isdigit_char :: "char \<Rightarrow> bool" where
  "py_isdigit_char c \<longleftrightarrow> is_digit c \<or> (of_char c :: nat) \<in> {178, 179, 185}"

definition py_isdigit :: "string \<Rightarrow> bool" where
  "py_isdigit s \<longleftrightarrow> s \<noteq> [] \<and> list_all py_isdigit_char s"

text \<open>\<^verbatim>\<open>int(s)\<close> on a string for which \<^verbatim>\<open>s.isdigit()\<close> holds: \<open>None\<close> is the ValueError.\<close>

definition digit_value :: "char \<Rightarrow> int" where
  "digit_value c = int (of_char c) - 48"

definition py_int_of_digits :: "string \<Rightarrow> int option" where
  "py_int_of_digits s = (if s \<noteq> [] \<and> list_all is_digit s
     then Some (foldl (\<lambda>n c. 10 * n + digit_value c) 0 s) else None)"

text \<open>Decimal rendering of a non-negative integer, \<^verbatim>\<open>str(n)\<close>.\<close>

fun show_nat :: "nat \<Rightarrow> string" where
  "show_nat n = (if n < 10 then [char_of (48 + n)]
                 else show_nat (n div 10) @ [char_of (48 + n mod 10)])"

declare show_nat.simps [simp del]

definition show_int :: "int \<Rightarrow> string" where
  "show_int i = (if i < 0 then CHR ''-'' # show_nat (nat (- i)) else show_nat (nat i))"

lemma digit_chars: "(d :: nat) < 10 \<Longrightarrow> is_digit (char_of (48 + d))"
  by (simp add: is_digit_def Let_def)

lemma show_nat_ne [simp]: "show_nat n \<noteq> []"
  by (subst show_nat.simps) simp

lemma show_nat_digits: "list_all is_digit (show_nat n)"
  by (induction n rule: show_nat.induct) (subst show_nat.simps, simp add: digit_chars)

lemma show_nat_inject: "show_nat m = show_nat n \<Longrightarrow> m = n"
proof (induction m arbitrary: n rule: show_nat.induct)
  case (1 m)
  have c: "(of_char (char_of (48 + k)) :: nat) = 48 + k" if "k < 10" for k :: nat using that by simp
  have inj: "char_of (48 + k) = (char_of (48 + l) :: char) \<Longrightarrow> k = l" if "k < 10" "l < 10" for k l :: nat
    using c[OF that(1)] c[OF that(2)] by (metis add_left_cancel)
  show ?case
  proof (cases "m < 10"; cases "n < 10")
    assume "m < 10" "n < 10"
    with 1(2) inj show ?thesis by (simp add: show_nat.simps[of m] show_nat.simps[of n])
  next
    assume "m < 10" "\<not> n < 10"
    with 1(2) show ?thesis using show_nat_ne[of "n div 10", THEN not_sym] by (simp add: show_nat.simps[of m] show_nat.simps[of n])
  next
    assume "\<not> m < 10" "n < 10"
    with 1(2) show ?thesis by (simp add: show_nat.simps[of m] show_nat.simps[of n])
  next
    assume mn: "\<not> m < 10" "\<not> n < 10"
    with 1(2) have "show_nat (m div 10) = show_nat (n div 10)" "m mod 10 = n mod 10"
      using inj[of "m mod 10" "n mod 10"] by (simp_all add: show_nat.simps[of m] show_nat.simps[of n])
    with 1(1)[OF mn(1), of "n div 10"] show ?thesis by (metis div_mult_mod_eq)
  qed
qed

lemma hd_show_nat: "is_digit (hd (show_nat n))"
  using show_nat_digits[of n] by (cases "show_nat n") auto

lemma show_int_inject: "show_int i = show_int j \<Longrightarrow> i = j"
proof -
  have minus: "show_nat n \<noteq> CHR ''-'' # s" for n s
    using hd_show_nat[of n] by (auto simp: is_digit_def)
  assume "show_int i = show_int j"
  then show ?thesis using minus[of "nat i"] minus[of "nat j"] minus[of "nat j", THEN not_sym]
    by (auto simp: show_int_def split: if_splits dest!: show_nat_inject)
qed

lemma py_int_of_show_nat: "py_int_of_digits (show_nat n) = Some (int n)"
proof -
  have "foldl (\<lambda>m c. 10 * m + digit_value c) 0 (show_nat n) = int n"
  proof (induction n rule: show_nat.induct)
    case (1 n)
    have d: "digit_value (char_of (48 + k)) = int k" if "k < 10" for k :: nat
      using that by (simp add: digit_value_def)
    show ?case
    proof (cases "n < 10")
      case True
      then show ?thesis by (subst show_nat.simps) (simp add: d)
    next
      case False
      then show ?thesis using 1[OF False] by (subst show_nat.simps) (simp add: d, presburger)
    qed
  qed
  then show ?thesis using show_nat_digits[of n] by (simp add: py_int_of_digits_def)
qed

lemma digits_isdigit: "s \<noteq> [] \<Longrightarrow> list_all is_digit s \<Longrightarrow> py_isdigit s"
  unfolding py_isdigit_def by (auto simp: list_all_iff py_isdigit_char_def)

text \<open>\<^verbatim>\<open>s.rpartition(sep)\<close> for a one-character separator: \<open>None\<close> when it does not occur.\<close>

definition rpartition :: "char \<Rightarrow> string \<Rightarrow> (string \<times> string) option" where
  "rpartition sep s = (if sep \<in> set s
     then Some (rev (tl (dropWhile (\<lambda>c. c \<noteq> sep) (rev s))),
                rev (takeWhile (\<lambda>c. c \<noteq> sep) (rev s)))
     else None)"

lemma rpartition_SomeD:
  assumes "rpartition sep s = Some (a, b)"
  shows "s = a @ sep # b" and "sep \<notin> set b"
proof -
  from assms have sep: "sep \<in> set s"
    and a: "a = rev (tl (dropWhile (\<lambda>c. c \<noteq> sep) (rev s)))"
    and b: "b = rev (takeWhile (\<lambda>c. c \<noteq> sep) (rev s))"
    by (auto simp: rpartition_def split: if_splits)
  have "dropWhile (\<lambda>c. c \<noteq> sep) (rev s) \<noteq> []"
    using sep by (metis (mono_tags) dropWhile_eq_Nil_conv set_rev)
  moreover then have "hd (dropWhile (\<lambda>c. c \<noteq> sep) (rev s)) = sep"
    using hd_dropWhile by blast
  ultimately have "dropWhile (\<lambda>c. c \<noteq> sep) (rev s) = sep # rev a"
    using a by (metis list.collapse rev_rev_ident)
  moreover have "takeWhile (\<lambda>c. c \<noteq> sep) (rev s) = rev b" using b by simp
  ultimately have "rev s = rev b @ sep # rev a"
    by (metis takeWhile_dropWhile_id)
  then show "s = a @ sep # b" by (metis append.assoc append_Cons append_Nil rev.simps(2) rev_append rev_rev_ident)
  show "sep \<notin> set b" using b by (auto dest: set_takeWhileD)
qed

lemma rpartition_append: "sep \<notin> set b \<Longrightarrow> rpartition sep (a @ sep # b) = Some (a, b)"
  by (simp add: rpartition_def dropWhile_append2 takeWhile_append2 dropWhile_append takeWhile_append)

text \<open>\<^verbatim>\<open>s.split(sep)\<close> for a one-character separator; never empty.\<close>

fun split_on :: "char \<Rightarrow> string \<Rightarrow> string list" where
  "split_on sep [] = [[]]"
| "split_on sep (c # s) = (if c = sep then [] # split_on sep s
     else (c # hd (split_on sep s)) # tl (split_on sep s))"

lemma split_on_nonempty [simp]: "split_on sep s \<noteq> []"
  by (induction s) auto

lemma split_on_sep: "split_on sep (a @ sep # b) = split_on sep a @ split_on sep b"
  by (induction a) auto

lemma split_on_inj: "split_on sep a = split_on sep b \<Longrightarrow> a = b"
proof (induction a arbitrary: b)
  case Nil
  then show ?case by (cases b) (auto split: if_splits dest: sym)
next
  case (Cons c a)
  show ?case
  proof (cases b)
    case Nil
    with Cons.prems show ?thesis by (auto split: if_splits dest: sym)
  next
    case (Cons d b')
    with Cons.prems Cons.IH show ?thesis
      by (auto split: if_splits) (metis list.collapse split_on_nonempty)+
  qed
qed

subsection \<open>Lists\<close>

lemma find_SomeD: "find P xs = Some x \<Longrightarrow> x \<in> set xs \<and> P x"
  by (auto simp: find_Some_iff)

lemma set_map_filter_iff: "y \<in> set (List.map_filter f xs) \<longleftrightarrow> (\<exists>x \<in> set xs. f x = Some y)"
  by (induction xs) (auto simp: map_filter_simps split: option.splits)

lemma sep_unique: "c \<notin> set a \<Longrightarrow> c \<notin> set b \<Longrightarrow> a @ c # x = b @ c # y \<Longrightarrow> a = b"
proof (induction a arbitrary: b)
  case Nil
  then show ?case by (cases b) auto
next
  case (Cons d a)
  then show ?case by (cases b) auto
qed

lemma list_all2_right: "list_all2 P xs ys \<Longrightarrow> y \<in> set ys \<Longrightarrow> \<exists>x \<in> set xs. P x y"
  by (induction rule: list_all2_induct) auto

lemma distinct_count_one: "distinct xs \<Longrightarrow> x \<in> set xs \<Longrightarrow> count_list xs x = 1"
  by (induction xs) (auto simp: count_list_0_iff)

end
