(* ===== verification/Grants.thy ===== *)
theory Grants
  imports Prelude
begin

text \<open>
  The grant primitive, \<^verbatim>\<open>boltrig/models/grants.py\<close> and \<^verbatim>\<open>boltrig/kernel/grants.py\<close>: identifiers,
  pattern matching, grant sets with their intersection, and the per-call check against the
  tenant ceiling.

  Unicode normalisation (\<^verbatim>\<open>unicodedata.normalize("NFKC", \<dots>)\<close>, a data table outside the
  repository) is the parameter \<open>nfkc\<close> of every definition that calls it. The one fact used
  about it is that it leaves ASCII strings unchanged (\<open>nfkc_ascii\<close>), which the Unicode standard
  guarantees.
\<close>

subsection \<open>Identifiers\<close>

definition SAFE_ID_CHARS :: string where
  "SAFE_ID_CHARS =
     ''abcdefghijklmnopqrstuvwxyzABCDEFGHIJKLMNOPQRSTUVWXYZ0123456789._-/@*''"

definition MAX_CONCRETE_VERBS :: nat where
  "MAX_CONCRETE_VERBS = 256"

definition MAX_VERB_ID_BYTES :: nat where
  "MAX_VERB_ID_BYTES = 256"

text \<open>\<^verbatim>\<open>normalize_identifier\<close>; the \<^verbatim>\<open>value or ""\<close> of the source only matters for \<^verbatim>\<open>None\<close>.\<close>

definition normalize_identifier :: "(string \<Rightarrow> string) \<Rightarrow> string \<Rightarrow> string" where
  "normalize_identifier nfkc value = nfkc value"

definition is_safe_identifier :: "(string \<Rightarrow> string) \<Rightarrow> string \<Rightarrow> bool" where
  "is_safe_identifier nfkc value =
     (let norm = normalize_identifier nfkc value
      in norm \<noteq> [] \<and> list_all (\<lambda>ch. ch \<in> set SAFE_ID_CHARS) norm)"

definition is_ascii :: "string \<Rightarrow> bool" where
  "is_ascii s \<longleftrightarrow> list_all (\<lambda>c. (of_char c :: nat) < 128) s"

text \<open>The documented behaviour of NFKC the development relies on.\<close>

definition nfkc_ascii :: "(string \<Rightarrow> string) \<Rightarrow> bool" where
  "nfkc_ascii nfkc \<longleftrightarrow> (\<forall>s. is_ascii s \<longrightarrow> nfkc s = s)"

datatype grant_error = GTypeError | GValueError

text \<open>Length of a string in UTF-8: a Latin-1 code point from 128 on takes two bytes.\<close>

definition utf8_len :: "string \<Rightarrow> nat" where
  "utf8_len s = sum_list (map (\<lambda>c. if (of_char c :: nat) < 128 then 1 else 2) s)"

fun canonical_loop :: "(string \<Rightarrow> string) \<Rightarrow> string list \<Rightarrow> string list \<Rightarrow> grant_error + string list" where
  "canonical_loop nfkc canonical [] = Inr canonical"
| "canonical_loop nfkc canonical (value # values) =
     (let normalized = normalize_identifier nfkc value
      in if normalized \<noteq> value \<or> \<not> is_safe_identifier nfkc normalized
            \<or> CHR ''*'' \<in> set normalized \<or> utf8_len normalized > MAX_VERB_ID_BYTES
         then Inl GValueError
         else canonical_loop nfkc (List.insert normalized canonical) values)"

definition canonical_concrete_verbs :: "(string \<Rightarrow> string) \<Rightarrow> string list \<Rightarrow> grant_error + string list" where
  "canonical_concrete_verbs nfkc values =
     (if length values > MAX_CONCRETE_VERBS then Inl GValueError
      else rbind (canonical_loop nfkc [] values) (\<lambda>canonical. Inr (sort canonical)))"

subsection \<open>Pattern matching\<close>

text \<open>\<^verbatim>\<open>_matches\<close>: the terminal wildcard rule.\<close>

definition matches :: "(string \<Rightarrow> string) \<Rightarrow> string \<Rightarrow> string \<Rightarrow> bool" where
  "matches nfkc pattern0 verb0 =
     (if \<not> is_safe_identifier nfkc verb0 then False
      else let pattern = normalize_identifier nfkc pattern0;
               verb_id = normalize_identifier nfkc verb0
           in if pattern = ''*'' then True
              else if pattern = verb_id then True
              else if endswith pattern ''.*''
                then (let pre = take (length pattern - 2) pattern
                      in verb_id = pre \<or> startswith verb_id (pre @ ''.''))
              else False)"

subsection \<open>Grant sets\<close>

record grant_set =
  allow :: "string list"
  deny :: "string list"

definition grant_set_of :: "string list option \<Rightarrow> string list option \<Rightarrow> grant_set" where
  "grant_set_of a d = \<lparr>allow = (case a of None \<Rightarrow> [] | Some xs \<Rightarrow> xs),
                       deny = (case d of None \<Rightarrow> [] | Some xs \<Rightarrow> xs)\<rparr>"

definition permits :: "(string \<Rightarrow> string) \<Rightarrow> grant_set \<Rightarrow> string \<Rightarrow> bool" where
  "permits nfkc g verb_id =
     (if list_ex (\<lambda>p. matches nfkc p verb_id) (deny g) then False
      else if list_ex (\<lambda>p. matches nfkc p verb_id) (allow g) then True
      else False)"

definition permits_pattern :: "(string \<Rightarrow> string) \<Rightarrow> grant_set \<Rightarrow> string \<Rightarrow> bool" where
  "permits_pattern nfkc g pattern =
     (if list_ex (\<lambda>p. matches nfkc p (rstrip ''.*'' pattern)) (deny g) then False
      else if ''*'' \<in> set (allow g) then True
      else if pattern \<in> set (allow g) then True
      else if endswith pattern ''.*''
        then list_ex (\<lambda>a. a = pattern \<or> a = ''*'') (allow g)
      else list_ex (\<lambda>a. matches nfkc a pattern) (allow g))"

text \<open>
  \<^verbatim>\<open>allow.extend(entry for entry in \<dots> if \<dots> and entry not in allow)\<close>: the generator is
  consumed while the list grows, so an entry is appended at most once.
\<close>

fun extend_new :: "(string \<Rightarrow> bool) \<Rightarrow> string list \<Rightarrow> string list \<Rightarrow> string list" where
  "extend_new ok acc [] = acc"
| "extend_new ok acc (entry # rest) =
     (if ok entry \<and> entry \<notin> set acc then extend_new ok (acc @ [entry]) rest
      else extend_new ok acc rest)"

fun intersect_allow :: "(string \<Rightarrow> string) \<Rightarrow> grant_set \<Rightarrow> string list \<Rightarrow> string list \<Rightarrow> string list" where
  "intersect_allow nfkc other acc [] = acc"
| "intersect_allow nfkc other acc (pattern # patterns) =
     (if permits_pattern nfkc other pattern
        then intersect_allow nfkc other (acc @ [pattern]) patterns
      else if pattern = ''*''
        then intersect_allow nfkc other
               (extend_new (\<lambda>entry. entry \<noteq> ''*'' \<and> permits nfkc other (rstrip ''.*'' entry))
                  acc (allow other)) patterns
      else if endswith pattern ''.*''
        then intersect_allow nfkc other
               (extend_new (\<lambda>entry. entry \<noteq> ''*'' \<and> matches nfkc pattern entry)
                  acc (allow other)) patterns
      else intersect_allow nfkc other acc patterns)"

text \<open>\<^verbatim>\<open>tuple(set(self.deny) | set(other.deny))\<close>: the order of the tuple is immaterial.\<close>

definition intersect :: "(string \<Rightarrow> string) \<Rightarrow> grant_set \<Rightarrow> grant_set \<Rightarrow> grant_set" where
  "intersect nfkc self other =
     \<lparr>allow = intersect_allow nfkc other [] (allow self),
      deny = remdups (deny self @ deny other)\<rparr>"

definition EMPTY_GRANTS :: grant_set where
  "EMPTY_GRANTS = grant_set_of (Some []) (Some [])"

record tenant_permissions =
  tp_tenant_id :: string
  tp_grants :: grant_set

subsection \<open>The per-call check\<close>

datatype grant_denial = OutsideTenantCeiling string | CallerNotGranted string

definition check :: "(string \<Rightarrow> string) \<Rightarrow> grant_set \<Rightarrow> string \<Rightarrow> tenant_permissions \<Rightarrow> grant_denial + unit" where
  "check nfkc caller verb_id tenant_perms =
     (if \<not> permits nfkc (tp_grants tenant_perms) verb_id then Inl (OutsideTenantCeiling verb_id)
      else if \<not> permits nfkc caller verb_id then Inl (CallerNotGranted verb_id)
      else Inr ())"

subsection \<open>Lemmas: identifiers\<close>

lemma safe_chars_ascii: "ch \<in> set SAFE_ID_CHARS \<Longrightarrow> (of_char ch :: nat) < 128"
  by (simp add: SAFE_ID_CHARS_def) (elim disjE; simp)

lemma safe_identifier_ascii: "is_safe_identifier nfkc v \<Longrightarrow> is_ascii (normalize_identifier nfkc v)"
  by (auto simp: is_safe_identifier_def is_ascii_def list_all_iff Let_def intro: safe_chars_ascii)

lemma nfkc_ascii_fixed: "nfkc_ascii nfkc \<Longrightarrow> is_ascii s \<Longrightarrow> nfkc s = s"
  by (simp add: nfkc_ascii_def)

lemma nfkc_safe_idem:
  "nfkc_ascii nfkc \<Longrightarrow> is_safe_identifier nfkc v \<Longrightarrow> nfkc (nfkc v) = nfkc v"
  using safe_identifier_ascii[of nfkc v] by (simp add: nfkc_ascii_fixed normalize_identifier_def)

subsection \<open>Lemmas: matching\<close>

lemma matches_safe: "matches nfkc p v \<Longrightarrow> is_safe_identifier nfkc v"
  by (auto simp: matches_def split: if_splits)

text \<open>The three ways a pattern covers a verb.\<close>

lemma matches_iff:
  "matches nfkc p v \<longleftrightarrow> is_safe_identifier nfkc v \<and>
     (nfkc p = ''*'' \<or> nfkc p = nfkc v \<or>
      (\<exists>q. nfkc p = q @ ''.*'' \<and> (nfkc v = q \<or> (\<exists>r. nfkc v = q @ CHR ''.'' # r))))"
proof -
  have wild: "(\<exists>q. nfkc p = q @ ''.*'' \<and> (nfkc v = q \<or> (\<exists>r. nfkc v = q @ CHR ''.'' # r)))
     \<longleftrightarrow> endswith (nfkc p) ''.*'' \<and>
         (let pre = take (length (nfkc p) - 2) (nfkc p)
          in nfkc v = pre \<or> startswith (nfkc v) (pre @ ''.''))" (is "?L \<longleftrightarrow> ?R")
  proof
    assume ?L
    then show ?R by (auto simp: Let_def startswith_def prefix_def)
  next
    assume ?R
    then obtain q where "nfkc p = q @ ''.*''" "take (length (nfkc p) - 2) (nfkc p) = q"
      by (auto elim: endswithE)
    with \<open>?R\<close> show ?L by (auto simp: Let_def startswith_def prefix_def)
  qed
  show ?thesis
    unfolding wild by (auto simp: matches_def normalize_identifier_def Let_def)
qed

lemma matches_star [simp]: "nfkc p = ''*'' \<Longrightarrow> matches nfkc p v = is_safe_identifier nfkc v"
  by (simp add: matches_def normalize_identifier_def)

text \<open>A wildcard prefix in terms of dot-separated segments.\<close>

lemma split_on_append_rest:
  "split_on sep v = split_on sep q @ rest \<Longrightarrow> rest \<noteq> [] \<Longrightarrow> \<exists>r. v = q @ sep # r"
proof (induction q arbitrary: v)
  case Nil
  then show ?case by (cases v) (auto split: if_splits)
next
  case (Cons c q)
  show ?case
  proof (cases v)
    case Nil
    with Cons.prems show ?thesis by (auto split: if_splits)
  next
    case (Cons d v')
    have ne: "split_on sep q \<noteq> []" by simp
    from Cons Cons.prems have "c = d \<and> split_on sep v' = split_on sep q @ rest"
      by (auto split: if_splits)
         (metis (no_types, lifting) append_Cons list.collapse split_on_nonempty)
    with Cons.IH[of v'] Cons.prems(2) Cons show ?thesis by auto
  qed
qed

lemma segment_prefix_iff:
  "prefix (split_on sep q) (split_on sep v) \<longleftrightarrow> v = q \<or> (\<exists>r. v = q @ sep # r)"
proof
  assume "prefix (split_on sep q) (split_on sep v)"
  then obtain rest where "split_on sep v = split_on sep q @ rest" by (auto simp: prefix_def)
  then show "v = q \<or> (\<exists>r. v = q @ sep # r)"
    using split_on_append_rest split_on_inj by (cases "rest = []") fastforce+
next
  assume "v = q \<or> (\<exists>r. v = q @ sep # r)"
  then show "prefix (split_on sep q) (split_on sep v)" by (auto simp: split_on_sep)
qed

text \<open>
  Matching composes: a pattern that covers \<open>p\<close> read as a verb covers every verb \<open>p\<close>
  covers, unless it is a wildcard below a wildcard (\<^verbatim>\<open>*.*\<close>, \<^verbatim>\<open>a.*.*\<close>).
\<close>

lemma matches_trans:
  assumes ap: "matches nfkc a p" and pv: "matches nfkc p v"
    and wf: "\<not> endswith (nfkc a) ''*.*''"
  shows "matches nfkc a v"
proof -
  have safe: "is_safe_identifier nfkc v" using pv by (rule matches_safe)
  from ap consider "nfkc a = ''*''" | "nfkc a = nfkc p"
    | q where "nfkc a = q @ ''.*''" "nfkc p = q \<or> (\<exists>r. nfkc p = q @ CHR ''.'' # r)"
    by (auto simp: matches_iff)
  then show ?thesis
  proof cases
    case 1
    then show ?thesis using safe by simp
  next
    case 2
    then show ?thesis using pv by (simp add: matches_iff)
  next
    case (3 q)
    have no_star: "\<not> (\<exists>q0. q = q0 @ ''*'')"
      using wf 3(1) by (auto simp: endswith_def suffix_def)
    have p_star: "nfkc p \<noteq> ''*''"
      using 3(2) no_star by (auto simp: append_eq_Cons_conv)
    have cov: "nfkc v = q \<or> (\<exists>r. nfkc v = q @ CHR ''.'' # r)"
    proof -
      from pv p_star consider "nfkc p = nfkc v"
        | q' where "nfkc p = q' @ ''.*''" "nfkc v = q' \<or> (\<exists>r. nfkc v = q' @ CHR ''.'' # r)"
        by (auto simp: matches_iff)
      then show ?thesis
      proof cases
        case 1
        then show ?thesis using 3(2) by simp
      next
        case (2 q')
        have "nfkc p \<noteq> q" using no_star 2(1) by (metis append.assoc append_Cons append_Nil)
        then obtain r where r: "q @ CHR ''.'' # r = q' @ ''.*''" using 3(2) 2(1) by auto
        have "q' = q \<or> (\<exists>r0. q' = q @ CHR ''.'' # r0)"
        proof (cases r rule: rev_cases)
          case Nil
          with r have "last (q @ ''.'') = last (q' @ ''.*'')" by simp
          then show ?thesis by simp
        next
          case (snoc r1 c)
          with r have s: "q @ CHR ''.'' # r1 = q' @ ''.''"
            using append1_eq_conv[of "q @ CHR ''.'' # r1" c "q' @ ''.''" "CHR ''*''"] by simp
          show ?thesis
          proof (cases r1 rule: rev_cases)
            case Nil
            with s show ?thesis by simp
          next
            case (snoc r0 d)
            with s have "q @ CHR ''.'' # r0 = q'"
              using append1_eq_conv[of "q @ CHR ''.'' # r0" d q' "CHR ''.''"] by simp
            then show ?thesis by blast
          qed
        qed
        with 2(2) show ?thesis by auto
      qed
    qed
    with 3(1) safe show ?thesis by (auto simp: matches_iff)
  qed
qed

subsection \<open>Lemmas: grant sets\<close>

lemma permits_iff:
  "permits nfkc g v \<longleftrightarrow>
     (\<exists>p\<in>set (allow g). matches nfkc p v) \<and> (\<forall>p\<in>set (deny g). \<not> matches nfkc p v)"
  by (auto simp: permits_def list_ex_iff)

definition covered_by :: "(string \<Rightarrow> string) \<Rightarrow> string list \<Rightarrow> string \<Rightarrow> bool" where
  "covered_by nfkc A e \<longleftrightarrow> (\<forall>v. matches nfkc e v \<longrightarrow> (\<exists>a\<in>set A. matches nfkc a v))"

lemma covered_by_member: "e \<in> set A \<Longrightarrow> covered_by nfkc A e"
  by (auto simp: covered_by_def)

lemma set_extend_new:
  "set (extend_new ok acc es) = set acc \<union> {e \<in> set es. ok e}"
  by (induction ok acc es rule: extend_new.induct) auto

text \<open>Tokens that end in a doubled wildcard are the ones the intersection mishandles.\<close>

definition no_double_wildcard :: "(string \<Rightarrow> string) \<Rightarrow> grant_set \<Rightarrow> bool" where
  "no_double_wildcard nfkc g \<longleftrightarrow> list_all (\<lambda>p. \<not> endswith (nfkc p) ''*.*'') (allow g)"

lemma ascii_star: "nfkc_ascii nfkc \<Longrightarrow> nfkc ''*'' = ''*''"
  by (rule nfkc_ascii_fixed) (simp_all add: is_ascii_def)

lemma star_covers: "nfkc_ascii nfkc \<Longrightarrow> ''*'' \<in> set A \<Longrightarrow> covered_by nfkc A e"
  unfolding covered_by_def using matches_star[of nfkc "''*''"] ascii_star[of nfkc] matches_safe
  by blast

lemma permits_pattern_covered:
  assumes "nfkc_ascii nfkc" "no_double_wildcard nfkc g" "permits_pattern nfkc g p"
  shows "covered_by nfkc (allow g) p"
proof -
  from assms(3) consider "''*'' \<in> set (allow g)" | "p \<in> set (allow g)"
    | a where "a \<in> set (allow g)" "matches nfkc a p"
    by (auto simp: permits_pattern_def list_ex_iff split: if_splits)
  then show ?thesis
  proof cases
    case 1
    with assms(1) show ?thesis by (rule star_covers)
  next
    case 2
    then show ?thesis by (rule covered_by_member)
  next
    case (3 a)
    moreover have "\<not> endswith (nfkc a) ''*.*''"
      using assms(2) 3(1) by (auto simp: no_double_wildcard_def list_all_iff)
    ultimately show ?thesis unfolding covered_by_def using matches_trans by blast
  qed
qed

lemma intersect_allow_covered:
  assumes ascii: "nfkc_ascii nfkc" and wfo: "no_double_wildcard nfkc other"
    and sub: "set patterns \<subseteq> set S" and wfs: "list_all (\<lambda>p. \<not> endswith (nfkc p) ''*.*'') S"
    and acc: "\<forall>e\<in>set acc. covered_by nfkc S e \<and> covered_by nfkc (allow other) e"
  shows "\<forall>e\<in>set (intersect_allow nfkc other acc patterns).
           covered_by nfkc S e \<and> covered_by nfkc (allow other) e"
  using sub acc
proof (induction patterns arbitrary: acc)
  case Nil
  then show ?case by simp
next
  case (Cons p ps)
  have pS: "p \<in> set S" and psS: "set ps \<subseteq> set S" using Cons.prems(1) by auto
  consider (keep) "permits_pattern nfkc other p"
    | (star) "\<not> permits_pattern nfkc other p" "p = ''*''"
    | (wild) "\<not> permits_pattern nfkc other p" "p \<noteq> ''*''" "endswith p ''.*''"
    | (drop) "\<not> permits_pattern nfkc other p" "p \<noteq> ''*''" "\<not> endswith p ''.*''"
    by blast
  then show ?case
  proof cases
    case keep
    have H: "\<forall>e\<in>set (acc @ [p]). covered_by nfkc S e \<and> covered_by nfkc (allow other) e"
      using Cons.prems(2) covered_by_member[OF pS, of nfkc]
        permits_pattern_covered[OF ascii wfo keep] by simp
    from Cons.IH[OF psS H] keep show ?thesis by simp
  next
    case star
    have H: "\<forall>e\<in>set (extend_new (\<lambda>entry. entry \<noteq> ''*'' \<and> permits nfkc other (rstrip ''.*'' entry))
            acc (allow other)). covered_by nfkc S e \<and> covered_by nfkc (allow other) e"
      using Cons.prems(2) star_covers[OF ascii, of S] pS star(2)
      by (simp add: set_extend_new ball_Un covered_by_member)
    from Cons.IH[OF psS H] star show ?thesis by simp
  next
    case wild
    have nd: "\<not> endswith (nfkc p) ''*.*''" using pS wfs by (simp add: list_all_iff)
    have "covered_by nfkc S e" if "matches nfkc p e" for e
      unfolding covered_by_def using matches_trans[OF that _ nd] pS by blast
    then have H: "\<forall>e\<in>set (extend_new (\<lambda>entry. entry \<noteq> ''*'' \<and> matches nfkc p entry)
            acc (allow other)). covered_by nfkc S e \<and> covered_by nfkc (allow other) e"
      using Cons.prems(2) by (simp add: set_extend_new ball_Un covered_by_member)
    from Cons.IH[OF psS H] wild show ?thesis by simp
  next
    case drop
    with Cons.IH[OF psS Cons.prems(2)] show ?thesis by simp
  qed
qed

text \<open>Well-formed tokens, as the module header describes them: the lone star, a concrete verb id, or
  a concrete prefix followed by the terminal wildcard.\<close>

definition concrete_id :: "string \<Rightarrow> bool" where
  "concrete_id s \<longleftrightarrow> s \<noteq> [] \<and> list_all (\<lambda>ch. ch \<in> set SAFE_ID_CHARS) s
     \<and> CHR ''*'' \<notin> set s \<and> last s \<noteq> CHR ''.''"

definition wf_token :: "string \<Rightarrow> bool" where
  "wf_token t \<longleftrightarrow> t = ''*'' \<or> concrete_id t \<or>
     (endswith t ''.*'' \<and> concrete_id (take (length t - 2) t))"

lemma concrete_id_ascii: "concrete_id s \<Longrightarrow> is_ascii s"
  by (auto simp: concrete_id_def is_ascii_def list_all_iff intro: safe_chars_ascii)

lemma concrete_id_nfkc: "nfkc_ascii nfkc \<Longrightarrow> concrete_id s \<Longrightarrow> nfkc s = s"
  by (simp add: nfkc_ascii_fixed concrete_id_ascii)

lemma concrete_id_safe: "nfkc_ascii nfkc \<Longrightarrow> concrete_id s \<Longrightarrow> is_safe_identifier nfkc s"
  by (auto simp: is_safe_identifier_def normalize_identifier_def concrete_id_nfkc)
     (simp_all add: concrete_id_def)

lemma concrete_id_rstrip: "concrete_id s \<Longrightarrow> rstrip ''.*'' s = s"
proof (rule rstrip_last)
  assume c: "concrete_id s"
  then show "s \<noteq> []" by (simp add: concrete_id_def)
  then have "last s \<in> set s" by simp
  with c have "last s \<noteq> CHR ''*''" "last s \<noteq> CHR ''.''" by (auto simp: concrete_id_def simp del: last_in_set)
  then show "last s \<notin> set ''.*''" by simp
qed

lemma wf_token_cases:
  assumes "wf_token t"
  obtains "t = ''*''" | "concrete_id t" | q where "t = q @ ''.*''" "concrete_id q"
  using assms by (auto simp: wf_token_def elim: endswithE)

lemma wild_token_nfkc: "nfkc_ascii nfkc \<Longrightarrow> concrete_id q \<Longrightarrow> nfkc (q @ ''.*'') = q @ ''.*''"
  by (rule nfkc_ascii_fixed) (auto simp: is_ascii_def list_all_iff dest: concrete_id_ascii)

lemma wild_token_rstrip: "concrete_id q \<Longrightarrow> rstrip ''.*'' (q @ ''.*'') = q"
  using rstrip_append_stripped[of "''.*''" "''.*''" q] by (simp add: concrete_id_rstrip)

text \<open>A well-formed token other than the star covers its own stripped form.\<close>

lemma wf_token_matches_stripped:
  assumes "nfkc_ascii nfkc" "wf_token t" "t \<noteq> ''*''"
  shows "matches nfkc t (rstrip ''.*'' t)"
  using assms(2)
proof (cases rule: wf_token_cases)
  case 1
  with assms(3) show ?thesis by simp
next
  case 2
  with assms(1) show ?thesis by (simp add: concrete_id_rstrip matches_iff concrete_id_safe)
next
  case (3 q)
  with assms(1) show ?thesis
    by (simp add: wild_token_rstrip matches_iff concrete_id_safe concrete_id_nfkc wild_token_nfkc)
qed

lemma wf_token_not_matching_star:
  assumes "nfkc_ascii nfkc" "wf_token t" "t \<noteq> ''*''"
  shows "\<not> matches nfkc t ''*''"
  using assms(2)
proof (cases rule: wf_token_cases)
  case 1
  with assms(3) show ?thesis by simp
next
  case 2
  then have "CHR ''*'' \<notin> set t" by (simp add: concrete_id_def)
  then have "t \<noteq> ''*''" "\<not> (\<exists>q. t = q @ ''.*'')" by auto
  then show ?thesis using 2 assms(1) by (auto simp: matches_iff ascii_star concrete_id_nfkc)
next
  case (3 q)
  then have "CHR ''*'' \<notin> set q" by (simp add: concrete_id_def)
  then show ?thesis using 3 assms(1)
    by (auto simp: matches_iff ascii_star wild_token_nfkc append_eq_Cons_conv Cons_eq_append_conv)
qed

lemma canonical_loop_Inr:
  assumes "canonical_loop nfkc acc vs = Inr r" "distinct acc"
  shows "set r = set acc \<union> set vs \<and> distinct r \<and>
    (\<forall>v\<in>set vs. nfkc v = v \<and> is_safe_identifier nfkc v \<and> CHR ''*'' \<notin> set v
       \<and> utf8_len v \<le> MAX_VERB_ID_BYTES)"
  using assms
proof (induction vs arbitrary: acc)
  case Nil
  then show ?case by simp
next
  case (Cons v vs)
  from Cons.prems(1) have ok: "nfkc v = v" "is_safe_identifier nfkc v" "CHR ''*'' \<notin> set v"
      "utf8_len v \<le> MAX_VERB_ID_BYTES"
    and step: "canonical_loop nfkc (List.insert v acc) vs = Inr r"
    by (auto simp add: Let_def normalize_identifier_def split: if_splits)
  from Cons.IH[OF step] Cons.prems(2) ok show ?case by simp
qed

lemma canonical_loop_ok:
  assumes "\<forall>v\<in>set vs. nfkc v = v \<and> is_safe_identifier nfkc v \<and> CHR ''*'' \<notin> set v
       \<and> utf8_len v \<le> MAX_VERB_ID_BYTES"
  shows "is_ok (canonical_loop nfkc acc vs)"
  using assms
  by (induction vs arbitrary: acc) (auto simp: Let_def normalize_identifier_def)

lemma sort_unique: "distinct xs \<Longrightarrow> sorted ys \<Longrightarrow> distinct ys \<Longrightarrow> set xs = set ys \<Longrightarrow> sort xs = ys"
  by (metis distinct_sort set_sort sorted_distinct_set_unique sorted_sort)

subsection \<open>Properties\<close>

text \<open>Property C8. Intersecting a caller's grants with a ceiling never widens either side: a verb
  the intersection permits is permitted by the caller's set and by the ceiling, for all sets without
  doubled wildcards.\<close>

theorem intersect_never_widens:
  assumes "nfkc_ascii nfkc" "no_double_wildcard nfkc self" "no_double_wildcard nfkc other"
    and "permits nfkc (intersect nfkc self other) v"
  shows "permits nfkc self v \<and> permits nfkc other v"
proof -
  from assms(2) have wfs: "list_all (\<lambda>p. \<not> endswith (nfkc p) ''*.*'') (allow self)"
    by (simp add: no_double_wildcard_def)
  have cov: "\<forall>e\<in>set (intersect_allow nfkc other [] (allow self)).
      covered_by nfkc (allow self) e \<and> covered_by nfkc (allow other) e"
    by (rule intersect_allow_covered[OF assms(1) assms(3) _ wfs]) auto
  from assms(4) obtain e where e: "e \<in> set (intersect_allow nfkc other [] (allow self))"
      "matches nfkc e v"
    and d: "\<forall>p\<in>set (deny self) \<union> set (deny other). \<not> matches nfkc p v"
    by (auto simp: permits_iff intersect_def)
  from cov e have "\<exists>p\<in>set (allow self). matches nfkc p v" "\<exists>p\<in>set (allow other). matches nfkc p v"
    unfolding covered_by_def by blast+
  with d show ?thesis by (simp add: permits_iff)
qed

theorem intersect_never_widens_witness:
  "permits id (intersect id \<lparr>allow = [''ticket.*''], deny = [''ticket.delete'']\<rparr>
      \<lparr>allow = [''ticket.create'', ''crm.*''], deny = []\<rparr>) ''ticket.create''
   \<and> permits id \<lparr>allow = [''ticket.*''], deny = [''ticket.delete'']\<rparr> ''ticket.create''"
proof -
  let ?a = "\<lparr>allow = [''ticket.*''], deny = [''ticket.delete'']\<rparr>"
  let ?b = "\<lparr>allow = [''ticket.create'', ''crm.*''], deny = []\<rparr>"
  have 1: "nfkc_ascii id" by (simp add: nfkc_ascii_def)
  have 2: "no_double_wildcard id ?a" "no_double_wildcard id ?b" by code_simp+
  have 3: "permits id (intersect id ?a ?b) ''ticket.create''" by code_simp
  show ?thesis using intersect_never_widens[OF 1 2 3] 3 by blast
qed

text \<open>A terminal wildcard \<^verbatim>\<open>q.*\<close> covers exactly the safe identifiers whose
  dot-separated segments start with the segments of \<open>q\<close>: \<^verbatim>\<open>jira.*\<close> covers \<^verbatim>\<open>jira.read\<close> and never
  \<^verbatim>\<open>jirax.read\<close>.\<close>

lemma wildcard_is_segment_prefix:
  assumes "nfkc p = q @ ''.*''"
  shows "matches nfkc p v \<longleftrightarrow> is_safe_identifier nfkc v \<and>
     prefix (split_on CHR ''.'' q) (split_on CHR ''.'' (nfkc v))"
proof -
  have "nfkc p \<noteq> ''*''" using assms by (auto simp: append_eq_Cons_conv)
  moreover have "nfkc p = nfkc v \<Longrightarrow> \<exists>r. nfkc v = q @ CHR ''.'' # r"
    using assms by (intro exI[of _ "''*''"]) simp
  ultimately show ?thesis using assms by (auto simp: matches_iff segment_prefix_iff)
qed

text \<open>The tenant-wide grant \<^verbatim>\<open>*\<close> intersected with a ceiling of well-formed tokens and
  no denies is exactly that ceiling: nothing the ceiling permits is lost.\<close>

lemma intersect_star_is_ceiling:
  assumes ascii: "nfkc_ascii nfkc" and wf: "list_all wf_token (allow other)" and nd: "deny other = []"
  shows "permits nfkc (intersect nfkc \<lparr>allow = [''*''], deny = []\<rparr> other) v \<longleftrightarrow> permits nfkc other v"
proof (cases "''*'' \<in> set (allow other)")
  case True
  then have "permits_pattern nfkc other ''*''" using nd by (simp add: permits_pattern_def)
  moreover have "permits nfkc other v \<longleftrightarrow> is_safe_identifier nfkc v"
    using True nd ascii by (auto simp: permits_iff ascii_star intro: bexI[of _ "''*''"] dest: matches_safe)
  ultimately show ?thesis
    using nd ascii by (auto simp: permits_iff intersect_def ascii_star)
next
  case False
  have tok: "wf_token t \<and> t \<noteq> ''*''" if "t \<in> set (allow other)" for t
    using that False wf by (auto simp: list_all_iff)
  have not_pp: "\<not> permits_pattern nfkc other ''*''"
    using False nd tok wf_token_not_matching_star[OF ascii]
    by (auto simp: permits_pattern_def list_ex_iff endswith_def suffix_def append_eq_Cons_conv
        Cons_eq_append_conv)
  have "permits nfkc other (rstrip ''.*'' t)" if "t \<in> set (allow other)" for t
    using that nd tok[OF that] wf_token_matches_stripped[OF ascii] by (auto simp: permits_iff)
  then have "set (intersect_allow nfkc other [] [''*'']) = set (allow other)"
    using not_pp tok by (auto simp: set_extend_new)
  then show ?thesis using nd by (simp add: permits_iff intersect_def)
qed



text \<open>An accepted concrete-verb snapshot is sorted, duplicate-free, holds exactly the
  verbs given, every one a bounded safe identifier without a wildcard, and canonicalising it again
  returns it unchanged.\<close>

lemma canonical_concrete_verbs_canonical:
  assumes "canonical_concrete_verbs nfkc vs = Inr r"
  shows "sorted r \<and> distinct r \<and> set r = set vs \<and>
    (\<forall>v\<in>set r. is_safe_identifier nfkc v \<and> CHR ''*'' \<notin> set v \<and> utf8_len v \<le> MAX_VERB_ID_BYTES) \<and>
    canonical_concrete_verbs nfkc r = Inr r"
proof -
  from assms obtain c where len: "length vs \<le> MAX_CONCRETE_VERBS"
    and c: "canonical_loop nfkc [] vs = Inr c" and r: "r = sort c"
    by (auto simp: canonical_concrete_verbs_def rbind_Inr_iff split: if_splits)
  note L = canonical_loop_Inr[OF c, simplified]
  have set_r: "set r = set vs" and dist: "distinct r" and srt: "sorted r"
    using L r by auto
  have good: "\<forall>v\<in>set r. nfkc v = v \<and> is_safe_identifier nfkc v \<and> CHR ''*'' \<notin> set v
       \<and> utf8_len v \<le> MAX_VERB_ID_BYTES" using L set_r by simp
  from canonical_loop_ok[OF good] obtain d where d: "canonical_loop nfkc [] r = Inr d"
    by (auto simp: is_ok_conv)
  note D = canonical_loop_Inr[OF d, simplified]
  have "length r \<le> MAX_CONCRETE_VERBS"
    using len card_length[of vs] distinct_card[OF dist] set_r by simp
  moreover have "sort d = r" using D dist srt by (intro sort_unique) auto
  ultimately have "canonical_concrete_verbs nfkc r = Inr r"
    by (simp add: canonical_concrete_verbs_def d)
  with set_r dist srt good show ?thesis by blast
qed

text \<open>Doubled wildcards break the "never widening past either side" promise of
  \<^verbatim>\<open>GrantSet.intersect\<close>: intersecting \<^verbatim>\<open>*\<close> with a ceiling of \<^verbatim>\<open>*.*\<close> permits every safe verb,
  although the ceiling itself permits none that lacks a literal star segment.\<close>

lemma intersect_widens_on_double_wildcard:
  assumes "nfkc_ascii nfkc" "is_safe_identifier nfkc v" "CHR ''*'' \<notin> set (nfkc v)"
  shows "permits nfkc (intersect nfkc \<lparr>allow = [''*''], deny = []\<rparr> \<lparr>allow = [''*.*''], deny = []\<rparr>) v
    \<and> \<not> permits nfkc \<lparr>allow = [''*.*''], deny = []\<rparr> v"
proof -
  have dw: "nfkc ''*.*'' = ''*.*''" by (rule nfkc_ascii_fixed[OF assms(1)]) code_simp
  have "matches nfkc ''*.*'' ''*''"
    using dw ascii_star[OF assms(1)]
    by (simp add: matches_iff is_safe_identifier_def normalize_identifier_def SAFE_ID_CHARS_def
        append_eq_Cons_conv)
  then have "permits_pattern nfkc \<lparr>allow = [''*.*''], deny = []\<rparr> ''*''"
    by (simp add: permits_pattern_def endswith_code)
  moreover have "\<not> matches nfkc ''*.*'' v"
    using assms(3) dw by (auto simp: matches_iff Cons_eq_append_conv dest: sym)
  ultimately show ?thesis
    using assms ascii_star by (simp add: permits_iff intersect_def)
qed

text \<open>A ceiling's wildcard does not admit a narrower wildcard: intersecting
  \<^verbatim>\<open>q.r.*\<close> with a ceiling of \<^verbatim>\<open>q.*\<close> yields the empty grant, although every verb the narrower
  pattern covers is permitted by both sides. (The comment in \<^verbatim>\<open>permits_pattern\<close> announces a
  covering-wildcard rule.)\<close>

lemma intersect_drops_narrower_wildcard:
  assumes "nfkc_ascii nfkc" "concrete_id q" "concrete_id (q @ ''.'' @ r)"
  shows "allow (intersect nfkc \<lparr>allow = [q @ ''.'' @ r @ ''.*''], deny = []\<rparr> \<lparr>allow = [q @ ''.*''], deny = []\<rparr>) = []
    \<and> (\<forall>v. permits nfkc \<lparr>allow = [q @ ''.'' @ r @ ''.*''], deny = []\<rparr> v
         \<longrightarrow> permits nfkc \<lparr>allow = [q @ ''.*''], deny = []\<rparr> v)"
proof -
  define b where "b = q @ CHR ''.'' # r"
  let ?p = "b @ ''.*''" and ?a = "q @ ''.*''"
  have cb: "concrete_id b" using assms(3) by (simp add: b_def)
  have na: "nfkc ?a = ?a" using assms by (intro wild_token_nfkc)
  have np: "nfkc ?p = ?p" using wild_token_nfkc[OF assms(1) cb] .
  have nb: "b \<noteq> q" by (simp add: b_def)
  have stars: "CHR ''*'' \<notin> set q" "CHR ''*'' \<notin> set r" using cb by (auto simp: concrete_id_def b_def)
  have nstar: "?p \<noteq> ''*''" "?a \<noteq> ''*''" by (auto simp: append_eq_Cons_conv)
  have nm: "\<not> matches nfkc ?p ?a"
  proof
    assume "matches nfkc ?p ?a"
    then have "?a = b \<or> (\<exists>s. ?a = b @ CHR ''.'' # s)"
      using nstar nb by (auto simp: matches_iff na np)
    then have "''*'' = r \<or> (\<exists>s. ''*'' = r @ CHR ''.'' # s)" by (auto simp: b_def)
    then show False using stars by (auto simp: Cons_eq_append_conv)
  qed
  have "allow (intersect nfkc \<lparr>allow = [?p], deny = []\<rparr> \<lparr>allow = [?a], deny = []\<rparr>) = []"
    using nb nstar nm by (simp add: intersect_def permits_pattern_def)
  moreover have "matches nfkc ?a v" if "matches nfkc ?p v" for v
  proof -
    have "nfkc v = ?p \<or> nfkc v = b \<or> (\<exists>s. nfkc v = b @ CHR ''.'' # s)"
      using that nstar by (auto simp: matches_iff np)
    then have "\<exists>s. nfkc v = q @ CHR ''.'' # s" by (auto simp: b_def)
    then show ?thesis using matches_safe[OF that] by (auto simp: matches_iff na)
  qed
  ultimately show ?thesis by (simp add: permits_iff b_def)
qed

end
