(* ===== verification/Values.thy ===== *)
theory Values
  imports Prelude
begin

text \<open>
  Dynamically typed Python data as it travels through the kernel (verb parameters, outputs, audit
  details), and the functions that inspect it: JSON serialisation (\<^verbatim>\<open>json.dumps\<close> with
  \<^verbatim>\<open>sort_keys=True, separators=(",", ":")\<close>, \<^verbatim>\<open>allow_nan=False\<close>), the secret detectors of
  \<^verbatim>\<open>boltrig/kernel/idempotency.py\<close>, the canonicaliser of \<^verbatim>\<open>boltrig/kernel/hitl_fingerprint.py\<close> and the
  approver's view of \<^verbatim>\<open>boltrig/kernel/approval_gate.py\<close>.

  A dictionary is an association list with distinct keys, in insertion order. A key is a string or
  an object JSON cannot use as a key (\<open>KOther\<close>, with its \<^verbatim>\<open>str()\<close>). A float is a finite
  rational or the non-finite value \<^verbatim>\<open>NaN\<close> (the infinities are treated like it); the shortest decimal rendering CPython prints is the
  parameter \<open>frepr\<close>. NFC normalisation is the parameter \<open>nfc\<close>.
\<close>

datatype pykey = KStr string | KOther string

datatype pyfloat = FFin rat | FNonFinite

datatype pyval =
    PNone
  | PBool bool
  | PInt int
  | PFloat pyfloat
  | PStr string
  | PList "pyval list"
  | PTuple "pyval list"
  | PDict "(pykey \<times> pyval) list"
  | POther string

type_synonym pydict = "(pykey \<times> pyval) list"

datatype py_error = TypeError | ValueError | KeyError

fun key_str :: "pykey \<Rightarrow> string" where
  "key_str (KStr s) = s"
| "key_str (KOther s) = s"

definition dict_get :: "(pykey \<times> pyval) list \<Rightarrow> string \<Rightarrow> pyval" where
  "dict_get d k = (case map_of d (KStr k) of None \<Rightarrow> PNone | Some v \<Rightarrow> v)"

text \<open>\<^verbatim>\<open>bool(value)\<close>.\<close>

fun truthy :: "pyval \<Rightarrow> bool" where
  "truthy PNone = False"
| "truthy (PBool b) = b"
| "truthy (PInt i) = (i \<noteq> 0)"
| "truthy (PFloat (FFin r)) = (r \<noteq> 0)"
| "truthy (PFloat FNonFinite) = True"
| "truthy (PStr s) = (s \<noteq> [])"
| "truthy (PList xs) = (xs \<noteq> [])"
| "truthy (PTuple xs) = (xs \<noteq> [])"
| "truthy (PDict d) = (d \<noteq> [])"
| "truthy (POther s) = True"

subsection \<open>Numbers\<close>

text \<open>\<^verbatim>\<open>round\<close>: to the nearest integer, a tie to the even one.\<close>

definition round_half_even :: "rat \<Rightarrow> int" where
  "round_half_even x =
     (let f = \<lfloor>x\<rfloor>; d = x - of_int f
      in if d < 1 / 2 then f else if d > 1 / 2 then f + 1 else if even f then f else f + 1)"

text \<open>\<^verbatim>\<open>int.bit_length\<close>.\<close>

fun bit_length :: "nat \<Rightarrow> nat" where
  "bit_length n = (if n = 0 then 0 else Suc (bit_length (n div 2)))"

declare bit_length.simps [simp del]

subsection \<open>json.dumps\<close>

definition hex_digit :: "nat \<Rightarrow> char" where
  "hex_digit n = (if n < 10 then char_of (48 + n) else char_of (87 + n))"

definition json_escape_char :: "char \<Rightarrow> string" where
  "json_escape_char c =
    (if c = CHR 0x22 then [CHR 0x5C, CHR 0x22]
     else if c = CHR 0x5C then [CHR 0x5C, CHR 0x5C]
     else if c = CHR 0x08 then [CHR 0x5C, CHR ''b'']
     else if c = CHR 0x09 then [CHR 0x5C, CHR ''t'']
     else if c = CHR 0x0A then [CHR 0x5C, CHR ''n'']
     else if c = CHR 0x0C then [CHR 0x5C, CHR ''f'']
     else if c = CHR 0x0D then [CHR 0x5C, CHR ''r'']
     else let n = (of_char c :: nat) in
       if n < 32 then CHR 0x5C # ''u00'' @ [hex_digit (n div 16), hex_digit (n mod 16)] else [c])"

text \<open>\<^verbatim>\<open>ensure_ascii=True\<close>: everything outside the printable ASCII range is escaped.\<close>

definition json_escape_ascii :: "char \<Rightarrow> string" where
  "json_escape_ascii c = (let n = (of_char c :: nat) in
     if n < 127 then json_escape_char c
     else CHR 0x5C # ''u00'' @ [hex_digit (n div 16), hex_digit (n mod 16)])"

definition json_string :: "(char \<Rightarrow> string) \<Rightarrow> string \<Rightarrow> string" where
  "json_string esc s = CHR 0x22 # concat (map esc s) @ [CHR 0x22]"

fun join :: "string \<Rightarrow> string list \<Rightarrow> string" where
  "join sep [] = []"
| "join sep [x] = x"
| "join sep (x # y # xs) = x @ sep @ join sep (y # xs)"

text \<open>Serialisation with an escaping \<open>esc\<close>; a non-finite float gives \<open>nf\<close> (\<^verbatim>\<open>ValueError\<close> under \<^verbatim>\<open>allow_nan=False\<close>), any
  other object or key a \<^verbatim>\<open>TypeError\<close>.\<close>

function (sequential) json_dumps_with :: "(char \<Rightarrow> string) \<Rightarrow> py_error + string \<Rightarrow> (rat \<Rightarrow> string) \<Rightarrow> pyval
     \<Rightarrow> py_error + string" where
  "json_dumps_with esc nf frepr PNone = Inr ''null''"
| "json_dumps_with esc nf frepr (PBool b) = Inr (if b then ''true'' else ''false'')"
| "json_dumps_with esc nf frepr (PInt i) = Inr (show_int i)"
| "json_dumps_with esc nf frepr (PFloat (FFin r)) = Inr (frepr r)"
| "json_dumps_with esc nf frepr (PFloat FNonFinite) = nf"
| "json_dumps_with esc nf frepr (PStr s) = Inr (json_string esc s)"
| "json_dumps_with esc nf frepr (PList xs) =
     rbind (rmap (json_dumps_with esc nf frepr) xs) (\<lambda>ss. Inr (''['' @ join '','' ss @ '']''))"
| "json_dumps_with esc nf frepr (PTuple xs) =
     rbind (rmap (json_dumps_with esc nf frepr) xs) (\<lambda>ss. Inr (''['' @ join '','' ss @ '']''))"
| "json_dumps_with esc nf frepr (PDict d) =
     (if list_ex (\<lambda>(k, v). case k of KOther _ \<Rightarrow> True | KStr _ \<Rightarrow> False) d then Inl TypeError
      else rbind (rmap (\<lambda>(k, v). rbind (json_dumps_with esc nf frepr v)
                    (\<lambda>s. Inr (json_string esc (key_str k) @ '':'' @ s)))
                  (sort_key (\<lambda>(k, v). key_str k) d))
             (\<lambda>ss. Inr (''{'' @ join '','' ss @ ''}'')))"
| "json_dumps_with esc nf frepr (POther t) = Inl TypeError"
  by pat_completeness auto
termination
proof (relation "measure (\<lambda>(esc, nf, frepr, v). size v)", goal_cases)
  case 1
  show ?case by simp
next
  case (2 esc nf frepr xs x)
  then show ?case by (induction xs) auto
next
  case (3 esc nf frepr xs x)
  then show ?case by (induction xs) auto
next
  case (4 esc nf frepr d x k v)
  then have "(k, v) \<in> set d" by auto
  then show ?case by (induction d) auto
qed

text \<open>The two settings the kernel uses: \<^verbatim>\<open>ensure_ascii=False, allow_nan=False\<close> for approvals, and the library defaults
  for the audit chain.\<close>

abbreviation json_dumps :: "(rat \<Rightarrow> string) \<Rightarrow> pyval \<Rightarrow> py_error + string" where
  "json_dumps \<equiv> json_dumps_with json_escape_char (Inl ValueError)"

abbreviation json_dumps_default :: "(rat \<Rightarrow> string) \<Rightarrow> pyval \<Rightarrow> py_error + string" where
  "json_dumps_default \<equiv> json_dumps_with json_escape_ascii (Inr ''NaN'')"

subsection \<open>Secret detection\<close>

definition SENSITIVE_KEYS :: "string list" where
  "SENSITIVE_KEYS = [''api_key'', ''authorization'', ''cookie'', ''credential'', ''invite_token'',
     ''password'', ''refresh_token'', ''secret'', ''set_cookie'', ''token'']"

definition SECRET_VALUE_PREFIXES :: "string list" where
  "SECRET_VALUE_PREFIXES = [''bearer '', ''basic '', ''boltrig_invite_'', ''ghp_'', ''github_pat_'',
     ''sk-'', ''xoxb-'', ''xoxp-'']"

text \<open>The two zero-width \<^verbatim>\<open>re.sub\<close> passes: an underscore before the last capital of an acronym that
  starts a word, then one between a lower-case letter or digit and a capital.\<close>

fun split_acronym :: "string \<Rightarrow> string" where
  "split_acronym (a # b # c # s) =
     a # (if is_upper a \<and> is_upper b \<and> is_lower c then ''_'' else []) @ split_acronym (b # c # s)"
| "split_acronym s = s"

fun split_camel :: "string \<Rightarrow> string" where
  "split_camel (a # b # s) =
     a # (if (is_lower a \<or> is_digit a) \<and> is_upper b then ''_'' else []) @ split_camel (b # s)"
| "split_camel s = s"

definition normalize_sensitive_key :: "string \<Rightarrow> string" where
  "normalize_sensitive_key key =
     map (\<lambda>c. if c = CHR ''-'' then CHR ''_'' else c) (lower (split_camel (split_acronym key)))"

definition sensitive_key :: "pykey \<Rightarrow> bool" where
  "sensitive_key key = (let normalized = normalize_sensitive_key (key_str key) in
     normalized \<in> set SENSITIVE_KEYS
     \<or> endswith normalized ''_password''
     \<or> endswith normalized ''_secret''
     \<or> endswith normalized ''_token''
     \<or> endswith normalized ''_api_key''
     \<or> endswith normalized ''_authorization''
     \<or> endswith normalized ''_cookie'')"

definition token_char :: "char \<Rightarrow> bool" where
  "token_char c \<longleftrightarrow> is_upper c \<or> is_lower c \<or> is_digit c \<or> c = CHR ''_'' \<or> c = CHR ''-''"

definition secret_string :: "string \<Rightarrow> bool" where
  "secret_string value = (let lowered = lower (strip value) in
     if list_ex (startswith lowered) SECRET_VALUE_PREFIXES then True
     else let parts = split_on CHR ''.'' value
          in length parts = 3 \<and> list_all (\<lambda>p. length p \<ge> 8 \<and> list_all token_char p) parts)"

fun secret_shaped :: "pyval \<Rightarrow> bool" where
  "secret_shaped (PDict d) = list_ex (\<lambda>(k, v). sensitive_key k \<or> secret_shaped v) d"
| "secret_shaped (PList xs) = list_ex secret_shaped xs"
| "secret_shaped (PTuple xs) = list_ex secret_shaped xs"
| "secret_shaped (PStr s) = secret_string s"
| "secret_shaped v = False"

subsection \<open>Canonical approval values\<close>

text \<open>\<^verbatim>\<open>_normalise_json\<close>; every failure is a \<^verbatim>\<open>ValueError\<close>. The dictionary loop carries the output
  built so far, because a key collision is judged against it.\<close>

function (sequential) normalise_json :: "(string \<Rightarrow> string) \<Rightarrow> pyval \<Rightarrow> py_error + pyval"
  and normalise_items :: "(string \<Rightarrow> string) \<Rightarrow> (pykey \<times> pyval) list \<Rightarrow> (pykey \<times> pyval) list
         \<Rightarrow> py_error + (pykey \<times> pyval) list" where
  "normalise_json nfc PNone = Inr PNone"
| "normalise_json nfc (PBool b) = Inr (PBool b)"
| "normalise_json nfc (PInt i) = Inr (PInt i)"
| "normalise_json nfc (PFloat (FFin r)) = Inr (PFloat (FFin r))"
| "normalise_json nfc (PFloat FNonFinite) = Inl ValueError"
| "normalise_json nfc (PStr s) = Inr (PStr (nfc s))"
| "normalise_json nfc (PList xs) = rbind (rmap (normalise_json nfc) xs) (\<lambda>ys. Inr (PList ys))"
| "normalise_json nfc (PTuple xs) = rbind (rmap (normalise_json nfc) xs) (\<lambda>ys. Inr (PList ys))"
| "normalise_json nfc (PDict d) = rbind (normalise_items nfc [] d) (\<lambda>out. Inr (PDict out))"
| "normalise_json nfc (POther t) = Inl ValueError"
| "normalise_items nfc out [] = Inr out"
| "normalise_items nfc out ((k, v) # d) =
     (case k of KOther _ \<Rightarrow> Inl ValueError
      | KStr raw \<Rightarrow>
          (if KStr (nfc raw) \<in> fst ` set out then Inl ValueError
           else rbind (normalise_json nfc v)
                  (\<lambda>w. normalise_items nfc (out @ [(KStr (nfc raw), w)]) d)))"
  by pat_completeness auto
termination
proof (relation "measure (\<lambda>x. case x of Inl (nfc, v) \<Rightarrow> 2 * size v
                              | Inr (nfc, out, d) \<Rightarrow> 1 + 2 * size_list (\<lambda>(k, v). size v) d + 2 * length d)",
       goal_cases)
  case 1
  show ?case by simp
next
  case (2 nfc xs x)
  then show ?case by (induction xs) auto
next
  case (3 nfc xs x)
  then show ?case by (induction xs) auto
next
  case (4 nfc d)
  have "1 + 2 * size_list (\<lambda>(k, v). size v) d + 2 * length d
      < 2 * Suc (size_list (size_prod (\<lambda>x. 0) size) d)"
    by (induction d) auto
  then show ?case by simp
qed auto

definition canonical_approval_value :: "(string \<Rightarrow> string) \<Rightarrow> pyval \<Rightarrow> py_error + pyval" where
  "canonical_approval_value nfc value = normalise_json nfc value"

subsection \<open>What an approver is shown\<close>

fun approval_display_value :: "pyval \<Rightarrow> pyval" where
  "approval_display_value (PDict d) =
     PDict (map (\<lambda>(k, v). (KStr (key_str k),
        if sensitive_key k then PStr ''[redacted]'' else approval_display_value v)) d)"
| "approval_display_value (PList xs) = PList (map approval_display_value xs)"
| "approval_display_value (PTuple xs) = PList (map approval_display_value xs)"
| "approval_display_value v = (if secret_shaped v then PStr ''[redacted]'' else v)"

end
