(* ===== verification/Context.thy ===== *)
theory Context
  imports Grants Values
begin

text \<open>
  The invocation context that travels with every kernel call, \<^verbatim>\<open>boltrig/models/context.py\<close>, with its
  durable envelope. The envelope is a Python dictionary (\<open>pyval\<close>); reading a field whose value has a
  type the dataclass does not declare is the error \<open>BadEnvelope\<close> (Python would carry the ill-typed value on).
\<close>

record invocation_context =
  ctx_tenant_id :: string
  ctx_run_id :: "string option"
  ctx_parent_run_id :: "string option"
  ctx_depth :: int
  ctx_on_behalf_of :: "string option"
  ctx_workspace_id :: "string option"
  ctx_ip_address :: "string option"
  ctx_user_agent :: "string option"
  ctx_grants :: grant_set
  ctx_actor :: string
  ctx_actor_tier :: string
  ctx_skills_loaded :: "string list"
  ctx_extra :: "(pykey \<times> pyval) list"

text \<open>\<^verbatim>\<open>str | None\<close> as a Python value and back.\<close>

definition of_opt :: "string option \<Rightarrow> pyval" where
  "of_opt x = (case x of None \<Rightarrow> PNone | Some s \<Rightarrow> PStr s)"

definition of_strs :: "string list \<Rightarrow> pyval" where
  "of_strs xs = PList (map PStr xs)"

datatype envelope_error = MissingTenant | BadEnvelope

definition context_to_envelope :: "invocation_context \<Rightarrow> (pykey \<times> pyval) list" where
  "context_to_envelope ctx =
    [(KStr ''tenant_id'', PStr (ctx_tenant_id ctx)),
     (KStr ''run_id'', of_opt (ctx_run_id ctx)),
     (KStr ''parent_run_id'', of_opt (ctx_parent_run_id ctx)),
     (KStr ''depth'', PInt (ctx_depth ctx)),
     (KStr ''on_behalf_of'', of_opt (ctx_on_behalf_of ctx)),
     (KStr ''workspace_id'', of_opt (ctx_workspace_id ctx)),
     (KStr ''ip_address'', of_opt (ctx_ip_address ctx)),
     (KStr ''user_agent'', of_opt (ctx_user_agent ctx)),
     (KStr ''grants'', PDict [(KStr ''allow'', of_strs (allow (ctx_grants ctx))),
                               (KStr ''deny'', of_strs (deny (ctx_grants ctx)))]),
     (KStr ''actor'', PStr (ctx_actor ctx)),
     (KStr ''actor_tier'', PStr (ctx_actor_tier ctx)),
     (KStr ''skills_loaded'', of_strs (ctx_skills_loaded ctx)),
     (KStr ''extra'', PDict (ctx_extra ctx))]"

fun to_opt :: "pyval \<Rightarrow> envelope_error + string option" where
  "to_opt PNone = Inr None"
| "to_opt (PStr s) = Inr (Some s)"
| "to_opt _ = Inl BadEnvelope"

fun to_str :: "pyval \<Rightarrow> envelope_error + string" where
  "to_str (PStr s) = Inr s"
| "to_str _ = Inl BadEnvelope"

fun to_int :: "pyval \<Rightarrow> envelope_error + int" where
  "to_int (PInt i) = Inr i"
| "to_int (PBool b) = Inr (if b then 1 else 0)"
| "to_int _ = Inl BadEnvelope"

text \<open>\<^verbatim>\<open>list(value or [])\<close> for a list or tuple of strings; a falsy value is the empty list.\<close>

fun to_strs :: "pyval \<Rightarrow> envelope_error + string list" where
  "to_strs (PList xs) = rmap to_str xs"
| "to_strs (PTuple xs) = rmap to_str xs"
| "to_strs v = (if truthy v then Inl BadEnvelope else Inr [])"

fun to_dict :: "pyval \<Rightarrow> envelope_error + (pykey \<times> pyval) list" where
  "to_dict (PDict d) = Inr d"
| "to_dict v = (if truthy v then Inl BadEnvelope else Inr [])"

text \<open>\<^verbatim>\<open>env.get(k, default)\<close>.\<close>

definition get_default :: "(pykey \<times> pyval) list \<Rightarrow> string \<Rightarrow> pyval \<Rightarrow> pyval" where
  "get_default d k v = (case map_of d (KStr k) of None \<Rightarrow> v | Some w \<Rightarrow> w)"

definition context_from_envelope :: "(pykey \<times> pyval) list \<Rightarrow> envelope_error + invocation_context" where
  "context_from_envelope env =
     rbind (to_dict (dict_get env ''grants'')) (\<lambda>grants.
     rbind (case map_of env (KStr ''tenant_id'') of None \<Rightarrow> Inl MissingTenant | Some v \<Rightarrow> to_str v) (\<lambda>tenant.
     rbind (to_opt (dict_get env ''run_id'')) (\<lambda>run.
     rbind (to_opt (dict_get env ''parent_run_id'')) (\<lambda>parent.
     rbind (to_int (get_default env ''depth'' (PInt 0))) (\<lambda>depth.
     rbind (to_opt (dict_get env ''on_behalf_of'')) (\<lambda>obo.
     rbind (to_opt (dict_get env ''workspace_id'')) (\<lambda>ws.
     rbind (to_opt (dict_get env ''ip_address'')) (\<lambda>ip.
     rbind (to_opt (dict_get env ''user_agent'')) (\<lambda>ua.
     rbind (to_strs (dict_get grants ''allow'')) (\<lambda>al.
     rbind (to_strs (dict_get grants ''deny'')) (\<lambda>de.
     rbind (to_str (get_default env ''actor'' (PStr ''unknown''))) (\<lambda>actor.
     rbind (to_str (get_default env ''actor_tier'' (PStr ''ephemeral''))) (\<lambda>tier.
     rbind (to_strs (dict_get env ''skills_loaded'')) (\<lambda>skills.
     rbind (to_dict (dict_get env ''extra'')) (\<lambda>extra.
       Inr \<lparr>ctx_tenant_id = tenant, ctx_run_id = run, ctx_parent_run_id = parent, ctx_depth = depth,
            ctx_on_behalf_of = obo, ctx_workspace_id = ws, ctx_ip_address = ip, ctx_user_agent = ua,
            ctx_grants = grant_set_of (Some al) (Some de), ctx_actor = actor, ctx_actor_tier = tier,
            ctx_skills_loaded = skills, ctx_extra = extra\<rparr>)))))))))))))))"

lemma to_opt_of_opt [simp]: "to_opt (of_opt x) = Inr x"
  by (simp add: of_opt_def split: option.splits)

lemma to_strs_of_strs [simp]: "to_strs (of_strs xs) = Inr xs"
proof -
  have "rmap to_str (map PStr xs) = Inr xs" by (induction xs) auto
  then show ?thesis by (simp add: of_strs_def)
qed

lemma envelope_roundtrip: "context_from_envelope (context_to_envelope ctx) = Inr ctx"
  by (simp add: context_from_envelope_def context_to_envelope_def dict_get_def get_default_def
      grant_set_of_def)

text \<open>The durable envelope loses nothing: rebuilding a context from its envelope gives back the same
  context, every authority-bearing field included.\<close>

lemma context_envelope_roundtrip:
  "context_from_envelope (context_to_envelope ctx) = Inr ctx"
  by (rule envelope_roundtrip)

text \<open>A replayed envelope only narrows: an envelope without a grants field rebuilds, if it rebuilds
  at all, to a context whose grants permit no verb.\<close>

lemma envelope_without_grants_permits_nothing:
  assumes "context_from_envelope env = Inr ctx" "map_of env (KStr ''grants'') = None"
  shows "\<not> permits nfkc (ctx_grants ctx) v"
proof -
  from assms have "ctx_grants ctx = grant_set_of (Some []) (Some [])"
    by (auto simp: context_from_envelope_def rbind_Inr_iff dict_get_def)
  then show ?thesis by (simp add: permits_def grant_set_of_def)
qed

end
