(* ===== verification/Hitl.thy ===== *)
theory Hitl
  imports Context "HOL-Library.AList"
begin

text \<open>
  Human-in-the-loop requests: the records of \<^verbatim>\<open>boltrig/models/hitl.py\<close>, the request and response tables of
  \<^verbatim>\<open>boltrig/store/memory.py\<close> (\<^verbatim>\<open>create_hitl_request\<close> to \<^verbatim>\<open>expire_hitl\<close>) and the manager of
  \<^verbatim>\<open>boltrig/kernel/hitl.py\<close>. Both tables are insertion-ordered dictionaries, hence association lists.

  Identifiers minted with \<^verbatim>\<open>uuid.uuid4().hex\<close> are arguments. The channel notice a new request sends
  (\<^verbatim>\<open>_notify_request\<close>, best effort, its faults swallowed) is not part of the state; the resume notifier and
  the AI-key proposal table are represented by the log of the calls made to them.
\<close>

datatype hitl_type = APPROVAL | CLARIFICATION | ESCALATION | QUESTION

datatype urgency = BLOCKING | ASYNC

datatype hitl_status = PENDING | ANSWERED | CONSUMED | TIMED_OUT | ESCALATED

record hitl_request =
  hr_id :: string
  hr_tenant_id :: string
  hr_run_id :: string
  hr_type :: hitl_type
  hr_urgency :: urgency
  hr_context :: string
  hr_question :: string
  hr_status :: hitl_status
  hr_work_item_id :: "string option"
  hr_options :: "string list"
  hr_assignee :: "string option"
  hr_timeout_at :: "instant option"
  hr_verb :: "string option"
  hr_requested_by :: "string option"
  hr_requested_on_behalf_of :: "string option"
  hr_request_fingerprint :: "string option"
  hr_action_digest :: "string option"
  hr_workspace_id :: "string option"
  hr_department_scope :: "string list option"
  hr_secure :: bool
  hr_secure_purpose :: "string option"

record hitl_response =
  hp_id :: string
  hp_request_id :: string
  hp_tenant_id :: string
  hp_decision :: string
  hp_respondent :: string
  hp_responded_at :: instant
  hp_notes :: string

record hitl_state =
  hs_requests :: "((string \<times> string) \<times> hitl_request) list"
  hs_responses :: "((string \<times> string) \<times> hitl_response) list"
  hs_resumed :: "(string \<times> string) list"
  hs_invalidated :: "(string \<times> string \<times> string) list"

definition hitl_empty :: hitl_state where
  "hitl_empty = \<lparr>hs_requests = [], hs_responses = [], hs_resumed = [], hs_invalidated = []\<rparr>"

subsection \<open>The store\<close>

definition get_hitl_request :: "hitl_state \<Rightarrow> string \<Rightarrow> string \<Rightarrow> hitl_request option" where
  "get_hitl_request s tenant_id req_id = map_of (hs_requests s) (tenant_id, req_id)"

definition put_request :: "hitl_state \<Rightarrow> string \<times> string \<Rightarrow> hitl_request \<Rightarrow> hitl_state" where
  "put_request s k r = s\<lparr>hs_requests := AList.update k r (hs_requests s)\<rparr>"

text \<open>A conflicting id keeps the original row and only adopts the new status.\<close>

definition create_hitl_request :: "hitl_state \<Rightarrow> hitl_request \<Rightarrow> hitl_state" where
  "create_hitl_request s req =
     (case get_hitl_request s (hr_tenant_id req) (hr_id req) of
        Some existing \<Rightarrow> put_request s (hr_tenant_id req, hr_id req) (existing\<lparr>hr_status := hr_status req\<rparr>)
      | None \<Rightarrow> put_request s (hr_tenant_id req, hr_id req) req)"

definition list_pending_hitl :: "hitl_state \<Rightarrow> string \<Rightarrow> hitl_request list" where
  "list_pending_hitl s tenant_id =
     map snd (filter (\<lambda>((t, _), r). t = tenant_id \<and> hr_status r = PENDING) (hs_requests s))"

definition list_answered_hitl :: "hitl_state \<Rightarrow> string \<Rightarrow> hitl_request list" where
  "list_answered_hitl s tenant_id =
     map snd (filter (\<lambda>((t, _), r). t = tenant_id \<and> hr_status r = ANSWERED) (hs_requests s))"

definition answer_hitl :: "hitl_state \<Rightarrow> hitl_response \<Rightarrow> hitl_request option \<times> hitl_state" where
  "answer_hitl s resp =
     (case get_hitl_request s (hp_tenant_id resp) (hp_request_id resp) of
        None \<Rightarrow> (None, s)
      | Some req \<Rightarrow>
          (if hr_status req \<noteq> PENDING then (None, s)
           else (let req' = req\<lparr>hr_status := ANSWERED\<rparr>;
                     s1 = s\<lparr>hs_responses := AList.update (hp_tenant_id resp, hp_id resp) resp (hs_responses s)\<rparr>
                 in (Some req', put_request s1 (hp_tenant_id resp, hp_request_id resp) req'))))"

text \<open>\<^verbatim>\<open>max(matches, key=responded_at, default=None)\<close>: the first of the latest.\<close>

fun latest_response :: "hitl_response list \<Rightarrow> hitl_response option" where
  "latest_response [] = None"
| "latest_response (r # rs) =
     (case latest_response rs of None \<Rightarrow> Some r
      | Some q \<Rightarrow> if hp_responded_at q > hp_responded_at r then Some q else Some r)"

definition get_hitl_response :: "hitl_state \<Rightarrow> string \<Rightarrow> string \<Rightarrow> hitl_response option" where
  "get_hitl_response s tenant_id request_id =
     latest_response (filter (\<lambda>r. hp_tenant_id r = tenant_id \<and> hp_request_id r = request_id)
        (map snd (hs_responses s)))"

definition consume_hitl :: "hitl_state \<Rightarrow> string \<Rightarrow> string \<Rightarrow> bool \<times> hitl_state" where
  "consume_hitl s tenant_id request_id =
     (case get_hitl_request s tenant_id request_id of
        None \<Rightarrow> (False, s)
      | Some req \<Rightarrow> (if hr_status req \<noteq> ANSWERED then (False, s)
           else (True, put_request s (tenant_id, request_id) (req\<lparr>hr_status := CONSUMED\<rparr>))))"

definition expire_hitl :: "hitl_state \<Rightarrow> string \<Rightarrow> string \<Rightarrow> bool \<times> hitl_state" where
  "expire_hitl s tenant_id request_id =
     (case get_hitl_request s tenant_id request_id of
        None \<Rightarrow> (False, s)
      | Some req \<Rightarrow> (if hr_status req \<noteq> PENDING then (False, s)
           else (True, put_request s (tenant_id, request_id) (req\<lparr>hr_status := TIMED_OUT\<rparr>))))"

subsection \<open>The manager\<close>

definition APPROVING :: "string list" where
  "APPROVING = [''approve'', ''approved'', ''yes'', ''ok'', ''allow'']"

definition approving_decision :: "string \<Rightarrow> bool" where
  "approving_decision decision \<longleftrightarrow> lower (strip decision) \<in> set APPROVING"

text \<open>\<^verbatim>\<open>str(value)\<close> for a value that is not a string is the parameter \<open>pstr\<close>.\<close>

definition str_of :: "(pyval \<Rightarrow> string) \<Rightarrow> pyval \<Rightarrow> string" where
  "str_of pstr v = (case v of PStr s \<Rightarrow> s | _ \<Rightarrow> pstr v)"

definition sorted_nonempty :: "string list \<Rightarrow> string list" where
  "sorted_nonempty xs = sort (remdups (filter (\<lambda>x. x \<noteq> []) xs))"

definition hitl_department_scope :: "(pyval \<Rightarrow> string) \<Rightarrow> invocation_context \<Rightarrow> string list option" where
  "hitl_department_scope pstr ctx =
     (case dict_get (ctx_extra ctx) ''principal_scope'' of
        PDict scope \<Rightarrow>
          (if truthy (dict_get scope ''all'') then None
           else (case get_default scope ''departments'' (PList []) of
                   PList xs \<Rightarrow> Some (sorted_nonempty (map (str_of pstr) xs))
                 | PTuple xs \<Rightarrow> Some (sorted_nonempty (map (str_of pstr) xs))
                 | _ \<Rightarrow> Some []))
      | _ \<Rightarrow> None)"

definition request_timed_out :: "hitl_request \<Rightarrow> instant \<Rightarrow> bool" where
  "request_timed_out req now \<longleftrightarrow> hr_status req = PENDING \<and>
     (case hr_timeout_at req of None \<Rightarrow> False | Some t \<Rightarrow> t \<le> now)"

datatype hitl_error =
    UnboundApproval
  | SecureWithoutPurpose
  | HitlTimedOut string
  | HitlNotPending string

text \<open>The arguments of \<^verbatim>\<open>HITLManager.create\<close>.\<close>

record hitl_new =
  hn_run_id :: string
  hn_type :: hitl_type
  hn_question :: string
  hn_context :: string
  hn_urgency :: urgency
  hn_options :: "string list"
  hn_assignee :: "string option"
  hn_timeout_seconds :: "int option"
  hn_work_item_id :: "string option"
  hn_verb :: "string option"
  hn_requested_by :: "string option"
  hn_requested_on_behalf_of :: "string option"
  hn_request_fingerprint :: "string option"
  hn_action_digest :: "string option"
  hn_workspace_id :: "string option"
  hn_department_scope :: "string list option"
  hn_secure :: bool
  hn_secure_purpose :: "string option"

definition present :: "string option \<Rightarrow> bool" where
  "present x = (case x of None \<Rightarrow> False | Some s \<Rightarrow> s \<noteq> [])"

definition new_request :: "instant \<Rightarrow> string \<Rightarrow> string \<Rightarrow> hitl_new \<Rightarrow> hitl_request" where
  "new_request now new_id tenant_id a =
     \<lparr>hr_id = new_id, hr_tenant_id = tenant_id, hr_run_id = hn_run_id a, hr_type = hn_type a,
      hr_urgency = hn_urgency a, hr_context = hn_context a, hr_question = hn_question a,
      hr_status = PENDING, hr_work_item_id = hn_work_item_id a, hr_options = hn_options a,
      hr_assignee = hn_assignee a,
      hr_timeout_at = (case hn_timeout_seconds a of None \<Rightarrow> None
          | Some n \<Rightarrow> if n = 0 then None else Some (now + n)),
      hr_verb = hn_verb a, hr_requested_by = hn_requested_by a,
      hr_requested_on_behalf_of = hn_requested_on_behalf_of a,
      hr_request_fingerprint = hn_request_fingerprint a, hr_action_digest = hn_action_digest a,
      hr_workspace_id = hn_workspace_id a,
      hr_department_scope = map_option sorted_nonempty (hn_department_scope a),
      hr_secure = hn_secure a,
      hr_secure_purpose = (if hn_secure a then hn_secure_purpose a else None)\<rparr>"

definition hitl_create ::
  "hitl_state \<Rightarrow> instant \<Rightarrow> string \<Rightarrow> string \<Rightarrow> hitl_new \<Rightarrow> (hitl_error + hitl_request) \<times> hitl_state" where
  "hitl_create s now new_id tenant_id a =
     (if hn_type a = APPROVAL \<and>
         \<not> (present (hn_verb a) \<and> present (hn_requested_by a) \<and> present (hn_request_fingerprint a))
      then (Inl UnboundApproval, s)
      else if hn_secure a \<and> \<not> present (hn_secure_purpose a) then (Inl SecureWithoutPurpose, s)
      else (Inr (new_request now new_id tenant_id a),
            create_hitl_request s (new_request now new_id tenant_id a)))"

text \<open>\<^verbatim>\<open>_fire_resume\<close>: the notifier's own faults are swallowed, so only the call is recorded.\<close>

definition fire_resume :: "bool \<Rightarrow> hitl_state \<Rightarrow> string \<Rightarrow> string \<Rightarrow> hitl_state" where
  "fire_resume has_notifier s tenant_id request_id =
     (if \<not> has_notifier then s
      else case get_hitl_request s tenant_id request_id of None \<Rightarrow> s
        | Some _ \<Rightarrow> s\<lparr>hs_resumed := hs_resumed s @ [(tenant_id, request_id)]\<rparr>)"

definition invalidate_proposal :: "hitl_state \<Rightarrow> string \<Rightarrow> string \<Rightarrow> string \<Rightarrow> hitl_state" where
  "invalidate_proposal s tenant_id request_id why =
     s\<lparr>hs_invalidated := hs_invalidated s @ [(tenant_id, request_id, why)]\<rparr>"

definition hitl_answer ::
  "bool \<Rightarrow> hitl_state \<Rightarrow> instant \<Rightarrow> string \<Rightarrow> string \<Rightarrow> string \<Rightarrow> string \<Rightarrow> string \<Rightarrow> string
     \<Rightarrow> (hitl_error + hitl_response) \<times> hitl_state" where
  "hitl_answer has_notifier s now new_id tenant_id request_id decision respondent notes =
     (case get_hitl_request s tenant_id request_id of
        Some req \<Rightarrow>
          (if request_timed_out req now
           then (let s1 = snd (expire_hitl s tenant_id request_id);
                     s2 = (if hr_verb req = Some ''control.ai_key.set''
                           then invalidate_proposal s1 tenant_id request_id ''expired'' else s1)
                 in (Inl (HitlTimedOut request_id), s2))
           else
             (let resp = \<lparr>hp_id = new_id, hp_request_id = request_id, hp_tenant_id = tenant_id,
                    hp_decision = decision, hp_respondent = respondent, hp_responded_at = now, hp_notes = notes\<rparr>
              in case answer_hitl s resp of
                   (None, s1) \<Rightarrow> (Inl (HitlNotPending request_id), s1)
                 | (Some answered, s1) \<Rightarrow>
                     (let s2 = (if hr_verb answered = Some ''control.ai_key.set'' \<and> \<not> approving_decision decision
                                then invalidate_proposal s1 tenant_id request_id ''rejected'' else s1)
                      in (Inr resp, fire_resume has_notifier s2 tenant_id request_id))))
      | None \<Rightarrow> (Inl (HitlNotPending request_id), s))"

definition is_approved :: "hitl_state \<Rightarrow> string \<Rightarrow> string \<Rightarrow> bool" where
  "is_approved s tenant_id request_id =
     (case get_hitl_request s tenant_id request_id of None \<Rightarrow> False
      | Some req \<Rightarrow> (if hr_status req \<noteq> ANSWERED then False
           else case get_hitl_response s tenant_id request_id of None \<Rightarrow> False
             | Some resp \<Rightarrow> approving_decision (hp_decision resp)))"

definition consume_approved_by ::
  "hitl_state \<Rightarrow> instant \<Rightarrow> string \<Rightarrow> string \<Rightarrow> string \<Rightarrow> string \<Rightarrow> string option \<times> hitl_state" where
  "consume_approved_by s now tenant_id request_id verb fingerprint =
     (case get_hitl_request s tenant_id request_id of None \<Rightarrow> (None, s)
      | Some req \<Rightarrow>
          (if hr_status req \<noteq> ANSWERED then (None, s)
           else if (case hr_timeout_at req of None \<Rightarrow> False | Some t \<Rightarrow> t \<le> now) then (None, s)
           else if hr_type req \<noteq> APPROVAL \<or> hr_verb req \<noteq> Some verb
                   \<or> \<not> present (hr_request_fingerprint req) \<or> fingerprint = []
                   \<or> hr_request_fingerprint req \<noteq> Some fingerprint then (None, s)
           else case get_hitl_response s tenant_id request_id of
                  None \<Rightarrow> (None, s)
                | Some resp \<Rightarrow>
                    (if \<not> approving_decision (hp_decision resp) then (None, s)
                     else case consume_hitl s tenant_id request_id of
                            (consumed, s') \<Rightarrow> (if consumed then Some (hp_respondent resp) else None, s'))))"

definition consume_if_approved ::
  "hitl_state \<Rightarrow> instant \<Rightarrow> string \<Rightarrow> string \<Rightarrow> string \<Rightarrow> string \<Rightarrow> bool \<times> hitl_state" where
  "consume_if_approved s now tenant_id request_id verb fingerprint =
     (case consume_approved_by s now tenant_id request_id verb fingerprint of
        (r, s') \<Rightarrow> (r \<noteq> None, s'))"

subsection \<open>Lemmas: the tables\<close>

lemma get_put_request:
  "get_hitl_request (put_request s k r) t i = (if (t, i) = k then Some r else get_hitl_request s t i)"
  by (simp add: get_hitl_request_def put_request_def update_conv' fun_upd_def)

lemma get_put_same [simp]: "get_hitl_request (put_request s (t, i) r) t i = Some r"
  by (simp add: get_put_request)

lemma put_request_responses [simp]: "hs_responses (put_request s k r) = hs_responses s"
  by (simp add: put_request_def)

lemma get_request_ext [simp]:
  "get_hitl_request (s\<lparr>hs_responses := x\<rparr>) t i = get_hitl_request s t i"
  "get_hitl_request (s\<lparr>hs_resumed := y\<rparr>) t i = get_hitl_request s t i"
  "get_hitl_request (s\<lparr>hs_invalidated := z\<rparr>) t i = get_hitl_request s t i"
  by (simp_all add: get_hitl_request_def)

lemma fire_resume_frame [simp]:
  "get_hitl_request (fire_resume n s t i) t' i' = get_hitl_request s t' i'"
  "hs_responses (fire_resume n s t i) = hs_responses s"
  by (simp_all add: fire_resume_def split: option.splits)

lemma invalidate_frame [simp]:
  "get_hitl_request (invalidate_proposal s t i w) t' i' = get_hitl_request s t' i'"
  "hs_responses (invalidate_proposal s t i w) = hs_responses s"
  by (simp_all add: invalidate_proposal_def)

lemma update_fresh: "k \<notin> fst ` set al \<Longrightarrow> AList.update k v al = al @ [(k, v)]"
  by (induction al) auto

definition responses_for :: "hitl_state \<Rightarrow> string \<Rightarrow> string \<Rightarrow> hitl_response list" where
  "responses_for s t i =
     filter (\<lambda>r. hp_tenant_id r = t \<and> hp_request_id r = i) (map snd (hs_responses s))"

lemma get_hitl_response_alt: "get_hitl_response s t i = latest_response (responses_for s t i)"
  by (simp add: get_hitl_response_def responses_for_def)

lemma responses_for_cong: "hs_responses s' = hs_responses s \<Longrightarrow> responses_for s' t i = responses_for s t i"
  by (simp add: responses_for_def)

lemma new_request_simps [simp]:
  "hr_id (new_request now i t a) = i" "hr_tenant_id (new_request now i t a) = t"
  "hr_status (new_request now i t a) = PENDING" "hr_type (new_request now i t a) = hn_type a"
  "hr_verb (new_request now i t a) = hn_verb a"
  "hr_requested_by (new_request now i t a) = hn_requested_by a"
  "hr_request_fingerprint (new_request now i t a) = hn_request_fingerprint a"
  by (simp_all add: new_request_def)

text \<open>The request a manager call creates, answers, consumes or expires; every other one is untouched.\<close>

lemma get_after_create:
  assumes "get_hitl_request s t i = None" "hitl_create s now i t a = (Inr req, s')"
  shows "get_hitl_request s' t' i' = (if (t', i') = (t, i) then Some req else get_hitl_request s t' i')"
    and "hr_status req = PENDING" and "hs_responses s' = hs_responses s"
  using assms by (auto simp: hitl_create_def create_hitl_request_def get_put_request split: if_splits)

lemma create_cases:
  assumes "get_hitl_request s t i = None"
  obtains e where "hitl_create s now i t a = (Inl e, s)"
  | "hitl_create s now i t a = (Inr (new_request now i t a), put_request s (t, i) (new_request now i t a))"
proof -
  have "(\<exists>e. hitl_create s now i t a = (Inl e, s)) \<or>
      hitl_create s now i t a = (Inr (new_request now i t a), put_request s (t, i) (new_request now i t a))"
    using assms by (simp add: hitl_create_def create_hitl_request_def)
  then show thesis using that by blast
qed

lemma consume_approved_by_SomeD:
  assumes "consume_approved_by s now t i v fp = (Some u, s')"
  shows "\<exists>req resp. get_hitl_request s t i = Some req \<and> hr_status req = ANSWERED \<and>
      hr_type req = APPROVAL \<and> hr_verb req = Some v \<and> fp \<noteq> [] \<and> hr_request_fingerprint req = Some fp \<and>
      (\<forall>d. hr_timeout_at req = Some d \<longrightarrow> now < d) \<and>
      get_hitl_response s t i = Some resp \<and> approving_decision (hp_decision resp) \<and>
      u = hp_respondent resp \<and> s' = put_request s (t, i) (req\<lparr>hr_status := CONSUMED\<rparr>)"
  using assms
  by (auto simp: consume_approved_by_def consume_hitl_def split: option.splits if_splits)

lemma consume_approved_by_NoneD:
  "fst (consume_approved_by s now t i v fp) = None \<Longrightarrow> snd (consume_approved_by s now t i v fp) = s"
  by (auto simp: consume_approved_by_def consume_hitl_def split: option.splits if_splits)

lemma consume_approved_by_intro:
  assumes "get_hitl_request s t i = Some req" "hr_status req = ANSWERED" "hr_type req = APPROVAL"
    "hr_verb req = Some v" "fp \<noteq> []" "hr_request_fingerprint req = Some fp"
    "\<And>d. hr_timeout_at req = Some d \<Longrightarrow> now < d"
    "get_hitl_response s t i = Some resp" "approving_decision (hp_decision resp)"
  shows "consume_approved_by s now t i v fp
      = (Some (hp_respondent resp), put_request s (t, i) (req\<lparr>hr_status := CONSUMED\<rparr>))"
proof -
  have "\<not> (case hr_timeout_at req of None \<Rightarrow> False | Some d \<Rightarrow> d \<le> now)"
    using assms(7) by (auto split: option.splits)
  then show ?thesis using assms(1-6,8,9)
    by (simp add: consume_approved_by_def consume_hitl_def present_def)
qed

lemma consume_not_answered:
  "get_hitl_request s t i = Some req \<Longrightarrow> hr_status req \<noteq> ANSWERED \<Longrightarrow>
     consume_approved_by s now t i v fp = (None, s)"
  by (simp add: consume_approved_by_def)

lemma answer_cases:
  obtains (stale) req where "get_hitl_request s t i = Some req" "request_timed_out req now"
      "fst (hitl_answer n s now nid t i d u w) = Inl (HitlTimedOut i)"
      "\<And>t' i'. get_hitl_request (snd (hitl_answer n s now nid t i d u w)) t' i' =
         (if (t', i') = (t, i) then Some (req\<lparr>hr_status := TIMED_OUT\<rparr>) else get_hitl_request s t' i')"
      "hs_responses (snd (hitl_answer n s now nid t i d u w)) = hs_responses s"
  | (recorded) req where "get_hitl_request s t i = Some req" "\<not> request_timed_out req now"
      "hr_status req = PENDING"
      "fst (hitl_answer n s now nid t i d u w) = Inr \<lparr>hp_id = nid, hp_request_id = i, hp_tenant_id = t,
         hp_decision = d, hp_respondent = u, hp_responded_at = now, hp_notes = w\<rparr>"
      "\<And>t' i'. get_hitl_request (snd (hitl_answer n s now nid t i d u w)) t' i' =
         (if (t', i') = (t, i) then Some (req\<lparr>hr_status := ANSWERED\<rparr>) else get_hitl_request s t' i')"
      "hs_responses (snd (hitl_answer n s now nid t i d u w)) = AList.update (t, nid)
         \<lparr>hp_id = nid, hp_request_id = i, hp_tenant_id = t, hp_decision = d, hp_respondent = u,
          hp_responded_at = now, hp_notes = w\<rparr> (hs_responses s)"
  | (refused) "fst (hitl_answer n s now nid t i d u w) = Inl (HitlNotPending i)"
      "snd (hitl_answer n s now nid t i d u w) = s"
proof (cases "get_hitl_request s t i")
  case None
  then show ?thesis using refused by (simp add: hitl_answer_def)
next
  case (Some req)
  consider "request_timed_out req now" | "\<not> request_timed_out req now" "hr_status req = PENDING"
    | "\<not> request_timed_out req now" "hr_status req \<noteq> PENDING" by blast
  then show ?thesis
  proof cases
    case 1
    then have "hr_status req = PENDING" by (simp add: request_timed_out_def)
    with 1 Some stale show ?thesis
      by (simp add: hitl_answer_def expire_hitl_def get_put_request Let_def)
  next
    case 2
    with Some recorded show ?thesis
      by (simp add: hitl_answer_def answer_hitl_def get_put_request Let_def)
  next
    case 3
    with Some refused show ?thesis
      by (simp add: hitl_answer_def answer_hitl_def Let_def)
  qed
qed

subsection \<open>The life cycle of a request\<close>

text \<open>Everything that happens to the tables: creation under a fresh id, an answer under a fresh response
  id, a consume by the gate, an expiry by the sweep.\<close>

inductive hitl_step :: "hitl_state \<Rightarrow> hitl_state \<Rightarrow> bool" where
  hs_create: "get_hitl_request s t i = None \<Longrightarrow> hitl_step s (snd (hitl_create s now i t a))"
| hs_answer: "(t, nid) \<notin> fst ` set (hs_responses s) \<Longrightarrow>
     hitl_step s (snd (hitl_answer n s now nid t i d u w))"
| hs_consume: "hitl_step s (snd (consume_approved_by s now t i v fp))"
| hs_expire: "hitl_step s (snd (expire_hitl s t i))"

definition hitl_moves :: "(hitl_status \<times> hitl_status) set" where
  "hitl_moves = {(PENDING, ANSWERED), (PENDING, TIMED_OUT), (ANSWERED, CONSUMED)}"

lemma same_row [simp]: "\<exists>st. r = r\<lparr>hr_status := st\<rparr> \<and> (st = hr_status r \<or> P st)"
  by (intro exI[of _ "hr_status r"]) simp

lemma hitl_step_row:
  assumes "hitl_step s s'" "get_hitl_request s t i = Some r"
  shows "\<exists>st. get_hitl_request s' t i = Some (r\<lparr>hr_status := st\<rparr>) \<and>
     (st = hr_status r \<or> (hr_status r, st) \<in> hitl_moves)"
  using assms
proof (induction rule: hitl_step.induct)
  case (hs_create s t' i' now a)
  have ne: "(t, i) \<noteq> (t', i')" using hs_create by auto
  show ?case
    by (rule create_cases[OF hs_create.hyps, of now a])
       (use hs_create.prems ne in \<open>auto simp: get_put_request\<close>)
next
  case (hs_answer t' nid s n now i' d u w)
  show ?case
  proof (cases rule: answer_cases[where n = n and s = s and now = now and nid = nid and t = t' and i = i'
          and d = d and u = u and w = w])
    case (stale req)
    show ?thesis using hs_answer.prems stale(1,2) stale(4)[of t i]
      by (cases "(t, i) = (t', i')") (auto simp: hitl_moves_def request_timed_out_def)
  next
    case (recorded req)
    show ?thesis using hs_answer.prems recorded(1,3) recorded(5)[of t i]
      by (cases "(t, i) = (t', i')") (auto simp: hitl_moves_def)
  next
    case refused
    then show ?thesis using hs_answer.prems by auto
  qed
next
  case (hs_consume s now t' i' v fp)
  then show ?case
  proof (cases "fst (consume_approved_by s now t' i' v fp)")
    case None
    then have "snd (consume_approved_by s now t' i' v fp) = s" by (rule consume_approved_by_NoneD)
    with hs_consume show ?thesis by auto
  next
    case (Some u)
    then have "consume_approved_by s now t' i' v fp = (Some u, snd (consume_approved_by s now t' i' v fp))"
      by (metis prod.collapse)
    from consume_approved_by_SomeD[OF this] obtain req where req: "get_hitl_request s t' i' = Some req"
      "hr_status req = ANSWERED"
      "snd (consume_approved_by s now t' i' v fp) = put_request s (t', i') (req\<lparr>hr_status := CONSUMED\<rparr>)"
      by blast
    show ?thesis
    proof (cases "(t, i) = (t', i')")
      case True
      then show ?thesis using req hs_consume.prems
        by (intro exI[of _ CONSUMED]) (simp add: hitl_moves_def)
    next
      case False
      then show ?thesis using req hs_consume.prems by (auto simp: get_put_request)
    qed
  qed
next
  case (hs_expire s t' i')
  then show ?case
    by (auto simp: expire_hitl_def get_put_request hitl_moves_def split: option.splits if_splits)
qed

lemma hitl_steps_row:
  assumes "hitl_step\<^sup>*\<^sup>* s s'" "get_hitl_request s t i = Some r"
  shows "\<exists>st. get_hitl_request s' t i = Some (r\<lparr>hr_status := st\<rparr>) \<and> (hr_status r, st) \<in> hitl_moves\<^sup>*"
  using assms
proof (induction rule: rtranclp_induct)
  case base
  then show ?case by (intro exI[of _ "hr_status r"]) simp
next
  case (step y z)
  then obtain st where st: "get_hitl_request y t i = Some (r\<lparr>hr_status := st\<rparr>)"
    "(hr_status r, st) \<in> hitl_moves\<^sup>*" by auto
  from hitl_step_row[OF step.hyps(2) st(1)] obtain st' where
    "get_hitl_request z t i = Some (r\<lparr>hr_status := st'\<rparr>)" "st' = st \<or> (st, st') \<in> hitl_moves" by auto
  with st(2) show ?case by (auto intro: rtrancl_into_rtrancl)
qed

lemma hitl_final: "(st, st') \<in> hitl_moves\<^sup>* \<Longrightarrow> st \<in> {CONSUMED, TIMED_OUT, ESCALATED} \<Longrightarrow> st' = st"
  by (erule rtrancl_induct) (auto simp: hitl_moves_def)


subsection \<open>The invariant of the two tables\<close>

text \<open>An answered or consumed request has exactly one response, given before the deadline; every other request
  has none; an approval is always bound to a verb, an initiator and a fingerprint.\<close>

definition row_ok :: "hitl_request \<Rightarrow> hitl_response list \<Rightarrow> bool" where
  "row_ok r rs \<longleftrightarrow>
     (if hr_status r \<in> {ANSWERED, CONSUMED}
      then \<exists>resp. rs = [resp] \<and> (\<forall>d. hr_timeout_at r = Some d \<longrightarrow> hp_responded_at resp < d)
      else rs = [] \<and> hr_status r \<noteq> ESCALATED) \<and>
     (hr_type r = APPROVAL \<longrightarrow>
        present (hr_verb r) \<and> present (hr_requested_by r) \<and> present (hr_request_fingerprint r))"

definition hitl_inv :: "hitl_state \<Rightarrow> bool" where
  "hitl_inv s \<longleftrightarrow> (\<forall>t i. case get_hitl_request s t i of
       None \<Rightarrow> responses_for s t i = []
     | Some r \<Rightarrow> row_ok r (responses_for s t i))"

lemma hitl_invD: "hitl_inv s \<Longrightarrow> get_hitl_request s t i = Some r \<Longrightarrow> row_ok r (responses_for s t i)"
  unfolding hitl_inv_def by (metis option.simps(5))

lemma hitl_inv_update:
  assumes inv: "hitl_inv s"
    and other: "\<And>t' i'. (t', i') \<noteq> (t, i) \<Longrightarrow> get_hitl_request s' t' i' = get_hitl_request s t' i' \<and>
        responses_for s' t' i' = responses_for s t' i'"
    and new: "get_hitl_request s' t i = Some r" "row_ok r (responses_for s' t i)"
  shows "hitl_inv s'"
  unfolding hitl_inv_def
proof (intro allI)
  fix t' i'
  show "case get_hitl_request s' t' i' of None \<Rightarrow> responses_for s' t' i' = []
      | Some r \<Rightarrow> row_ok r (responses_for s' t' i')"
  proof (cases "(t', i') = (t, i)")
    case False
    have "case get_hitl_request s t' i' of None \<Rightarrow> responses_for s t' i' = []
        | Some r \<Rightarrow> row_ok r (responses_for s t' i')" using inv unfolding hitl_inv_def by blast
    then show ?thesis using other[OF False] by (cases "get_hitl_request s t' i'") simp_all
  qed (use new in simp)
qed

lemma responses_for_answered:
  assumes "hs_responses s' = AList.update (t, nid) resp (hs_responses s)"
    "(t, nid) \<notin> fst ` set (hs_responses s)" "hp_tenant_id resp = t" "hp_request_id resp = i"
  shows "responses_for s' t' i' = responses_for s t' i' @ (if (t', i') = (t, i) then [resp] else [])"
  using assms by (simp add: responses_for_def update_fresh)

lemma hitl_create_inv:
  assumes inv: "hitl_inv s" and fresh: "get_hitl_request s t i = None"
  shows "hitl_inv (snd (hitl_create s now i t a))"
proof (cases rule: create_cases[OF fresh, of now a])
  case (1 e)
  then show ?thesis using inv by simp
next
  case 2
  have none: "responses_for s t i = []" using inv fresh unfolding hitl_inv_def
    by (metis option.simps(4))
  have bound: "hn_type a = APPROVAL \<Longrightarrow>
      present (hn_verb a) \<and> present (hn_requested_by a) \<and> present (hn_request_fingerprint a)"
    using 2 by (auto simp: hitl_create_def split: if_splits)
  show ?thesis
  proof (rule hitl_inv_update[OF inv])
    show "get_hitl_request (snd (hitl_create s now i t a)) t i = Some (new_request now i t a)"
      using 2 by simp
  qed (use 2 none bound in \<open>auto simp: get_put_request row_ok_def responses_for_def\<close>)
qed

lemma hitl_answer_inv:
  assumes inv: "hitl_inv s" and fresh: "(t, nid) \<notin> fst ` set (hs_responses s)"
  shows "hitl_inv (snd (hitl_answer n s now nid t i d u w))"
proof (cases rule: answer_cases[where n = n and s = s and now = now and nid = nid and t = t and i = i
          and d = d and u = u and w = w])
  case (stale req)
  then have "row_ok (req\<lparr>hr_status := TIMED_OUT\<rparr>) (responses_for s t i)"
    using hitl_invD[OF inv stale(1)] by (simp add: row_ok_def request_timed_out_def)
  then show ?thesis
    by (intro hitl_inv_update[OF inv, of t i _ "req\<lparr>hr_status := TIMED_OUT\<rparr>"])
       (auto simp: stale(4) responses_for_cong[OF stale(5)])
next
  case (recorded req)
  note rs = responses_for_answered[OF recorded(6) fresh, of i, simplified]
  have "row_ok (req\<lparr>hr_status := ANSWERED\<rparr>) (responses_for (snd (hitl_answer n s now nid t i d u w)) t i)"
    using hitl_invD[OF inv recorded(1)] recorded(2,3)
    by (auto simp: row_ok_def rs request_timed_out_def split: option.splits)
  then show ?thesis
    by (intro hitl_inv_update[OF inv, of t i _ "req\<lparr>hr_status := ANSWERED\<rparr>"])
       (auto simp: recorded(5) rs)
next
  case refused
  then show ?thesis using inv by simp
qed

lemma hitl_consume_inv:
  assumes inv: "hitl_inv s" shows "hitl_inv (snd (consume_approved_by s now t i v fp))"
proof (cases "fst (consume_approved_by s now t i v fp)")
  case None
  then show ?thesis using inv by (simp add: consume_approved_by_NoneD)
next
  case (Some u)
  then have "consume_approved_by s now t i v fp = (Some u, snd (consume_approved_by s now t i v fp))"
    by (metis prod.collapse)
  from consume_approved_by_SomeD[OF this] obtain req where req: "get_hitl_request s t i = Some req"
    "hr_status req = ANSWERED"
    "snd (consume_approved_by s now t i v fp) = put_request s (t, i) (req\<lparr>hr_status := CONSUMED\<rparr>)"
    by blast
  then have "row_ok (req\<lparr>hr_status := CONSUMED\<rparr>) (responses_for s t i)"
    using hitl_invD[OF inv req(1)] by (simp add: row_ok_def)
  then show ?thesis
    by (intro hitl_inv_update[OF inv, of t i _ "req\<lparr>hr_status := CONSUMED\<rparr>"])
       (auto simp: req(3) get_put_request responses_for_def)
qed

lemma hitl_expire_inv:
  assumes inv: "hitl_inv s" shows "hitl_inv (snd (expire_hitl s t i))"
proof (cases "get_hitl_request s t i")
  case (Some req)
  then have "row_ok (req\<lparr>hr_status := TIMED_OUT\<rparr>) (responses_for s t i)" if "hr_status req = PENDING"
    using hitl_invD[OF inv Some] that by (simp add: row_ok_def)
  then have "hitl_inv (put_request s (t, i) (req\<lparr>hr_status := TIMED_OUT\<rparr>))" if "hr_status req = PENDING"
    using that by (intro hitl_inv_update[OF inv, of t i _ "req\<lparr>hr_status := TIMED_OUT\<rparr>"])
       (auto simp: get_put_request responses_for_def)
  then show ?thesis using Some inv by (simp add: expire_hitl_def)
qed (use inv in \<open>simp add: expire_hitl_def\<close>)

lemma hitl_step_inv: "hitl_step s s' \<Longrightarrow> hitl_inv s \<Longrightarrow> hitl_inv s'"
  by (induction rule: hitl_step.induct)
     (blast intro: hitl_create_inv hitl_answer_inv hitl_consume_inv hitl_expire_inv)+

lemma hitl_reachable_inv: "hitl_step\<^sup>*\<^sup>* hitl_empty s \<Longrightarrow> hitl_inv s"
proof (induction rule: rtranclp_induct)
  case base
  show ?case by (simp add: hitl_inv_def hitl_empty_def get_hitl_request_def responses_for_def)
next
  case (step y z)
  then show ?case by (blast intro: hitl_step_inv)
qed

subsection \<open>Properties\<close>

text \<open>A run used by the witnesses: an approval for \<^verbatim>\<open>mail.send\<close> bound to fingerprint \<^verbatim>\<open>f0\<close> with a ten-second
  deadline, answered by bob after five.\<close>

definition demo_new :: hitl_new where
  "demo_new = \<lparr>hn_run_id = ''run'', hn_type = APPROVAL, hn_question = ''Approve mail.send?'', hn_context = ''{}'',
     hn_urgency = BLOCKING, hn_options = [''approve'', ''reject''], hn_assignee = None,
     hn_timeout_seconds = Some 10, hn_work_item_id = None, hn_verb = Some ''mail.send'',
     hn_requested_by = Some ''agent'', hn_requested_on_behalf_of = None,
     hn_request_fingerprint = Some ''f0'', hn_action_digest = None, hn_workspace_id = None,
     hn_department_scope = None, hn_secure = False, hn_secure_purpose = None\<rparr>"

definition demo_pending :: hitl_state where
  "demo_pending = snd (hitl_create hitl_empty 0 ''r1'' ''t'' demo_new)"

definition demo_answered :: hitl_state where
  "demo_answered = snd (hitl_answer True demo_pending 5 ''p1'' ''t'' ''r1'' ''Approve'' ''bob'' '''')"

definition demo_consumed :: hitl_state where
  "demo_consumed = snd (consume_approved_by demo_answered 6 ''t'' ''r1'' ''mail.send'' ''f0'')"

lemma demo_reachable: "hitl_step\<^sup>*\<^sup>* hitl_empty demo_answered"
proof -
  have "hitl_step hitl_empty demo_pending" unfolding demo_pending_def
    by (rule hs_create) (simp add: get_hitl_request_def hitl_empty_def)
  moreover have "hitl_step demo_pending demo_answered" unfolding demo_answered_def
    by (rule hs_answer) code_simp
  ultimately show ?thesis by auto
qed

lemma demo_consume:
  "consume_approved_by demo_answered 6 ''t'' ''r1'' ''mail.send'' ''f0'' = (Some ''bob'', demo_consumed)"
proof -
  have "fst (consume_approved_by demo_answered 6 ''t'' ''r1'' ''mail.send'' ''f0'') = Some ''bob''" by code_simp
  then show ?thesis unfolding demo_consumed_def by (metis prod.collapse)
qed

text \<open>Property C11. One approval authorises one call: once \<open>consume_approved_by\<close> has returned a respondent for
  a request, then after any sequence of manager operations (further creates, answers, consumes and expiries,
  on this request or others, in any order) another consume of it returns None and changes nothing, whatever
  verb and fingerprint it is tried with.\<close>

theorem approval_used_at_most_once:
  assumes "consume_approved_by s now t i v fp = (Some u, s')"
    and "hitl_step\<^sup>*\<^sup>* s' s''"
  shows "consume_approved_by s'' now' t i v' fp' = (None, s'')"
proof -
  from consume_approved_by_SomeD[OF assms(1)] obtain req where
    "get_hitl_request s' t i = Some (req\<lparr>hr_status := CONSUMED\<rparr>)" by auto
  from hitl_steps_row[OF assms(2) this] obtain st where
    "get_hitl_request s'' t i = Some (req\<lparr>hr_status := st\<rparr>)" "(CONSUMED, st) \<in> hitl_moves\<^sup>*" by auto
  then show ?thesis using hitl_final[of CONSUMED st] by (intro consume_not_answered) auto
qed

theorem approval_used_at_most_once_witness:
  "consume_approved_by demo_answered 6 ''t'' ''r1'' ''mail.send'' ''f0'' = (Some ''bob'', demo_consumed) \<and>
   consume_approved_by (snd (expire_hitl demo_consumed ''t'' ''r1'')) 7 ''t'' ''r1'' ''mail.send'' ''f0''
     = (None, snd (expire_hitl demo_consumed ''t'' ''r1''))"
  using approval_used_at_most_once[OF demo_consume, of "snd (expire_hitl demo_consumed ''t'' ''r1'')"]
    hs_expire[of demo_consumed "''t''" "''r1''"] demo_consume by blast

text \<open>An approval is only spent on what a person approved: in every state the manager's
  operations can reach, if a consume at time \<open>now\<close> succeeds with respondent \<open>u\<close>, then the request is an
  approval created for exactly that verb and that fingerprint, it has exactly one response, the response is
  \<open>u\<close>'s and approving, it was given before the deadline, and the deadline has not passed at \<open>now\<close> either.\<close>

lemma consumed_approval_was_given:
  assumes "hitl_step\<^sup>*\<^sup>* hitl_empty s"
    and "consume_approved_by s now t i v fp = (Some u, s')"
  shows "\<exists>req resp. get_hitl_request s t i = Some req \<and> hr_type req = APPROVAL \<and> hr_verb req = Some v \<and>
     hr_request_fingerprint req = Some fp \<and> present (hr_requested_by req) \<and>
     responses_for s t i = [resp] \<and> hp_respondent resp = u \<and> approving_decision (hp_decision resp) \<and>
     (\<forall>d. hr_timeout_at req = Some d \<longrightarrow> hp_responded_at resp < d \<and> now < d)"
proof -
  from consume_approved_by_SomeD[OF assms(2)] obtain req resp where req:
    "get_hitl_request s t i = Some req" "hr_status req = ANSWERED" "hr_type req = APPROVAL"
    "hr_verb req = Some v" "hr_request_fingerprint req = Some fp"
    "\<forall>d. hr_timeout_at req = Some d \<longrightarrow> now < d" "get_hitl_response s t i = Some resp"
    "approving_decision (hp_decision resp)" "u = hp_respondent resp" by blast
  have "row_ok req (responses_for s t i)"
    using hitl_invD[OF hitl_reachable_inv[OF assms(1)] req(1)] .
  with req show ?thesis by (auto simp: row_ok_def get_hitl_response_alt)
qed

text \<open>The life of a request: whatever the manager does to other requests or to this one, a row keeps
  every field it was created with except its status, and the status only moves from pending to answered or
  timed out and from answered to consumed; in particular a rejected, expired or spent request never becomes
  claimable again.\<close>

lemma request_only_moves_forward:
  assumes "hitl_step\<^sup>*\<^sup>* s s'" and "get_hitl_request s t i = Some r"
  shows "\<exists>st. get_hitl_request s' t i = Some (r\<lparr>hr_status := st\<rparr>) \<and> (hr_status r, st) \<in> hitl_moves\<^sup>* \<and>
     (hr_status r \<in> {CONSUMED, TIMED_OUT, ESCALATED} \<longrightarrow> st = hr_status r)"
  using hitl_steps_row[OF assms] hitl_final by blast

end
