(* ===== verification/Json.thy ===== *)
theory Json
  imports Values
begin

text \<open>
  What the canonical JSON text of a value determines. The kernel hashes \<^verbatim>\<open>json.dumps(..., sort_keys=True)\<close>
  in four places (approval fingerprints, action digests, idempotency hashes, the audit chain); a hash can
  only bind an action if the text does. The main result, \<open>json_dumps_inject\<close>, says that two values
  with the same text are the same value up to the order of dictionary keys and the difference between a list
  and a tuple, and the two properties state what the canonicaliser and the approver's view guarantee.
\<close>

subsection \<open>Values up to key order\<close>

function (sequential) key_sorted :: "pyval \<Rightarrow> pyval" where
  "key_sorted (PList xs) = PList (map key_sorted xs)"
| "key_sorted (PTuple xs) = PList (map key_sorted xs)"
| "key_sorted (PDict d) = PDict (map (\<lambda>(k, v). (k, key_sorted v)) (sort_key (\<lambda>(k, v). key_str k) d))"
| "key_sorted v = v"
  by pat_completeness auto
termination
proof (relation "measure size", goal_cases)
  case 1
  show ?case by simp
next
  case (2 xs x)
  then show ?case by (induction xs) auto
next
  case (3 xs x)
  then show ?case by (induction xs) auto
next
  case (4 d x k v)
  then have "(k, v) \<in> set d" by auto
  then show ?case by (induction d) auto
qed

definition num_char :: "char \<Rightarrow> bool" where
  "num_char c \<longleftrightarrow> is_digit c \<or> c \<in> set ''+-.e''"

text \<open>What the decimal rendering of a finite float satisfies: number characters only, never the text of an
  integer, starting with a digit or a sign, and different floats print differently.\<close>

definition float_repr_ok :: "(rat \<Rightarrow> string) \<Rightarrow> bool" where
  "float_repr_ok frepr \<longleftrightarrow> inj frepr \<and>
     (\<forall>r. frepr r \<noteq> [] \<and> list_all num_char (frepr r) \<and> (is_digit (hd (frepr r)) \<or> hd (frepr r) = CHR ''-'') \<and>
          list_ex (\<lambda>c. c \<in> set ''.e'') (frepr r))"

definition delim :: "string \<Rightarrow> bool" where
  "delim r \<longleftrightarrow> (case r of [] \<Rightarrow> True | c # _ \<Rightarrow> c \<in> set '',]}'')"

lemma delim_Cons [simp]: "delim (c # r) \<longleftrightarrow> c \<in> set '',]}''" and delim_Nil [simp]: "delim []"
  by (simp_all add: delim_def)

subsection \<open>Strings\<close>

definition unhex :: "char \<Rightarrow> nat" where
  "unhex c = (let n = of_char c in if n < 58 then n - 48 else n - 87)"

fun json_unescape :: "string \<Rightarrow> (char \<times> string) option" where
  "json_unescape [] = None"
| "json_unescape (c # s) =
     (if c \<noteq> CHR 0x5C then Some (c, s)
      else case s of [] \<Rightarrow> None
        | e # s' \<Rightarrow>
           (if e = CHR ''b'' then Some (CHR 0x08, s')
            else if e = CHR ''t'' then Some (CHR 0x09, s')
            else if e = CHR ''n'' then Some (CHR 0x0A, s')
            else if e = CHR ''f'' then Some (CHR 0x0C, s')
            else if e = CHR ''r'' then Some (CHR 0x0D, s')
            else if e = CHR ''u'' then
              (case s' of _ # _ # h # l # s'' \<Rightarrow> Some (char_of (16 * unhex h + unhex l), s'') | _ \<Rightarrow> None)
            else Some (e, s')))"

lemma unhex_hex_digit [simp]: "n < 16 \<Longrightarrow> unhex (hex_digit n) = n"
  by (auto simp: unhex_def hex_digit_def Let_def)

lemma json_unescape_escape: "json_unescape (json_escape_char c @ u) = Some (c, u)"
proof (cases "c \<in> set [CHR 0x22, CHR 0x5C, CHR 0x08, CHR 0x09, CHR 0x0A, CHR 0x0C, CHR 0x0D]")
  case True
  then show ?thesis by (auto simp: json_escape_char_def)
next
  case False
  define n where "n = (of_char c :: nat)"
  have "n div 16 < 16" if "n < 32" using that by auto
  moreover have "char_of (16 * (n div 16) + n mod 16) = c" by (simp add: n_def)
  ultimately show ?thesis using False
    by (simp add: json_escape_char_def n_def[symmetric] Let_def)
qed

lemma json_escape_inject: "json_escape_char c @ u = json_escape_char c' @ u' \<Longrightarrow> c = c' \<and> u = u'"
  by (metis json_unescape_escape option.inject prod.inject)

lemma json_escape_no_quote: "json_escape_char c @ u \<noteq> CHR 0x22 # u'"
  by (auto simp: json_escape_char_def Let_def)

lemma json_unescape_ascii: "json_unescape (json_escape_ascii c @ u) = Some (c, u)"
proof (cases "(of_char c :: nat) < 127")
  case True
  then show ?thesis by (simp add: json_escape_ascii_def json_unescape_escape Let_def)
next
  case False
  define n where "n = (of_char c :: nat)"
  have "n < 256" by (simp add: n_def)
  then have "n div 16 < 16" by (simp add: less_mult_imp_div_less)
  moreover have "char_of (16 * (n div 16) + n mod 16) = c" by (simp add: n_def)
  ultimately show ?thesis using False by (simp add: json_escape_ascii_def n_def[symmetric] Let_def)
qed

lemma json_ascii_inject: "json_escape_ascii c @ u = json_escape_ascii c' @ u' \<Longrightarrow> c = c' \<and> u = u'"
  by (metis json_unescape_ascii option.inject prod.inject)

lemma json_ascii_no_quote: "json_escape_ascii c @ u \<noteq> CHR 0x22 # u'"
  using json_escape_no_quote[of c u u'] by (simp add: json_escape_ascii_def Let_def)

subsection \<open>Numbers\<close>

lemma show_int_chars:
  "show_int i \<noteq> []" "list_all num_char (show_int i)" "is_digit (hd (show_int i)) \<or> hd (show_int i) = CHR ''-''"
  "\<not> list_ex (\<lambda>c. c \<in> set ''.e'') (show_int i)"
proof -
  have d: "list_all num_char (show_nat n)" for n
    using show_nat_digits[of n] by (rule list.pred_mono_strong) (simp add: num_char_def)
  have e: "\<not> list_ex (\<lambda>c. c \<in> set ''.e'') (show_nat n)" for n
    using show_nat_digits[of n] by (auto simp: list_ex_iff list_all_iff is_digit_def)
  show "show_int i \<noteq> []" "list_all num_char (show_int i)"
    "is_digit (hd (show_int i)) \<or> hd (show_int i) = CHR ''-''"
    "\<not> list_ex (\<lambda>c. c \<in> set ''.e'') (show_int i)"
    using d e hd_show_nat by (auto simp: show_int_def num_char_def)
qed

lemma num_text_unique:
  assumes "list_all num_char x" "list_all num_char y" "delim r" "delim r'" "x @ r = y @ r'"
  shows "x = y \<and> r = r'"
proof -
  have stop: "takeWhile num_char (z @ q) = z" if "list_all num_char z" "delim q" for z q
    using that by (cases q) (auto simp: takeWhile_append list_all_iff num_char_def is_digit_def)
  have "x = y" using stop[OF assms(1,3)] stop[OF assms(2,4)] assms(5) by simp
  with assms(5) show ?thesis by simp
qed

subsection \<open>Sequences\<close>

lemma join_unique:
  assumes "\<And>a x. (a, x) \<in> set A \<Longrightarrow> x \<noteq> [] \<and> hd x \<noteq> close"
    and "\<And>b y. (b, y) \<in> set B \<Longrightarrow> y \<noteq> [] \<and> hd y \<noteq> close"
    and "\<And>a x b y r r'. (a, x) \<in> set A \<Longrightarrow> (b, y) \<in> set B \<Longrightarrow> delim r \<Longrightarrow> delim r' \<Longrightarrow>
           x @ r = y @ r' \<Longrightarrow> P a b \<and> r = r'"
    and "join '','' (map snd A) @ close # r = join '','' (map snd B) @ close # r'"
    and "close \<in> {CHR '']'', CHR ''}''}"
  shows "list_all2 P (map fst A) (map fst B) \<and> r = r'"
  using assms
proof (induction A arbitrary: B)
  case Nil
  show ?case
  proof (cases B)
    case (Cons hb B')
    then obtain b y where hb: "hb = (b, y)" "y \<noteq> []" "hd y \<noteq> close"
      using Nil.prems(2) by (metis list.set_intros(1) surj_pair)
    then have "hd (join '','' (map snd B) @ close # r') = hd y" using Cons by (cases B') auto
    then show ?thesis using Nil.prems(4) hb by (metis append_Nil join.simps(1) list.sel(1) list.map(1))
  qed (use Nil.prems(4) in simp)
next
  case (Cons ax A)
  obtain a x where ax: "ax = (a, x)" by force
  have x: "x \<noteq> []" "hd x \<noteq> close" using Cons.prems(1) ax by auto
  define u where "u = (if A = [] then close # r else CHR '','' # join '','' (map snd A) @ close # r)"
  have ju: "join '','' (map snd (ax # A)) @ close # r = x @ u" by (cases A) (simp_all add: ax u_def)
  have du: "delim u" using Cons.prems(5) by (auto simp: u_def)
  show ?case
  proof (cases B)
    case Nil
    then have "x @ u = close # r'" using Cons.prems(4) ju by simp
    with x show ?thesis by (cases x) auto
  next
    case B: (Cons hb B')
    obtain b y where hb: "hb = (b, y)" by force
    define w where "w = (if B' = [] then close # r' else CHR '','' # join '','' (map snd B') @ close # r')"
    have jw: "join '','' (map snd B) @ close # r' = y @ w" by (cases B') (simp_all add: B hb w_def)
    have dw: "delim w" using Cons.prems(5) by (auto simp: w_def)
    have "P a b \<and> u = w"
      by (rule Cons.prems(3)) (use ax hb B du dw ju jw Cons.prems(4) in auto)
    then have ab: "P a b" and uw: "u = w" by auto
    show ?thesis
    proof (cases "A = []"; cases "B' = []")
      assume "A = []" "B' = []"
      then show ?thesis using ab uw by (simp add: ax hb B u_def w_def)
    next
      assume "A \<noteq> []" "B' \<noteq> []"
      then have "join '','' (map snd A) @ close # r = join '','' (map snd B') @ close # r'"
        using uw by (simp add: u_def w_def)
      then have "list_all2 P (map fst A) (map fst B') \<and> r = r'"
      proof (rule Cons.IH[rotated 3])
        show "\<And>a x b y r r'. (a, x) \<in> set A \<Longrightarrow> (b, y) \<in> set B' \<Longrightarrow> delim r \<Longrightarrow> delim r' \<Longrightarrow>
           x @ r = y @ r' \<Longrightarrow> P a b \<and> r = r'"
          by (rule Cons.prems(3)) (simp_all add: B)
      qed (use Cons.prems(1,2,5) B in auto)
      then show ?thesis using ab by (simp add: ax hb B)
    qed (use uw Cons.prems(5) in \<open>auto simp: u_def w_def\<close>)
  qed
qed

definition text_kind :: "char \<Rightarrow> nat" where
  "text_kind c = (if c = CHR ''n'' then 0 else if c = CHR ''t'' then 1 else if c = CHR ''f'' then 2
     else if c = CHR 0x22 then 3 else if c = CHR ''['' then 4 else if c = CHR ''{'' then 5
     else if is_digit c \<or> c = CHR ''-'' then 6 else if c = CHR ''N'' then 8 else 7)"

fun val_kind :: "pyval \<Rightarrow> nat" where
  "val_kind PNone = 0"
| "val_kind (PBool b) = (if b then 1 else 2)"
| "val_kind (PStr s) = 3"
| "val_kind (PList xs) = 4"
| "val_kind (PTuple xs) = 4"
| "val_kind (PDict d) = 5"
| "val_kind (PInt i) = 6"
| "val_kind (PFloat (FFin q)) = 6"
| "val_kind (PFloat FNonFinite) = 8"
| "val_kind (POther t) = 7"

lemma number_head: "is_digit c \<or> c = CHR ''-'' \<Longrightarrow> text_kind c = 6"
  by (auto simp: text_kind_def is_digit_def)

lemma set_map_fst: "map fst E = xs \<Longrightarrow> (a, t) \<in> set E \<Longrightarrow> a \<in> set xs"
  by force

lemma list_all2_map_eq: "list_all2 (\<lambda>a b. f a = f b) xs ys \<Longrightarrow> map f xs = map f ys"
  by (induction rule: list_all2_induct) auto

definition unique_text :: "(char \<Rightarrow> string) \<Rightarrow> py_error + string \<Rightarrow> (rat \<Rightarrow> string) \<Rightarrow> pyval \<Rightarrow> bool" where
  "unique_text esc nf frepr a \<longleftrightarrow> (\<forall>b x y r r'. json_dumps_with esc nf frepr a = Inr x \<longrightarrow> json_dumps_with esc nf frepr b = Inr y \<longrightarrow>
      delim r \<longrightarrow> delim r' \<longrightarrow> x @ r = y @ r' \<longrightarrow> key_sorted a = key_sorted b \<and> r = r')"

lemma val_kind_4: "val_kind b = 4 \<Longrightarrow> \<exists>ys. b = PList ys \<or> b = PTuple ys"
  and val_kind_5: "val_kind b = 5 \<Longrightarrow> \<exists>d. b = PDict d"
  and val_kind_3: "val_kind b = 3 \<Longrightarrow> \<exists>s. b = PStr s"
  and val_kind_0: "val_kind b = 0 \<Longrightarrow> b = PNone"
  and val_kind_1: "val_kind b = (if c then 1 else 2) \<Longrightarrow> b = PBool c"
proof -
  show "val_kind b = 4 \<Longrightarrow> \<exists>ys. b = PList ys \<or> b = PTuple ys" by (cases b rule: val_kind.cases) (auto split: if_splits)
  show "val_kind b = 5 \<Longrightarrow> \<exists>d. b = PDict d" by (cases b rule: val_kind.cases) (auto split: if_splits)
  show "val_kind b = 3 \<Longrightarrow> \<exists>s. b = PStr s" by (cases b rule: val_kind.cases) (auto split: if_splits)
  show "val_kind b = 0 \<Longrightarrow> b = PNone" by (cases b rule: val_kind.cases) (auto split: if_splits)
  show "val_kind b = (if c then 1 else 2) \<Longrightarrow> b = PBool c" by (cases b rule: val_kind.cases) (auto split: if_splits)
qed

lemma val_kind_8: "val_kind b = 8 \<Longrightarrow> b = PFloat FNonFinite"
  by (cases b rule: val_kind.cases) (auto split: if_splits)

subsection \<open>The text determines the value\<close>

text \<open>The interface between the escaping of strings and the rest of the serialiser: an escape is a prefix-free code that
  never starts with the closing quote, and a non-finite number, if it is written at all, is written as one word.\<close>

locale json_escape =
  fixes esc :: "char \<Rightarrow> string" and nf :: "py_error + string"
  assumes esc_inject: "esc c @ u = esc c' @ u' \<Longrightarrow> c = c' \<and> u = u'"
    and esc_no_quote: "esc c @ u \<noteq> CHR 0x22 # u'"
    and nf_text: "nf = Inr x \<Longrightarrow> x = ''NaN''"
begin

lemma json_body_inject:
  "concat (map esc s) @ CHR 0x22 # r = concat (map esc s') @ CHR 0x22 # r'
     \<Longrightarrow> s = s' \<and> r = r'"
proof (induction s arbitrary: s')
  case Nil
  then show ?case
  proof (cases s')
    case (Cons c s'')
    then show ?thesis using Nil esc_no_quote[of c "concat (map esc s'') @ CHR 0x22 # r'" r]
      by simp
  qed simp
next
  case (Cons c s)
  show ?case
  proof (cases s')
    case Nil
    then show ?thesis
      using Cons.prems esc_no_quote[of c "concat (map esc s) @ CHR 0x22 # r" r'] by simp
  next
    case (Cons c' s'')
    with Cons.prems esc_inject[of c "concat (map esc s) @ CHR 0x22 # r" c'
        "concat (map esc s'') @ CHR 0x22 # r'"] Cons.IH[of s'']
    show ?thesis by simp
  qed
qed

lemma json_string_inject: "json_string esc s @ r = json_string esc s' @ r' \<Longrightarrow> s = s' \<and> r = r'"
  using json_body_inject[of s r s' r'] by (simp add: json_string_def)

lemma dumps_head:
  assumes "float_repr_ok frepr" "json_dumps_with esc nf frepr v = Inr x"
  shows "x \<noteq> [] \<and> text_kind (hd x) = val_kind v \<and> hd x \<notin> set '',]}''"
proof -
  have num: "hd y \<notin> set '',]}''" if "is_digit (hd y) \<or> hd y = CHR ''-''" for y
    using that by (auto simp: is_digit_def)
  have fl: "frepr r \<noteq> []" "is_digit (hd (frepr r)) \<or> hd (frepr r) = CHR ''-''" for r
    using assms(1) by (auto simp: float_repr_ok_def)
  show ?thesis
  proof (cases v)
    case (PInt i)
    then show ?thesis using assms(2) show_int_chars[of i] num[of "show_int i"] number_head by auto
  next
    case (PFloat f)
    show ?thesis
    proof (cases f)
      case (FFin r)
      then show ?thesis using assms(2) fl[of r] num[OF fl(2)[of r]] number_head[OF fl(2)[of r]] PFloat by simp
    next
      case FNonFinite
      then show ?thesis using assms(2) PFloat by (auto simp: text_kind_def is_digit_def dest: nf_text)
    qed
  qed (use assms(2) in \<open>auto simp: text_kind_def json_string_def rbind_Inr_iff split: if_splits\<close>)
qed

lemma dict_entries:
  assumes "json_dumps_with esc nf frepr (PDict d) = Inr x"
  obtains E where "x = ''{'' @ join '','' (map snd E) @ ''}''" "map fst E = sort_key (\<lambda>(k, v). key_str k) d"
    "\<And>k v t. ((k, v), t) \<in> set E \<Longrightarrow> \<exists>s y. k = KStr s \<and> json_dumps_with esc nf frepr v = Inr y \<and> t = json_string esc s @ '':'' @ y"
proof -
  let ?ent = "\<lambda>(k, v). rbind (json_dumps_with esc nf frepr v) (\<lambda>s. Inr (json_string esc (key_str k) @ '':'' @ s))"
  from assms obtain ss where keys: "\<not> list_ex (\<lambda>(k, v). case k of KOther _ \<Rightarrow> True | KStr _ \<Rightarrow> False) d"
    and ss: "rmap ?ent (sort_key (\<lambda>(k, v). key_str k) d) = Inr ss"
    and x: "x = ''{'' @ join '','' ss @ ''}''"
    by (auto simp: rbind_Inr_iff split: if_splits)
  from rmap_Inr[OF ss] have l2: "list_all2 (\<lambda>e t. ?ent e = Inr t) (sort_key (\<lambda>(k, v). key_str k) d) ss" .
  define E where "E = zip (sort_key (\<lambda>(k, v). key_str k) d) ss"
  have len: "length (sort_key (\<lambda>(k, v). key_str k) d) = length ss" using l2 by (rule list_all2_lengthD)
  show ?thesis
  proof (rule that)
    show "x = ''{'' @ join '','' (map snd E) @ ''}''" using x len by (simp add: E_def)
    show "map fst E = sort_key (\<lambda>(k, v). key_str k) d" using len by (simp add: E_def)
    fix k v t
    assume "((k, v), t) \<in> set E"
    then have e: "?ent (k, v) = Inr t" and "(k, v) \<in> set d"
      using l2 by (auto simp: E_def list_all2_iff dest: set_zip_leftD)
    with keys have "\<exists>s. k = KStr s" by (cases k) (auto simp: list_ex_iff)
    with e show "\<exists>s y. k = KStr s \<and> json_dumps_with esc nf frepr v = Inr y \<and> t = json_string esc s @ '':'' @ y"
      by (auto simp: rbind_Inr_iff)
  qed
qed

lemma list_entries:
  assumes "rbind (rmap (json_dumps_with esc nf frepr) xs) (\<lambda>ss. Inr (''['' @ join '','' ss @ '']'')) = Inr x"
  obtains E where "x = ''['' @ join '','' (map snd E) @ '']''" "map fst E = xs"
    "\<And>v t. (v, t) \<in> set E \<Longrightarrow> json_dumps_with esc nf frepr v = Inr t"
proof -
  from assms obtain ss where "rmap (json_dumps_with esc nf frepr) xs = Inr ss" and x: "x = ''['' @ join '','' ss @ '']''"
    by (auto simp: rbind_Inr_iff)
  then have l2: "list_all2 (\<lambda>e t. json_dumps_with esc nf frepr e = Inr t) xs ss" by (simp add: rmap_Inr)
  show ?thesis
    by (rule that[of "zip xs ss"]) (use x l2 in \<open>auto simp: list_all2_iff\<close>)
qed

lemma unique_textD:
  "unique_text esc nf frepr a \<Longrightarrow> json_dumps_with esc nf frepr a = Inr x \<Longrightarrow> json_dumps_with esc nf frepr b = Inr y \<Longrightarrow>
     delim r \<Longrightarrow> delim r' \<Longrightarrow> x @ r = y @ r' \<Longrightarrow> key_sorted a = key_sorted b \<and> r = r'"
  unfolding unique_text_def by blast

lemma unique_text_seq:
  assumes "float_repr_ok frepr" "\<And>a. a \<in> set xs \<Longrightarrow> unique_text esc nf frepr a"
    "rbind (rmap (json_dumps_with esc nf frepr) xs) (\<lambda>ss. Inr (''['' @ join '','' ss @ '']'')) = Inr x"
    "rbind (rmap (json_dumps_with esc nf frepr) ys) (\<lambda>ss. Inr (''['' @ join '','' ss @ '']'')) = Inr y"
    "x @ r = y @ r'"
  shows "map key_sorted xs = map key_sorted ys \<and> r = r'"
proof -
  obtain E where E: "x = ''['' @ join '','' (map snd E) @ '']''" "map fst E = xs"
    "\<And>v t. (v, t) \<in> set E \<Longrightarrow> json_dumps_with esc nf frepr v = Inr t" using list_entries[OF assms(3)] by blast
  obtain F where F: "y = ''['' @ join '','' (map snd F) @ '']''" "map fst F = ys"
    "\<And>v t. (v, t) \<in> set F \<Longrightarrow> json_dumps_with esc nf frepr v = Inr t" using list_entries[OF assms(4)] by blast
  have head: "t \<noteq> [] \<and> hd t \<noteq> CHR '']''" if "json_dumps_with esc nf frepr v = Inr t" for v t
    using dumps_head[OF assms(1) that] by simp
  have "list_all2 (\<lambda>a b. key_sorted a = key_sorted b) (map fst E) (map fst F) \<and> r = r'"
  proof (rule join_unique[where close = "CHR '']''"])
    show "join '','' (map snd E) @ CHR '']'' # r = join '','' (map snd F) @ CHR '']'' # r'"
      using assms(5) E(1) F(1) by simp
    show "\<And>a x b y r r'. (a, x) \<in> set E \<Longrightarrow> (b, y) \<in> set F \<Longrightarrow> delim r \<Longrightarrow> delim r' \<Longrightarrow>
        x @ r = y @ r' \<Longrightarrow> key_sorted a = key_sorted b \<and> r = r'"
      by (rule unique_textD[OF assms(2)[OF set_map_fst[OF E(2)]] E(3) F(3)])
  qed (use E(3) F(3) in \<open>blast dest: head\<close>)+
  then show ?thesis using E(2) F(2) by (simp add: list_all2_map_eq)
qed

lemma unique_text_dict:
  assumes "float_repr_ok frepr" "\<And>k v. (k, v) \<in> set d \<Longrightarrow> unique_text esc nf frepr v"
    "json_dumps_with esc nf frepr (PDict d) = Inr x" "json_dumps_with esc nf frepr (PDict d') = Inr y" "x @ r = y @ r'"
  shows "key_sorted (PDict d) = key_sorted (PDict d') \<and> r = r'"
proof -
  let ?srt = "sort_key (\<lambda>(k, v). key_str k)"
  obtain E where E: "x = ''{'' @ join '','' (map snd E) @ ''}''" "map fst E = ?srt d"
    "\<And>k v t. ((k, v), t) \<in> set E \<Longrightarrow> \<exists>s y. k = KStr s \<and> json_dumps_with esc nf frepr v = Inr y \<and> t = json_string esc s @ '':'' @ y"
    using dict_entries[OF assms(3)] by metis
  obtain F where F: "y = ''{'' @ join '','' (map snd F) @ ''}''" "map fst F = ?srt d'"
    "\<And>k v t. ((k, v), t) \<in> set F \<Longrightarrow> \<exists>s y. k = KStr s \<and> json_dumps_with esc nf frepr v = Inr y \<and> t = json_string esc s @ '':'' @ y"
    using dict_entries[OF assms(4)] by metis
  have "list_all2 (\<lambda>a b. (\<lambda>(k, v). (k, key_sorted v)) a = (\<lambda>(k, v). (k, key_sorted v)) b) (map fst E) (map fst F) \<and> r = r'"
  proof (rule join_unique[where close = "CHR ''}''"])
    show "join '','' (map snd E) @ CHR ''}'' # r = join '','' (map snd F) @ CHR ''}'' # r'"
      using assms(5) E(1) F(1) by simp
    fix a t b u q q'
    assume a: "(a, t) \<in> set E" and b: "(b, u) \<in> set F" and q: "delim q" "delim q'" and eq: "t @ q = u @ q'"
    obtain k v l w where [simp]: "a = (k, v)" "b = (l, w)" by force
    from E(3)[of k v t] a obtain s m where s: "k = KStr s" "json_dumps_with esc nf frepr v = Inr m" "t = json_string esc s @ '':'' @ m" by auto
    from F(3)[of l w u] b obtain s' m' where s': "l = KStr s'" "json_dumps_with esc nf frepr w = Inr m'" "u = json_string esc s' @ '':'' @ m'" by auto
    from eq have "json_string esc s @ CHR '':'' # m @ q = json_string esc s' @ CHR '':'' # m' @ q'" by (simp add: s s')
    from json_string_inject[OF this] have "s = s'" "m @ q = m' @ q'" by auto
    moreover have "(k, v) \<in> set d" using set_map_fst[OF E(2) a] by simp
    ultimately show "(\<lambda>(k, v). (k, key_sorted v)) a = (\<lambda>(k, v). (k, key_sorted v)) b \<and> q = q'"
      using unique_textD[OF assms(2) s(2) s'(2) q] s s' by simp
  qed (use E(3) F(3) in \<open>force simp: json_string_def\<close>)+
  then show ?thesis using E(2) F(2) by (simp add: list_all2_map_eq)
qed

lemma unique_text_number:
  assumes "float_repr_ok frepr" "json_dumps_with esc nf frepr a = Inr x" "json_dumps_with esc nf frepr b = Inr y"
    "val_kind a = 6" "val_kind b = 6" "delim r" "delim r'" "x @ r = y @ r'"
  shows "key_sorted a = key_sorted b \<and> r = r'"
proof -
  have num: "list_all num_char z" if "json_dumps_with esc nf frepr v = Inr z" "val_kind v = 6" for v z
    using that assms(1) show_int_chars(2)
    by (cases "(esc, nf, frepr, v)" rule: json_dumps_with.cases) (auto simp: float_repr_ok_def split: if_splits)
  have kinds: "(\<exists>i. v = PInt i \<and> z = show_int i) \<or> (\<exists>q. v = PFloat (FFin q) \<and> z = frepr q)"
    if "json_dumps_with esc nf frepr v = Inr z" "val_kind v = 6" for v z
    using that by (cases "(esc, nf, frepr, v)" rule: json_dumps_with.cases) (auto split: if_splits)
  have xy: "x = y \<and> r = r'"
    by (rule num_text_unique[OF num[OF assms(2,4)] num[OF assms(3,5)] assms(6-8)])
  have "a = b"
  proof -
    have "frepr q \<noteq> show_int i" for q i using assms(1) show_int_chars(4)[of i] unfolding float_repr_ok_def by metis
    moreover have "frepr q = frepr q' \<Longrightarrow> q = q'" for q q'
      using assms(1) by (auto simp: float_repr_ok_def dest: injD)
    ultimately show ?thesis
      using kinds[OF assms(2,4)] kinds[OF assms(3,5)] xy show_int_inject by (elim disjE exE conjE) metis+
  qed
  with xy show ?thesis by simp
qed

lemma unique_textI:
  assumes ok: "float_repr_ok frepr"
    and step: "\<And>b x y r r'. json_dumps_with esc nf frepr a = Inr x \<Longrightarrow> json_dumps_with esc nf frepr b = Inr y \<Longrightarrow>
       val_kind b = val_kind a \<Longrightarrow> delim r \<Longrightarrow> delim r' \<Longrightarrow> x @ r = y @ r' \<Longrightarrow>
       key_sorted a = key_sorted b \<and> r = r'"
  shows "unique_text esc nf frepr a"
  unfolding unique_text_def
proof (intro allI impI)
  fix b x y r r'
  assume x: "json_dumps_with esc nf frepr a = Inr x" and y: "json_dumps_with esc nf frepr b = Inr y"
    and d: "delim r" "delim r'" and eq: "x @ r = y @ r'"
  have "hd x = hd y" using eq dumps_head[OF ok x] dumps_head[OF ok y] by (metis hd_append2)
  then have "val_kind b = val_kind a" using dumps_head[OF ok x] dumps_head[OF ok y] by simp
  then show "key_sorted a = key_sorted b \<and> r = r'" by (rule step[OF x y _ d eq])
qed

lemma all_unique_text: "float_repr_ok frepr \<Longrightarrow> unique_text esc nf frepr a"
proof (induction a)
  case PNone
  then show ?case by (rule unique_textI) (auto dest: val_kind_0)
next
  case (PBool c)
  then show ?case by (rule unique_textI) (drule val_kind_1[of _ c, OF trans], auto)
next
  case (PInt i)
  then show ?case by (rule unique_textI) (rule unique_text_number[OF PInt], auto)
next
  case (PFloat f)
  show ?case
  proof (cases f)
    case (FFin q)
    show ?thesis unfolding FFin by (rule unique_textI[OF PFloat]) (rule unique_text_number[OF PFloat], auto)
  next
    case FNonFinite
    show ?thesis unfolding FNonFinite by (rule unique_textI[OF PFloat]) (auto dest: val_kind_8)
  qed
next
  case (PStr s)
  then show ?case by (rule unique_textI) (auto dest!: val_kind_3 json_string_inject)
next
  case (PList xs)
  show ?case
  proof (rule unique_textI[OF PList.prems])
    fix b x y r r'
    assume a: "json_dumps_with esc nf frepr (PList xs) = Inr x" "json_dumps_with esc nf frepr b = Inr y"
      "val_kind b = val_kind (PList xs)" "x @ r = y @ r'"
    then obtain ys where ys: "b = PList ys \<or> b = PTuple ys" using val_kind_4[of b] by auto
    with a(2) have y: "rbind (rmap (json_dumps_with esc nf frepr) ys) (\<lambda>ss. Inr (''['' @ join '','' ss @ '']'')) = Inr y" by auto
    from unique_text_seq[OF PList.prems PList.IH[OF _ PList.prems] _ y a(4)] a(1) ys
    show "key_sorted (PList xs) = key_sorted b \<and> r = r'" by auto
  qed
next
  case (PTuple xs)
  show ?case
  proof (rule unique_textI[OF PTuple.prems])
    fix b x y r r'
    assume a: "json_dumps_with esc nf frepr (PTuple xs) = Inr x" "json_dumps_with esc nf frepr b = Inr y"
      "val_kind b = val_kind (PTuple xs)" "x @ r = y @ r'"
    then obtain ys where ys: "b = PList ys \<or> b = PTuple ys" using val_kind_4[of b] by auto
    with a(2) have y: "rbind (rmap (json_dumps_with esc nf frepr) ys) (\<lambda>ss. Inr (''['' @ join '','' ss @ '']'')) = Inr y" by auto
    from unique_text_seq[OF PTuple.prems PTuple.IH[OF _ PTuple.prems] _ y a(4)] a(1) ys
    show "key_sorted (PTuple xs) = key_sorted b \<and> r = r'" by auto
  qed
next
  case (PDict d)
  have IH: "unique_text esc nf frepr v" if "(k, v) \<in> set d" for k v
    using PDict.IH[OF that, of v] PDict.prems by simp
  show ?case
  proof (rule unique_textI[OF PDict.prems])
    fix b x y r r'
    assume a: "json_dumps_with esc nf frepr (PDict d) = Inr x" "json_dumps_with esc nf frepr b = Inr y"
      "val_kind b = val_kind (PDict d)" "x @ r = y @ r'"
    then obtain d' where b: "b = PDict d'" using val_kind_5[of b] by auto
    show "key_sorted (PDict d) = key_sorted b \<and> r = r'"
      unfolding b by (rule unique_text_dict[OF PDict.prems IH a(1) a(2)[unfolded b] a(4)])
  qed
next
  case (POther t)
  then show ?case by (rule unique_textI) auto
qed

text \<open>The result used by every hash of the kernel.\<close>

lemma json_dumps_inject:
  assumes "float_repr_ok frepr" "json_dumps_with esc nf frepr a = Inr x" "json_dumps_with esc nf frepr b = Inr x"
  shows "key_sorted a = key_sorted b"
  using unique_textD[OF all_unique_text[OF assms(1)] assms(2,3), of "[]" "[]"] by simp

end

interpretation unicode: json_escape json_escape_char "Inl ValueError"
  by unfold_locales (auto dest: json_escape_inject json_escape_no_quote[THEN notE])

interpretation ascii: json_escape json_escape_ascii "Inr ''NaN''"
  by unfold_locales (auto dest: json_ascii_inject json_ascii_no_quote[THEN notE])

text \<open>A rendering of this kind: numerator and denominator.\<close>

definition demo_frepr :: "rat \<Rightarrow> string" where
  "demo_frepr q = show_int (fst (quotient_of q)) @ ''.'' @ show_int (snd (quotient_of q))"

lemma demo_frepr_ok: "float_repr_ok demo_frepr"
proof -
  have dot: "CHR ''.'' \<notin> set (show_int i)" for i
    using show_int_chars(4)[of i] by (auto simp: list_ex_iff)
  have "inj demo_frepr"
  proof (rule injI)
    fix p q assume e: "demo_frepr p = demo_frepr q"
    have f: "show_int (fst (quotient_of p)) = show_int (fst (quotient_of q))"
      using e dot sep_unique[of "CHR ''.''"] unfolding demo_frepr_def by (metis append_Cons append_Nil)
    with e have "show_int (snd (quotient_of p)) = show_int (snd (quotient_of q))" by (simp add: demo_frepr_def)
    with f show "p = q" using show_int_inject quotient_of_inject_eq by (metis prod.expand)
  qed
  moreover have "list_all num_char (demo_frepr q)" for q
    using show_int_chars(2) by (simp add: demo_frepr_def num_char_def)
  ultimately show ?thesis using show_int_chars(1,3) by (simp add: float_repr_ok_def demo_frepr_def)
qed

subsection \<open>Canonical values\<close>

fun canonical_key :: "(string \<Rightarrow> string) \<Rightarrow> pykey \<Rightarrow> bool" where
  "canonical_key nfc (KStr s) = (nfc s = s)"
| "canonical_key nfc (KOther s) = False"

fun canonical :: "(string \<Rightarrow> string) \<Rightarrow> pyval \<Rightarrow> bool" where
  "canonical nfc (PStr s) = (nfc s = s)"
| "canonical nfc (PFloat f) = (f \<noteq> FNonFinite)"
| "canonical nfc (PList xs) = list_all (canonical nfc) xs"
| "canonical nfc (PTuple xs) = False"
| "canonical nfc (PDict d) = (distinct (map fst d) \<and> list_all (\<lambda>(k, v). canonical_key nfc k \<and> canonical nfc v) d)"
| "canonical nfc (POther t) = False"
| "canonical nfc v = True"

definition nfc_idem :: "(string \<Rightarrow> string) \<Rightarrow> bool" where
  "nfc_idem nfc \<longleftrightarrow> (\<forall>s. nfc (nfc s) = nfc s)"

lemma normalise_items_canonical:
  assumes "nfc_idem nfc" "\<And>k v w. (k, v) \<in> set d \<Longrightarrow> normalise_json nfc v = Inr w \<Longrightarrow> canonical nfc w"
    "normalise_items nfc out d = Inr out'" "canonical nfc (PDict out)"
  shows "canonical nfc (PDict out')"
  using assms(2-4)
proof (induction d arbitrary: out)
  case (Cons kv d)
  obtain k v where kv: "kv = (k, v)" by force
  from Cons.prems(2) obtain raw w where raw: "k = KStr raw" "KStr (nfc raw) \<notin> fst ` set out"
    "normalise_json nfc v = Inr w" "normalise_items nfc (out @ [(KStr (nfc raw), w)]) d = Inr out'"
    by (auto simp: kv rbind_Inr_iff split: pykey.splits if_splits)
  have w: "canonical nfc w" by (rule Cons.prems(1)[of k v]) (simp_all add: kv raw)
  have "nfc (nfc raw) = nfc raw" using assms(1) by (simp add: nfc_idem_def)
  with w raw(2) Cons.prems(3) have "canonical nfc (PDict (out @ [(KStr (nfc raw), w)]))" by simp
  with raw(4) show ?case by (rule Cons.IH[rotated]) (use Cons.prems(1) in auto)
qed simp

lemma rmap_Inr_all:
  assumes "rmap f xs = Inr ys" "\<And>x y. x \<in> set xs \<Longrightarrow> f x = Inr y \<Longrightarrow> P y"
  shows "list_all P ys"
  using assms
proof (induction xs arbitrary: ys)
  case (Cons x xs)
  then obtain z zs where z: "f x = Inr z" "rmap f xs = Inr zs" "ys = z # zs" by (auto simp: rbind_Inr_iff)
  have "P z" using Cons.prems(2)[of x z] z by simp
  moreover have "list_all P zs" by (rule Cons.IH[OF z(2)]) (use Cons.prems(2) in auto)
  ultimately show ?case using z by simp
qed simp

lemma normalise_canonical: "nfc_idem nfc \<Longrightarrow> normalise_json nfc v = Inr w \<Longrightarrow> canonical nfc w"
proof (induction v arbitrary: w)
  case (PList xs)
  then obtain ys where "rmap (normalise_json nfc) xs = Inr ys" "w = PList ys" by (auto simp: rbind_Inr_iff)
  moreover from this(1) have "list_all (canonical nfc) ys"
    by (rule rmap_Inr_all) (use PList.IH PList.prems(1) in blast)
  ultimately show ?case by simp
next
  case (PTuple xs)
  then obtain ys where "rmap (normalise_json nfc) xs = Inr ys" "w = PList ys" by (auto simp: rbind_Inr_iff)
  moreover from this(1) have "list_all (canonical nfc) ys"
    by (rule rmap_Inr_all) (use PTuple.IH PTuple.prems(1) in blast)
  ultimately show ?case by simp
next
  case (PDict d)
  from PDict.prems(2) obtain out where out: "normalise_items nfc [] d = Inr out" "w = PDict out"
    by (auto simp: rbind_Inr_iff)
  show ?case unfolding out(2)
    by (rule normalise_items_canonical[OF PDict.prems(1) _ out(1)]) (use PDict.IH PDict.prems(1) in auto)
next
  case (PFloat f)
  then show ?case by (cases f) auto
qed (auto simp: nfc_idem_def)

lemma rmap_id: "(\<And>x. x \<in> set xs \<Longrightarrow> f x = Inr x) \<Longrightarrow> rmap f xs = Inr xs"
  by (induction xs) auto

lemma rmap_total: "(\<And>x. x \<in> set xs \<Longrightarrow> \<exists>y. f x = Inr y) \<Longrightarrow> \<exists>ys. rmap f xs = Inr ys"
proof (induction xs)
  case (Cons x xs)
  then obtain y ys where "f x = Inr y" "rmap f xs = Inr ys" by (metis list.set_intros)
  then show ?case by simp
qed simp

lemma normalise_items_id:
  assumes "canonical nfc (PDict (out @ d))" "\<And>k v. (k, v) \<in> set d \<Longrightarrow> normalise_json nfc v = Inr v"
  shows "normalise_items nfc out d = Inr (out @ d)"
  using assms
proof (induction d arbitrary: out)
  case (Cons kv d)
  obtain k v where kv: "kv = (k, v)" by force
  from Cons.prems(1) obtain raw where "k = KStr raw" "nfc raw = raw" by (cases k) (auto simp: kv)
  moreover have "normalise_json nfc v = Inr v" using Cons.prems(2)[of k v] kv by simp
  moreover have "normalise_items nfc (out @ [kv]) d = Inr ((out @ [kv]) @ d)"
    using Cons.prems by (intro Cons.IH) auto
  ultimately show ?case using Cons.prems(1) by (simp add: kv)
qed simp

lemma canonical_normalise: "canonical nfc v \<Longrightarrow> normalise_json nfc v = Inr v"
proof (induction v)
  case (PList xs)
  then have "rmap (normalise_json nfc) xs = Inr xs" by (intro rmap_id) (auto simp: list_all_iff)
  then show ?case by simp
next
  case (PDict d)
  have "normalise_items nfc [] d = Inr ([] @ d)"
  proof (rule normalise_items_id)
    fix k v assume "(k, v) \<in> set d"
    then show "normalise_json nfc v = Inr v" using PDict.IH[of "(k, v)" v] PDict.prems by (auto simp: list_all_iff)
  qed (use PDict.prems in simp)
  then show ?case by simp
next
  case (PFloat f)
  then show ?case by (cases f) auto
qed auto

lemma canonical_serialises: "canonical nfc v \<Longrightarrow> \<exists>t. json_dumps frepr v = Inr t"
proof (induction v)
  case (PList xs)
  then have "\<exists>ys. rmap (json_dumps frepr) xs = Inr ys" by (intro rmap_total) (auto simp: list_all_iff)
  then show ?case by auto
next
  case (PDict d)
  have "\<exists>y. json_dumps frepr v = Inr y" if "(k, v) \<in> set d" for k v
    using PDict.IH[OF that, of v] PDict.prems that by (auto simp: list_all_iff)
  then have "\<exists>ys. rmap (\<lambda>(k, v). rbind (json_dumps frepr v) (\<lambda>s. Inr (json_string json_escape_char (key_str k) @ '':'' @ s)))
      (sort_key (\<lambda>(k, v). key_str k) d) = Inr ys" by (intro rmap_total) (fastforce simp: rbind_Inr_iff)
  moreover have "\<not> list_ex (\<lambda>(k, v). case k of KOther _ \<Rightarrow> True | KStr _ \<Rightarrow> False) d"
    using PDict.prems by (auto simp: list_ex_iff list_all_iff split: pykey.splits)
  ultimately show ?case by auto
next
  case (PFloat f)
  then show ?case by (cases f) auto
qed auto

text \<open>The canonical form an approval is fingerprinted over is a fixed point and always has a JSON
  text: whatever \<open>_normalise_json\<close> accepts, it maps to a value that it maps to itself and that
  \<^verbatim>\<open>json.dumps(..., allow_nan=False)\<close> serialises without an error.\<close>

lemma canonical_value_is_stable:
  assumes "nfc_idem nfc" and "normalise_json nfc v = Inr w"
  shows "normalise_json nfc w = Inr w \<and> (\<exists>t. json_dumps frepr w = Inr t)"
  using normalise_canonical[OF assms] canonical_normalise canonical_serialises by blast

subsection \<open>What an approver is shown\<close>

text \<open>A value shows no secret when no string in it is secret-shaped and every sensitive key holds the
  placeholder.\<close>

fun shows_no_secret :: "pyval \<Rightarrow> bool" where
  "shows_no_secret (PDict d) =
     list_all (\<lambda>(k, v). (sensitive_key k \<longrightarrow> v = PStr ''[redacted]'') \<and> shows_no_secret v) d"
| "shows_no_secret (PList xs) = list_all shows_no_secret xs"
| "shows_no_secret (PTuple xs) = list_all shows_no_secret xs"
| "shows_no_secret (PStr s) = (\<not> secret_string s)"
| "shows_no_secret v = True"

lemma placeholder_not_secret [simp]: "\<not> secret_string ''[redacted]''"
  by code_simp

lemma sensitive_key_str [simp]: "sensitive_key (KStr (key_str k)) = sensitive_key k"
  by (simp add: sensitive_key_def)

lemma display_shows_no_secret: "shows_no_secret (approval_display_value v)"
proof (induction v)
  case (PDict d)
  have "shows_no_secret (approval_display_value v)" if "(k, v) \<in> set d" for k v using PDict[OF that, of v] by simp
  then show ?case by (auto simp: list_all_iff)
qed (auto simp: list_all_iff)

lemma display_faithful: "\<not> secret_shaped v \<Longrightarrow> canonical nfc v \<Longrightarrow> approval_display_value v = v"
proof (induction v)
  case (PList xs)
  then show ?case by (auto simp: list_ex_iff list_all_iff intro!: map_idI)
next
  case (PDict d)
  have "(KStr (key_str k), if sensitive_key k then PStr ''[redacted]'' else approval_display_value v) = (k, v)"
    if "(k, v) \<in> set d" for k v
    using PDict.IH[OF that, of v] PDict.prems that by (cases k) (auto simp: list_ex_iff list_all_iff)
  then show ?case by (auto intro!: map_idI)
qed auto



end
