(* ===== verification/HeldCall.thy ===== *)
theory HeldCall
  imports Context "HOL-Library.AList" "HOL-Library.Product_Lexorder"
begin

text \<open>
  Held calls, \<^verbatim>\<open>boltrig/kernel/held_call.py\<close>: the record a write paused for approval is replayed from, with the two
  tables it lives in, run checkpoints and sealed credential references (\<^verbatim>\<open>boltrig/store/memory.py\<close>), and the
  identifiers of \<^verbatim>\<open>boltrig/kernel/run_scoped_credentials.py\<close>.

  Sealing at rest (\<^verbatim>\<open>store/sealing.py\<close>, an authenticated cipher) is a pair of parameters: \<open>seal\<close> and \<open>unseal\<close>.
  The gate may be called without a store (\<^verbatim>\<open>store=None\<close>), so the store argument of the redeemer lookup is an option;
  a store that is present is the in-memory one, which has every seam \<^verbatim>\<open>_REQUIRED_SEAMS\<close> asks for. \<^verbatim>\<open>str(value)\<close> of a
  value that is not a string is the parameter \<open>pstr\<close>.
\<close>

record run_checkpoint =
  cp_tenant_id :: string
  cp_run_id :: string
  cp_step :: string
  cp_status :: string
  cp_output :: "pydict option"
  cp_hitl_request_id :: "string option"
  cp_updated_at :: instant

record run_store =
  rs_checkpoints :: "((string \<times> string \<times> string) \<times> run_checkpoint) list"
  rs_creds :: "((string \<times> string) \<times> pydict) list"

definition run_store_empty :: run_store where
  "run_store_empty = \<lparr>rs_checkpoints = [], rs_creds = []\<rparr>"

subsection \<open>The tables\<close>

definition upsert_checkpoint ::
  "run_store \<Rightarrow> instant \<Rightarrow> string \<Rightarrow> string \<Rightarrow> string \<Rightarrow> string \<Rightarrow> pydict option \<Rightarrow> string option \<Rightarrow> run_store" where
  "upsert_checkpoint s now t run_id step status output hitl_request_id =
     s\<lparr>rs_checkpoints := AList.update (t, run_id, step)
        \<lparr>cp_tenant_id = t, cp_run_id = run_id, cp_step = step, cp_status = status, cp_output = output,
         cp_hitl_request_id = hitl_request_id, cp_updated_at = now\<rparr> (rs_checkpoints s)\<rparr>"

definition list_checkpoints :: "run_store \<Rightarrow> string \<Rightarrow> string \<Rightarrow> run_checkpoint list" where
  "list_checkpoints s t run_id =
     sort_key (\<lambda>c. (cp_updated_at c, cp_step c))
       (map snd (filter (\<lambda>((t', r, _), _). t' = t \<and> r = run_id) (rs_checkpoints s)))"

definition get_credential_ref ::
  "(pydict \<Rightarrow> pydict) \<Rightarrow> run_store \<Rightarrow> string \<Rightarrow> string \<Rightarrow> pydict option" where
  "get_credential_ref unseal s t cred_id = map_option unseal (map_of (rs_creds s) (t, cred_id))"

definition set_credential_ref ::
  "(pydict \<Rightarrow> pydict) \<Rightarrow> run_store \<Rightarrow> string \<Rightarrow> string \<Rightarrow> pydict \<Rightarrow> run_store" where
  "set_credential_ref seal s t cred_id ref = s\<lparr>rs_creds := AList.update (t, cred_id) (seal ref) (rs_creds s)\<rparr>"

definition delete_credential_ref :: "run_store \<Rightarrow> string \<Rightarrow> string \<Rightarrow> run_store" where
  "delete_credential_ref s t cred_id = s\<lparr>rs_creds := AList.delete (t, cred_id) (rs_creds s)\<rparr>"

definition delete_credential_refs_for_run :: "run_store \<Rightarrow> string \<Rightarrow> string \<Rightarrow> nat \<times> run_store" where
  "delete_credential_refs_for_run s t run_id =
     (let prefix = ''run:'' @ run_id @ '':'';
          doomed = (\<lambda>k. fst k = t \<and> startswith (snd k) prefix)
      in (length (filter (doomed \<circ> fst) (rs_creds s)),
          s\<lparr>rs_creds := filter (Not \<circ> doomed \<circ> fst) (rs_creds s)\<rparr>))"

subsection \<open>Identifiers\<close>

definition RUN_SCOPED_CRED_PREFIX :: string where "RUN_SCOPED_CRED_PREFIX = ''run:''"
definition RUN_SCOPED_REF_PREFIX :: string where "RUN_SCOPED_REF_PREFIX = ''credential:run/''"
definition HELD_CALL_KIND :: string where "HELD_CALL_KIND = ''held_call''"
definition HELD_STEP_PREFIX :: string where "HELD_STEP_PREFIX = ''held:''"
definition HELD_PAUSED :: string where "HELD_PAUSED = ''paused''"
definition HELD_SPENT :: string where "HELD_SPENT = ''done''"
definition HELD_ROOT_KEY :: string where "HELD_ROOT_KEY = ''held_run_id''"

definition run_scoped_cred_id :: "string \<Rightarrow> string \<Rightarrow> string" where
  "run_scoped_cred_id run_id purpose = RUN_SCOPED_CRED_PREFIX @ run_id @ '':'' @ purpose"

definition adapter_bearer_cred_id :: "string \<Rightarrow> string \<Rightarrow> string" where
  "adapter_bearer_cred_id run_id adapter_id = RUN_SCOPED_CRED_PREFIX @ run_id @ '':adapter_bearer:'' @ adapter_id"

definition held_call_cred_id :: "string \<Rightarrow> string \<Rightarrow> string" where
  "held_call_cred_id run_id request_id = RUN_SCOPED_CRED_PREFIX @ run_id @ '':held_call:'' @ request_id"

definition owner_matches :: "pydict \<Rightarrow> string option \<Rightarrow> bool" where
  "owner_matches ref context_owner \<longleftrightarrow>
     truthy (dict_get ref ''owner'') \<and>
     (case context_owner of None \<Rightarrow> False | Some u \<Rightarrow> u \<noteq> [] \<and> dict_get ref ''owner'' = PStr u)"

definition parse_run_scoped_ref :: "pyval \<Rightarrow> (string \<times> string) option" where
  "parse_run_scoped_ref v =
     (case v of
        PStr s \<Rightarrow> (if \<not> startswith s RUN_SCOPED_REF_PREFIX then None
          else case split_on CHR ''/'' (drop (length RUN_SCOPED_REF_PREFIX) s) of
                 [a, b] \<Rightarrow> if a = [] \<or> b = [] then None else Some (a, b)
               | _ \<Rightarrow> None)
      | _ \<Rightarrow> None)"

definition held_step :: "string \<Rightarrow> string" where
  "held_step call_id = HELD_STEP_PREFIX @ call_id"

definition is_held_step :: "string \<Rightarrow> bool" where
  "is_held_step step = startswith step HELD_STEP_PREFIX"

text \<open>\<^verbatim>\<open>a or b\<close> on optional strings.\<close>

definition str_or :: "string option \<Rightarrow> string option \<Rightarrow> string option" where
  "str_or a b = (case a of None \<Rightarrow> b | Some s \<Rightarrow> if s = [] then b else a)"

definition nonempty :: "string option \<Rightarrow> bool" where
  "nonempty x = (case x of None \<Rightarrow> False | Some s \<Rightarrow> s \<noteq> [])"

definition root_run_id :: "invocation_context \<Rightarrow> string option" where
  "root_run_id ctx = str_or (ctx_parent_run_id ctx) (ctx_run_id ctx)"

definition held_owner :: "invocation_context \<Rightarrow> string" where
  "held_owner ctx = (case ctx_on_behalf_of ctx of None \<Rightarrow> ctx_actor ctx
     | Some u \<Rightarrow> if u = [] then ctx_actor ctx else u)"

subsection \<open>Recording and naming the redeemer\<close>

datatype lane = CALLER | HELD_WRITE | INTERPRETER

definition can_record_held_call :: "run_store option \<Rightarrow> invocation_context \<Rightarrow> bool" where
  "can_record_held_call store ctx \<longleftrightarrow> held_owner ctx \<noteq> [] \<and> store \<noteq> None"

definition run_is_checkpointed :: "run_store option \<Rightarrow> string \<Rightarrow> string \<Rightarrow> bool" where
  "run_is_checkpointed store t run_id =
     (case store of None \<Rightarrow> False | Some s \<Rightarrow> list_checkpoints s t run_id \<noteq> [])"

definition name_redeemer :: "run_store option \<Rightarrow> invocation_context \<Rightarrow> lane option" where
  "name_redeemer store ctx =
     (let root = root_run_id ctx
      in if \<not> nonempty root then Some CALLER
         else if can_record_held_call store ctx then Some HELD_WRITE
         else if run_is_checkpointed store (ctx_tenant_id ctx) (the root) then Some INTERPRETER
         else None)"

definition held_ref ::
  "invocation_context \<Rightarrow> string \<Rightarrow> string \<Rightarrow> string \<Rightarrow> pydict \<Rightarrow> string \<Rightarrow> pydict" where
  "held_ref ctx root_id noun verb params request_id =
     [(KStr ''kind'', PStr HELD_CALL_KIND),
      (KStr ''run_id'', PStr root_id),
      (KStr ''request_id'', PStr request_id),
      (KStr ''owner'', PStr (held_owner ctx)),
      (KStr ''value'', PDict [(KStr ''noun'', PStr noun), (KStr ''verb'', PStr verb), (KStr ''params'', PDict params),
         (KStr ''ctx'', PDict (context_to_envelope ctx))])]"

definition record_held_call ::
  "(pydict \<Rightarrow> pydict) \<Rightarrow> run_store \<Rightarrow> instant \<Rightarrow> invocation_context \<Rightarrow> string \<Rightarrow> string \<Rightarrow> pydict \<Rightarrow> string \<Rightarrow> string
     \<Rightarrow> bool \<times> run_store" where
  "record_held_call seal s now ctx noun verb params request_id call_id =
     (let root = root_run_id ctx
      in if \<not> nonempty root \<or> \<not> can_record_held_call (Some s) ctx then (False, s)
         else let r = the root; t = ctx_tenant_id ctx;
                  s1 = set_credential_ref seal s t (held_call_cred_id r request_id)
                         (held_ref ctx r noun verb params request_id);
                  s2 = upsert_checkpoint s1 now t r (held_step call_id) HELD_PAUSED None (Some request_id);
                  s3 = (if nonempty (ctx_run_id ctx) \<and> ctx_run_id ctx \<noteq> Some r
                        then upsert_checkpoint s2 now t (the (ctx_run_id ctx)) (held_step call_id) HELD_PAUSED
                               (Some [(KStr HELD_ROOT_KEY, PStr r)]) (Some request_id)
                        else s2)
              in (True, s3))"

subsection \<open>Reading and settling\<close>

record held_call =
  hc_noun :: string
  hc_verb :: string
  hc_params :: pydict
  hc_context :: invocation_context
  hc_request_id :: string
  hc_run_id :: string
  hc_call_id :: string

definition paused_held :: "run_store \<Rightarrow> string \<Rightarrow> string \<Rightarrow> string \<Rightarrow> run_checkpoint list \<times> string list" where
  "paused_held s t run_id request_id =
     (let paused = filter (\<lambda>c. cp_hitl_request_id c = Some request_id \<and> cp_status c = HELD_PAUSED)
                     (list_checkpoints s t run_id)
      in (filter (\<lambda>c. is_held_step (cp_step c)) paused,
          map cp_step (filter (\<lambda>c. \<not> is_held_step (cp_step c)) paused)))"

definition str_val :: "(pyval \<Rightarrow> string) \<Rightarrow> pyval \<Rightarrow> string" where
  "str_val pstr v = (case v of PStr s \<Rightarrow> s | _ \<Rightarrow> pstr v)"

fun pointed_root :: "(pyval \<Rightarrow> string) \<Rightarrow> run_checkpoint list \<Rightarrow> string \<Rightarrow> string" where
  "pointed_root pstr [] fallback = fallback"
| "pointed_root pstr (c # cs) fallback =
     (let root = (case cp_output c of None \<Rightarrow> PNone | Some d \<Rightarrow> dict_get d HELD_ROOT_KEY)
      in if truthy root then str_val pstr root else pointed_root pstr cs fallback)"

definition held_write_is_waiting :: "run_store \<Rightarrow> string \<Rightarrow> string \<Rightarrow> string \<Rightarrow> bool" where
  "held_write_is_waiting s t run_id request_id \<longleftrightarrow>
     run_id \<noteq> [] \<and> request_id \<noteq> [] \<and>
     fst (paused_held s t run_id request_id) \<noteq> [] \<and> snd (paused_held s t run_id request_id) = []"

definition any_held_call_paused :: "run_store \<Rightarrow> string \<Rightarrow> string \<Rightarrow> bool" where
  "any_held_call_paused s t run_id \<longleftrightarrow>
     run_id \<noteq> [] \<and>
     list_ex (\<lambda>c. cp_status c = HELD_PAUSED \<and> is_held_step (cp_step c)) (list_checkpoints s t run_id)"

definition sweep_run_credentials_if_settled :: "run_store \<Rightarrow> string \<Rightarrow> string \<Rightarrow> nat \<times> run_store" where
  "sweep_run_credentials_if_settled s t run_id =
     (if run_id = [] then (0, s)
      else if any_held_call_paused s t run_id then (0, s)
      else delete_credential_refs_for_run s t run_id)"

definition held_run_id :: "(pyval \<Rightarrow> string) \<Rightarrow> run_store \<Rightarrow> string \<Rightarrow> string \<Rightarrow> string \<Rightarrow> string" where
  "held_run_id pstr s t run_id request_id = pointed_root pstr (fst (paused_held s t run_id request_id)) run_id"

text \<open>\<^verbatim>\<open>str(value or "")\<close> and \<^verbatim>\<open>dict(value or {})\<close>.\<close>

definition str_or_empty :: "(pyval \<Rightarrow> string) \<Rightarrow> pyval \<Rightarrow> string" where
  "str_or_empty pstr v = (if truthy v then str_val pstr v else [])"

definition read_held_call ::
  "(pyval \<Rightarrow> string) \<Rightarrow> (pydict \<Rightarrow> pydict) \<Rightarrow> run_store \<Rightarrow> string \<Rightarrow> string \<Rightarrow> string
     \<Rightarrow> envelope_error + held_call option" where
  "read_held_call pstr unseal s t run_id request_id =
     (let held = fst (paused_held s t run_id request_id)
      in if held = [] then Inr None
         else let root = pointed_root pstr held run_id
              in case get_credential_ref unseal s t (held_call_cred_id root request_id) of
                   None \<Rightarrow> Inr None
                 | Some ref \<Rightarrow>
                     (if dict_get ref ''kind'' \<noteq> PStr HELD_CALL_KIND \<or> dict_get ref ''run_id'' \<noteq> PStr root
                         \<or> dict_get ref ''request_id'' \<noteq> PStr request_id then Inr None
                      else case dict_get ref ''value'' of
                             PDict call \<Rightarrow>
                               (case dict_get call ''ctx'' of
                                  PDict env \<Rightarrow>
                                    rbind (to_dict (dict_get call ''params'')) (\<lambda>params.
                                    rbind (context_from_envelope env) (\<lambda>ctx.
                                      Inr (Some \<lparr>hc_noun = str_or_empty pstr (dict_get call ''noun''),
                                        hc_verb = str_or_empty pstr (dict_get call ''verb''),
                                        hc_params = params, hc_context = ctx, hc_request_id = request_id,
                                        hc_run_id = root,
                                        hc_call_id = drop (length HELD_STEP_PREFIX) (cp_step (hd held))\<rparr>)))
                                | _ \<Rightarrow> Inr None)
                           | _ \<Rightarrow> Inr None))"

definition spend_rows :: "run_store \<Rightarrow> instant \<Rightarrow> string \<Rightarrow> string \<Rightarrow> string \<Rightarrow> run_checkpoint list \<Rightarrow> run_store" where
  "spend_rows s now t run request_id rows =
     fold (\<lambda>c s. upsert_checkpoint s now t run (cp_step c) HELD_SPENT (cp_output c) (Some request_id)) rows s"

definition settle_held_call ::
  "(pyval \<Rightarrow> string) \<Rightarrow> run_store \<Rightarrow> instant \<Rightarrow> string \<Rightarrow> string \<Rightarrow> string \<Rightarrow> run_store" where
  "settle_held_call pstr s now t run_id request_id =
     (if run_id = [] then s
      else let held = fst (paused_held s t run_id request_id);
               root = pointed_root pstr held run_id;
               runs = (if root = run_id then [run_id] else [run_id, root]);
               s1 = fold (\<lambda>run s. spend_rows s now t run request_id
                        (if run = run_id then held else fst (paused_held s t run request_id))) runs s;
               s2 = delete_credential_ref s1 t (held_call_cred_id root request_id)
           in fold (\<lambda>run s. snd (sweep_run_credentials_if_settled s t run)) runs s2)"

subsection \<open>Lemmas: the tables\<close>

lemma filter_update_first:
  "filter P al = [] \<Longrightarrow> filter P (AList.update k v al) = (if P (k, v) then [(k, v)] else [])"
  by (induction al) (auto split: if_splits)

lemma filter_update_other: "(\<And>w. \<not> P (k, w)) \<Longrightarrow> filter P (AList.update k v al) = filter P al"
  by (induction al) auto

definition held_row :: "string \<Rightarrow> string \<Rightarrow> string \<Rightarrow> (string \<times> string \<times> string) \<times> run_checkpoint \<Rightarrow> bool" where
  "held_row t r rid = (\<lambda>((t', r', _), c). t' = t \<and> r' = r \<and> cp_hitl_request_id c = Some rid \<and>
     cp_status c = HELD_PAUSED \<and> is_held_step (cp_step c))"

lemma held_row_apply [simp]: "held_row t r rid ((t', r', st), c) \<longleftrightarrow> t' = t \<and> r' = r \<and>
   cp_hitl_request_id c = Some rid \<and> cp_status c = HELD_PAUSED \<and> is_held_step (cp_step c)"
  by (simp add: held_row_def)

lemma paused_held_rows:
  "fst (paused_held s t r rid) = sort_key (\<lambda>c. (cp_updated_at c, cp_step c))
     (map snd (filter (held_row t r rid) (rs_checkpoints s)))"
proof -
  have "filter (\<lambda>c. is_held_step (cp_step c)) (filter (\<lambda>c. cp_hitl_request_id c = Some rid \<and> cp_status c = HELD_PAUSED)
      (map snd (filter (\<lambda>((t', r', _), _). t' = t \<and> r' = r) al))) = map snd (filter (held_row t r rid) al)" for al
    by (induction al) auto
  then show ?thesis by (simp add: paused_held_def list_checkpoints_def Let_def filter_sort)
qed

lemma credential_checkpoints [simp]:
  "rs_checkpoints (set_credential_ref seal s t i ref) = rs_checkpoints s"
  "rs_checkpoints (delete_credential_ref s t i) = rs_checkpoints s"
  "rs_checkpoints (snd (delete_credential_refs_for_run s t r)) = rs_checkpoints s"
  by (simp_all add: set_credential_ref_def delete_credential_ref_def delete_credential_refs_for_run_def Let_def)

lemma checkpoint_creds [simp]: "rs_creds (upsert_checkpoint s now t r st x out rid) = rs_creds s"
  by (simp add: upsert_checkpoint_def)

lemma get_credential_cong: "rs_creds s' = rs_creds s \<Longrightarrow> get_credential_ref u s' t i = get_credential_ref u s t i"
  by (simp add: get_credential_ref_def)

lemma get_set_credential: "(\<And>x. unseal (seal x) = x) \<Longrightarrow>
   get_credential_ref unseal (set_credential_ref seal s t i ref) t i = Some ref"
  by (simp add: get_credential_ref_def set_credential_ref_def update_conv')

lemma held_step_is_held [simp]: "is_held_step (held_step c)"
  by (simp add: is_held_step_def held_step_def)

lemma drop_held_step [simp]: "drop (length HELD_STEP_PREFIX) (held_step c) = c"
  by (simp add: held_step_def)

text \<open>The checkpoints \<open>record_held_call\<close> leaves behind, for a request no earlier checkpoint names.\<close>

definition fresh_request :: "run_store \<Rightarrow> string \<Rightarrow> bool" where
  "fresh_request s rid = list_all (\<lambda>(_, c). cp_hitl_request_id c \<noteq> Some rid) (rs_checkpoints s)"

lemma fresh_held_rows: "fresh_request s rid \<Longrightarrow> filter (held_row t r rid) (rs_checkpoints s) = []"
  by (auto simp: fresh_request_def filter_empty_conv list_all_iff)

lemma recorded_rows:
  assumes "fresh_request s rid" "record_held_call seal s now ctx noun verb params rid cid = (True, s')"
    "root_run_id ctx = Some r"
  shows "fst (paused_held s' (ctx_tenant_id ctx) r rid) =
      [\<lparr>cp_tenant_id = ctx_tenant_id ctx, cp_run_id = r, cp_step = held_step cid, cp_status = HELD_PAUSED,
        cp_output = None, cp_hitl_request_id = Some rid, cp_updated_at = now\<rparr>]"
    and "ctx_run_id ctx = Some q \<Longrightarrow> q \<noteq> [] \<Longrightarrow> q \<noteq> r \<Longrightarrow> fst (paused_held s' (ctx_tenant_id ctx) q rid) =
      [\<lparr>cp_tenant_id = ctx_tenant_id ctx, cp_run_id = q, cp_step = held_step cid, cp_status = HELD_PAUSED,
        cp_output = Some [(KStr HELD_ROOT_KEY, PStr r)], cp_hitl_request_id = Some rid, cp_updated_at = now\<rparr>]"
    and "rs_creds s' = AList.update (ctx_tenant_id ctx, held_call_cred_id r rid)
           (seal (held_ref ctx r noun verb params rid)) (rs_creds s)"
proof -
  let ?t = "ctx_tenant_id ctx"
  let ?s1 = "set_credential_ref seal s ?t (held_call_cred_id r rid) (held_ref ctx r noun verb params rid)"
  let ?s2 = "upsert_checkpoint ?s1 now ?t r (held_step cid) HELD_PAUSED None (Some rid)"
  let ?s3 = "upsert_checkpoint ?s2 now ?t (the (ctx_run_id ctx)) (held_step cid) HELD_PAUSED
      (Some [(KStr HELD_ROOT_KEY, PStr r)]) (Some rid)"
  have s': "s' = (if nonempty (ctx_run_id ctx) \<and> ctx_run_id ctx \<noteq> Some r then ?s3 else ?s2)"
    using assms(2,3) by (auto simp: record_held_call_def Let_def split: if_splits)
  have other: "the (ctx_run_id ctx) \<noteq> r" if "nonempty (ctx_run_id ctx) \<and> ctx_run_id ctx \<noteq> Some r"
    using that by (auto simp: nonempty_def split: option.splits)
  note rows = paused_held_rows upsert_checkpoint_def filter_update_first filter_update_other fresh_held_rows[OF assms(1)]
    nonempty_def
  show "fst (paused_held s' ?t r rid) =
      [\<lparr>cp_tenant_id = ctx_tenant_id ctx, cp_run_id = r, cp_step = held_step cid, cp_status = HELD_PAUSED,
        cp_output = None, cp_hitl_request_id = Some rid, cp_updated_at = now\<rparr>]"
    using other by (simp add: s' rows)
  show "fst (paused_held s' ?t q rid) =
      [\<lparr>cp_tenant_id = ctx_tenant_id ctx, cp_run_id = q, cp_step = held_step cid, cp_status = HELD_PAUSED,
        cp_output = Some [(KStr HELD_ROOT_KEY, PStr r)], cp_hitl_request_id = Some rid, cp_updated_at = now\<rparr>]"
    if "ctx_run_id ctx = Some q" "q \<noteq> []" "q \<noteq> r"
    using that by (simp add: s' rows)
  show "rs_creds s' = AList.update (?t, held_call_cred_id r rid)
           (seal (held_ref ctx r noun verb params rid)) (rs_creds s)"
    by (simp add: s' set_credential_ref_def)
qed

lemma held_ref_simps [simp]:
  "dict_get (held_ref ctx r noun verb params rid) ''kind'' = PStr HELD_CALL_KIND"
  "dict_get (held_ref ctx r noun verb params rid) ''run_id'' = PStr r"
  "dict_get (held_ref ctx r noun verb params rid) ''request_id'' = PStr rid"
  "dict_get (held_ref ctx r noun verb params rid) ''value'' = PDict [(KStr ''noun'', PStr noun),
     (KStr ''verb'', PStr verb), (KStr ''params'', PDict params), (KStr ''ctx'', PDict (context_to_envelope ctx))]"
  by (simp_all add: held_ref_def dict_get_def)

lemma str_or_empty_PStr [simp]: "str_or_empty pstr (PStr s) = s"
  by (simp add: str_or_empty_def str_val_def)

lemma read_recorded:
  assumes "\<And>x. unseal (seal x) = x" "rs_creds s = AList.update (t, held_call_cred_id r rid)
      (seal (held_ref ctx r noun verb params rid)) creds"
    "fst (paused_held s t q rid) = [c]" "pointed_root pstr [c] q = r" "cp_step c = held_step cid"
  shows "read_held_call pstr unseal s t q rid = Inr (Some \<lparr>hc_noun = noun, hc_verb = verb, hc_params = params,
      hc_context = ctx, hc_request_id = rid, hc_run_id = r, hc_call_id = cid\<rparr>)"
proof -
  have "get_credential_ref unseal s t (held_call_cred_id r rid) = Some (held_ref ctx r noun verb params rid)"
    using assms(1,2) by (simp add: get_credential_ref_def update_conv')
  then show ?thesis using assms(3-5)
    by (simp add: read_held_call_def Let_def dict_get_def[of "[(KStr ''noun'', _), _, _, _]"] envelope_roundtrip)
qed


subsection \<open>Lemmas: settling\<close>

definition checkpoints_ok :: "run_store \<Rightarrow> bool" where
  "checkpoints_ok s \<longleftrightarrow> distinct (map fst (rs_checkpoints s)) \<and>
     list_all (\<lambda>((t, r, st), c). cp_tenant_id c = t \<and> cp_run_id c = r \<and> cp_step c = st) (rs_checkpoints s)"

lemma list_all_alist_update: "list_all P al \<Longrightarrow> P (k, v) \<Longrightarrow> list_all P (AList.update k v al)"
  by (induction al) auto

lemma upsert_checkpoint_ok: "checkpoints_ok s \<Longrightarrow> checkpoints_ok (upsert_checkpoint s now t r st x out rid)"
  unfolding checkpoints_ok_def upsert_checkpoint_def
  by (auto simp: distinct_update intro!: list_all_alist_update)

lemma map_of_upsert:
  "map_of (rs_checkpoints (upsert_checkpoint s now t r st x out rid)) k =
     (if k = (t, r, st) then Some \<lparr>cp_tenant_id = t, cp_run_id = r, cp_step = st, cp_status = x, cp_output = out,
        cp_hitl_request_id = rid, cp_updated_at = now\<rparr> else map_of (rs_checkpoints s) k)"
  by (auto simp: upsert_checkpoint_def update_conv')

lemma held_rows_iff:
  assumes "checkpoints_ok s"
  shows "c \<in> set (fst (paused_held s t r rid)) \<longleftrightarrow>
     map_of (rs_checkpoints s) (t, r, cp_step c) = Some c \<and> cp_hitl_request_id c = Some rid \<and>
     cp_status c = HELD_PAUSED \<and> is_held_step (cp_step c)"
proof -
  have m: "map_of (rs_checkpoints s) k = Some c \<longleftrightarrow> (k, c) \<in> set (rs_checkpoints s)" for k
    using assms by (simp add: checkpoints_ok_def)
  have st: "cp_step c = st" if "((t, r, st), c) \<in> set (rs_checkpoints s)" for st
    using that assms by (auto simp: checkpoints_ok_def list_all_iff)
  have "c \<in> set (fst (paused_held s t r rid)) \<longleftrightarrow> (\<exists>st. ((t, r, st), c) \<in> set (rs_checkpoints s) \<and>
      cp_hitl_request_id c = Some rid \<and> cp_status c = HELD_PAUSED \<and> is_held_step (cp_step c))"
    by (auto simp: paused_held_rows image_iff)
  with m st show ?thesis by metis
qed

lemma spend_rows_effect:
  "checkpoints_ok s \<Longrightarrow> checkpoints_ok (spend_rows s now t r rid rows)"
  "rs_creds (spend_rows s now t r rid rows) = rs_creds s"
  "(\<forall>c \<in> set rows. k \<noteq> (t, r, cp_step c)) \<Longrightarrow>
     map_of (rs_checkpoints (spend_rows s now t r rid rows)) k = map_of (rs_checkpoints s) k"
  "c \<in> set rows \<Longrightarrow>
     \<exists>d. map_of (rs_checkpoints (spend_rows s now t r rid rows)) (t, r, cp_step c) = Some d \<and> cp_status d = HELD_SPENT"
proof -
  show "checkpoints_ok s \<Longrightarrow> checkpoints_ok (spend_rows s now t r rid rows)"
    unfolding spend_rows_def by (induction rows arbitrary: s) (auto simp: upsert_checkpoint_ok)
  show "rs_creds (spend_rows s now t r rid rows) = rs_creds s"
    unfolding spend_rows_def by (induction rows arbitrary: s) auto
  show unch: "(\<forall>c \<in> set rows. k \<noteq> (t, r, cp_step c)) \<Longrightarrow>
     map_of (rs_checkpoints (spend_rows s now t r rid rows)) k = map_of (rs_checkpoints s) k" for k s rows
    unfolding spend_rows_def by (induction rows arbitrary: s) (auto simp: map_of_upsert)
  have "\<exists>y \<in> set rows. cp_step y = st \<Longrightarrow>
     \<exists>d. map_of (rs_checkpoints (spend_rows s now t r rid rows)) (t, r, st) = Some d \<and> cp_status d = HELD_SPENT" for st s
  proof (induction rows arbitrary: s)
    case (Cons x rows)
    let ?s1 = "upsert_checkpoint s now t r (cp_step x) HELD_SPENT (cp_output x) (Some rid)"
    have eq: "spend_rows s now t r rid (x # rows) = spend_rows ?s1 now t r rid rows" by (simp add: spend_rows_def)
    show ?case
    proof (cases "\<exists>y \<in> set rows. cp_step y = st")
      case True
      from Cons.IH[OF this, of ?s1] show ?thesis by (simp only: eq)
    next
      case False
      then have "map_of (rs_checkpoints (spend_rows ?s1 now t r rid rows)) (t, r, st) = map_of (rs_checkpoints ?s1) (t, r, st)"
        by (intro unch) auto
      moreover have "cp_step x = st" using Cons.prems False by auto
      ultimately show ?thesis by (simp add: eq map_of_upsert)
    qed
  qed simp
  then show "c \<in> set rows \<Longrightarrow>
     \<exists>d. map_of (rs_checkpoints (spend_rows s now t r rid rows)) (t, r, cp_step c) = Some d \<and> cp_status d = HELD_SPENT"
    by blast
qed

lemma paused_after_spend:
  assumes "checkpoints_ok s" "rows = fst (paused_held s t r rid)"
  shows "fst (paused_held (spend_rows s now t r rid rows) t r rid) = []"
proof -
  have False if "c \<in> set (fst (paused_held (spend_rows s now t r rid rows) t r rid))" for c
  proof -
    have c: "map_of (rs_checkpoints (spend_rows s now t r rid rows)) (t, r, cp_step c) = Some c"
      "cp_hitl_request_id c = Some rid" "cp_status c = HELD_PAUSED" "is_held_step (cp_step c)"
      using that held_rows_iff[OF spend_rows_effect(1)[OF assms(1)]] by blast+
    show False
    proof (cases "\<exists>d \<in> set rows. cp_step d = cp_step c")
      case True
      then obtain d where d: "d \<in> set rows" "cp_step d = cp_step c" by blast
      from spend_rows_effect(4)[OF d(1), of s now t r rid] c d(2) show False
        by (auto simp: HELD_SPENT_def HELD_PAUSED_def)
    next
      case False
      then have "map_of (rs_checkpoints s) (t, r, cp_step c) = Some c"
        using c(1) spend_rows_effect(3)[of rows "(t, r, cp_step c)" t r s now rid] by fastforce
      with c have "c \<in> set rows" using held_rows_iff[OF assms(1)] assms(2) by blast
      with False show False by blast
    qed
  qed
  then show ?thesis by (metis list.set_intros(1) list.exhaust)
qed

lemma paused_other_run:
  assumes "checkpoints_ok s" "q \<noteq> r"
  shows "fst (paused_held (spend_rows s now t r rid rows) t q rid') = [] \<longleftrightarrow> fst (paused_held s t q rid') = []"
proof -
  have "c \<in> set (fst (paused_held (spend_rows s now t r rid rows) t q rid')) \<longleftrightarrow>
      c \<in> set (fst (paused_held s t q rid'))" for c
    unfolding held_rows_iff[OF assms(1)] held_rows_iff[OF spend_rows_effect(1)[OF assms(1)]]
    using assms(2) spend_rows_effect(3)[of rows "(t, q, cp_step c)" t r s now rid] by auto
  then have "set (fst (paused_held (spend_rows s now t r rid rows) t q rid')) = set (fst (paused_held s t q rid'))" by blast
  then show ?thesis by (metis set_empty)
qed

lemma sweep_checkpoints [simp]:
  "rs_checkpoints (snd (sweep_run_credentials_if_settled s t r)) = rs_checkpoints s"
  by (simp add: sweep_run_credentials_if_settled_def)

lemma paused_held_cong: "rs_checkpoints s' = rs_checkpoints s \<Longrightarrow> paused_held s' t r rid = paused_held s t r rid"
  by (simp add: paused_held_def list_checkpoints_def)

lemma map_of_filter_None: "map_of al k = None \<Longrightarrow> map_of (filter P al) k = None"
  by (induction al) auto

lemma sweep_keeps_absent:
  "map_of (rs_creds s) k = None \<Longrightarrow> map_of (rs_creds (snd (sweep_run_credentials_if_settled s t r))) k = None"
  by (simp add: sweep_run_credentials_if_settled_def delete_credential_refs_for_run_def Let_def map_of_filter_None)


text \<open>Settling in two parts: the rows, then the credentials.\<close>

definition settled_rows :: "(pyval \<Rightarrow> string) \<Rightarrow> run_store \<Rightarrow> instant \<Rightarrow> string \<Rightarrow> string \<Rightarrow> string \<Rightarrow> run_store" where
  "settled_rows pstr s now t run_id rid =
     (let root = pointed_root pstr (fst (paused_held s t run_id rid)) run_id;
          s1 = spend_rows s now t run_id rid (fst (paused_held s t run_id rid))
      in if root = run_id then s1 else spend_rows s1 now t root rid (fst (paused_held s1 t root rid)))"

lemma settle_checkpoints:
  assumes "run_id \<noteq> []"
  shows "rs_checkpoints (settle_held_call pstr s now t run_id rid) = rs_checkpoints (settled_rows pstr s now t run_id rid)"
    and "map_of (rs_creds (settle_held_call pstr s now t run_id rid))
       (t, held_call_cred_id (pointed_root pstr (fst (paused_held s t run_id rid)) run_id) rid) = None"
  using assms
  by (simp_all add: settle_held_call_def settled_rows_def Let_def sweep_keeps_absent delete_credential_ref_def delete_conv')

lemma settled_rows_paused:
  assumes ok: "checkpoints_ok s"
  shows "fst (paused_held (settled_rows pstr s now t run_id rid) t run_id rid) = []"
    and "fst (paused_held (settled_rows pstr s now t run_id rid) t
           (pointed_root pstr (fst (paused_held s t run_id rid)) run_id) rid) = []"
proof -
  let ?root = "pointed_root pstr (fst (paused_held s t run_id rid)) run_id"
  let ?s1 = "spend_rows s now t run_id rid (fst (paused_held s t run_id rid))"
  have ok1: "checkpoints_ok ?s1" by (rule spend_rows_effect(1)[OF ok])
  have p1: "fst (paused_held ?s1 t run_id rid) = []" by (rule paused_after_spend[OF ok refl])
  show "fst (paused_held (settled_rows pstr s now t run_id rid) t run_id rid) = []"
    using p1 paused_other_run[OF ok1, of run_id ?root] by (simp add: settled_rows_def Let_def)
  show "fst (paused_held (settled_rows pstr s now t run_id rid) t ?root rid) = []"
    using p1 paused_after_spend[OF ok1 refl] by (simp add: settled_rows_def Let_def)
qed

subsection \<open>Properties\<close>

text \<open>The recorded call is the call: for a request no earlier checkpoint names, after
  \<open>record_held_call\<close> succeeds, reading the held call back, from the root run or from the delegated run it was
  dispatched on, gives exactly the noun, verb, verbatim parameters and full invocation context that were held,
  with the request, the root run and the call id. What the answer bridge replays is therefore what was paused.\<close>

lemma held_call_roundtrip:
  assumes "\<And>x. unseal (seal x) = x" and "fresh_request s rid"
    and "record_held_call seal s now ctx noun verb params rid cid = (True, s')"
    and "root_run_id ctx = Some r" and "q = r \<or> (ctx_run_id ctx = Some q \<and> q \<noteq> [])"
  shows "read_held_call pstr unseal s' (ctx_tenant_id ctx) q rid = Inr (Some \<lparr>hc_noun = noun, hc_verb = verb,
     hc_params = params, hc_context = ctx, hc_request_id = rid, hc_run_id = r, hc_call_id = cid\<rparr>)"
proof (cases "q = r")
  case True
  show ?thesis unfolding True
    by (rule read_recorded[OF assms(1) recorded_rows(3)[OF assms(2-4)] recorded_rows(1)[OF assms(2-4)]]) simp_all
next
  case False
  with assms(3,5) have q: "ctx_run_id ctx = Some q" "q \<noteq> []" by auto
  have "r \<noteq> []" using assms(3,4) by (auto simp: record_held_call_def nonempty_def split: if_splits)
  then show ?thesis
    by (intro read_recorded[OF assms(1) recorded_rows(3)[OF assms(2-4)] recorded_rows(2)[OF assms(2-4) q False]])
       (simp_all add: str_val_def dict_get_def)
qed

definition demo_context :: invocation_context where
  "demo_context = \<lparr>ctx_tenant_id = ''t'', ctx_run_id = Some ''child'', ctx_parent_run_id = Some ''root'', ctx_depth = 1,
     ctx_on_behalf_of = Some ''ann'', ctx_workspace_id = None, ctx_ip_address = None, ctx_user_agent = None,
     ctx_grants = \<lparr>allow = [''mail.*''], deny = []\<rparr>, ctx_actor = ''agent'', ctx_actor_tier = ''ephemeral'',
     ctx_skills_loaded = [], ctx_extra = []\<rparr>"

definition demo_held :: run_store where
  "demo_held = snd (record_held_call id run_store_empty 5 demo_context ''mail'' ''mail.send''
     [(KStr ''to'', PStr ''bob'')] ''r1'' ''c1'')"

lemma demo_held_record:
  "record_held_call id run_store_empty 5 demo_context ''mail'' ''mail.send'' [(KStr ''to'', PStr ''bob'')] ''r1'' ''c1''
     = (True, demo_held)"
proof -
  have "fst (record_held_call id run_store_empty 5 demo_context ''mail'' ''mail.send'' [(KStr ''to'', PStr ''bob'')]
     ''r1'' ''c1'')" by code_simp
  moreover have "fst p \<Longrightarrow> p = (True, snd p)" for p :: "bool \<times> run_store" by (cases p) simp
  ultimately show ?thesis unfolding demo_held_def by blast
qed

text \<open>A settled hold is replayed by nobody: after \<open>settle_held_call\<close> the request has no paused hold left on
  the run it was called with or on the root run that hold pointed at, so neither run reports a held write waiting
  and reading the call gives nothing, and the sealed call is deleted.\<close>

lemma settled_hold_is_gone:
  assumes "checkpoints_ok s" and "run_id \<noteq> []"
    and "s' = settle_held_call pstr s now t run_id rid"
    and "root_id = pointed_root pstr (fst (paused_held s t run_id rid)) run_id" and "q \<in> {run_id, root_id}"
  shows "\<not> held_write_is_waiting s' t q rid \<and> read_held_call pstr unseal s' t q rid = Inr None \<and>
     get_credential_ref unseal s' t (held_call_cred_id root_id rid) = None"
proof -
  have "fst (paused_held s' t q rid) = []"
    using settled_rows_paused[OF assms(1), of pstr now t run_id rid] assms(2-5)
      paused_held_cong[OF settle_checkpoints(1)[OF assms(2)], of pstr s now t rid] by auto
  then show ?thesis
    using settle_checkpoints(2)[OF assms(2), of pstr s now t rid] assms(3,4)
    by (simp add: held_write_is_waiting_def read_held_call_def get_credential_ref_def)
qed



end
