(* ===== verification/RateLimit.thy ===== *)
theory RateLimit
  imports Prelude
begin

text \<open>
  Rate limiting, \<^verbatim>\<open>boltrig/kernel/ratelimit.py\<close> with the policy record \<^verbatim>\<open>RateLimit\<close> of
  \<^verbatim>\<open>boltrig/models/registry.py\<close>: the fixed-window counter, the in-memory back end and the limiter
  that consults it. The \<^verbatim>\<open>Counter\<close> protocol of the source is the locale \<open>rate_counter\<close>; the
  limiter's bound is proved inside it, and the in-memory counter is its instance.

  \<^verbatim>\<open>time.time()\<close> is passed as a whole number of seconds: window lengths are whole seconds, so the
  fractional part never changes \<^verbatim>\<open>int(now // window_seconds)\<close>.
\<close>

record rate_limit =
  rl_per :: string
  rl_max :: int
  rl_scope :: string

subsection \<open>The in-memory counter\<close>

type_synonym buckets = "(string \<times> int) \<rightharpoonup> int"

text \<open>\<^verbatim>\<open>InMemoryCounter.incr\<close>: bump the bucket, then drop every other window of the same key.\<close>

definition incr :: "buckets \<Rightarrow> instant \<Rightarrow> string \<Rightarrow> int \<Rightarrow> int \<times> buckets" where
  "incr b now key window_seconds =
     (let window = now div window_seconds;
          b1 = b((key, window) \<mapsto> (case b (key, window) of None \<Rightarrow> 0 | Some n \<Rightarrow> n) + 1);
          b2 = (\<lambda>k. if fst k = key \<and> snd k \<noteq> window then None else b1 k)
      in ((case b2 (key, window) of None \<Rightarrow> 0 | Some n \<Rightarrow> n), b2))"

subsection \<open>The limiter\<close>

definition WINDOW_SECONDS :: "string \<Rightarrow> int" where
  "WINDOW_SECONDS per = (if per = ''minute'' then 60 else if per = ''hour'' then 3600 else 60)"

definition rate_key :: "string \<Rightarrow> string \<Rightarrow> rate_limit \<Rightarrow> string" where
  "rate_key tenant_id verb_id rl =
     (let scope = (if rl_scope rl = ''tenant'' then tenant_id else tenant_id @ '':'' @ verb_id)
      in if rl_scope rl = ''verb'' then scope @ '':'' @ verb_id else scope)"

text \<open>The error carries the policy it hit and the seconds to the next window boundary.\<close>

datatype rate_error = RateLimitedError string rate_limit int

text \<open>
  \<^verbatim>\<open>RateLimiter.enforce\<close> over any counter \<open>count_up\<close>. The counter's state changes whether or not
  the call is refused.
\<close>

definition rate_enforce ::
  "('s \<Rightarrow> instant \<Rightarrow> string \<Rightarrow> int \<Rightarrow> int \<times> 's) \<Rightarrow> 's \<Rightarrow> instant \<Rightarrow> string \<Rightarrow> string
     \<Rightarrow> rate_limit option \<Rightarrow> (rate_error + unit) \<times> 's" where
  "rate_enforce count_up s now tenant_id verb_id rlo =
     (case rlo of None \<Rightarrow> (Inr (), s)
      | Some rl \<Rightarrow>
          (let window_seconds = WINDOW_SECONDS (rl_per rl);
               (count, s') = count_up s now (rate_key tenant_id verb_id rl) window_seconds
           in if count > rl_max rl
              then (Inl (RateLimitedError verb_id rl (window_seconds - now mod window_seconds)), s')
              else (Inr (), s')))"

text \<open>A sequence of calls through one limiter, with the verdict of each.\<close>

record rate_call =
  rc_now :: instant
  rc_tenant :: string
  rc_verb :: string
  rc_limit :: rate_limit

fun enforce_all ::
  "('s \<Rightarrow> instant \<Rightarrow> string \<Rightarrow> int \<Rightarrow> int \<times> 's) \<Rightarrow> 's \<Rightarrow> rate_call list \<Rightarrow> bool list \<times> 's" where
  "enforce_all count_up s [] = ([], s)"
| "enforce_all count_up s (c # cs) =
     (let (r, s1) = rate_enforce count_up s (rc_now c) (rc_tenant c) (rc_verb c) (Some (rc_limit c));
          (rs, s2) = enforce_all count_up s1 cs
      in (is_ok r # rs, s2))"

definition call_key :: "rate_call \<Rightarrow> string" where
  "call_key c = rate_key (rc_tenant c) (rc_verb c) (rc_limit c)"

definition call_window :: "rate_call \<Rightarrow> int" where
  "call_window c = rc_now c div WINDOW_SECONDS (rl_per (rc_limit c))"

text \<open>How many of the calls on \<open>k\<close> a sequence admitted.\<close>

definition admitted_on :: "string \<Rightarrow> rate_call list \<Rightarrow> bool list \<Rightarrow> nat" where
  "admitted_on k cs rs = length (filter (\<lambda>(c, r). call_key c = k \<and> r) (zip cs rs))"

lemma WINDOW_SECONDS_pos: "0 < WINDOW_SECONDS per"
  by (simp add: WINDOW_SECONDS_def)

subsection \<open>The Counter protocol\<close>

locale rate_counter =
  fixes count_up :: "'s \<Rightarrow> instant \<Rightarrow> string \<Rightarrow> int \<Rightarrow> int \<times> 's"
    and cnt :: "'s \<Rightarrow> string \<Rightarrow> int \<Rightarrow> int"
  assumes count_value: "fst (count_up s now key ws) = cnt s key (now div ws) + 1"
    and count_same: "cnt (snd (count_up s now key ws)) key (now div ws) = cnt s key (now div ws) + 1"
    and count_other: "key' \<noteq> key \<Longrightarrow> cnt (snd (count_up s now key ws)) key' w = cnt s key' w"
begin

lemma enforce_verdict:
  "is_ok (fst (rate_enforce count_up s (rc_now c) (rc_tenant c) (rc_verb c) (Some (rc_limit c))))
     \<longleftrightarrow> cnt s (call_key c) (call_window c) < rl_max (rc_limit c)"
  using count_value[of s "rc_now c" "call_key c" "WINDOW_SECONDS (rl_per (rc_limit c))"]
  by (auto simp: rate_enforce_def call_key_def call_window_def Let_def split: prod.splits)

lemma enforce_state:
  "snd (rate_enforce count_up s (rc_now c) (rc_tenant c) (rc_verb c) (Some (rc_limit c)))
     = snd (count_up s (rc_now c) (call_key c) (WINDOW_SECONDS (rl_per (rc_limit c))))"
  by (auto simp: rate_enforce_def call_key_def Let_def split: prod.splits)

text \<open>
  Within one window of a key, the number of admitted calls is exactly the head-room left, no
  matter what calls on other keys are interleaved.
\<close>

lemma admitted_in_window:
  assumes "\<forall>c\<in>set cs. call_key c = k \<longrightarrow> call_window c = w \<and> rl_max (rc_limit c) = m"
  shows "int (admitted_on k cs (fst (enforce_all count_up s cs)))
     = min (int (length (filter (\<lambda>c. call_key c = k) cs))) (max 0 (m - cnt s k w))"
  using assms
proof (induction cs arbitrary: s)
  case Nil
  then show ?case by (simp add: admitted_on_def)
next
  case (Cons c cs)
  obtain r s1 where rs1: "rate_enforce count_up s (rc_now c) (rc_tenant c) (rc_verb c)
      (Some (rc_limit c)) = (r, s1)" by (cases "rate_enforce count_up s (rc_now c) (rc_tenant c)
      (rc_verb c) (Some (rc_limit c))")
  have ok: "is_ok r \<longleftrightarrow> cnt s (call_key c) (call_window c) < rl_max (rc_limit c)"
    using enforce_verdict[of s c] rs1 by simp
  have s1: "s1 = snd (count_up s (rc_now c) (call_key c) (WINDOW_SECONDS (rl_per (rc_limit c))))"
    using enforce_state[of s c] rs1 by simp
  have IH: "int (admitted_on k cs (fst (enforce_all count_up s1 cs)))
     = min (int (length (filter (\<lambda>c. call_key c = k) cs))) (max 0 (m - cnt s1 k w))"
    using Cons by simp
  have head: "admitted_on k (c # cs) (fst (enforce_all count_up s (c # cs)))
     = (if call_key c = k \<and> is_ok r then 1 else 0) + admitted_on k cs (fst (enforce_all count_up s1 cs))"
    using rs1 by (simp add: admitted_on_def split: prod.splits)
  show ?case
  proof (cases "call_key c = k")
    case True
    then have cw: "call_window c = w" and cm: "rl_max (rc_limit c) = m" using Cons.prems by auto
    have "cnt s1 k w = cnt s k w + 1"
      using count_same[of s "rc_now c" k "WINDOW_SECONDS (rl_per (rc_limit c))"] True cw s1
      by (simp add: call_window_def)
    then show ?thesis using head IH ok True cw cm by (simp add: min_def max_def)
  next
    case False
    then have "cnt s1 k w = cnt s k w" using s1 count_other by simp
    then show ?thesis using head IH False by simp
  qed
qed

end

subsection \<open>The in-memory counter implements the protocol\<close>

definition bucket_count :: "buckets \<Rightarrow> string \<Rightarrow> int \<Rightarrow> int" where
  "bucket_count b key window = (case b (key, window) of None \<Rightarrow> 0 | Some n \<Rightarrow> n)"

interpretation mem_counter: rate_counter incr bucket_count
proof unfold_locales
  fix s now key ws
  show "fst (incr s now key ws) = bucket_count s key (now div ws) + 1"
    by (simp add: incr_def bucket_count_def Let_def)
  show "bucket_count (snd (incr s now key ws)) key (now div ws) = bucket_count s key (now div ws) + 1"
    by (simp add: incr_def bucket_count_def Let_def)
  fix key' w
  assume "key' \<noteq> key"
  then show "bucket_count (snd (incr s now key ws)) key' w = bucket_count s key' w"
    by (simp add: incr_def bucket_count_def Let_def)
qed

lemma enforce_all_append:
  "enforce_all f s (xs @ ys) =
     (let (r1, s1) = enforce_all f s xs; (r2, s2) = enforce_all f s1 ys in (r1 @ r2, s2))"
  by (induction xs arbitrary: s) (auto simp: Let_def split: prod.splits)

lemma length_enforce_all: "length (fst (enforce_all f s cs)) = length cs"
  by (induction cs arbitrary: s) (auto simp: Let_def case_prod_beta)

lemma admitted_on_append:
  "length xs = length rs \<Longrightarrow>
     admitted_on k (xs @ ys) (rs @ qs) = admitted_on k xs rs + admitted_on k ys qs"
  by (simp add: admitted_on_def)

text \<open>The window a call does not touch keeps its count or is dropped by the cleanup.\<close>

lemma bucket_count_after_other_window:
  assumes "\<forall>c\<in>set cs. call_key c = k \<longrightarrow> call_window c \<noteq> w" "bucket_count b k w = 0"
  shows "bucket_count (snd (enforce_all incr b cs)) k w = 0"
  using assms
proof (induction cs arbitrary: b)
  case Nil
  then show ?case by simp
next
  case (Cons c cs)
  let ?b1 = "snd (rate_enforce incr b (rc_now c) (rc_tenant c) (rc_verb c) (Some (rc_limit c)))"
  have "bucket_count ?b1 k w = 0"
    using Cons.prems unfolding mem_counter.enforce_state
    by (auto simp: incr_def bucket_count_def Let_def call_window_def)
  with Cons show ?case by (simp add: Let_def case_prod_beta)
qed

text \<open>After a call on \<open>k\<close> the cleanup leaves only that call's window under \<open>k\<close>.\<close>

definition only_window :: "buckets \<Rightarrow> string \<Rightarrow> int set \<Rightarrow> bool" where
  "only_window b k W \<longleftrightarrow> (\<forall>w. w \<notin> W \<longrightarrow> bucket_count b k w = 0)"

lemma only_window_after_incr:
  "only_window (snd (incr b now k ws)) k {now div ws}"
  by (simp add: only_window_def incr_def bucket_count_def Let_def)

definition minute_call :: "string \<Rightarrow> int \<Rightarrow> instant \<Rightarrow> rate_call" where
  "minute_call tenant m t = \<lparr>rc_now = t, rc_tenant = tenant, rc_verb = ''a.read'',
     rc_limit = \<lparr>rl_per = ''minute'', rl_max = m, rl_scope = ''tenant''\<rparr>\<rparr>"

definition hour_call :: "string \<Rightarrow> int \<Rightarrow> instant \<Rightarrow> rate_call" where
  "hour_call tenant m t = \<lparr>rc_now = t, rc_tenant = tenant, rc_verb = ''b.read'',
     rc_limit = \<lparr>rl_per = ''hour'', rl_max = m, rl_scope = ''tenant''\<rparr>\<rparr>"

lemma two_period_calls [simp]:
  "call_key (minute_call k m t) = k" "call_key (hour_call k m t) = k"
  "call_window (minute_call k m t) = t div 60" "call_window (hour_call k m t) = t div 3600"
  "rl_max (rc_limit (minute_call k m t)) = m" "rl_max (rc_limit (hour_call k m t)) = m"
  by (simp_all add: minute_call_def hour_call_def call_key_def call_window_def rate_key_def
      WINDOW_SECONDS_def)

lemma only_window_after_enforce:
  "only_window (snd (rate_enforce incr b (rc_now c) (rc_tenant c) (rc_verb c) (Some (rc_limit c))))
     (call_key c) {call_window c}"
  unfolding mem_counter.enforce_state call_window_def by (rule only_window_after_incr)

lemma interleaved_periods_admitted:
  assumes "1 \<le> m" "(\<lambda>t. t div 60) ` T \<inter> (\<lambda>t. t div 3600) ` T = {}"
    and "only_window b k ((\<lambda>t. t div 3600) ` T)" "set ts \<subseteq> T"
  shows "list_all id (fst (enforce_all incr b
           (concat (map (\<lambda>t. [minute_call k m t, hour_call k m t]) ts))))"
  using assms(3,4)
proof (induction ts arbitrary: b)
  case Nil
  then show ?case by simp
next
  case (Cons t ts)
  let ?en = "\<lambda>b c. rate_enforce incr b (rc_now c) (rc_tenant c) (rc_verb c) (Some (rc_limit c))"
  let ?b1 = "snd (?en b (minute_call k m t))" and ?b2 = "snd (?en (snd (?en b (minute_call k m t))) (hour_call k m t))"
  have t: "t div 60 \<notin> (\<lambda>t. t div 3600) ` T" using Cons.prems(2) assms(2) by auto
  then have "bucket_count b k (t div 60) = 0" using Cons.prems(1) by (simp add: only_window_def)
  then have ok1: "is_ok (fst (?en b (minute_call k m t)))"
    using mem_counter.enforce_verdict[of b "minute_call k m t"] assms(1) by simp
  have "only_window ?b1 k {t div 60}" using only_window_after_enforce[of b "minute_call k m t"] by simp
  moreover have "t div 3600 \<noteq> t div 60" using t Cons.prems(2) by (auto simp: image_iff)
  ultimately have "bucket_count ?b1 k (t div 3600) = 0" by (simp add: only_window_def)
  then have ok2: "is_ok (fst (?en ?b1 (hour_call k m t)))"
    using mem_counter.enforce_verdict[of ?b1 "hour_call k m t"] assms(1) by simp
  have "only_window ?b2 k {t div 3600}"
    using only_window_after_enforce[of ?b1 "hour_call k m t"] by simp
  then have "only_window ?b2 k ((\<lambda>t. t div 3600) ` T)"
    using Cons.prems(2) by (auto simp: only_window_def)
  with Cons.IH[of ?b2] Cons.prems(2) ok1 ok2 show ?case
    by (simp add: Let_def case_prod_beta)
qed

subsection \<open>Properties\<close>

text \<open>Within one calendar window, a limiter on a fresh counter admits exactly the first
  \<^verbatim>\<open>max\<close> calls on a key and refuses the rest, however many calls on other keys are interleaved.\<close>

lemma limiter_admits_exactly_max:
  assumes "\<forall>c\<in>set cs. call_key c = k \<longrightarrow> call_window c = w \<and> rl_max (rc_limit c) = m" "0 \<le> m"
  shows "int (admitted_on k cs (fst (enforce_all incr Map.empty cs)))
     = min (int (length (filter (\<lambda>c. call_key c = k) cs))) m"
  using mem_counter.admitted_in_window[OF assms(1), of Map.empty] assms(2)
  by (simp add: bucket_count_def)

definition demo_call :: "instant \<Rightarrow> string \<Rightarrow> rate_call" where
  "demo_call t v = \<lparr>rc_now = t, rc_tenant = ''t1'', rc_verb = v,
     rc_limit = \<lparr>rl_per = ''minute'', rl_max = 2, rl_scope = ''verb''\<rparr>\<rparr>"

text \<open>The window is fixed, not sliding: calls on one key, in time order, spanning at most
  two consecutive windows are admitted at most \<^verbatim>\<open>2 * max\<close> times, the burst the module documents.\<close>

lemma burst_at_most_twice_max:
  assumes "cs = early @ late"
    and "\<forall>c\<in>set early. call_key c = k \<and> call_window c = w \<and> rl_max (rc_limit c) = m"
    and "\<forall>c\<in>set late. call_key c = k \<and> call_window c = w + 1 \<and> rl_max (rc_limit c) = m"
    and "0 \<le> m"
  shows "int (admitted_on k cs (fst (enforce_all incr Map.empty cs)))
     = min (int (length early)) m + min (int (length late)) m
    \<and> int (admitted_on k cs (fst (enforce_all incr Map.empty cs))) \<le> 2 * m"
proof -
  let ?s1 = "snd (enforce_all incr Map.empty early)"
  have e: "int (admitted_on k early (fst (enforce_all incr Map.empty early)))
     = min (int (length (filter (\<lambda>c. call_key c = k) early))) (max 0 (m - bucket_count Map.empty k w))"
    by (rule mem_counter.admitted_in_window) (use assms(2) in blast)
  have fresh: "bucket_count ?s1 k (w + 1) = 0"
    by (rule bucket_count_after_other_window) (use assms(2) in \<open>auto simp: bucket_count_def\<close>)
  have l: "int (admitted_on k late (fst (enforce_all incr ?s1 late)))
     = min (int (length (filter (\<lambda>c. call_key c = k) late))) (max 0 (m - bucket_count ?s1 k (w + 1)))"
    by (rule mem_counter.admitted_in_window) (use assms(3) in blast)
  have f: "filter (\<lambda>c. call_key c = k) early = early" "filter (\<lambda>c. call_key c = k) late = late"
    using assms(2,3) by (simp_all add: filter_id_conv)
  have "fst (enforce_all incr Map.empty cs)
     = fst (enforce_all incr Map.empty early) @ fst (enforce_all incr ?s1 late)"
    by (simp add: assms(1) enforce_all_append Let_def split: prod.splits)
  then have "admitted_on k cs (fst (enforce_all incr Map.empty cs))
     = admitted_on k early (fst (enforce_all incr Map.empty early))
       + admitted_on k late (fst (enforce_all incr ?s1 late))"
    using assms(1) by (simp add: admitted_on_append length_enforce_all)
  then show ?thesis using e l f fresh assms(4) by (simp add: bucket_count_def)
qed

text \<open>Two tenant-scoped limits with different periods defeat each other on the in-memory
  counter: both use the tenant id as their key, and the stale-window cleanup of one period deletes the
  bucket of the other. Alternating a minute-limited and an hour-limited verb, every call is admitted,
  for any limits of at least one and any number of calls.\<close>

lemma mixed_periods_never_throttle:
  assumes "1 \<le> m" "(\<lambda>t. t div 60) ` set ts \<inter> (\<lambda>t. t div 3600) ` set ts = {}"
  shows "list_all id (fst (enforce_all incr Map.empty
           (concat (map (\<lambda>t. [minute_call tenant m t, hour_call tenant m t]) ts))))"
  by (rule interleaved_periods_admitted[OF assms]) (auto simp: only_window_def bucket_count_def)

end
