(* ===== verification/Idempotency.thy ===== *)
theory Idempotency
  imports Values
begin

text \<open>
  Idempotency: the atomic claim store (\<^verbatim>\<open>IdempotencyStoreMem\<close> of \<^verbatim>\<open>boltrig/store/idempotency.py\<close>,
  contract \<^verbatim>\<open>store/idempotency_contract.py\<close>) and the coordinator the dispatcher uses
  (\<^verbatim>\<open>boltrig/kernel/idempotency.py\<close>). The contract between the two is the locale \<open>idempotency_store\<close>;
  the in-memory store is its instance. SHA-256 is the parameter \<open>sha256\<close>, the float rendering of
  JSON the parameter \<open>frepr\<close>.
\<close>

subsection \<open>The claim store\<close>

datatype idem_status = Claimed | Executing | Completed | Uncertain | Uncacheable

text \<open>\<^verbatim>\<open>_bound\<close>: what a key is bound to on first use.\<close>

record idem_bound =
  ib_actor :: string
  ib_on_behalf_of :: "string option"
  ib_workspace_id :: "string option"
  ib_noun :: string
  ib_verb :: string
  ib_request_hash :: string

record idem_record =
  ir_bound :: idem_bound
  ir_status :: idem_status
  ir_owner_token :: "string option"
  ir_lease_expires_at :: "instant option"
  ir_result :: "pyval option"

type_synonym idem_key = "string \<times> string"
type_synonym idem_store = "idem_key \<rightharpoonup> idem_record"

datatype idem_claim =
    ClaimAcquired
  | ClaimCompleted "pyval option"
  | ClaimInProgress
  | ClaimMismatch
  | ClaimUncertain
  | ClaimUncacheable

text \<open>A lease that is absent never counts as expired; a claimed or executing record always has one
  (\<open>wf_idem\<close> below).\<close>

definition lease_expired :: "idem_record \<Rightarrow> instant \<Rightarrow> bool" where
  "lease_expired r now = (case ir_lease_expires_at r of None \<Rightarrow> False | Some t \<Rightarrow> t \<le> now)"

definition idempotency_claim ::
  "idem_store \<Rightarrow> instant \<Rightarrow> idem_key \<Rightarrow> idem_bound \<Rightarrow> string \<Rightarrow> int \<Rightarrow> idem_claim \<times> idem_store" where
  "idempotency_claim s now k bnd owner_token lease_seconds =
     (case s k of
        None \<Rightarrow> (ClaimAcquired,
          s(k \<mapsto> \<lparr>ir_bound = bnd, ir_status = Claimed, ir_owner_token = Some owner_token,
                   ir_lease_expires_at = Some (now + max 0 lease_seconds), ir_result = None\<rparr>))
      | Some r \<Rightarrow>
          (if ir_bound r \<noteq> bnd then (ClaimMismatch, s)
           else if ir_status r = Completed then (ClaimCompleted (ir_result r), s)
           else if ir_status r = Claimed \<and> lease_expired r now
             then (ClaimAcquired, s(k \<mapsto> r\<lparr>ir_owner_token := Some owner_token,
                     ir_lease_expires_at := Some (now + max 0 lease_seconds)\<rparr>))
           else if ir_status r = Executing \<and> lease_expired r now
             then (ClaimUncertain, s(k \<mapsto> r\<lparr>ir_status := Uncertain\<rparr>))
           else if ir_status r \<in> {Claimed, Executing} then (ClaimInProgress, s)
           else (if ir_status r = Uncertain then ClaimUncertain else ClaimUncacheable, s)))"

text \<open>\<^verbatim>\<open>_owned\<close>.\<close>

definition idem_owned :: "idem_record option \<Rightarrow> string \<Rightarrow> idem_status \<Rightarrow> bool" where
  "idem_owned ro owner_token st =
     (case ro of None \<Rightarrow> False | Some r \<Rightarrow> ir_status r = st \<and> ir_owner_token r = Some owner_token)"

definition idempotency_start ::
  "idem_store \<Rightarrow> instant \<Rightarrow> idem_key \<Rightarrow> string \<Rightarrow> int \<Rightarrow> bool \<times> idem_store" where
  "idempotency_start s now k owner_token lease_seconds =
     (if \<not> idem_owned (s k) owner_token Claimed then (False, s)
      else (True, s(k \<mapsto> (the (s k))\<lparr>ir_status := Executing,
              ir_lease_expires_at := Some (now + max 0 lease_seconds)\<rparr>)))"

definition idempotency_release ::
  "idem_store \<Rightarrow> idem_key \<Rightarrow> string \<Rightarrow> bool \<times> idem_store" where
  "idempotency_release s k owner_token =
     (case s k of None \<Rightarrow> (False, s)
      | Some r \<Rightarrow> (if ir_owner_token r \<noteq> Some owner_token \<or> ir_status r \<notin> {Claimed, Executing}
                   then (False, s) else (True, s(k := None))))"

definition idempotency_complete ::
  "idem_store \<Rightarrow> idem_key \<Rightarrow> string \<Rightarrow> pyval \<Rightarrow> bool \<times> idem_store" where
  "idempotency_complete s k owner_token result =
     (if \<not> idem_owned (s k) owner_token Executing then (False, s)
      else (True, s(k \<mapsto> (the (s k))\<lparr>ir_status := Completed, ir_owner_token := None,
              ir_lease_expires_at := None, ir_result := Some result\<rparr>)))"

definition idempotency_uncacheable ::
  "idem_store \<Rightarrow> idem_key \<Rightarrow> string \<Rightarrow> bool \<times> idem_store" where
  "idempotency_uncacheable s k owner_token =
     (if \<not> idem_owned (s k) owner_token Executing then (False, s)
      else (True, s(k \<mapsto> (the (s k))\<lparr>ir_status := Uncacheable, ir_owner_token := None,
              ir_lease_expires_at := None, ir_result := None\<rparr>)))"

lemmas idem_defs = idempotency_claim_def idempotency_start_def idempotency_release_def
  idempotency_complete_def idempotency_uncacheable_def idem_owned_def lease_expired_def

subsection \<open>One operation of any client\<close>

datatype idem_op =
    OpClaim idem_key idem_bound string int instant
  | OpStart idem_key string int instant
  | OpRelease idem_key string
  | OpComplete idem_key string pyval
  | OpUncacheable idem_key string

datatype idem_out = OutClaim idem_claim | OutBool bool

fun idem_apply :: "idem_op \<Rightarrow> idem_store \<Rightarrow> idem_out \<times> idem_store" where
  "idem_apply (OpClaim k b ot ls now) s = map_prod OutClaim id (idempotency_claim s now k b ot ls)"
| "idem_apply (OpStart k ot ls now) s = map_prod OutBool id (idempotency_start s now k ot ls)"
| "idem_apply (OpRelease k ot) s = map_prod OutBool id (idempotency_release s k ot)"
| "idem_apply (OpComplete k ot r) s = map_prod OutBool id (idempotency_complete s k ot r)"
| "idem_apply (OpUncacheable k ot) s = map_prod OutBool id (idempotency_uncacheable s k ot)"

fun idem_run :: "(idem_op \<Rightarrow> 's \<Rightarrow> idem_out \<times> 's) \<Rightarrow> idem_op list \<Rightarrow> 's \<Rightarrow> idem_out list \<times> 's" where
  "idem_run app [] s = ([], s)"
| "idem_run app (op # ops) s =
     (let (r, s1) = app op s; (rs, s2) = idem_run app ops s1 in (r # rs, s2))"

definition terminal_status :: "idem_status \<Rightarrow> bool" where
  "terminal_status st \<longleftrightarrow> st \<in> {Completed, Uncertain, Uncacheable}"

text \<open>A claim on \<open>k\<close> that was answered \<open>ClaimAcquired\<close>.\<close>

definition acquires :: "idem_key \<Rightarrow> idem_op \<Rightarrow> idem_out \<Rightarrow> bool" where
  "acquires k op r \<longleftrightarrow> (\<exists>b ot ls now. op = OpClaim k b ot ls now) \<and> r = OutClaim ClaimAcquired"

subsection \<open>The contract the coordinator relies on\<close>

locale idempotency_store =
  fixes app :: "idem_op \<Rightarrow> 's \<Rightarrow> idem_out \<times> 's"
    and view :: "'s \<Rightarrow> idem_key \<Rightarrow> idem_record option"
  assumes terminal_kept: "view s k = Some r \<Longrightarrow> terminal_status (ir_status r) \<Longrightarrow>
      view (snd (app op s)) k = Some r"
    and executing_kept: "view s k = Some r \<Longrightarrow> ir_status r = Executing \<Longrightarrow>
      ir_owner_token r = Some ot \<Longrightarrow> op \<noteq> OpRelease k ot \<Longrightarrow>
      \<exists>r'. view (snd (app op s)) k = Some r' \<and>
        (ir_status r' = Executing \<and> ir_owner_token r' = Some ot \<or> terminal_status (ir_status r'))"
    and occupied_not_acquired: "view s k = Some r \<Longrightarrow> ir_status r \<noteq> Claimed \<Longrightarrow>
      \<not> acquires k op (fst (app op s))"
begin

lemma terminal_stable_run:
  "view s k = Some r \<Longrightarrow> terminal_status (ir_status r) \<Longrightarrow> view (snd (idem_run app ops s)) k = Some r"
  by (induction ops arbitrary: s) (auto simp: Let_def case_prod_beta terminal_kept)

text \<open>Once a key is executing for an owner, no claim on it is acquired by anyone until that owner
  releases it: not even after the lease has expired.\<close>

lemma no_second_owner_run:
  assumes "view s k = Some r"
    and "ir_status r = Executing \<and> ir_owner_token r = Some ot \<or> terminal_status (ir_status r)"
    and "OpRelease k ot \<notin> set ops"
  shows "list_all (\<lambda>(op, out). \<not> acquires k op out) (zip ops (fst (idem_run app ops s)))"
  using assms
proof (induction ops arbitrary: s r)
  case Nil
  then show ?case by simp
next
  case (Cons op ops)
  have occ: "ir_status r \<noteq> Claimed" using Cons.prems(2) by (auto simp: terminal_status_def)
  have rel: "op \<noteq> OpRelease k ot" using Cons.prems(3) by auto
  obtain r' where r': "view (snd (app op s)) k = Some r'"
      "ir_status r' = Executing \<and> ir_owner_token r' = Some ot \<or> terminal_status (ir_status r')"
  proof (cases "terminal_status (ir_status r)")
    case True
    with terminal_kept[OF Cons.prems(1) True, of op] that show ?thesis by blast
  next
    case False
    with Cons.prems(2) have "ir_status r = Executing" "ir_owner_token r = Some ot" by auto
    from executing_kept[OF Cons.prems(1) this rel] that show ?thesis by blast
  qed
  from Cons.IH[OF r'] Cons.prems(3) occupied_not_acquired[OF Cons.prems(1) occ, of op]
  show ?case by (auto simp: Let_def case_prod_beta)
qed

end

interpretation mem_idem: idempotency_store idem_apply "\<lambda>s. s"
proof unfold_locales
  fix s :: idem_store and k r op
  assume "s k = Some r" "terminal_status (ir_status r)"
  then show "snd (idem_apply op s) k = Some r"
    by (cases op) (auto simp: idem_defs terminal_status_def split: option.splits if_splits)
next
  fix s :: idem_store and k r ot op
  assume "s k = Some r" "ir_status r = Executing" "ir_owner_token r = Some ot" "op \<noteq> OpRelease k ot"
  then show "\<exists>r'. snd (idem_apply op s) k = Some r' \<and>
      (ir_status r' = Executing \<and> ir_owner_token r' = Some ot \<or> terminal_status (ir_status r'))"
    by (cases op) (auto simp: idem_defs terminal_status_def split: option.splits if_splits)
next
  fix s :: idem_store and k r op
  assume "s k = Some r" "ir_status r \<noteq> Claimed"
  then show "\<not> acquires k op (fst (idem_apply op s))"
    by (cases op) (auto simp: idem_defs acquires_def)
qed

subsection \<open>The coordinator\<close>

definition LEASE_SECONDS :: int where
  "LEASE_SECONDS = 300"

datatype idem_mode = Cacheable | Disabled

datatype idem_error =
    ReplayUnsupported string
  | BoundElsewhere
  | AlreadyInProgress
  | OutcomeUncertain
  | ResultUncacheable
  | ClaimOwnershipLost
  | CompletionOwnershipLost
  | ParamsNotCanonical

record idem_handle =
  run_tenant :: string
  run_key :: string
  run_owner_token :: string

datatype idem_outcome = IdemRun idem_handle | IdemReplay pyval

text \<open>\<^verbatim>\<open>canonical_request_hash\<close>.\<close>

definition canonical_request_hash ::
  "(rat \<Rightarrow> string) \<Rightarrow> (string \<Rightarrow> string) \<Rightarrow> pyval \<Rightarrow> idem_error + string" where
  "canonical_request_hash frepr sha256 params =
     (case json_dumps frepr params of Inl _ \<Rightarrow> Inl ParamsNotCanonical | Inr body \<Rightarrow> Inr (sha256 body))"

text \<open>The caller's identity as the claim binds it.\<close>

record idem_caller =
  ic_tenant :: string
  ic_actor :: string
  ic_on_behalf_of :: "string option"
  ic_workspace_id :: "string option"

definition bound_of :: "idem_caller \<Rightarrow> string \<Rightarrow> string \<Rightarrow> string \<Rightarrow> idem_bound" where
  "bound_of c noun verb h = \<lparr>ib_actor = ic_actor c, ib_on_behalf_of = ic_on_behalf_of c,
     ib_workspace_id = ic_workspace_id c, ib_noun = noun, ib_verb = verb, ib_request_hash = h\<rparr>"

text \<open>\<^verbatim>\<open>dict(claim.result or {})\<close>.\<close>

definition replay_dict :: "pyval option \<Rightarrow> pyval" where
  "replay_dict ro = (case ro of Some v \<Rightarrow> (if truthy v then v else PDict []) | None \<Rightarrow> PDict [])"

definition coord_claim ::
  "(rat \<Rightarrow> string) \<Rightarrow> (string \<Rightarrow> string) \<Rightarrow> idem_store \<Rightarrow> instant \<Rightarrow> string \<Rightarrow> string option \<Rightarrow> string \<Rightarrow> string
     \<Rightarrow> pyval \<Rightarrow> idem_caller \<Rightarrow> idem_mode \<Rightarrow> (idem_error + idem_outcome option) \<times> idem_store" where
  "coord_claim frepr sha256 s now owner_token key noun verb params caller mode =
     (case key of None \<Rightarrow> (Inr None, s)
      | Some k \<Rightarrow>
          (if mode = Disabled then (Inl (ReplayUnsupported verb), s)
           else case canonical_request_hash frepr sha256 params of
             Inl e \<Rightarrow> (Inl e, s)
           | Inr h \<Rightarrow>
               (case idempotency_claim s now (ic_tenant caller, k) (bound_of caller noun verb h)
                       owner_token LEASE_SECONDS of
                  (ClaimAcquired, s') \<Rightarrow> (Inr (Some (IdemRun \<lparr>run_tenant = ic_tenant caller,
                      run_key = k, run_owner_token = owner_token\<rparr>)), s')
                | (ClaimCompleted res, s') \<Rightarrow> (Inr (Some (IdemReplay (replay_dict res))), s')
                | (ClaimMismatch, s') \<Rightarrow> (Inl BoundElsewhere, s')
                | (ClaimInProgress, s') \<Rightarrow> (Inl AlreadyInProgress, s')
                | (ClaimUncertain, s') \<Rightarrow> (Inl OutcomeUncertain, s')
                | (ClaimUncacheable, s') \<Rightarrow> (Inl ResultUncacheable, s'))))"

definition handle_key :: "idem_handle \<Rightarrow> idem_key" where
  "handle_key h = (run_tenant h, run_key h)"

definition coord_start :: "idem_store \<Rightarrow> instant \<Rightarrow> idem_handle option \<Rightarrow> (idem_error + unit) \<times> idem_store" where
  "coord_start s now run =
     (case run of None \<Rightarrow> (Inr (), s)
      | Some h \<Rightarrow> (case idempotency_start s now (handle_key h) (run_owner_token h) LEASE_SECONDS of
            (started, s') \<Rightarrow> (if \<not> started then Inl ClaimOwnershipLost else Inr (), s')))"

definition coord_release :: "idem_store \<Rightarrow> idem_handle option \<Rightarrow> idem_store" where
  "coord_release s run =
     (case run of None \<Rightarrow> s | Some h \<Rightarrow> snd (idempotency_release s (handle_key h) (run_owner_token h)))"

definition coord_complete :: "idem_store \<Rightarrow> idem_handle option \<Rightarrow> pyval \<Rightarrow> (idem_error + unit) \<times> idem_store" where
  "coord_complete s run output =
     (case run of None \<Rightarrow> (Inr (), s)
      | Some h \<Rightarrow>
          (let (saved, s') =
             (if secret_shaped output
              then idempotency_uncacheable s (handle_key h) (run_owner_token h)
              else idempotency_complete s (handle_key h) (run_owner_token h) output)
           in (if \<not> saved then Inl CompletionOwnershipLost else Inr (), s')))"

lemmas coord_defs = coord_claim_def coord_start_def coord_release_def coord_complete_def

subsection \<open>Invariants of the store\<close>

text \<open>A live record has an owner and a lease, a settled one neither; only a completed record has a result.\<close>

definition wf_idem :: "idem_store \<Rightarrow> bool" where
  "wf_idem s \<longleftrightarrow> (\<forall>k r. s k = Some r \<longrightarrow>
     (ir_status r \<in> {Claimed, Executing} \<longrightarrow> ir_owner_token r \<noteq> None \<and> ir_lease_expires_at r \<noteq> None) \<and>
     (ir_status r \<in> {Completed, Uncacheable} \<longrightarrow> ir_owner_token r = None \<and> ir_lease_expires_at r = None) \<and>
     (ir_status r = Completed \<longleftrightarrow> ir_result r \<noteq> None))"

lemma wf_idem_update:
  "wf_idem s \<Longrightarrow>
   (ir_status r \<in> {Claimed, Executing} \<longrightarrow> ir_owner_token r \<noteq> None \<and> ir_lease_expires_at r \<noteq> None) \<Longrightarrow>
   (ir_status r \<in> {Completed, Uncacheable} \<longrightarrow> ir_owner_token r = None \<and> ir_lease_expires_at r = None) \<Longrightarrow>
   (ir_status r = Completed \<longleftrightarrow> ir_result r \<noteq> None) \<Longrightarrow> wf_idem (s(k \<mapsto> r))"
  by (auto simp: wf_idem_def)

lemma wf_idem_delete: "wf_idem s \<Longrightarrow> wf_idem (s(k := None))"
  by (auto simp: wf_idem_def)

lemma wf_idem_result_completed:
  "wf_idem s \<Longrightarrow> s k = Some r \<Longrightarrow> ir_result r = Some v \<Longrightarrow> ir_status r = Completed"
  unfolding wf_idem_def by blast

lemma wf_idem_apply: "wf_idem s \<Longrightarrow> wf_idem (snd (idem_apply op s))"
  by (cases op)
     (auto simp: idem_defs split: option.splits if_splits
        intro!: wf_idem_update wf_idem_delete dest: wf_idem_result_completed)

text \<open>No stored result is secret-shaped.\<close>

definition no_cached_secret :: "idem_store \<Rightarrow> bool" where
  "no_cached_secret s \<longleftrightarrow> (\<forall>k r v. s k = Some r \<longrightarrow> ir_result r = Some v \<longrightarrow> \<not> secret_shaped v)"

lemma no_cached_secret_update:
  "no_cached_secret s \<Longrightarrow> (\<And>v. ir_result r = Some v \<Longrightarrow> \<not> secret_shaped v) \<Longrightarrow> no_cached_secret (s(k \<mapsto> r))"
  by (auto simp: no_cached_secret_def)

lemma no_cached_secret_delete: "no_cached_secret s \<Longrightarrow> no_cached_secret (s(k := None))"
  by (auto simp: no_cached_secret_def)

lemma no_cached_secretD:
  "no_cached_secret s \<Longrightarrow> s k = Some r \<Longrightarrow> ir_result r = Some v \<Longrightarrow> \<not> secret_shaped v"
  unfolding no_cached_secret_def by blast

lemma coord_claim_store:
  "snd (coord_claim frepr sha256 s now ot key noun verb params caller mode) = s \<or>
   (\<exists>k b. snd (coord_claim frepr sha256 s now ot key noun verb params caller mode)
        = snd (idempotency_claim s now k b ot LEASE_SECONDS))"
  by (auto simp: coord_claim_def split: option.splits sum.splits prod.splits idem_claim.splits)
     (metis snd_conv)+

lemma idempotency_claim_no_secret:
  "no_cached_secret s \<Longrightarrow> no_cached_secret (snd (idempotency_claim s now k b ot ls))"
  by (auto simp: idempotency_claim_def split: option.splits
      intro!: no_cached_secret_update dest: no_cached_secretD)

lemma coord_claim_no_secret:
  "no_cached_secret s \<Longrightarrow>
   no_cached_secret (snd (coord_claim frepr sha256 s now ot key noun verb params caller mode))"
  using coord_claim_store[of frepr sha256 s now ot key noun verb params caller mode]
    idempotency_claim_no_secret by metis

lemma coord_start_no_secret: "no_cached_secret s \<Longrightarrow> no_cached_secret (snd (coord_start s now run))"
  by (auto simp: coord_start_def idempotency_start_def idem_owned_def split: option.splits
      intro!: no_cached_secret_update dest: no_cached_secretD)

lemma coord_release_no_secret: "no_cached_secret s \<Longrightarrow> no_cached_secret (coord_release s run)"
  by (auto simp: coord_release_def idempotency_release_def split: option.splits
      intro!: no_cached_secret_delete)

lemma coord_complete_no_secret: "no_cached_secret s \<Longrightarrow> no_cached_secret (snd (coord_complete s run output))"
  by (auto simp: coord_complete_def idempotency_complete_def idempotency_uncacheable_def Let_def
      split: option.splits intro!: no_cached_secret_update)

text \<open>The steps the dispatcher takes through the coordinator.\<close>

inductive coord_step :: "idem_store \<Rightarrow> idem_store \<Rightarrow> bool" where
  step_claim: "coord_step s (snd (coord_claim frepr sha256 s now ot key noun verb params caller mode))"
| step_start: "coord_step s (snd (coord_start s now run))"
| step_release: "coord_step s (coord_release s run)"
| step_complete: "coord_step s (snd (coord_complete s run output))"

inductive coord_reachable :: "idem_store \<Rightarrow> bool" where
  coord_init: "coord_reachable Map.empty"
| coord_next: "coord_reachable s \<Longrightarrow> coord_step s t \<Longrightarrow> coord_reachable t"

lemma coord_step_no_secret: "coord_step s t \<Longrightarrow> no_cached_secret s \<Longrightarrow> no_cached_secret t"
  by (induction rule: coord_step.induct)
     (auto intro: coord_claim_no_secret coord_start_no_secret coord_release_no_secret coord_complete_no_secret)

subsection \<open>Properties\<close>

text \<open>Property C13. A key that one owner has started executing is never handed to a second owner: after a
  successful start, whatever operations follow (at whatever times, lease expiry included), no claim on
  that key is acquired unless the first owner released it.\<close>

theorem started_key_has_one_owner:
  assumes "idempotency_start s now k ot ls = (True, s')" "OpRelease k ot \<notin> set ops"
  shows "list_all (\<lambda>(op, out). \<not> acquires k op out) (zip ops (fst (idem_run idem_apply ops s')))"
proof -
  from assms(1) obtain r where "s' k = Some r" "ir_status r = Executing" "ir_owner_token r = Some ot"
    by (auto simp: idempotency_start_def idem_owned_def split: if_splits option.splits)
  then show ?thesis using mem_idem.no_second_owner_run assms(2) by blast
qed

definition demo_bound :: idem_bound where
  "demo_bound = \<lparr>ib_actor = ''a'', ib_on_behalf_of = None, ib_workspace_id = None, ib_noun = ''ticket'',
     ib_verb = ''ticket.create'', ib_request_hash = ''h''\<rparr>"

definition demo_store :: idem_store where
  "demo_store = snd (idempotency_claim Map.empty 0 (''t'', ''k'') demo_bound ''o1'' 300)"

theorem started_key_has_one_owner_witness:
  "list_all (\<lambda>(op, out). \<not> acquires (''t'', ''k'') op out)
     (zip [OpClaim (''t'', ''k'') demo_bound ''o2'' 300 9999]
      (fst (idem_run idem_apply [OpClaim (''t'', ''k'') demo_bound ''o2'' 300 9999]
         (snd (idempotency_start demo_store 1 (''t'', ''k'') ''o1'' 300)))))"
proof (rule started_key_has_one_owner)
  show "idempotency_start demo_store 1 (''t'', ''k'') ''o1'' 300
      = (True, snd (idempotency_start demo_store 1 (''t'', ''k'') ''o1'' 300))"
    by (simp add: demo_store_def idem_defs)
qed simp

text \<open>A completed result is replayed for good: once the coordinator has completed a run with
  a non-empty, secret-free output, then after any further operations by anyone a claim of that key bound to the same
  identity and request replays exactly that output, and a claim bound to anything else is refused.\<close>

lemma completed_result_replays:
  assumes compl: "coord_complete s (Some h) output = (Inr (), s1)"
    and clean: "\<not> secret_shaped output" and nonempty: "truthy output"
    and rec: "s (handle_key h) = Some r"
    and tenant: "ic_tenant caller = run_tenant h"
    and hash: "canonical_request_hash frepr sha256 params = Inr rh"
  shows "coord_claim frepr sha256 (snd (idem_run idem_apply ops s1)) now ot (Some (run_key h)) noun verb
           params caller Cacheable
       = ((if bound_of caller noun verb rh = ir_bound r then Inr (Some (IdemReplay output))
           else Inl BoundElsewhere), snd (idem_run idem_apply ops s1))"
proof -
  let ?r = "r\<lparr>ir_status := Completed, ir_owner_token := None, ir_lease_expires_at := None,
              ir_result := Some output\<rparr>"
  have "s1 (handle_key h) = Some ?r"
    using compl clean rec by (auto simp: coord_complete_def idempotency_complete_def Let_def split: if_splits)
  then have "snd (idem_run idem_apply ops s1) (handle_key h) = Some ?r"
    by (rule mem_idem.terminal_stable_run) (simp add: terminal_status_def)
  then show ?thesis
    using hash tenant nonempty
    by (auto simp: coord_claim_def idempotency_claim_def handle_key_def replay_dict_def)
qed

definition demo_caller :: idem_caller where
  "demo_caller = \<lparr>ic_tenant = ''t'', ic_actor = ''a'', ic_on_behalf_of = None, ic_workspace_id = None\<rparr>"

definition demo_handle :: idem_handle where
  "demo_handle = \<lparr>run_tenant = ''t'', run_key = ''k'', run_owner_token = ''o1''\<rparr>"

definition demo_executing :: idem_store where
  "demo_executing = snd (idempotency_start
     (snd (idempotency_claim Map.empty 0 (''t'', ''k'') (bound_of demo_caller ''ticket'' ''ticket.create'' ''{}'') ''o1'' 300))
     1 (''t'', ''k'') ''o1'' 300)"

text \<open>The replay cache never holds a secret: in every store the coordinator can reach, no
  cached result is secret-shaped (a sensitive key, a credential prefix or a three-part token anywhere in
  it).\<close>

lemma cache_never_holds_secrets:
  assumes "coord_reachable s"
  shows "no_cached_secret s"
  using assms
proof (induction rule: coord_reachable.induct)
  case coord_init
  then show ?case by (simp add: no_cached_secret_def)
next
  case (coord_next s t)
  then show ?case by (blast intro: coord_step_no_secret)
qed

text \<open>Every operation keeps the store well formed: claimed and executing records have an owner
  and a lease, settled ones neither, and exactly the completed ones hold a result.\<close>

lemma idem_store_invariant:
  assumes "wf_idem s"
  shows "wf_idem (snd (idem_run idem_apply ops s))"
  using assms by (induction ops arbitrary: s) (auto simp: Let_def case_prod_beta wf_idem_apply)

end
