(* ===== verification/Registry.thy ===== *)
theory Registry
  imports Context RateLimit Idempotency "HOL-Library.AList"
begin

text \<open>
  The noun, verb and binding registry: the records of \<^verbatim>\<open>boltrig/models/registry.py\<close>, the in-memory tables of
  \<^verbatim>\<open>boltrig/store/authored_definitions_memory.py\<close>, the effect log of \<^verbatim>\<open>boltrig/kernel/revertible.py\<close> and the
  registration of an adapter's verbs in \<^verbatim>\<open>boltrig/kernel/registry.py\<close>.

  The tables are insertion-ordered dictionaries, hence association lists. An inverse stored in the effect log
  is one of five store calls, so the log is a list of those calls with their arguments; on this store none of them
  raises, and the list of failures \<open>revert\<close> returns is empty.
\<close>

datatype consequence = LOW | HIGH

datatype target_type = ADAPTER | AGENT

record noun =
  no_id :: string
  no_tenant_id :: string
  no_description :: string
  no_schema :: pydict
  no_is_active :: bool

record verb_def =
  vd_id :: string
  vd_tenant_id :: string
  vd_noun_id :: string
  vd_input_schema :: pydict
  vd_output_schema :: pydict
  vd_description :: string
  vd_consequence :: consequence
  vd_degraded_mode :: "pydict option"
  vd_identity_mode :: string
  vd_idempotency_mode :: idem_mode
  vd_is_active :: bool

record verb_binding =
  vb_verb_id :: string
  vb_tenant_id :: string
  vb_target_type :: target_type
  vb_target_ref :: string
  vb_rate_limit :: "rate_limit option"
  vb_internal_source_operation_id :: "string option"
  vb_canonical_capability_id :: "string option"
  vb_model_display_name :: "string option"
  vb_connection_label :: "string option"

definition owned_by :: "verb_binding \<Rightarrow> string \<Rightarrow> bool" where
  "owned_by b adapter_id \<longleftrightarrow> vb_target_type b = ADAPTER \<and> vb_target_ref b = adapter_id"

record skill =
  sk_id :: string
  sk_tenant_id :: string
  sk_version :: string
  sk_prompt_fragment :: string
  sk_tool_grants :: "string list"
  sk_context_requirements :: pydict
  sk_extends :: "string option"
  sk_locale :: string
  sk_description :: string
  sk_is_active :: bool

record registry_store =
  rg_nouns :: "((string \<times> string) \<times> noun) list"
  rg_verbs :: "((string \<times> string) \<times> verb_def) list"
  rg_bindings :: "((string \<times> string) \<times> verb_binding) list"
  rg_skills :: "((string \<times> string \<times> string) \<times> skill) list"

definition registry_empty :: registry_store where
  "registry_empty = \<lparr>rg_nouns = [], rg_verbs = [], rg_bindings = [], rg_skills = []\<rparr>"

subsection \<open>The store\<close>

definition get_noun_any :: "registry_store \<Rightarrow> string \<Rightarrow> string \<Rightarrow> noun option" where
  "get_noun_any s t i = map_of (rg_nouns s) (t, i)"

definition get_noun :: "registry_store \<Rightarrow> string \<Rightarrow> string \<Rightarrow> noun option" where
  "get_noun s t i = (case get_noun_any s t i of None \<Rightarrow> None | Some n \<Rightarrow> if no_is_active n then Some n else None)"

definition get_verb_any :: "registry_store \<Rightarrow> string \<Rightarrow> string \<Rightarrow> verb_def option" where
  "get_verb_any s t i = map_of (rg_verbs s) (t, i)"

definition get_verb :: "registry_store \<Rightarrow> string \<Rightarrow> string \<Rightarrow> verb_def option" where
  "get_verb s t i =
     (case get_verb_any s t i of None \<Rightarrow> None
      | Some v \<Rightarrow> if \<not> vd_is_active v then None
                  else if get_noun s t (vd_noun_id v) \<noteq> None then Some v else None)"

definition list_all_verbs :: "registry_store \<Rightarrow> string \<Rightarrow> string option \<Rightarrow> verb_def list" where
  "list_all_verbs s t noun_id =
     (let out = map snd (filter (\<lambda>((t', _), _). t' = t) (rg_verbs s))
      in case noun_id of None \<Rightarrow> out | Some n \<Rightarrow> filter (\<lambda>v. vd_noun_id v = n) out)"

definition list_verbs :: "registry_store \<Rightarrow> string \<Rightarrow> string option \<Rightarrow> verb_def list" where
  "list_verbs s t noun_id =
     (let active_nouns = map (no_id \<circ> snd) (filter (\<lambda>((t', _), n). t' = t \<and> no_is_active n) (rg_nouns s))
      in filter (\<lambda>v. vd_is_active v \<and> vd_noun_id v \<in> set active_nouns) (list_all_verbs s t noun_id))"

definition get_binding :: "registry_store \<Rightarrow> string \<Rightarrow> string \<Rightarrow> verb_binding option" where
  "get_binding s t verb_id = map_of (rg_bindings s) (t, verb_id)"

definition upsert_noun :: "registry_store \<Rightarrow> noun \<Rightarrow> registry_store" where
  "upsert_noun s n =
     (let key = (no_tenant_id n, no_id n);
          active = (case map_of (rg_nouns s) key of None \<Rightarrow> no_is_active n | Some e \<Rightarrow> no_is_active e)
      in s\<lparr>rg_nouns := AList.update key (n\<lparr>no_is_active := active\<rparr>) (rg_nouns s)\<rparr>)"

definition upsert_verb :: "registry_store \<Rightarrow> verb_def \<Rightarrow> registry_store" where
  "upsert_verb s v =
     (let key = (vd_tenant_id v, vd_id v);
          active = (case map_of (rg_verbs s) key of None \<Rightarrow> vd_is_active v | Some e \<Rightarrow> vd_is_active e)
      in s\<lparr>rg_verbs := AList.update key (v\<lparr>vd_is_active := active\<rparr>) (rg_verbs s)\<rparr>)"

definition set_noun_active :: "registry_store \<Rightarrow> string \<Rightarrow> string \<Rightarrow> bool \<Rightarrow> noun option \<times> registry_store" where
  "set_noun_active s t i active =
     (case map_of (rg_nouns s) (t, i) of None \<Rightarrow> (None, s)
      | Some n \<Rightarrow> (let n' = n\<lparr>no_is_active := active\<rparr>
                   in (Some n', s\<lparr>rg_nouns := AList.update (t, i) n' (rg_nouns s)\<rparr>)))"

definition set_verb_active :: "registry_store \<Rightarrow> string \<Rightarrow> string \<Rightarrow> bool \<Rightarrow> verb_def option \<times> registry_store" where
  "set_verb_active s t i active =
     (case map_of (rg_verbs s) (t, i) of None \<Rightarrow> (None, s)
      | Some v \<Rightarrow> (let v' = v\<lparr>vd_is_active := active\<rparr>
                   in (Some v', s\<lparr>rg_verbs := AList.update (t, i) v' (rg_verbs s)\<rparr>)))"

definition upsert_binding :: "registry_store \<Rightarrow> verb_binding \<Rightarrow> registry_store" where
  "upsert_binding s b = s\<lparr>rg_bindings := AList.update (vb_tenant_id b, vb_verb_id b) b (rg_bindings s)\<rparr>"

definition delete_noun :: "registry_store \<Rightarrow> string \<Rightarrow> string \<Rightarrow> registry_store" where
  "delete_noun s t i = s\<lparr>rg_nouns := AList.delete (t, i) (rg_nouns s)\<rparr>"

definition delete_verb :: "registry_store \<Rightarrow> string \<Rightarrow> string \<Rightarrow> registry_store" where
  "delete_verb s t i = s\<lparr>rg_verbs := AList.delete (t, i) (rg_verbs s)\<rparr>"

definition delete_binding :: "registry_store \<Rightarrow> string \<Rightarrow> string \<Rightarrow> registry_store" where
  "delete_binding s t i = s\<lparr>rg_bindings := AList.delete (t, i) (rg_bindings s)\<rparr>"

text \<open>\<^verbatim>\<open>max(versions, key=version)\<close>: the first with the greatest version text.\<close>

fun max_version :: "skill list \<Rightarrow> skill option" where
  "max_version [] = None"
| "max_version (x # xs) = (case max_version xs of None \<Rightarrow> Some x
     | Some y \<Rightarrow> if sk_version y > sk_version x then Some y else Some x)"

definition get_skill_any :: "registry_store \<Rightarrow> string \<Rightarrow> string \<Rightarrow> skill option" where
  "get_skill_any s t i =
     max_version (map snd (filter (\<lambda>((t', i', _), _). t' = t \<and> i' = i) (rg_skills s)))"

definition get_skill :: "registry_store \<Rightarrow> string \<Rightarrow> string \<Rightarrow> skill option" where
  "get_skill s t i = (case get_skill_any s t i of None \<Rightarrow> None | Some k \<Rightarrow> if sk_is_active k then Some k else None)"

definition upsert_skill :: "registry_store \<Rightarrow> skill \<Rightarrow> registry_store" where
  "upsert_skill s k =
     (let active = (case get_skill_any s (sk_tenant_id k) (sk_id k) of None \<Rightarrow> sk_is_active k | Some e \<Rightarrow> sk_is_active e)
      in s\<lparr>rg_skills := AList.update (sk_tenant_id k, sk_id k, sk_version k) (k\<lparr>sk_is_active := active\<rparr>) (rg_skills s)\<rparr>)"

definition set_skill_active :: "registry_store \<Rightarrow> string \<Rightarrow> string \<Rightarrow> bool \<Rightarrow> skill option \<times> registry_store" where
  "set_skill_active s t i active =
     (let found = list_ex (\<lambda>((t', i', _), _). t' = t \<and> i' = i) (rg_skills s);
          s' = s\<lparr>rg_skills := map (\<lambda>((t', i', v), k).
                  ((t', i', v), if t' = t \<and> i' = i then k\<lparr>sk_is_active := active\<rparr> else k)) (rg_skills s)\<rparr>
      in (if found then get_skill_any s' t i else None, s'))"

subsection \<open>Revertible effects\<close>

datatype reg_revert =
    DeleteNoun string string
  | DeleteVerb string string
  | RestoreVerb verb_def
  | DeleteBinding string string
  | RestoreBinding verb_binding

record reg_effect =
  ef_describe :: string
  ef_revert :: reg_revert

definition run_revert :: "reg_revert \<Rightarrow> registry_store \<Rightarrow> registry_store" where
  "run_revert r s = (case r of
       DeleteNoun t i \<Rightarrow> delete_noun s t i
     | DeleteVerb t i \<Rightarrow> delete_verb s t i
     | RestoreVerb v \<Rightarrow> upsert_verb s v
     | DeleteBinding t i \<Rightarrow> delete_binding s t i
     | RestoreBinding b \<Rightarrow> upsert_binding s b)"

text \<open>\<^verbatim>\<open>EffectLog.record\<close> and \<^verbatim>\<open>EffectLog.revert\<close>: newest first, and the log is emptied.\<close>

definition record_effect :: "reg_effect list \<Rightarrow> string \<Rightarrow> reg_revert \<Rightarrow> reg_effect list" where
  "record_effect lg describe r = lg @ [\<lparr>ef_describe = describe, ef_revert = r\<rparr>]"

definition revert :: "reg_effect list \<Rightarrow> registry_store \<Rightarrow> reg_effect list \<times> registry_store" where
  "revert lg s = ([], fold (run_revert \<circ> ef_revert) (rev lg) s)"

subsection \<open>Registration\<close>

record verb_spec =
  sp_verb_id :: string
  sp_noun_id :: string
  sp_input_schema :: pydict
  sp_output_schema :: pydict
  sp_consequence :: string
  sp_description :: string
  sp_rate_limit :: "rate_limit option"
  sp_degraded_mode :: "pydict option"
  sp_idempotency_mode :: string

text \<open>\<^verbatim>\<open>Consequence(value)\<close> and \<^verbatim>\<open>IdempotencyMode(value)\<close>; an unknown value is a \<^verbatim>\<open>ValueError\<close>.\<close>

definition parse_consequence :: "string \<Rightarrow> py_error + consequence" where
  "parse_consequence c = (if c = ''low'' then Inr LOW else if c = ''high'' then Inr HIGH else Inl ValueError)"

definition parse_idem_mode :: "string \<Rightarrow> py_error + idem_mode" where
  "parse_idem_mode m =
     (if m = ''cacheable'' then Inr Cacheable else if m = ''disabled'' then Inr Disabled else Inl ValueError)"

definition spec_verb :: "string \<Rightarrow> verb_spec \<Rightarrow> py_error + verb_def" where
  "spec_verb t spec =
     rbind (parse_consequence (sp_consequence spec)) (\<lambda>c.
     rbind (parse_idem_mode (sp_idempotency_mode spec)) (\<lambda>m.
       Inr \<lparr>vd_id = sp_verb_id spec, vd_tenant_id = t, vd_noun_id = sp_noun_id spec,
            vd_input_schema = sp_input_schema spec, vd_output_schema = sp_output_schema spec,
            vd_description = sp_description spec, vd_consequence = c,
            vd_degraded_mode = sp_degraded_mode spec, vd_identity_mode = ''service-principal'',
            vd_idempotency_mode = m, vd_is_active = True\<rparr>))"

definition spec_binding :: "string \<Rightarrow> string \<Rightarrow> verb_spec \<Rightarrow> verb_binding" where
  "spec_binding t adapter_id spec =
     \<lparr>vb_verb_id = sp_verb_id spec, vb_tenant_id = t, vb_target_type = ADAPTER, vb_target_ref = adapter_id,
      vb_rate_limit = sp_rate_limit spec, vb_internal_source_operation_id = None,
      vb_canonical_capability_id = None, vb_model_display_name = None, vb_connection_label = None\<rparr>"

definition new_noun :: "string \<Rightarrow> string \<Rightarrow> noun" where
  "new_noun t i = \<lparr>no_id = i, no_tenant_id = t, no_description = [], no_schema = [], no_is_active = True\<rparr>"

definition record_verb_inverse :: "reg_effect list \<Rightarrow> string \<Rightarrow> string \<Rightarrow> verb_def option \<Rightarrow> reg_effect list" where
  "record_verb_inverse lg t verb_id previous =
     (case previous of
        None \<Rightarrow> record_effect lg (''verb '' @ verb_id) (DeleteVerb t verb_id)
      | Some v \<Rightarrow> record_effect lg (''verb '' @ verb_id @ '' (restore)'') (RestoreVerb v))"

definition record_binding_inverse ::
  "reg_effect list \<Rightarrow> string \<Rightarrow> string \<Rightarrow> verb_binding option \<Rightarrow> reg_effect list" where
  "record_binding_inverse lg t verb_id previous =
     (case previous of
        None \<Rightarrow> record_effect lg (''binding '' @ verb_id) (DeleteBinding t verb_id)
      | Some b \<Rightarrow> record_effect lg (''binding '' @ verb_id @ '' (restore)'') (RestoreBinding b))"

text \<open>\<^verbatim>\<open>_register_spec\<close> with an effect log; a spec with an unknown consequence or idempotency mode raises after the
  noun was written, so the error carries the state reached.\<close>

definition register_spec ::
  "string \<Rightarrow> string \<Rightarrow> verb_spec \<Rightarrow> registry_store \<times> reg_effect list
     \<Rightarrow> py_error option \<times> registry_store \<times> reg_effect list" where
  "register_spec t adapter_id spec st =
     (let (s, lg) = st;
          (s1, lg1) = (if get_noun s t (sp_noun_id spec) = None
             then (upsert_noun s (new_noun t (sp_noun_id spec)),
                   record_effect lg (''noun '' @ sp_noun_id spec) (DeleteNoun t (sp_noun_id spec)))
             else (s, lg));
          previous_verb = get_verb s1 t (sp_verb_id spec)
      in case spec_verb t spec of
           Inl e \<Rightarrow> (Some e, s1, lg1)
         | Inr v \<Rightarrow>
             (let s2 = upsert_verb s1 v;
                  lg2 = record_verb_inverse lg1 t (sp_verb_id spec) previous_verb;
                  existing = get_binding s2 t (sp_verb_id spec)
              in if (case existing of None \<Rightarrow> False | Some b \<Rightarrow> vb_target_type b = AGENT)
                 then (None, s2, lg2)
                 else (None, upsert_binding s2 (spec_binding t adapter_id spec),
                       record_binding_inverse lg2 t (sp_verb_id spec) existing)))"

text \<open>The registration loop of \<^verbatim>\<open>register_adapter_verbs\<close>, returning the registered ids.\<close>

fun register_specs ::
  "string \<Rightarrow> string \<Rightarrow> verb_spec list \<Rightarrow> registry_store \<times> reg_effect list
     \<Rightarrow> (py_error + string list) \<times> registry_store \<times> reg_effect list" where
  "register_specs t adapter_id [] st = (Inr [], st)"
| "register_specs t adapter_id (spec # specs) st =
     (case register_spec t adapter_id spec st of
        (Some e, st1) \<Rightarrow> (Inl e, st1)
      | (None, st1) \<Rightarrow>
          (case register_specs t adapter_id specs st1 of
             (Inl e, st2) \<Rightarrow> (Inl e, st2)
           | (Inr ids, st2) \<Rightarrow> (Inr (sp_verb_id spec # ids), st2)))"

definition agent_binding :: "string \<Rightarrow> string \<Rightarrow> string \<Rightarrow> verb_binding" where
  "agent_binding t verb_id agent_capability =
     \<lparr>vb_verb_id = verb_id, vb_tenant_id = t, vb_target_type = AGENT, vb_target_ref = agent_capability,
      vb_rate_limit = None, vb_internal_source_operation_id = None,
      vb_canonical_capability_id = None, vb_model_display_name = None, vb_connection_label = None\<rparr>"

datatype registry_error = VerbMissing

definition bind_verb_to_agent ::
  "registry_store \<Rightarrow> string \<Rightarrow> string \<Rightarrow> string \<Rightarrow> (registry_error + unit) \<times> registry_store" where
  "bind_verb_to_agent s t verb_id agent_capability =
     (if get_verb s t verb_id = None then (Inl VerbMissing, s)
      else (Inr (), upsert_binding s (agent_binding t verb_id agent_capability)))"

text \<open>The verbs \<^verbatim>\<open>discover\<close> shows: the tenant ceiling and the caller's own grants both permit them.\<close>

definition discover_verbs ::
  "(string \<Rightarrow> string) \<Rightarrow> registry_store \<Rightarrow> string \<Rightarrow> tenant_permissions \<Rightarrow> grant_set option \<Rightarrow> string option
     \<Rightarrow> verb_def list" where
  "discover_verbs nfkc s t perms caller noun_id =
     filter (\<lambda>v. permits nfkc (tp_grants perms) (vd_id v) \<and>
                 (case caller of None \<Rightarrow> True | Some g \<Rightarrow> permits nfkc g (vd_id v)))
       (list_verbs s t noun_id)"

subsection \<open>Lemmas\<close>

lemmas reg_defs = get_noun_any_def get_verb_any_def get_binding_def upsert_noun_def upsert_verb_def
  upsert_binding_def delete_noun_def delete_verb_def delete_binding_def Let_def

lemma alist_delete_fresh:
  "map_of al k = None \<Longrightarrow> AList.delete k (AList.update k v al) = al"
  by (simp add: delete_update_same map_of_eq_None_iff)

lemma spec_verb_fields:
  assumes "spec_verb t spec = Inr v"
  shows "vd_id v = sp_verb_id spec" "vd_tenant_id v = t" "vd_noun_id v = sp_noun_id spec" "vd_is_active v"
  using assms by (auto simp: spec_verb_def rbind_Inr_iff)

text \<open>A tenant in which nothing is archived: every noun and verb is active, every verb's noun exists, and rows
  stand under their own keys.\<close>

definition nothing_archived :: "registry_store \<Rightarrow> string \<Rightarrow> bool" where
  "nothing_archived s t \<longleftrightarrow>
     (\<forall>i n. get_noun_any s t i = Some n \<longrightarrow> no_is_active n) \<and>
     (\<forall>i v. get_verb_any s t i = Some v \<longrightarrow> vd_is_active v \<and> vd_tenant_id v = t \<and> vd_id v = i \<and>
        get_noun_any s t (vd_noun_id v) \<noteq> None) \<and>
     (\<forall>i b. get_binding s t i = Some b \<longrightarrow> vb_tenant_id b = t \<and> vb_verb_id b = i)"

lemma get_verb_unarchived:
  "nothing_archived s t \<Longrightarrow> get_verb s t i = get_verb_any s t i"
  by (cases "get_verb_any s t i") (fastforce simp: nothing_archived_def get_verb_def get_noun_def)+

lemma get_noun_unarchived:
  "nothing_archived s t \<Longrightarrow> get_noun s t i = get_noun_any s t i"
  by (auto simp: nothing_archived_def get_noun_def split: option.splits)

text \<open>Each step of \<open>register_spec\<close>, undone by the inverse it records.\<close>

lemma noun_step:
  assumes "nothing_archived s t" "get_noun_any s t i = None"
  shows "nothing_archived (upsert_noun s (new_noun t i)) t"
    and "delete_noun (upsert_noun s (new_noun t i)) t i = s"
    and "get_noun_any (upsert_noun s (new_noun t i)) t i \<noteq> None"
  using assms by (auto simp: nothing_archived_def new_noun_def reg_defs update_conv' alist_delete_fresh)

lemma verb_step:
  assumes ok: "nothing_archived s t" and v: "spec_verb t spec = Inr v"
    and noun: "get_noun_any s t (sp_noun_id spec) \<noteq> None"
  shows "nothing_archived (upsert_verb s v) t"
    and "
         (case get_verb s t (sp_verb_id spec) of None \<Rightarrow> delete_verb (upsert_verb s v) t (sp_verb_id spec)
          | Some p \<Rightarrow> upsert_verb (upsert_verb s v) p) = s"
proof -
  note f = spec_verb_fields[OF v]
  show "nothing_archived (upsert_verb s v) t"
    using ok noun by (auto simp: nothing_archived_def reg_defs update_conv' f split: option.splits)
  show "(case get_verb s t (sp_verb_id spec) of None \<Rightarrow> delete_verb (upsert_verb s v) t (sp_verb_id spec)
          | Some p \<Rightarrow> upsert_verb (upsert_verb s v) p) = s"
  proof (cases "get_verb_any s t (sp_verb_id spec)")
    case None
    then show ?thesis by (simp add: get_verb_unarchived[OF ok] reg_defs f alist_delete_fresh)
  next
    case (Some p)
    with ok have p: "vd_tenant_id p = t" "vd_id p = sp_verb_id spec" "vd_is_active p"
      by (auto simp: nothing_archived_def)
    have "p\<lparr>vd_is_active := True\<rparr> = p" using p(3) by (cases p) simp
    with Some p show ?thesis
      by (simp add: get_verb_unarchived[OF ok] reg_defs f update_conv' update_triv)
  qed
qed

lemma binding_step:
  assumes ok: "nothing_archived s t"
  shows "nothing_archived (upsert_binding s (spec_binding t a spec)) t"
    and "(case get_binding s t (sp_verb_id spec) of
            None \<Rightarrow> delete_binding (upsert_binding s (spec_binding t a spec)) t (sp_verb_id spec)
          | Some b \<Rightarrow> upsert_binding (upsert_binding s (spec_binding t a spec)) b) = s"
proof -
  show "nothing_archived (upsert_binding s (spec_binding t a spec)) t"
    using ok by (auto simp: nothing_archived_def reg_defs update_conv' spec_binding_def)
  show "(case get_binding s t (sp_verb_id spec) of
            None \<Rightarrow> delete_binding (upsert_binding s (spec_binding t a spec)) t (sp_verb_id spec)
          | Some b \<Rightarrow> upsert_binding (upsert_binding s (spec_binding t a spec)) b) = s"
  proof (cases "get_binding s t (sp_verb_id spec)")
    case None
    then show ?thesis by (simp add: reg_defs spec_binding_def alist_delete_fresh)
  next
    case (Some b)
    with ok have "vb_tenant_id b = t" "vb_verb_id b = sp_verb_id spec" by (auto simp: nothing_archived_def)
    with Some show ?thesis by (simp add: reg_defs spec_binding_def update_triv)
  qed
qed

lemma revert_append: "snd (revert (lg @ ext) s) = snd (revert lg (snd (revert ext s)))"
  by (simp add: revert_def)

lemma revert_one:
  "snd (revert (record_effect lg d r) s) = snd (revert lg (run_revert r s))"
  by (simp add: revert_def record_effect_def)

lemma revert_verb_inverse:
  "snd (revert (record_verb_inverse lg t i p) s)
     = snd (revert lg (case p of None \<Rightarrow> delete_verb s t i | Some v \<Rightarrow> upsert_verb s v))"
  by (cases p) (simp_all add: record_verb_inverse_def revert_one run_revert_def)

lemma revert_binding_inverse:
  "snd (revert (record_binding_inverse lg t i p) s)
     = snd (revert lg (case p of None \<Rightarrow> delete_binding s t i | Some b \<Rightarrow> upsert_binding s b))"
  by (cases p) (simp_all add: record_binding_inverse_def revert_one run_revert_def)

lemma upsert_verb_binding [simp]: "get_binding (upsert_verb s v) t i = get_binding s t i"
  by (simp add: reg_defs)

lemma register_spec_reverts:
  assumes ok: "nothing_archived s t" and run: "register_spec t a spec (s, lg) = (r, s', lg')"
  shows "nothing_archived s' t \<and> snd (revert lg' s') = snd (revert lg s)"
proof -
  define s1 where "s1 = (if get_noun s t (sp_noun_id spec) = None then upsert_noun s (new_noun t (sp_noun_id spec)) else s)"
  define lg1 where "lg1 = (if get_noun s t (sp_noun_id spec) = None
      then record_effect lg (''noun '' @ sp_noun_id spec) (DeleteNoun t (sp_noun_id spec)) else lg)"
  have ok1: "nothing_archived s1 t" and noun: "get_noun_any s1 t (sp_noun_id spec) \<noteq> None"
    and back1: "snd (revert lg1 s1) = snd (revert lg s)"
    using noun_step[OF ok, of "sp_noun_id spec"] ok
    by (auto simp: s1_def lg1_def get_noun_unarchived[OF ok] revert_one run_revert_def)
  show ?thesis
  proof (cases "spec_verb t spec")
    case (Inl e)
    with run have "s' = s1" "lg' = lg1" by (auto simp: register_spec_def s1_def lg1_def Let_def)
    with ok1 back1 show ?thesis by simp
  next
    case (Inr v)
    define lg2 where "lg2 = record_verb_inverse lg1 t (sp_verb_id spec) (get_verb s1 t (sp_verb_id spec))"
    define b where "b = get_binding s1 t (sp_verb_id spec)"
    have ok2: "nothing_archived (upsert_verb s1 v) t"
      and back2: "snd (revert lg2 (upsert_verb s1 v)) = snd (revert lg1 s1)"
      using verb_step[OF ok1 Inr noun] by (simp_all add: lg2_def revert_verb_inverse)
    from run Inr have "(s', lg') = (if (case b of None \<Rightarrow> False | Some b \<Rightarrow> vb_target_type b = AGENT)
        then (upsert_verb s1 v, lg2)
        else (upsert_binding (upsert_verb s1 v) (spec_binding t a spec),
              record_binding_inverse lg2 t (sp_verb_id spec) b))"
      by (auto simp: register_spec_def s1_def lg1_def lg2_def b_def Let_def split: if_splits)
    then show ?thesis using ok2 back2 back1 binding_step[OF ok2, where a = a and spec = spec]
      by (auto simp: b_def revert_binding_inverse split: if_splits)
  qed
qed

lemma register_specs_reverts:
  assumes "nothing_archived s t" "register_specs t a specs (s, lg) = (r, s', lg')"
  shows "nothing_archived s' t \<and> snd (revert lg' s') = snd (revert lg s)"
  using assms
proof (induction specs arbitrary: s lg r)
  case Nil
  then show ?case by simp
next
  case (Cons spec specs)
  obtain e s1 lg1 where 1: "register_spec t a spec (s, lg) = (e, s1, lg1)" by (metis prod_cases3)
  note ok1 = register_spec_reverts[OF Cons.prems(1) 1]
  show ?case
  proof (cases e)
    case (Some x)
    with Cons.prems(2) 1 ok1 show ?thesis by simp
  next
    case None
    obtain q s2 lg2 where 2: "register_specs t a specs (s1, lg1) = (q, s2, lg2)" by (metis prod_cases3)
    with Cons.prems(2) 1 None have "s' = s2" "lg' = lg2" by (auto split: sum.splits)
    with Cons.IH[of s1 lg1 q] 2 ok1 show ?thesis by simp
  qed
qed

lemma register_spec_agent_binding:
  assumes "get_binding s t i = Some b" "vb_target_type b = AGENT"
  shows "get_binding (fst (snd (register_spec t a spec (s, lg)))) t i = Some b"
proof -
  have n: "get_binding (upsert_noun s n) t i = get_binding s t i" for s n by (simp add: reg_defs)
  have "get_binding (upsert_binding s' (spec_binding t a spec)) t i = get_binding s' t i"
    if "i \<noteq> sp_verb_id spec" for s'
    using that by (simp add: reg_defs spec_binding_def update_conv')
  with assms n show ?thesis
    by (cases "i = sp_verb_id spec") (auto simp: register_spec_def Let_def case_prod_beta split: sum.splits option.splits)
qed

lemma register_specs_agent_binding:
  assumes "get_binding s t i = Some b" "vb_target_type b = AGENT"
  shows "get_binding (fst (snd (register_specs t a specs (s, lg)))) t i = Some b"
  using assms(1)
proof (induction specs arbitrary: s lg)
  case (Cons spec specs)
  obtain e s1 lg1 where 1: "register_spec t a spec (s, lg) = (e, s1, lg1)" by (metis prod_cases3)
  from register_spec_agent_binding[OF Cons.prems assms(2), of a spec lg] 1
  have s1: "get_binding s1 t i = Some b" by simp
  from Cons.IH[OF s1, of lg1] 1 s1 show ?case by (auto split: option.splits sum.splits prod.splits)
qed simp

subsection \<open>Properties\<close>

definition demo_spec :: verb_spec where
  "demo_spec = \<lparr>sp_verb_id = ''ticket.create'', sp_noun_id = ''ticket'', sp_input_schema = [], sp_output_schema = [],
     sp_consequence = ''high'', sp_description = ''d'', sp_rate_limit = None, sp_degraded_mode = None,
     sp_idempotency_mode = ''cacheable''\<rparr>"

text \<open>Registering an adapter's verbs is undone exactly: in a tenant in which nothing is archived,
  running the recorded inverses newest first gives back the registry as it was before, whatever the specs
  were, also when registration raised part of the way, and also when specs replaced verbs or bindings that
  were there before.\<close>

lemma registration_reverts_exactly:
  assumes "nothing_archived s t" and "register_specs t a specs (s, []) = (r, s', lg)"
  shows "revert lg s' = ([], s)"
proof -
  have "snd (revert lg s') = s" using register_specs_reverts[OF assms] by (simp add: revert_def)
  then show ?thesis by (simp add: revert_def)
qed

text \<open>Re-registration never takes a verb back from an agent: a binding to a reasoning agent is still
  there, unchanged, after any adapter registers any list of specs, the verb's own included.\<close>

lemma registration_keeps_agent_bindings:
  assumes "get_binding s t i = Some b" and "vb_target_type b = AGENT"
  shows "get_binding (fst (snd (register_specs t a specs (s, lg)))) t i = Some b"
  using assms by (rule register_specs_agent_binding)

text \<open>Archived rows are outside that guarantee: registering a spec whose noun is archived replaces the
  archived noun's description and schema, and reverting the registration deletes the archived noun altogether,
  because the lookup that decides between creating and keeping does not see archived rows.\<close>

lemma revert_deletes_archived_noun:
  assumes "get_noun_any s t (sp_noun_id spec) = Some n" and "\<not> no_is_active n"
    and "register_spec t a spec (s, []) = (r, s', lg)"
  shows "get_noun_any (snd (revert lg s')) t (sp_noun_id spec) = None"
proof -
  have none: "get_noun s t (sp_noun_id spec) = None" using assms(1,2) by (simp add: get_noun_def)
  have n: "get_noun_any (upsert_verb s1 v) t i = get_noun_any s1 t i"
    "get_noun_any (upsert_binding s1 b) t i = get_noun_any s1 t i"
    "get_noun_any (delete_verb s1 t i) t i = get_noun_any s1 t i"
    "get_noun_any (delete_binding s1 t i) t i = get_noun_any s1 t i" for s1 v b i by (simp_all add: reg_defs)
  have "snd (revert lg s') = delete_noun (snd (revert (tl lg) s')) t (sp_noun_id spec)"
    using assms(3) none
    by (auto simp: register_spec_def Let_def record_effect_def record_verb_inverse_def record_binding_inverse_def
        revert_def run_revert_def split: sum.splits option.splits if_splits)
  then show ?thesis by (simp add: reg_defs delete_conv')
qed

text \<open>The chosen skill is the one with the greatest version text, not the greatest version: a skill at
  0.9.0 stays the selected one after 0.10.0 is stored.\<close>

lemma newer_skill_version_not_selected:
  "\<exists>old new. sk_version old = ''0.9.0'' \<and> sk_version new = ''0.10.0'' \<and> sk_is_active old \<and> sk_is_active new \<and>
     get_skill (upsert_skill (upsert_skill registry_empty old) new) ''t'' ''s'' = Some old"
proof -
  let ?k = "\<lambda>v. \<lparr>sk_id = ''s'', sk_tenant_id = ''t'', sk_version = v, sk_prompt_fragment = [], sk_tool_grants = [],
    sk_context_requirements = [], sk_extends = None, sk_locale = ''en'', sk_description = [], sk_is_active = True\<rparr>"
  have "get_skill (upsert_skill (upsert_skill registry_empty (?k ''0.9.0'')) (?k ''0.10.0'')) ''t'' ''s'' = Some (?k ''0.9.0'')"
    by code_simp
  then show ?thesis by (intro exI[of _ "?k ''0.9.0''"] exI[of _ "?k ''0.10.0''"]) simp
qed

end
