(* ===== verification/Routing.thy ===== *)
theory Routing
  imports Registry "HOL-Library.Product_Lexorder"
begin

text \<open>
  Capability routing and the approval posture: the records of \<^verbatim>\<open>boltrig/models/capability_routing.py\<close>, their
  in-memory tables (\<^verbatim>\<open>boltrig/store/capability_routing.py\<close>, \<^verbatim>\<open>CapabilityRoutingStoreMem\<close>), the resolver of
  \<^verbatim>\<open>boltrig/kernel/routing.py\<close> and the gate decision of \<^verbatim>\<open>boltrig/kernel/approval_posture.py\<close>.

  The two timestamps every row carries are read by nothing here and are left out. A pinned version whose
  digits \<^verbatim>\<open>int()\<close> refuses raises \<^verbatim>\<open>ValueError\<close>, which is the error \<open>BadPin\<close>.
\<close>

subsection \<open>Records\<close>

definition CONNECTION_SOURCE_TYPES :: "string list" where
  "CONNECTION_SOURCE_TYPES = [''nango'', ''mcp'', ''openapi'', ''sdk_plugin'', ''native'']"

definition CONNECTION_HEALTH :: "string list" where
  "CONNECTION_HEALTH = [''unknown'', ''pending'', ''ok'', ''degraded'', ''down'', ''revoked'']"

definition CONNECTION_STATUS :: "string list" where
  "CONNECTION_STATUS = [''active'', ''disabled'', ''revoked'']"

definition TRUST_LEVELS :: "string list" where
  "TRUST_LEVELS = [''untrusted'', ''reviewed'', ''trusted'', ''first_party'']"

definition BINDING_STATUS :: "string list" where
  "BINDING_STATUS = [''proposed'', ''approved'', ''disabled'', ''retired'']"

definition BINDING_ORIGINS :: "string list" where
  "BINDING_ORIGINS = [''declared'', ''mapping_pack'', ''structural'', ''ai_assisted'', ''manual'']"

definition OPERATION_CLASSES :: "string list" where
  "OPERATION_CLASSES = [''read'', ''create'', ''update'', ''delete'']"

definition POLICY_SCOPES :: "string list" where
  "POLICY_SCOPES = [''tenant'', ''workspace'']"

record provider_connection =
  pc_id :: string
  pc_tenant_id :: string
  pc_label :: string
  pc_provider :: string
  pc_source_type :: string
  pc_adapter_id :: "string option"
  pc_integration_connection_id :: "string option"
  pc_workspace_id :: "string option"
  pc_account_ref :: "string option"
  pc_credential_ref :: "string option"
  pc_health :: string
  pc_status :: string
  pc_trust_level :: string

definition connection_post_init :: "provider_connection \<Rightarrow> py_error + provider_connection" where
  "connection_post_init c =
     (if pc_source_type c \<notin> set CONNECTION_SOURCE_TYPES \<or> pc_health c \<notin> set CONNECTION_HEALTH
         \<or> pc_status c \<notin> set CONNECTION_STATUS \<or> pc_trust_level c \<notin> set TRUST_LEVELS
      then Inl ValueError else Inr c)"

definition connection_eligible :: "provider_connection \<Rightarrow> bool" where
  "connection_eligible c \<longleftrightarrow> pc_status c = ''active'' \<and> pc_health c \<notin> {''revoked'', ''down''}"

record capability_binding =
  cb_binding_id :: string
  cb_tenant_id :: string
  cb_capability_id :: string
  cb_source_operation_id :: string
  cb_connection_id :: string
  cb_capability_version :: int
  cb_status :: string
  cb_trust_level :: string
  cb_priority :: int
  cb_workspace_predicate :: "string option"
  cb_input_transform_ref :: "string option"
  cb_output_transform_ref :: "string option"
  cb_source_schema_digest :: "string option"
  cb_consequence_override :: "string option"
  cb_health :: string
  cb_fallback_policy :: string
  cb_created_from :: string
  cb_reviewed_by :: "string option"

definition binding_post_init :: "capability_binding \<Rightarrow> py_error + capability_binding" where
  "binding_post_init b =
     (if cb_status b \<notin> set BINDING_STATUS \<or> cb_trust_level b \<notin> set TRUST_LEVELS
         \<or> cb_created_from b \<notin> set BINDING_ORIGINS
      then Inl ValueError else Inr b)"

definition binding_serves :: "capability_binding \<Rightarrow> string option \<Rightarrow> bool" where
  "binding_serves b workspace_id \<longleftrightarrow>
     cb_workspace_predicate b = None \<or> cb_workspace_predicate b = workspace_id"

record routing_policy =
  rp_id :: string
  rp_tenant_id :: string
  rp_capability_id :: string
  rp_binding_id :: string
  rp_operation_class :: string
  rp_capability_version :: "int option"
  rp_scope :: string
  rp_workspace_id :: "string option"
  rp_precedence :: int

definition policy_post_init :: "routing_policy \<Rightarrow> py_error + routing_policy" where
  "policy_post_init p =
     (if rp_operation_class p \<notin> set OPERATION_CLASSES \<or> rp_scope p \<notin> set POLICY_SCOPES
         \<or> (rp_scope p = ''workspace'') \<noteq> (rp_workspace_id p \<noteq> None)
      then Inl ValueError else Inr p)"

definition policy_applies :: "routing_policy \<Rightarrow> int \<Rightarrow> string \<Rightarrow> string option \<Rightarrow> bool" where
  "policy_applies p version operation_class workspace_id \<longleftrightarrow>
     rp_operation_class p = operation_class \<and>
     (rp_capability_version p = None \<or> rp_capability_version p = Some version) \<and>
     (rp_scope p = ''tenant'' \<or> rp_workspace_id p = workspace_id)"

definition capability_ref :: "string \<Rightarrow> int \<Rightarrow> string" where
  "capability_ref capability_id version = capability_id @ ''@'' @ show_int version"

definition parse_capability_ref :: "string \<Rightarrow> py_error + (string \<times> int option)" where
  "parse_capability_ref name =
     (case rpartition CHR ''@'' name of
        None \<Rightarrow> Inr (name, None)
      | Some (head, tail) \<Rightarrow>
          (if head = [] then Inr (name, None)
           else if py_isdigit tail then
             (case py_int_of_digits tail of None \<Rightarrow> Inl ValueError | Some v \<Rightarrow> Inr (head, Some v))
           else Inr (name, None)))"

subsection \<open>The tables\<close>

record user_setting =
  us_tenant_id :: string
  us_user_id :: string
  us_key :: string
  us_value :: pyval

record route_store =
  rt_connections :: "((string \<times> string) \<times> provider_connection) list"
  rt_bindings :: "((string \<times> string) \<times> capability_binding) list"
  rt_policies :: "((string \<times> string) \<times> routing_policy) list"
  rt_settings :: "((string \<times> string \<times> string) \<times> user_setting) list"

definition route_empty :: route_store where
  "route_empty = \<lparr>rt_connections = [], rt_bindings = [], rt_policies = [], rt_settings = []\<rparr>"

definition upsert_provider_connection :: "route_store \<Rightarrow> provider_connection \<Rightarrow> route_store" where
  "upsert_provider_connection s c =
     s\<lparr>rt_connections := AList.update (pc_tenant_id c, pc_id c) c (rt_connections s)\<rparr>"

definition list_provider_connections :: "route_store \<Rightarrow> string \<Rightarrow> provider_connection list" where
  "list_provider_connections s t =
     map snd (filter (\<lambda>((t', _), _). t' = t) (sort_key fst (rt_connections s)))"

definition upsert_capability_binding :: "route_store \<Rightarrow> capability_binding \<Rightarrow> route_store" where
  "upsert_capability_binding s b =
     s\<lparr>rt_bindings := AList.update (cb_tenant_id b, cb_binding_id b) b (rt_bindings s)\<rparr>"

definition set_capability_binding_status ::
  "route_store \<Rightarrow> string \<Rightarrow> string \<Rightarrow> string \<Rightarrow> string option \<Rightarrow> (py_error + capability_binding option) \<times> route_store" where
  "set_capability_binding_status s t binding_id status reviewed_by =
     (case map_of (rt_bindings s) (t, binding_id) of None \<Rightarrow> (Inr None, s)
      | Some b \<Rightarrow>
          (case binding_post_init (b\<lparr>cb_status := status, cb_reviewed_by := reviewed_by\<rparr>) of
             Inl e \<Rightarrow> (Inl e, s)
           | Inr b' \<Rightarrow> (Inr (Some b'), s\<lparr>rt_bindings := AList.update (t, binding_id) b' (rt_bindings s)\<rparr>)))"

definition list_capability_bindings ::
  "route_store \<Rightarrow> string \<Rightarrow> string option \<Rightarrow> string option \<Rightarrow> capability_binding list" where
  "list_capability_bindings s t capability_id source_operation_id =
     sort_key (\<lambda>b. (cb_priority b, cb_binding_id b))
       (map snd (filter (\<lambda>((t', _), b). t' = t
            \<and> (capability_id = None \<or> capability_id = Some (cb_capability_id b))
            \<and> (source_operation_id = None \<or> source_operation_id = Some (cb_source_operation_id b)))
          (rt_bindings s)))"

definition upsert_routing_policy :: "route_store \<Rightarrow> routing_policy \<Rightarrow> route_store" where
  "upsert_routing_policy s p = s\<lparr>rt_policies := AList.update (rp_tenant_id p, rp_id p) p (rt_policies s)\<rparr>"

definition delete_routing_policy :: "route_store \<Rightarrow> string \<Rightarrow> string \<Rightarrow> bool \<times> route_store" where
  "delete_routing_policy s t policy_id =
     (map_of (rt_policies s) (t, policy_id) \<noteq> None,
      s\<lparr>rt_policies := AList.delete (t, policy_id) (rt_policies s)\<rparr>)"

definition list_routing_policies :: "route_store \<Rightarrow> string \<Rightarrow> string option \<Rightarrow> routing_policy list" where
  "list_routing_policies s t capability_id =
     sort_key (\<lambda>p. (rp_precedence p, rp_id p))
       (map snd (filter (\<lambda>((t', _), p). t' = t \<and> (capability_id = None \<or> capability_id = Some (rp_capability_id p)))
          (rt_policies s)))"

definition upsert_user_setting :: "route_store \<Rightarrow> user_setting \<Rightarrow> route_store" where
  "upsert_user_setting s x =
     s\<lparr>rt_settings := AList.update (us_tenant_id x, us_user_id x, us_key x) x (rt_settings s)\<rparr>"

definition list_user_settings :: "route_store \<Rightarrow> string \<Rightarrow> string \<Rightarrow> user_setting list" where
  "list_user_settings s t u = map snd (filter (\<lambda>((t', u', _), _). t' = t \<and> u' = u) (rt_settings s))"

subsection \<open>The resolver\<close>

definition READ_SUFFIXES :: "string list" where
  "READ_SUFFIXES = [''read'', ''get'', ''list'', ''search'', ''find'', ''lookup'', ''export'', ''describe'']"

definition CREATE_SUFFIXES :: "string list" where
  "CREATE_SUFFIXES = [''create'', ''add'', ''open'', ''incorporate'', ''prepare'', ''issue'']"

definition DELETE_SUFFIXES :: "string list" where
  "DELETE_SUFFIXES = [''delete'', ''remove'', ''archive'', ''purge'', ''cancel'', ''revoke'']"

definition operation_class_for :: "string \<Rightarrow> string" where
  "operation_class_for capability_id =
     (let suffix = (case rpartition CHR ''.'' capability_id of None \<Rightarrow> capability_id | Some (_, t) \<Rightarrow> t)
      in if suffix \<in> set READ_SUFFIXES then ''read''
         else if suffix \<in> set CREATE_SUFFIXES then ''create''
         else if suffix \<in> set DELETE_SUFFIXES then ''delete''
         else ''update'')"

record plan_target =
  pt_binding_id :: string
  pt_source_operation_id :: string
  pt_connection_id :: string
  pt_connection_label :: string
  pt_consequence_override :: "string option"

record execution_plan =
  ep_capability_id :: string
  ep_capability_version :: int
  ep_operation_class :: string
  ep_target :: plan_target
  ep_selected_by :: string

definition plan_ref :: "execution_plan \<Rightarrow> string" where
  "plan_ref p = capability_ref (ep_capability_id p) (ep_capability_version p)"

record destination =
  de_binding_id :: string
  de_connection_id :: string
  de_connection :: string
  de_source_operation_id :: string

definition destination_of :: "capability_binding \<Rightarrow> provider_connection \<Rightarrow> destination" where
  "destination_of b c = \<lparr>de_binding_id = cb_binding_id b, de_connection_id = pc_id c, de_connection = pc_label c,
     de_source_operation_id = cb_source_operation_id b\<rparr>"

datatype route_error =
    UnknownVerb string
  | NoEligibleBinding string
  | NoBinding string
  | NotGranted grant_denial
  | BadPin
  | RouteRequired string string "destination list"

text \<open>A dictionary built from a list: later entries replace earlier ones.\<close>

definition dict_of :: "('k \<times> 'v) list \<Rightarrow> 'k \<Rightarrow> 'v option" where
  "dict_of kvs = map_of (rev kvs)"

definition eligible ::
  "capability_binding list \<Rightarrow> (string \<Rightarrow> provider_connection option) \<Rightarrow> string option
     \<Rightarrow> (capability_binding \<times> provider_connection) list" where
  "eligible bindings connections workspace_id =
     List.map_filter (\<lambda>b.
       if cb_status b \<noteq> ''approved'' \<or> \<not> binding_serves b workspace_id then None
       else case connections (cb_connection_id b) of None \<Rightarrow> None
         | Some c \<Rightarrow> if connection_eligible c then Some (b, c) else None) bindings"

definition policy_in_scope ::
  "routing_policy list \<Rightarrow> (string \<Rightarrow> (capability_binding \<times> provider_connection) option) \<Rightarrow> int \<Rightarrow> string
     \<Rightarrow> string option \<Rightarrow> string \<Rightarrow> (capability_binding \<times> provider_connection) option" where
  "policy_in_scope policies by_id version operation_class workspace_id scope =
     (case find (\<lambda>p. rp_scope p = scope \<and> policy_applies p version operation_class workspace_id
                     \<and> by_id (rp_binding_id p) \<noteq> None) policies of
        None \<Rightarrow> None | Some p \<Rightarrow> by_id (rp_binding_id p))"

definition policy_choice ::
  "routing_policy list \<Rightarrow> (capability_binding \<times> provider_connection) list \<Rightarrow> int \<Rightarrow> string \<Rightarrow> string option
     \<Rightarrow> ((capability_binding \<times> provider_connection) \<times> string) option" where
  "policy_choice policies pairs version operation_class workspace_id =
     (let by_id = dict_of (map (\<lambda>(b, c). (cb_binding_id b, (b, c))) pairs);
          pick = policy_in_scope policies by_id version operation_class workspace_id
      in case pick ''workspace'' of
           Some chosen \<Rightarrow> Some (chosen, ''workspace_policy'')
         | None \<Rightarrow> (case pick ''tenant'' of Some chosen \<Rightarrow> Some (chosen, ''tenant_policy'') | None \<Rightarrow> None))"

definition max_int :: "int list \<Rightarrow> int" where
  "max_int xs = foldl max (hd xs) (tl xs)"

definition make_plan ::
  "string \<Rightarrow> int \<Rightarrow> string \<Rightarrow> capability_binding \<Rightarrow> provider_connection \<Rightarrow> string \<Rightarrow> execution_plan" where
  "make_plan capability_id version operation_class b c selected_by =
     \<lparr>ep_capability_id = capability_id, ep_capability_version = version, ep_operation_class = operation_class,
      ep_target = \<lparr>pt_binding_id = cb_binding_id b, pt_source_operation_id = cb_source_operation_id b,
        pt_connection_id = pc_id c, pt_connection_label = pc_label c,
        pt_consequence_override = cb_consequence_override b\<rparr>,
      ep_selected_by = selected_by\<rparr>"

text \<open>The parts of \<^verbatim>\<open>resolve_execution_plan\<close>, in its order: the bindings of the (pinned) capability, those that are
  eligible, the version, and the selection by policy or by being the only one.\<close>

definition pinned_bindings :: "route_store \<Rightarrow> string \<Rightarrow> string \<Rightarrow> int option \<Rightarrow> capability_binding list" where
  "pinned_bindings s t capability_id pinned =
     (let bindings = list_capability_bindings s t (Some capability_id) None
      in case pinned of None \<Rightarrow> bindings | Some v \<Rightarrow> filter (\<lambda>b. cb_capability_version b = v) bindings)"

definition connections_by_id :: "route_store \<Rightarrow> string \<Rightarrow> string \<Rightarrow> provider_connection option" where
  "connections_by_id s t = dict_of (map (\<lambda>c. (pc_id c, c)) (list_provider_connections s t))"

definition route_version :: "int option \<Rightarrow> (capability_binding \<times> provider_connection) list \<Rightarrow> int" where
  "route_version pinned pairs =
     (case pinned of Some v \<Rightarrow> v | None \<Rightarrow> max_int (map (cb_capability_version \<circ> fst) pairs))"

definition select_route ::
  "route_store \<Rightarrow> string \<Rightarrow> string \<Rightarrow> string option \<Rightarrow> int \<Rightarrow> (capability_binding \<times> provider_connection) list
     \<Rightarrow> route_error + execution_plan" where
  "select_route s t capability_id workspace_id version pairs =
     (let operation_class = operation_class_for capability_id
      in case policy_choice (list_routing_policies s t (Some capability_id)) pairs version operation_class workspace_id of
           Some ((b, c), selected_by) \<Rightarrow> Inr (make_plan capability_id version operation_class b c selected_by)
         | None \<Rightarrow>
             (if length pairs > 1
              then Inl (RouteRequired (capability_ref capability_id version) operation_class
                     (map (\<lambda>(b, c). destination_of b c) pairs))
              else case hd pairs of (b, c) \<Rightarrow>
                Inr (make_plan capability_id version operation_class b c ''only_eligible'')))"

definition resolve_execution_plan ::
  "route_store \<Rightarrow> string \<Rightarrow> string \<Rightarrow> string option \<Rightarrow> (string \<Rightarrow> grant_denial + unit) option
     \<Rightarrow> route_error + execution_plan" where
  "resolve_execution_plan s t name workspace_id authorize =
     (case parse_capability_ref name of Inl _ \<Rightarrow> Inl BadPin
      | Inr (capability_id, pinned) \<Rightarrow>
       (let bindings = pinned_bindings s t capability_id pinned
        in if bindings = [] then Inl (UnknownVerb name)
           else case (case authorize of None \<Rightarrow> Inr () | Some f \<Rightarrow> f capability_id) of
             Inl d \<Rightarrow> Inl (NotGranted d)
           | Inr _ \<Rightarrow>
             (let pairs = eligible bindings (connections_by_id s t) workspace_id;
                  version = route_version pinned pairs
              in if pairs = [] then Inl (NoEligibleBinding name)
                 else select_route s t capability_id workspace_id version
                        (filter (\<lambda>(b, _). cb_capability_version b = version) pairs))))"

text \<open>The audit attribution \<^verbatim>\<open>resolve_invocation_target\<close> writes into \<^verbatim>\<open>meta\<close>.\<close>

record route_meta =
  rm_target_adapter :: string
  rm_plan :: "execution_plan option"

definition resolve_invocation_target ::
  "registry_store \<Rightarrow> route_store \<Rightarrow> string \<Rightarrow> string \<Rightarrow> string option \<Rightarrow> (string \<Rightarrow> grant_denial + unit) option
     \<Rightarrow> route_error + (verb_def \<times> verb_binding \<times> execution_plan option \<times> route_meta)" where
  "resolve_invocation_target reg s t verb workspace_id authorize =
     (let with_binding = (\<lambda>v plan.
            case get_binding reg t (vd_id v) of
              None \<Rightarrow> Inl (NoBinding (vd_id v))
            | Some b \<Rightarrow> Inr (v, b, plan, \<lparr>rm_target_adapter = vb_target_ref b, rm_plan = plan\<rparr>))
      in case get_verb reg t verb of
           Some v \<Rightarrow> with_binding v None
         | None \<Rightarrow>
             (case resolve_execution_plan s t verb workspace_id authorize of
                Inl e \<Rightarrow> Inl e
              | Inr plan \<Rightarrow>
                  (case get_verb reg t (pt_source_operation_id (ep_target plan)) of
                     None \<Rightarrow> Inl (UnknownVerb verb)
                   | Some v \<Rightarrow> with_binding v (Some plan))))"

definition grant_verbs :: "string \<Rightarrow> verb_def \<Rightarrow> execution_plan option \<Rightarrow> string list" where
  "grant_verbs verb v plan = (case plan of None \<Rightarrow> [verb] | Some p \<Rightarrow> [ep_capability_id p, vd_id v])"

definition blocking_names :: "string \<Rightarrow> verb_def \<Rightarrow> execution_plan option \<Rightarrow> string list" where
  "blocking_names verb v plan = (case plan of None \<Rightarrow> [verb] | Some p \<Rightarrow> [verb, ep_capability_id p, vd_id v])"

definition governed_aliases :: "route_store \<Rightarrow> string \<Rightarrow> string \<Rightarrow> py_error + string list" where
  "governed_aliases s t verb =
     rbind (parse_capability_ref verb) (\<lambda>(capability_id, _).
       Inr (sort (remdups (verb #
         map cb_source_operation_id (filter (\<lambda>b. cb_status b = ''approved'')
           (list_capability_bindings s t (Some capability_id) None)) @
         map cb_capability_id (filter (\<lambda>b. cb_status b = ''approved'')
           (list_capability_bindings s t None (Some verb)))))))"

definition unpinned :: "string list \<Rightarrow> py_error + string list" where
  "unpinned names = rmap (\<lambda>n. rbind (parse_capability_ref n) (\<lambda>(i, _). Inr i)) names"

definition governed_capabilities ::
  "route_store \<Rightarrow> string \<Rightarrow> verb_def \<Rightarrow> execution_plan option \<Rightarrow> string list \<times> string option" where
  "governed_capabilities s t v plan =
     (case plan of
        Some p \<Rightarrow> ([ep_capability_id p], pt_consequence_override (ep_target p))
      | None \<Rightarrow>
          (let approved = filter (\<lambda>b. cb_status b = ''approved'')
                 (list_capability_bindings s t None (Some (vd_id v)))
           in (map cb_capability_id approved,
               if list_ex (\<lambda>b. cb_consequence_override b = Some ''high'') approved then Some ''high'' else None)))"

subsection \<open>The approval posture\<close>

definition APPROVAL_POSTURE_SETTING :: string where
  "APPROVAL_POSTURE_SETTING = ''agentic.approval_posture''"

datatype approval_posture = ALWAYS_ASK | RISK_BASED | FULL_ACCESS

fun posture_value :: "approval_posture \<Rightarrow> string" where
  "posture_value ALWAYS_ASK = ''always_ask''"
| "posture_value RISK_BASED = ''risk_based''"
| "posture_value FULL_ACCESS = ''full_access''"

definition parse_approval_posture :: "pyval \<Rightarrow> approval_posture" where
  "parse_approval_posture v =
     (if v = PStr ''always_ask'' then ALWAYS_ASK else if v = PStr ''risk_based'' then RISK_BASED
      else if v = PStr ''full_access'' then FULL_ACCESS else RISK_BASED)"

definition approval_posture_for :: "route_store \<Rightarrow> string \<Rightarrow> string \<Rightarrow> approval_posture \<times> string" where
  "approval_posture_for s t u =
     (case find (\<lambda>r. us_key r = APPROVAL_POSTURE_SETTING) (list_user_settings s t u) of
        None \<Rightarrow> (RISK_BASED, ''safe_default'')
      | Some r \<Rightarrow> (let parsed = parse_approval_posture (us_value r)
                   in (parsed, if us_value r = PStr (posture_value parsed) then ''user_override'' else ''safe_default'')))"

definition persist_approval_posture :: "route_store \<Rightarrow> string \<Rightarrow> string \<Rightarrow> approval_posture \<Rightarrow> route_store" where
  "persist_approval_posture s t u posture =
     upsert_user_setting s \<lparr>us_tenant_id = t, us_user_id = u, us_key = APPROVAL_POSTURE_SETTING,
       us_value = PStr (posture_value posture)\<rparr>"

definition is_delegated_agent_call :: "invocation_context \<Rightarrow> bool" where
  "is_delegated_agent_call ctx \<longleftrightarrow>
     (case ctx_on_behalf_of ctx of None \<Rightarrow> False | Some u \<Rightarrow> u \<noteq> []) \<and> ctx_actor_tier ctx \<noteq> ''human''"

definition posture_requires_approval ::
  "route_store \<Rightarrow> string \<Rightarrow> verb_def \<Rightarrow> verb_binding \<Rightarrow> invocation_context \<Rightarrow> bool" where
  "posture_requires_approval s verb v b ctx =
     (if \<not> is_delegated_agent_call ctx then vd_consequence v = HIGH
      else if vb_target_type b \<noteq> ADAPTER \<or> vb_target_ref b = ''control'' \<or> startswith verb ''control.''
        then vd_consequence v = HIGH
      else case fst (approval_posture_for s (ctx_tenant_id ctx) (the (ctx_on_behalf_of ctx))) of
             ALWAYS_ASK \<Rightarrow> True
           | FULL_ACCESS \<Rightarrow> False
           | RISK_BASED \<Rightarrow> vd_consequence v = HIGH)"

definition requires_approval ::
  "route_store \<Rightarrow> string list \<Rightarrow> string \<Rightarrow> verb_def \<Rightarrow> verb_binding \<Rightarrow> execution_plan option \<Rightarrow> invocation_context
     \<Rightarrow> py_error + bool" where
  "requires_approval s blocking_verbs verb v b plan ctx =
     rbind (unpinned blocking_verbs) (\<lambda>blocked.
       if list_ex (\<lambda>n. n \<in> set blocked) (blocking_names verb v plan) then Inr True
       else case governed_capabilities s (ctx_tenant_id ctx) v plan of
         (capabilities, override) \<Rightarrow>
           (if list_ex (\<lambda>n. n \<in> set blocked) capabilities then Inr True
            else if override = Some ''high'' then Inr True
            else Inr (posture_requires_approval s verb v b ctx)))"

subsection \<open>Lemmas\<close>

lemma max_int_bounds:
  assumes "xs \<noteq> []" shows "max_int xs \<in> set xs" and "x \<in> set xs \<Longrightarrow> x \<le> max_int xs"
proof -
  have f: "foldl max a ys \<in> insert a (set ys) \<and> (\<forall>y \<in> insert a (set ys). y \<le> foldl max a ys)" for a :: int and ys
  proof (induction ys arbitrary: a)
    case (Cons y ys)
    from Cons.IH[of "max a y"] show ?case by (auto simp: max_def split: if_splits)
  qed simp
  from assms obtain a ys where "xs = a # ys" by (cases xs) auto
  with f[of a ys] show "max_int xs \<in> set xs" and "x \<in> set xs \<Longrightarrow> x \<le> max_int xs"
    by (auto simp: max_int_def)
qed

lemma dict_of_SomeD: "dict_of kvs k = Some v \<Longrightarrow> (k, v) \<in> set kvs"
  by (auto simp: dict_of_def dest: map_of_SomeD)

text \<open>A binding that can serve a call now, with the connection it goes through.\<close>

definition live :: "route_store \<Rightarrow> string \<Rightarrow> string option \<Rightarrow> string \<Rightarrow> capability_binding \<Rightarrow> provider_connection \<Rightarrow> bool" where
  "live s t workspace_id capability_id b c \<longleftrightarrow>
     b \<in> set (list_capability_bindings s t (Some capability_id) None) \<and> cb_status b = ''approved'' \<and>
     binding_serves b workspace_id \<and> connection_eligible c \<and>
     connections_by_id s t (cb_connection_id b) = Some c"

lemma live_connection: "live s t w i b c \<Longrightarrow> c \<in> set (list_provider_connections s t) \<and> pc_id c = cb_connection_id b"
  by (auto simp: live_def connections_by_id_def dest!: dict_of_SomeD)

lemma eligible_iff:
  "(b, c) \<in> set (eligible bs conns w) \<longleftrightarrow> b \<in> set bs \<and> cb_status b = ''approved'' \<and> binding_serves b w \<and>
     conns (cb_connection_id b) = Some c \<and> connection_eligible c"
  unfolding eligible_def set_map_filter_iff by (force split: option.splits if_splits)

lemma policy_in_scope_member:
  "policy_in_scope ps d v oc w sc = Some bc \<Longrightarrow> \<exists>k. d k = Some bc"
  by (auto simp: policy_in_scope_def split: option.splits)

lemma policy_choice_member:
  assumes "policy_choice ps pairs v oc w = Some (bc, sel)"
  shows "bc \<in> set pairs" and "sel \<noteq> ''only_eligible''"
proof -
  let ?d = "dict_of (map (\<lambda>(b, c). (cb_binding_id b, (b, c))) pairs)"
  from assms have "\<exists>sc. policy_in_scope ps ?d v oc w sc = Some bc" and sel: "sel \<noteq> ''only_eligible''"
    unfolding policy_choice_def Let_def by (auto split: option.splits)
  then obtain k where "?d k = Some bc" using policy_in_scope_member by blast
  then show "bc \<in> set pairs" by (auto dest!: dict_of_SomeD)
  show "sel \<noteq> ''only_eligible''" by (rule sel)
qed

lemma make_plan_simps [simp]:
  "ep_capability_id (make_plan i v oc b c sel) = i" "ep_capability_version (make_plan i v oc b c sel) = v"
  "ep_selected_by (make_plan i v oc b c sel) = sel" "ep_operation_class (make_plan i v oc b c sel) = oc"
  by (simp_all add: make_plan_def)

lemma select_route_Inr:
  assumes "select_route s t i w ver pairs = Inr plan" "pairs \<noteq> []"
  obtains b c where "(b, c) \<in> set pairs" "plan = make_plan i ver (operation_class_for i) b c (ep_selected_by plan)"
    "ep_selected_by plan = ''only_eligible'' \<Longrightarrow> pairs = [(b, c)]"
proof (cases "policy_choice (list_routing_policies s t (Some i)) pairs ver (operation_class_for i) w")
  case None
  obtain b c where h: "hd pairs = (b, c)" by force
  have len: "\<not> length pairs > 1" using assms(1) None by (auto simp: select_route_def split: if_splits)
  then have p: "pairs = [(b, c)]" using h assms(2) by (cases pairs; cases "tl pairs") auto
  have "plan = make_plan i ver (operation_class_for i) b c ''only_eligible''"
    using assms(1) None len h by (simp add: select_route_def)
  with p show thesis by (intro that[of b c]) auto
next
  case (Some q)
  obtain b c sel where q: "q = ((b, c), sel)" by (metis prod.collapse)
  have "plan = make_plan i ver (operation_class_for i) b c sel"
    using assms(1) Some q by (simp add: select_route_def)
  with policy_choice_member[OF Some[unfolded q]] show thesis by (intro that[of b c]) auto
qed

lemma resolve_cases:
  assumes "resolve_execution_plan s t name w auth = Inr plan"
  obtains i pin b c where "parse_capability_ref name = Inr (i, pin)"
    "live s t w i b c" "\<And>v. pin = Some v \<Longrightarrow> cb_capability_version b = v"
    "plan = make_plan i (cb_capability_version b) (operation_class_for i) b c (ep_selected_by plan)"
    "\<And>b' c'. pin = None \<Longrightarrow> live s t w i b' c' \<Longrightarrow> cb_capability_version b' \<le> cb_capability_version b"
    "\<And>b' c'. ep_selected_by plan = ''only_eligible'' \<Longrightarrow> live s t w i b' c' \<Longrightarrow>
        cb_capability_version b' = cb_capability_version b \<Longrightarrow> b' = b"
    "\<And>f. auth = Some f \<Longrightarrow> f i = Inr ()"
proof -
  from assms obtain i pin where parse: "parse_capability_ref name = Inr (i, pin)"
    by (auto simp: resolve_execution_plan_def split: sum.splits)
  define p0 where "p0 = eligible (pinned_bindings s t i pin) (connections_by_id s t) w"
  define ver where "ver = route_version pin p0"
  define p1 where "p1 = filter (\<lambda>(b, _). cb_capability_version b = ver) p0"
  have live0: "(b, c) \<in> set p0 \<longleftrightarrow> live s t w i b c \<and> (\<forall>v. pin = Some v \<longrightarrow> cb_capability_version b = v)" for b c
    by (cases pin) (auto simp: p0_def eligible_iff pinned_bindings_def live_def Let_def)
  from assms parse have ne: "p0 \<noteq> []" and auth: "\<And>f. auth = Some f \<Longrightarrow> f i = Inr ()"
    and sel: "select_route s t i w ver p1 = Inr plan"
    by (auto simp: resolve_execution_plan_def p0_def ver_def p1_def Let_def split: sum.splits if_splits)
  have maxv: "cb_capability_version b \<le> ver" if "pin = None" "(b, c) \<in> set p0" for b c
    using max_int_bounds(2)[of "map (cb_capability_version \<circ> fst) p0" "cb_capability_version b"] ne that
    by (force simp: ver_def route_version_def)
  have p1ne: "p1 \<noteq> []"
  proof (cases pin)
    case (Some v)
    obtain b c where "(b, c) \<in> set p0" using ne by (cases p0) auto
    moreover have "cb_capability_version b = ver" using live0 calculation Some by (simp add: ver_def route_version_def)
    ultimately show ?thesis by (auto simp: p1_def filter_empty_conv)
  next
    case None
    then have "ver \<in> set (map (cb_capability_version \<circ> fst) p0)"
      using max_int_bounds(1)[of "map (cb_capability_version \<circ> fst) p0"] ne by (simp add: ver_def route_version_def)
    then show ?thesis by (auto simp: p1_def filter_empty_conv)
  qed
  from select_route_Inr[OF sel p1ne] obtain b c where bc: "(b, c) \<in> set p1"
    "plan = make_plan i ver (operation_class_for i) b c (ep_selected_by plan)"
    "ep_selected_by plan = ''only_eligible'' \<Longrightarrow> p1 = [(b, c)]" by blast
  have ver: "cb_capability_version b = ver" "(b, c) \<in> set p0" using bc(1) by (auto simp: p1_def)
  have only: "b' = b" if "ep_selected_by plan = ''only_eligible''" "live s t w i b' c'"
    "cb_capability_version b' = cb_capability_version b" for b' c'
  proof -
    have "(b', c') \<in> set p1" using that(2,3) ver live0 by (auto simp: p1_def)
    then show ?thesis using bc(3)[OF that(1)] by simp
  qed
  show thesis
  proof (rule that[OF parse])
    show "live s t w i b c" using ver(2) live0 by blast
    show "cb_capability_version b = v" if "pin = Some v" for v using ver(2) live0 that by blast
    show "plan = make_plan i (cb_capability_version b) (operation_class_for i) b c (ep_selected_by plan)"
      using bc(2) ver(1) by simp
    show "cb_capability_version b' \<le> cb_capability_version b" if "pin = None" "live s t w i b' c'" for b' c'
      using maxv[OF that(1), of b' c'] live0[of b' c'] that ver(1) by simp
  qed (use only auth in blast)+
qed


lemma show_int_nonneg: "0 \<le> v \<Longrightarrow> show_int v = show_nat (nat v)"
  by (simp add: show_int_def)

subsection \<open>Properties\<close>

text \<open>Property C12. One invocation, one live destination: when the resolver returns a plan, the plan's target is a
  binding of that capability that is approved and in scope for the workspace, over a connection that is active and
  not down or revoked; a pinned version is honoured, an unpinned name takes the newest live version; and when no
  policy chose it, no other live binding of that version exists - the resolver never picks the first of several.\<close>

theorem plan_is_live_and_definite:
  assumes "resolve_execution_plan s t name w auth = Inr plan"
  shows "\<exists>pin b c. parse_capability_ref name = Inr (ep_capability_id plan, pin) \<and>
     live s t w (ep_capability_id plan) b c \<and> pc_id c = cb_connection_id b \<and>
     ep_target plan = \<lparr>pt_binding_id = cb_binding_id b, pt_source_operation_id = cb_source_operation_id b,
        pt_connection_id = pc_id c, pt_connection_label = pc_label c,
        pt_consequence_override = cb_consequence_override b\<rparr> \<and>
     ep_capability_version plan = cb_capability_version b \<and>
     (case pin of Some v \<Rightarrow> cb_capability_version b = v
      | None \<Rightarrow> \<forall>b' c'. live s t w (ep_capability_id plan) b' c' \<longrightarrow> cb_capability_version b' \<le> cb_capability_version b) \<and>
     (ep_selected_by plan = ''only_eligible'' \<longrightarrow>
        (\<forall>b' c'. live s t w (ep_capability_id plan) b' c' \<longrightarrow> cb_capability_version b' = cb_capability_version b \<longrightarrow> b' = b))"
proof -
  obtain i pin b c where r:
    "parse_capability_ref name = Inr (i, pin)" "live s t w i b c" "\<And>v. pin = Some v \<Longrightarrow> cb_capability_version b = v"
    "plan = make_plan i (cb_capability_version b) (operation_class_for i) b c (ep_selected_by plan)"
    "\<And>b' c'. pin = None \<Longrightarrow> live s t w i b' c' \<Longrightarrow> cb_capability_version b' \<le> cb_capability_version b"
    "\<And>b' c'. ep_selected_by plan = ''only_eligible'' \<Longrightarrow> live s t w i b' c' \<Longrightarrow>
        cb_capability_version b' = cb_capability_version b \<Longrightarrow> b' = b"
    "\<And>f. auth = Some f \<Longrightarrow> f i = Inr ()"
    by (rule resolve_cases[OF assms]) (rule that)
  have i: "ep_capability_id plan = i" "ep_capability_version plan = cb_capability_version b"
    using arg_cong[OF r(4), of ep_capability_id] arg_cong[OF r(4), of ep_capability_version] by (simp_all only: make_plan_simps)
  have tgt: "ep_target plan = \<lparr>pt_binding_id = cb_binding_id b, pt_source_operation_id = cb_source_operation_id b,
        pt_connection_id = pc_id c, pt_connection_label = pc_label c, pt_consequence_override = cb_consequence_override b\<rparr>"
    using arg_cong[OF r(4), of ep_target] by (simp add: make_plan_def)
  have c: "pc_id c = cb_connection_id b" using live_connection[OF r(2)] by blast
  show ?thesis
    by (intro exI[of _ pin] exI[of _ b] exI[of _ c]) (use r(1-3,5,6) i tgt c in \<open>auto split: option.splits\<close>)
qed

definition demo_connection :: "string \<Rightarrow> provider_connection" where
  "demo_connection i = \<lparr>pc_id = i, pc_tenant_id = ''t'', pc_label = ''CRM '' @ i, pc_provider = ''hubspot'',
     pc_source_type = ''native'', pc_adapter_id = None, pc_integration_connection_id = None, pc_workspace_id = None,
     pc_account_ref = None, pc_credential_ref = None, pc_health = ''ok'', pc_status = ''active'',
     pc_trust_level = ''trusted''\<rparr>"

definition demo_binding :: "string \<Rightarrow> string \<Rightarrow> capability_binding" where
  "demo_binding i conn = \<lparr>cb_binding_id = i, cb_tenant_id = ''t'', cb_capability_id = ''crm.contact.create'',
     cb_source_operation_id = ''hubspot.contact.create'', cb_connection_id = conn, cb_capability_version = 1,
     cb_status = ''approved'', cb_trust_level = ''trusted'', cb_priority = 100, cb_workspace_predicate = None,
     cb_input_transform_ref = None, cb_output_transform_ref = None, cb_source_schema_digest = None,
     cb_consequence_override = Some ''high'', cb_health = ''ok'', cb_fallback_policy = ''none'',
     cb_created_from = ''declared'', cb_reviewed_by = None\<rparr>"

definition demo_routes :: route_store where
  "demo_routes = upsert_capability_binding (upsert_provider_connection route_empty (demo_connection ''c1''))
     (demo_binding ''b1'' ''c1'')"

theorem plan_is_live_and_definite_witness:
  "\<exists>plan pin b c. resolve_execution_plan demo_routes ''t'' ''crm.contact.create@1'' None None = Inr plan \<and>
     parse_capability_ref ''crm.contact.create@1'' = Inr (ep_capability_id plan, pin) \<and>
     live demo_routes ''t'' None (ep_capability_id plan) b c \<and> pt_binding_id (ep_target plan) = cb_binding_id b"
proof -
  have "is_ok (resolve_execution_plan demo_routes ''t'' ''crm.contact.create@1'' None None)" by code_simp
  then obtain plan where p: "resolve_execution_plan demo_routes ''t'' ''crm.contact.create@1'' None None = Inr plan"
    by (auto simp: is_ok_conv)
  from plan_is_live_and_definite[OF p] obtain pin b c where
    "parse_capability_ref ''crm.contact.create@1'' = Inr (ep_capability_id plan, pin)"
    "live demo_routes ''t'' None (ep_capability_id plan) b c" "pt_binding_id (ep_target plan) = cb_binding_id b" by auto
  with p show ?thesis by blast
qed

text \<open>A caller without the capability's grant learns nothing about the tenant's connections: with the
  grant check refusing, the resolver's answer is the same for every table of connections and of policies,
  and it is either "unknown verb" or the refusal itself, never a list of destinations.\<close>

lemma ungranted_caller_learns_no_destination:
  assumes "parse_capability_ref name = Inr (i, pin)" and "auth i = Inl d" and "rt_bindings s' = rt_bindings s"
  shows "resolve_execution_plan s' t name w (Some auth) = resolve_execution_plan s t name w (Some auth) \<and>
     resolve_execution_plan s t name w (Some auth) \<in> {Inl (UnknownVerb name), Inl (NotGranted d)}"
proof -
  have "pinned_bindings s' t i pin = pinned_bindings s t i pin"
    using assms(3) by (simp add: pinned_bindings_def list_capability_bindings_def)
  then show ?thesis using assms(1,2) by (simp add: resolve_execution_plan_def Let_def)
qed

text \<open>The operator's always-ask list follows the action, not its spelling: when a capability, or the
  source operation behind it, is on the list (with or without a version pin), or the approved binding between
  them raises the consequence, the call needs approval both when it is addressed by the capability's name and
  when it is addressed directly by the source operation, whatever the user's posture is.\<close>

lemma blocked_action_asks_under_every_name:
  assumes "unpinned blocking = Inr blocked"
    and "cb \<in> set (list_capability_bindings s (ctx_tenant_id ctx) (Some cap) None)" and "cb_status cb = ''approved''"
    and "vd_id v = cb_source_operation_id cb" and "ep_capability_id plan = cap"
    and "pt_consequence_override (ep_target plan) = cb_consequence_override cb"
    and "cap \<in> set blocked \<or> vd_id v \<in> set blocked \<or> cb_consequence_override cb = Some ''high''"
  shows "requires_approval s blocking verb v b (Some plan) ctx = Inr True \<and>
     requires_approval s blocking (vd_id v) v b None ctx = Inr True"
proof -
  have cap: "cb_capability_id cb = cap" using assms(2) by (auto simp: list_capability_bindings_def)
  have mem: "cb \<in> set (list_capability_bindings s (ctx_tenant_id ctx) None (Some (vd_id v)))"
    using assms(2,4) by (force simp: list_capability_bindings_def)
  have "requires_approval s blocking verb v b (Some plan) ctx = Inr True"
    using assms(1,5-7) by (auto simp: requires_approval_def blocking_names_def governed_capabilities_def)
  moreover have "requires_approval s blocking (vd_id v) v b None ctx = Inr True"
    using assms(1,3,7) mem cap
    by (auto simp: requires_approval_def blocking_names_def governed_capabilities_def Let_def list_ex_iff)
  ultimately show ?thesis by blast
qed

definition demo_verb :: verb_def where
  "demo_verb = \<lparr>vd_id = ''hubspot.contact.create'', vd_tenant_id = ''t'', vd_noun_id = ''contact'', vd_input_schema = [],
     vd_output_schema = [], vd_description = [], vd_consequence = LOW, vd_degraded_mode = None,
     vd_identity_mode = ''service-principal'', vd_idempotency_mode = Cacheable, vd_is_active = True\<rparr>"

definition demo_verb_binding :: verb_binding where
  "demo_verb_binding = spec_binding ''t'' ''hubspot'' \<lparr>sp_verb_id = ''hubspot.contact.create'', sp_noun_id = ''contact'',
     sp_input_schema = [], sp_output_schema = [], sp_consequence = ''low'', sp_description = [], sp_rate_limit = None,
     sp_degraded_mode = None, sp_idempotency_mode = ''cacheable''\<rparr>"

definition demo_ctx :: invocation_context where
  "demo_ctx = \<lparr>ctx_tenant_id = ''t'', ctx_run_id = Some ''run'', ctx_parent_run_id = None, ctx_depth = 0,
     ctx_on_behalf_of = Some ''ann'', ctx_workspace_id = None, ctx_ip_address = None, ctx_user_agent = None,
     ctx_grants = \<lparr>allow = [''*''], deny = []\<rparr>, ctx_actor = ''agent'', ctx_actor_tier = ''ephemeral'',
     ctx_skills_loaded = [], ctx_extra = []\<rparr>"

text \<open>What the user's posture can and cannot waive: a high-consequence call goes through without an
  approval only if it is a delegated agent call to an adapter outside the control plane, its owner chose full
  access, and neither the operator's list nor a binding override covers it; in particular a direct human call
  and a control-plane call of high consequence are always held.\<close>

lemma only_full_access_waives_high_consequence:
  assumes "requires_approval s blocking verb v b plan ctx = Inr False" and "vd_consequence v = HIGH"
  shows "is_delegated_agent_call ctx \<and> vb_target_type b = ADAPTER \<and> vb_target_ref b \<noteq> ''control'' \<and>
     \<not> startswith verb ''control.'' \<and>
     fst (approval_posture_for s (ctx_tenant_id ctx) (the (ctx_on_behalf_of ctx))) = FULL_ACCESS \<and>
     snd (governed_capabilities s (ctx_tenant_id ctx) v plan) \<noteq> Some ''high''"
proof -
  from assms(1) have p: "\<not> posture_requires_approval s verb v b ctx"
    and "snd (governed_capabilities s (ctx_tenant_id ctx) v plan) \<noteq> Some ''high''"
    by (auto simp: requires_approval_def rbind_Inr_iff case_prod_beta split: if_splits)
  with assms(2) show ?thesis
    by (auto simp: posture_requires_approval_def split: if_splits approval_posture.splits)
qed

text \<open>Addressing a version is lossless: parsing the reference of a capability version gives back the
  capability and the version.\<close>

lemma capability_ref_roundtrip:
  assumes "i \<noteq> []" and "0 \<le> v"
  shows "parse_capability_ref (capability_ref i v) = Inr (i, Some v)"
proof -
  have d: "list_all is_digit (show_nat (nat v))" by (rule show_nat_digits)
  then have "CHR ''@'' \<notin> set (show_nat (nat v))" by (auto simp: list_all_iff is_digit_def)
  then have "rpartition CHR ''@'' (capability_ref i v) = Some (i, show_nat (nat v))"
    using rpartition_append[of "CHR ''@''" "show_nat (nat v)" i] assms(2) by (simp add: capability_ref_def show_int_nonneg)
  then show ?thesis using assms d digits_isdigit[OF show_nat_ne d]
    by (simp add: parse_capability_ref_def py_int_of_show_nat)
qed

text \<open>A pin written with a superscript digit is an error, not an absent pin: \<^verbatim>\<open>str.isdigit\<close> accepts the
  superscripts one, two and three and \<^verbatim>\<open>int\<close> refuses them, so parsing raises \<^verbatim>\<open>ValueError\<close>, and one such entry in the
  operator's always-ask list makes the gate decision raise for every call.\<close>

lemma superscript_pin_raises:
  assumes "i \<noteq> []" and "c \<in> {CHR 0xB2, CHR 0xB3, CHR 0xB9}" and "i @ ''@'' @ [c] \<in> set blocking"
  shows "parse_capability_ref (i @ ''@'' @ [c]) = Inl ValueError \<and>
     \<not> is_ok (requires_approval s blocking verb v b plan ctx)"
proof -
  have "CHR ''@'' \<notin> set [c]" using assms(2) by auto
  then have "rpartition CHR ''@'' (i @ CHR ''@'' # [c]) = Some (i, [c])" by (rule rpartition_append)
  moreover have "py_isdigit [c]" "py_int_of_digits [c] = None"
    using assms(2) by (auto simp: py_isdigit_def py_isdigit_char_def py_int_of_digits_def is_digit_def)
  ultimately have p: "parse_capability_ref (i @ ''@'' @ [c]) = Inl ValueError"
    using assms(1) by (simp add: parse_capability_ref_def)
  have bad: "\<not> is_ok (rmap f xs)" if "x \<in> set xs" "f x = Inl e" for f :: "string \<Rightarrow> py_error + string" and xs x e
    using that by (induction xs) (auto simp: is_ok_conv rbind_Inr_iff)
  have "\<not> is_ok (unpinned blocking)" unfolding unpinned_def by (rule bad[OF assms(3)]) (use p in simp)
  then have "\<not> is_ok (requires_approval s blocking verb v b plan ctx)"
    by (auto simp: requires_approval_def is_ok_conv rbind_Inr_iff)
  with p show ?thesis by blast
qed

end
