(* ===== verification/ApprovalGate.thy ===== *)
theory ApprovalGate
  imports Hitl Json HeldCall Routing
begin

text \<open>
  The approval gate in front of every high-consequence call: the fingerprint and the action digest
  (\<^verbatim>\<open>boltrig/kernel/hitl_fingerprint.py\<close>, \<^verbatim>\<open>boltrig/kernel/approval_digest.py\<close>) and the gate itself
  (\<^verbatim>\<open>boltrig/kernel/approval_gate.py\<close>).

  What the gate takes from outside is the record \<open>gate_env\<close>: NFC normalisation, float rendering, SHA-256 of the
  UTF-8 text in hexadecimal, \<^verbatim>\<open>str()\<close> of a non-string, the adapters' \<^verbatim>\<open>approval_context\<close> hooks and the configured
  timeout. A hook may raise; a \<^verbatim>\<open>TypeError\<close> or \<^verbatim>\<open>ValueError\<close> becomes the gate's own error, any other propagates.
\<close>

record gate_env =
  ge_nfc :: "string \<Rightarrow> string"
  ge_frepr :: "rat \<Rightarrow> string"
  ge_sha :: "string \<Rightarrow> string"
  ge_pstr :: "pyval \<Rightarrow> string"
  ge_hook :: "string \<Rightarrow> string \<Rightarrow> (string \<Rightarrow> pydict \<Rightarrow> invocation_context \<Rightarrow> py_error + pyval) option"
  ge_timeout :: "int option"

subsection \<open>Fingerprint and digest\<close>

definition approval_initiator :: "invocation_context \<Rightarrow> pydict" where
  "approval_initiator ctx =
    [(KStr ''actor'', PStr (ctx_actor ctx)),
     (KStr ''actor_tier'', PStr (ctx_actor_tier ctx)),
     (KStr ''on_behalf_of'', of_opt (ctx_on_behalf_of ctx)),
     (KStr ''workspace_id'', of_opt (ctx_workspace_id ctx)),
     (KStr ''run_id'', of_opt (ctx_run_id ctx)),
     (KStr ''role'', dict_get (ctx_extra ctx) ''principal_role''),
     (KStr ''scope'', dict_get (ctx_extra ctx) ''principal_scope''),
     (KStr ''grants'', PDict [(KStr ''allow'', of_strs (sort (allow (ctx_grants ctx)))),
                               (KStr ''deny'', of_strs (sort (deny (ctx_grants ctx))))]),
     (KStr ''skills_loaded'', of_strs (sort (ctx_skills_loaded ctx)))]"

definition approval_payload :: "string \<Rightarrow> string \<Rightarrow> pydict \<Rightarrow> invocation_context \<Rightarrow> pyval \<Rightarrow> pydict" where
  "approval_payload noun verb params ctx resource_context =
    [(KStr ''version'', PInt 1),
     (KStr ''tenant_id'', PStr (ctx_tenant_id ctx)),
     (KStr ''noun'', PStr noun),
     (KStr ''verb'', PStr verb),
     (KStr ''params'', PDict params),
     (KStr ''initiator'', PDict (approval_initiator ctx)),
     (KStr ''resource_context'', resource_context)]"

definition canonical_hash :: "gate_env \<Rightarrow> pyval \<Rightarrow> py_error + string" where
  "canonical_hash env v =
     rbind (normalise_json (ge_nfc env) v) (\<lambda>w.
     rbind (json_dumps (ge_frepr env) w) (\<lambda>text. Inr (ge_sha env text)))"

definition approval_request_fingerprint ::
  "gate_env \<Rightarrow> string \<Rightarrow> string \<Rightarrow> pydict \<Rightarrow> invocation_context \<Rightarrow> pyval \<Rightarrow> py_error + string" where
  "approval_request_fingerprint env noun verb params ctx resource_context =
     canonical_hash env (PDict (approval_payload noun verb params ctx resource_context))"

definition approval_action_digest :: "gate_env \<Rightarrow> string \<Rightarrow> string \<Rightarrow> pydict \<Rightarrow> py_error + string" where
  "approval_action_digest env noun verb params =
     canonical_hash env (PDict [(KStr ''version'', PInt 1), (KStr ''noun'', PStr noun), (KStr ''verb'', PStr verb),
       (KStr ''params'', PDict params)])"

subsection \<open>What the approver sees\<close>

definition approval_display_inputs :: "gate_env \<Rightarrow> string \<Rightarrow> pydict \<Rightarrow> py_error + pyval" where
  "approval_display_inputs env verb params =
     rbind (canonical_approval_value (ge_nfc env) (PDict params)) (\<lambda>canonical.
       if verb \<noteq> ''control.mcp_server.update'' then Inr (approval_display_value canonical)
       else Inr (PDict [(KStr ''server_id'', PStr (str_or_empty (ge_pstr env) (dict_get params ''server_id''))),
                        (KStr ''configuration'', PStr ''[redacted; see requested_config]'')]))"

definition approval_display_context ::
  "gate_env \<Rightarrow> string \<Rightarrow> pydict \<Rightarrow> invocation_context \<Rightarrow> pyval \<Rightarrow> py_error + string" where
  "approval_display_context env verb params ctx resource_context =
     rbind (approval_display_inputs env verb params) (\<lambda>inputs.
       json_dumps (ge_frepr env) (PDict
         ([(KStr ''version'', PInt 1),
           (KStr ''requested_by'', PStr (ctx_actor ctx)),
           (KStr ''requested_on_behalf_of'', of_opt (ctx_on_behalf_of ctx)),
           (KStr ''verb'', PStr verb),
           (KStr ''inputs'', inputs)] @
          (if resource_context = PNone then []
           else [(KStr ''resource_context'', approval_display_value resource_context)]))))"

definition APPROVAL_NOTICE_KEY :: string where
  "APPROVAL_NOTICE_KEY = ''approval_notice''"

definition rstrip_space :: "string \<Rightarrow> string" where
  "rstrip_space s = rev (dropWhile py_isspace (rev s))"

definition approval_question :: "gate_env \<Rightarrow> string \<Rightarrow> pyval \<Rightarrow> string" where
  "approval_question env verb resource_context =
     (let notice = (case resource_context of
            PDict d \<Rightarrow> strip (str_or_empty (ge_pstr env) (dict_get d APPROVAL_NOTICE_KEY))
          | _ \<Rightarrow> [])
      in if notice \<noteq> [] then rstrip_space (''Approve '' @ verb @ ''? '' @ notice) else ''Approve '' @ verb @ ''?'')"

definition resource_context ::
  "gate_env \<Rightarrow> verb_binding \<Rightarrow> string \<Rightarrow> pydict \<Rightarrow> invocation_context \<Rightarrow> py_error + pyval" where
  "resource_context env b verb params ctx =
     (if vb_target_type b \<noteq> ADAPTER then Inr PNone
      else case ge_hook env (ctx_tenant_id ctx) (vb_target_ref b) of
             None \<Rightarrow> Inr PNone
           | Some hook \<Rightarrow> hook verb params ctx)"

subsection \<open>The gate\<close>

datatype gate_error =
    NotCanonical
  | GateRaised py_error
  | StateConflict string
  | ApprovalNotHoldable string
  | PendingHuman string
  | Unmintable hitl_error

text \<open>The \<^verbatim>\<open>try\<close> block: the resource context, the fingerprint and the display text.\<close>

definition gate_prepare ::
  "gate_env \<Rightarrow> verb_binding \<Rightarrow> string \<Rightarrow> string \<Rightarrow> pydict \<Rightarrow> invocation_context
     \<Rightarrow> py_error + (pyval \<times> string \<times> string)" where
  "gate_prepare env b noun verb params ctx =
     rbind (resource_context env b verb params ctx) (\<lambda>raw.
     rbind (canonical_approval_value (ge_nfc env) raw) (\<lambda>resource.
     rbind (approval_request_fingerprint env noun verb params ctx resource) (\<lambda>fingerprint.
     rbind (approval_display_context env verb params ctx resource) (\<lambda>display.
       Inr (resource, fingerprint, display)))))"

definition approval_new ::
  "gate_env \<Rightarrow> string \<Rightarrow> invocation_context \<Rightarrow> pyval \<Rightarrow> string \<Rightarrow> string \<Rightarrow> string \<Rightarrow> hitl_new" where
  "approval_new env verb ctx resource fingerprint display digest =
     \<lparr>hn_run_id = (case ctx_run_id ctx of None \<Rightarrow> [] | Some r \<Rightarrow> r), hn_type = APPROVAL,
      hn_question = approval_question env verb resource, hn_context = display, hn_urgency = BLOCKING,
      hn_options = [''approve'', ''reject''], hn_assignee = None, hn_timeout_seconds = ge_timeout env,
      hn_work_item_id = None, hn_verb = Some verb, hn_requested_by = Some (ctx_actor ctx),
      hn_requested_on_behalf_of = ctx_on_behalf_of ctx, hn_request_fingerprint = Some fingerprint,
      hn_action_digest = Some digest, hn_workspace_id = ctx_workspace_id ctx,
      hn_department_scope = hitl_department_scope (ge_pstr env) ctx, hn_secure = False, hn_secure_purpose = None\<rparr>"

definition stamp_approval ::
  "invocation_context \<Rightarrow> string \<Rightarrow> string \<Rightarrow> string \<Rightarrow> pyval \<Rightarrow> invocation_context" where
  "stamp_approval ctx approved_by approval_id fingerprint resource =
     ctx\<lparr>ctx_extra := AList.update (KStr ''approval_resource_context'') resource
        (AList.update (KStr ''approval_request_fingerprint'') (PStr fingerprint)
        (AList.update (KStr ''approval_request_id'') (PStr approval_id)
        (AList.update (KStr ''approved_by'') (PStr approved_by) (ctx_extra ctx))))\<rparr>"

text \<open>Minting: name the redeemer first, then the digest, then the request.\<close>

definition gate_mint ::
  "gate_env \<Rightarrow> hitl_state \<Rightarrow> run_store option \<Rightarrow> instant \<Rightarrow> string \<Rightarrow> string \<Rightarrow> string \<Rightarrow> pydict
     \<Rightarrow> invocation_context \<Rightarrow> pyval \<Rightarrow> string \<Rightarrow> string \<Rightarrow> gate_error \<times> hitl_state" where
  "gate_mint env hs store now new_id noun verb params ctx resource fingerprint display =
     (if name_redeemer store ctx = None then (ApprovalNotHoldable verb, hs)
      else case approval_action_digest env noun verb params of
             Inl e \<Rightarrow> (GateRaised e, hs)
           | Inr digest \<Rightarrow>
               (case hitl_create hs now new_id (ctx_tenant_id ctx)
                       (approval_new env verb ctx resource fingerprint display digest) of
                  (Inl e, hs') \<Rightarrow> (Unmintable e, hs')
                | (Inr req, hs') \<Rightarrow> (PendingHuman (hr_id req), hs')))"

definition enforce_approval ::
  "gate_env \<Rightarrow> hitl_state \<Rightarrow> run_store option \<Rightarrow> instant \<Rightarrow> string \<Rightarrow> verb_binding \<Rightarrow> string \<Rightarrow> string \<Rightarrow> pydict
     \<Rightarrow> invocation_context \<Rightarrow> string option \<Rightarrow> (gate_error + invocation_context) \<times> hitl_state" where
  "enforce_approval env hs store now new_id b noun verb params ctx approval_id =
     (case gate_prepare env b noun verb params ctx of
        Inl e \<Rightarrow> (Inl (if e = TypeError \<or> e = ValueError then NotCanonical else GateRaised e), hs)
      | Inr (resource, fingerprint, display) \<Rightarrow>
          (let t = ctx_tenant_id ctx;
               (approved_by, hs1) = (if nonempty approval_id
                  then consume_approved_by hs now t (the approval_id) verb fingerprint else (None, hs))
           in if nonempty approved_by
              then (Inr (stamp_approval ctx (the approved_by) (the approval_id) fingerprint resource), hs1)
              else if (case approval_id of None \<Rightarrow> False
                       | Some a \<Rightarrow> (case get_hitl_request hs1 t a of None \<Rightarrow> False
                                     | Some spent \<Rightarrow> hr_status spent = CONSUMED))
              then (Inl (StateConflict (the approval_id)), hs1)
              else (case gate_mint env hs1 store now new_id noun verb params ctx resource fingerprint display of
                      (e, hs2) \<Rightarrow> (Inl e, hs2))))"

subsection \<open>Lemmas: the gate\<close>

lemma enforce_Inr:
  assumes "enforce_approval env hs store now nid b noun verb params ctx aid = (Inr ctx', hs')"
  obtains a u resource fp display where "aid = Some a" "a \<noteq> []" "u \<noteq> []"
    "gate_prepare env b noun verb params ctx = Inr (resource, fp, display)"
    "consume_approved_by hs now (ctx_tenant_id ctx) a verb fp = (Some u, hs')"
    "ctx' = stamp_approval ctx u a fp resource"
proof -
  from assms obtain resource fp display where p: "gate_prepare env b noun verb params ctx = Inr (resource, fp, display)"
    by (auto simp: enforce_approval_def split: sum.splits)
  obtain r hs1 where c: "(if nonempty aid then consume_approved_by hs now (ctx_tenant_id ctx) (the aid) verb fp
      else (None, hs)) = (r, hs1)" by force
  have r: "nonempty r" and eq: "ctx' = stamp_approval ctx (the r) (the aid) fp resource" "hs' = hs1"
    using assms p c by (auto simp: enforce_approval_def Let_def case_prod_beta split: if_splits option.splits)
  have "nonempty aid" using c r by (auto simp: nonempty_def split: if_splits)
  then obtain a where a: "aid = Some a" "a \<noteq> []" by (auto simp: nonempty_def split: option.splits)
  obtain u where u: "r = Some u" "u \<noteq> []" using r by (auto simp: nonempty_def split: option.splits)
  show thesis using that[OF a u(2) p] c eq a u by (simp add: nonempty_def)
qed

lemma hitl_create_Inr:
  assumes "hitl_create hs now nid t a = (Inr req, hs')" "get_hitl_request hs t nid = None"
  shows "req = new_request now nid t a \<and> hs' = put_request hs (t, nid) req"
  using create_cases[OF assms(2), of now a] assms(1) by auto

lemma gate_mint_cases:
  assumes "gate_mint env hs store now nid noun verb params ctx resource fp display = (e, hs')"
    "get_hitl_request hs (ctx_tenant_id ctx) nid = None"
  shows "(\<exists>digest. e = PendingHuman nid \<and> name_redeemer store ctx \<noteq> None \<and>
      hs' = put_request hs (ctx_tenant_id ctx, nid) (new_request now nid (ctx_tenant_id ctx)
        (approval_new env verb ctx resource fp display digest))) \<or> ((\<forall>i. e \<noteq> PendingHuman i) \<and> hs' = hs)"
proof -
  show ?thesis
  proof (cases "name_redeemer store ctx = None \<or> \<not> is_ok (approval_action_digest env noun verb params)")
    case True
    then show ?thesis using assms(1) by (auto simp: gate_mint_def is_ok_conv split: sum.splits if_splits)
  next
    case False
    then obtain digest where dg: "approval_action_digest env noun verb params = Inr digest" by (auto simp: is_ok_conv)
    show ?thesis
    proof (cases rule: create_cases[OF assms(2), of now "approval_new env verb ctx resource fp display digest"])
      case (1 x)
      then show ?thesis using assms(1) False dg by (auto simp: gate_mint_def)
    next
      case 2
      then have "e = PendingHuman nid \<and> hs' = put_request hs (ctx_tenant_id ctx, nid) (new_request now nid
          (ctx_tenant_id ctx) (approval_new env verb ctx resource fp display digest))"
        using assms(1) False dg by (auto simp: gate_mint_def)
      then show ?thesis using False by blast
    qed
  qed
qed

lemma approval_new_simps [simp]:
  "hn_type (approval_new env v ctx res fp disp dg) = APPROVAL"
  "hn_verb (approval_new env v ctx res fp disp dg) = Some v"
  "hn_request_fingerprint (approval_new env v ctx res fp disp dg) = Some fp"
  "hn_timeout_seconds (approval_new env v ctx res fp disp dg) = ge_timeout env"
  by (simp_all add: approval_new_def)

lemma enforce_first_call:
  assumes "enforce_approval env hs store now nid b noun verb params ctx None = (Inl (PendingHuman i), hs')"
    "get_hitl_request hs (ctx_tenant_id ctx) nid = None"
  obtains resource fp display digest where "i = nid" "name_redeemer store ctx \<noteq> None"
    "gate_prepare env b noun verb params ctx = Inr (resource, fp, display)"
    "hs' = put_request hs (ctx_tenant_id ctx, nid) (new_request now nid (ctx_tenant_id ctx)
        (approval_new env verb ctx resource fp display digest))"
proof -
  from assms obtain resource fp display where p: "gate_prepare env b noun verb params ctx = Inr (resource, fp, display)"
    by (auto simp: enforce_approval_def split: sum.splits if_splits)
  from assms(1) p have "gate_mint env hs store now nid noun verb params ctx resource fp display = (PendingHuman i, hs')"
    by (auto simp: enforce_approval_def nonempty_def split: prod.splits)
  from gate_mint_cases[OF this assms(2)] show thesis using that p by auto
qed

lemma enforce_redeems:
  assumes "gate_prepare env b noun verb params ctx = Inr (resource, fp, display)" "a \<noteq> []" "u \<noteq> []"
    "consume_approved_by hs now (ctx_tenant_id ctx) a verb fp = (Some u, hs')"
  shows "enforce_approval env hs store now nid b noun verb params ctx (Some a) = (Inr (stamp_approval ctx u a fp resource), hs')"
  using assms by (simp add: enforce_approval_def nonempty_def)

lemma enforce_spent:
  assumes "gate_prepare env b noun verb params ctx = Inr (resource, fp, display)"
    "get_hitl_request hs (ctx_tenant_id ctx) a = Some req" "hr_status req = CONSUMED"
  shows "enforce_approval env hs store now nid b noun verb params ctx (Some a) = (Inl (StateConflict a), hs)"
  using assms consume_not_answered[OF assms(2)]
  by (cases "a = []") (simp_all add: enforce_approval_def nonempty_def Let_def)

lemma answered_response:
  assumes inv: "hitl_inv s" and req: "get_hitl_request s t i = Some req" and fresh: "(t, nid) \<notin> fst ` set (hs_responses s)"
    and ans: "hitl_answer n s now nid t i d u w = (Inr resp, s')"
  shows "get_hitl_request s' t i = Some (req\<lparr>hr_status := ANSWERED\<rparr>)" and "get_hitl_response s' t i = Some resp"
    and "hp_decision resp = d" and "hp_respondent resp = u"
proof -
  have *: "get_hitl_request s' t i = Some (req\<lparr>hr_status := ANSWERED\<rparr>) \<and> get_hitl_response s' t i = Some resp
      \<and> hp_decision resp = d \<and> hp_respondent resp = u"
  proof (cases rule: answer_cases[where n = n and s = s and now = now and nid = nid and t = t and i = i and d = d
        and u = u and w = w])
    case (recorded r)
    have r: "r = req" using recorded(1) req by simp
    have resp: "resp = \<lparr>hp_id = nid, hp_request_id = i, hp_tenant_id = t, hp_decision = d, hp_respondent = u,
        hp_responded_at = now, hp_notes = w\<rparr>" using recorded(4) ans by simp
    have "responses_for s t i = []" using hitl_invD[OF inv req] recorded(3) r by (auto simp: row_ok_def)
    then have "responses_for s' t i = [resp]"
      using responses_for_answered[OF recorded(6) fresh, of i] ans resp by simp
    then show ?thesis using recorded(5)[of t i] ans r resp by (simp add: get_hitl_response_alt)
  qed (use ans in auto)
  from * show "get_hitl_request s' t i = Some (req\<lparr>hr_status := ANSWERED\<rparr>)" "get_hitl_response s' t i = Some resp"
    "hp_decision resp = d" "hp_respondent resp = u" by auto
qed

subsection \<open>Lemmas: what a canonical hash binds\<close>

definition nfc_ascii :: "(string \<Rightarrow> string) \<Rightarrow> bool" where
  "nfc_ascii nfc \<longleftrightarrow> (\<forall>s. is_ascii s \<longrightarrow> nfc s = s)"

text \<open>What the fingerprint relies on: NFC leaves ASCII alone, floats print as described, and SHA-256 of the text has
  no collision among the texts the kernel ever hashes.\<close>

definition env_ok :: "gate_env \<Rightarrow> bool" where
  "env_ok env \<longleftrightarrow> nfc_ascii (ge_nfc env) \<and> float_repr_ok (ge_frepr env) \<and> inj (ge_sha env)"

lemma normalise_items_elem:
  assumes "normalise_items nfc out d = Inr out'"
  shows "(k, v) \<in> set d \<Longrightarrow> \<exists>s w. k = KStr s \<and> normalise_json nfc v = Inr w \<and> (KStr (nfc s), w) \<in> set out'"
    and "x \<in> set out' \<Longrightarrow> x \<in> set out \<or> (\<exists>s v w. (KStr s, v) \<in> set d \<and> x = (KStr (nfc s), w) \<and> normalise_json nfc v = Inr w)"
    and "set out \<subseteq> set out'"
proof -
  have *: "set out \<subseteq> set out' \<and> (\<forall>(k, v) \<in> set d. \<exists>s w. k = KStr s \<and> normalise_json nfc v = Inr w \<and> (KStr (nfc s), w) \<in> set out')
     \<and> (\<forall>x \<in> set out'. x \<in> set out \<or> (\<exists>s v w. (KStr s, v) \<in> set d \<and> x = (KStr (nfc s), w) \<and> normalise_json nfc v = Inr w))"
    using assms
  proof (induction d arbitrary: out)
    case (Cons kv d)
    obtain k v where kv: "kv = (k, v)" by force
    from Cons.prems obtain s w where s: "k = KStr s" "normalise_json nfc v = Inr w"
      "normalise_items nfc (out @ [(KStr (nfc s), w)]) d = Inr out'"
      by (auto simp: kv rbind_Inr_iff split: pykey.splits if_splits)
    from Cons.IH[OF s(3)] show ?case using s(1,2) by (fastforce simp: kv)
  qed simp
  from * show "(k, v) \<in> set d \<Longrightarrow> \<exists>s w. k = KStr s \<and> normalise_json nfc v = Inr w \<and> (KStr (nfc s), w) \<in> set out'" by blast
  from * show "x \<in> set out' \<Longrightarrow> x \<in> set out \<or> (\<exists>s v w. (KStr s, v) \<in> set d \<and> x = (KStr (nfc s), w) \<and> normalise_json nfc v = Inr w)"
    by blast
  from * show "set out \<subseteq> set out'" by blast
qed

lemma key_sorted_dict_entry:
  assumes "key_sorted (PDict d) = key_sorted (PDict d')" "(k, v) \<in> set d"
  shows "\<exists>v'. (k, v') \<in> set d' \<and> key_sorted v' = key_sorted v"
proof -
  let ?f = "\<lambda>(k, v). (k, key_sorted v)"
  from assms(1) have "?f ` set d = ?f ` set d'"
    by simp (metis (no_types, lifting) list.set_map set_sort)
  with assms(2) have "(k, key_sorted v) \<in> ?f ` set d'" by force
  then show ?thesis by force
qed

text \<open>Two canonical dictionaries with the same text agree field by field.\<close>

definition ascii_keys :: "pydict \<Rightarrow> bool" where
  "ascii_keys d = list_all (\<lambda>(k, _). case k of KStr s \<Rightarrow> is_ascii s | KOther _ \<Rightarrow> False) d"

lemma bound_field:
  assumes nfc: "nfc_ascii nfc" and x: "normalise_json nfc (PDict d) = Inr x" and y: "normalise_json nfc (PDict d') = Inr y"
    and eq: "key_sorted x = key_sorted y" and asc: "ascii_keys d'" "is_ascii f" and v: "(KStr f, v) \<in> set d"
  shows "\<exists>v' w w'. (KStr f, v') \<in> set d' \<and> normalise_json nfc v = Inr w \<and> normalise_json nfc v' = Inr w' \<and>
     key_sorted w = key_sorted w'"
proof -
  obtain o1 where o1: "normalise_items nfc [] d = Inr o1" "x = PDict o1" using x by (auto simp: rbind_Inr_iff)
  obtain o2 where o2: "normalise_items nfc [] d' = Inr o2" "y = PDict o2" using y by (auto simp: rbind_Inr_iff)
  have f: "nfc f = f" using nfc asc(2) by (simp add: nfc_ascii_def)
  from normalise_items_elem(1)[OF o1(1) v] f obtain w where w: "normalise_json nfc v = Inr w" "(KStr f, w) \<in> set o1" by auto
  from key_sorted_dict_entry[OF _ w(2), of o2] eq o1(2) o2(2) obtain w' where
    w': "(KStr f, w') \<in> set o2" "key_sorted w' = key_sorted w" by auto
  from normalise_items_elem(2)[OF o2(1) w'(1)] obtain s v' where
    s: "(KStr s, v') \<in> set d'" "nfc s = f" "normalise_json nfc v' = Inr w'" by auto
  have "nfc s = s" using s(1) asc(1) nfc by (auto simp: ascii_keys_def list_all_iff nfc_ascii_def)
  with s w w'(2) show ?thesis by auto
qed

lemma canonical_hash_inject:
  assumes "env_ok env" "canonical_hash env a = Inr h" "canonical_hash env b = Inr h"
  obtains x y where "normalise_json (ge_nfc env) a = Inr x" "normalise_json (ge_nfc env) b = Inr y" "key_sorted x = key_sorted y"
proof -
  from assms(2) obtain x tx where x: "normalise_json (ge_nfc env) a = Inr x" "json_dumps (ge_frepr env) x = Inr tx" "ge_sha env tx = h"
    by (auto simp: canonical_hash_def rbind_Inr_iff)
  from assms(3) obtain y ty where y: "normalise_json (ge_nfc env) b = Inr y" "json_dumps (ge_frepr env) y = Inr ty" "ge_sha env ty = h"
    by (auto simp: canonical_hash_def rbind_Inr_iff)
  have "tx = ty" using x(3) y(3) assms(1) by (auto simp: env_ok_def dest: injD)
  with unicode.json_dumps_inject[of "ge_frepr env" x tx y] x(2) y(2) assms(1) have "key_sorted x = key_sorted y"
    by (simp add: env_ok_def)
  with that x(1) y(1) show thesis by blast
qed

lemma payload_keys:
  "ascii_keys (approval_payload noun verb params ctx res)" "ascii_keys (approval_initiator ctx)"
  "ascii_keys [(KStr ''allow'', a), (KStr ''deny'', b)]"
  by (simp_all add: ascii_keys_def approval_payload_def approval_initiator_def is_ascii_def)

text \<open>The same value up to canonicalisation.\<close>

definition same_canonical :: "(string \<Rightarrow> string) \<Rightarrow> pyval \<Rightarrow> pyval \<Rightarrow> bool" where
  "same_canonical nfc a b \<longleftrightarrow>
     (\<exists>x y. normalise_json nfc a = Inr x \<and> normalise_json nfc b = Inr y \<and> key_sorted x = key_sorted y)"

lemma same_canonical_field:
  assumes "nfc_ascii nfc" "same_canonical nfc (PDict d) (PDict d')" "ascii_keys d'" "is_ascii f"
    "(KStr f, v) \<in> set d" "\<And>u. (KStr f, u) \<in> set d' \<Longrightarrow> u = v'"
  shows "same_canonical nfc v v'"
  using assms bound_field[OF assms(1) _ _ _ assms(3,4,5)] unfolding same_canonical_def by blast

lemma same_canonical_str [simp]: "same_canonical nfc (PStr a) (PStr b) \<longleftrightarrow> nfc a = nfc b"
  by (simp add: same_canonical_def)

lemma same_canonical_opt [simp]: "same_canonical nfc (of_opt a) (of_opt b) \<longleftrightarrow> map_option nfc a = map_option nfc b"
  by (cases a; cases b) (simp_all add: of_opt_def same_canonical_def)

lemma same_canonical_strs [simp]: "same_canonical nfc (of_strs xs) (of_strs ys) \<longleftrightarrow> map nfc xs = map nfc ys"
proof -
  have n: "normalise_json nfc (of_strs zs) = Inr (of_strs (map nfc zs))" for zs
  proof -
    have "rmap (normalise_json nfc) (map PStr zs) = Inr (map PStr (map nfc zs))" by (induction zs) auto
    then show ?thesis by (simp add: of_strs_def)
  qed
  have k: "key_sorted (of_strs zs) = of_strs zs" for zs by (simp add: of_strs_def)
  have "of_strs as = of_strs bs \<longleftrightarrow> as = bs" for as bs
    by (simp add: of_strs_def inj_map_eq_map inj_def)
  then show ?thesis by (simp add: same_canonical_def n k)
qed

lemma fingerprint_same_canonical:
  assumes "env_ok env" "approval_request_fingerprint env noun verb params ctx res = Inr fp"
    "approval_request_fingerprint env noun' verb' params' ctx' res' = Inr fp"
  shows "same_canonical (ge_nfc env) (PDict (approval_payload noun verb params ctx res))
     (PDict (approval_payload noun' verb' params' ctx' res'))"
  using canonical_hash_inject[OF assms(1)] assms(2,3)
  unfolding approval_request_fingerprint_def same_canonical_def by metis

subsection \<open>Properties\<close>


definition demo_env :: gate_env where
  "demo_env = \<lparr>ge_nfc = id, ge_frepr = demo_frepr, ge_sha = Cons CHR ''h'', ge_pstr = (\<lambda>_. ''?''), ge_hook = (\<lambda>_ _. None),
     ge_timeout = Some 600\<rparr>"

lemma demo_env_ok: "env_ok demo_env"
  using demo_frepr_ok by (simp add: env_ok_def demo_env_def nfc_ascii_def)


text \<open>Property C6. The gate opens only on a person's approval of this very call: when \<open>enforce_approval\<close> returns a
  context, an approval id was supplied, the request it names was answered approvingly, had not passed its deadline,
  is an approval for this verb and carries exactly the fingerprint of this call, and it is now spent; and the
  returned context differs from the caller's only in the evidence stamped into \<^verbatim>\<open>extra\<close>, so no authority is gained.\<close>

theorem gate_opens_only_on_bound_approval:
  assumes "enforce_approval env hs store now nid b noun verb params ctx aid = (Inr ctx', hs')"
  shows "\<exists>a req resp resource fp display. aid = Some a \<and>
     gate_prepare env b noun verb params ctx = Inr (resource, fp, display) \<and>
     get_hitl_request hs (ctx_tenant_id ctx) a = Some req \<and> hr_status req = ANSWERED \<and> hr_type req = APPROVAL \<and>
     hr_verb req = Some verb \<and> hr_request_fingerprint req = Some fp \<and>
     (\<forall>d. hr_timeout_at req = Some d \<longrightarrow> now < d) \<and>
     get_hitl_response hs (ctx_tenant_id ctx) a = Some resp \<and> approving_decision (hp_decision resp) \<and>
     get_hitl_request hs' (ctx_tenant_id ctx) a = Some (req\<lparr>hr_status := CONSUMED\<rparr>) \<and>
     ctx' = stamp_approval ctx (hp_respondent resp) a fp resource \<and> ctx'\<lparr>ctx_extra := ctx_extra ctx\<rparr> = ctx"
proof -
  obtain a u resource fp display where e: "aid = Some a" "gate_prepare env b noun verb params ctx = Inr (resource, fp, display)"
    "consume_approved_by hs now (ctx_tenant_id ctx) a verb fp = (Some u, hs')" "ctx' = stamp_approval ctx u a fp resource"
    using enforce_Inr[OF assms] by metis
  from consume_approved_by_SomeD[OF e(3)] obtain req resp where
    "get_hitl_request hs (ctx_tenant_id ctx) a = Some req" "hr_status req = ANSWERED" "hr_type req = APPROVAL"
    "hr_verb req = Some verb" "hr_request_fingerprint req = Some fp" "\<forall>d. hr_timeout_at req = Some d \<longrightarrow> now < d"
    "get_hitl_response hs (ctx_tenant_id ctx) a = Some resp" "approving_decision (hp_decision resp)" "u = hp_respondent resp"
    "hs' = put_request hs (ctx_tenant_id ctx, a) (req\<lparr>hr_status := CONSUMED\<rparr>)" by blast
  moreover have "ctx'\<lparr>ctx_extra := ctx_extra ctx\<rparr> = ctx" by (simp add: e(4) stamp_approval_def)
  ultimately show ?thesis using e by auto
qed

text \<open>Property C15. Ask, approve, run once: when a call is first held under a fresh request id, then answered approvingly
  by a named person, and then made again unchanged with that id before the deadline, the gate lets it through with
  that person stamped as the approver, whatever redeemer store it is now given; and making it a third time is
  refused as already spent and creates nothing.\<close>

theorem held_call_passes_once_approved:
  assumes inv: "hitl_inv hs" and fresh: "get_hitl_request hs (ctx_tenant_id ctx) rid = None" and rid: "rid \<noteq> []"
    and ask: "enforce_approval env hs store now rid b noun verb params ctx None = (Inl (PendingHuman rid), hs1)"
    and rfresh: "(ctx_tenant_id ctx, nid) \<notin> fst ` set (hs_responses hs1)"
    and ans: "hitl_answer n hs1 now1 nid (ctx_tenant_id ctx) rid d u w = (Inr resp, hs2)"
    and yes: "approving_decision d" "u \<noteq> []"
    and time: "\<And>k. ge_timeout env = Some k \<Longrightarrow> k \<noteq> 0 \<Longrightarrow> now2 < now + k"
    and fpne: "\<And>x. ge_sha env x \<noteq> []"
  shows "\<exists>resource fp display hs3. gate_prepare env b noun verb params ctx = Inr (resource, fp, display) \<and>
     enforce_approval env hs2 store2 now2 nid2 b noun verb params ctx (Some rid)
       = (Inr (stamp_approval ctx u rid fp resource), hs3) \<and>
     enforce_approval env hs3 store3 now3 nid3 b noun verb params ctx (Some rid) = (Inl (StateConflict rid), hs3)"
proof -
  let ?t = "ctx_tenant_id ctx"
  obtain resource fp display digest where p: "gate_prepare env b noun verb params ctx = Inr (resource, fp, display)"
    and hs1: "hs1 = put_request hs (?t, rid) (new_request now rid ?t (approval_new env verb ctx resource fp display digest))"
    using enforce_first_call[OF ask fresh] by metis
  let ?req = "new_request now rid ?t (approval_new env verb ctx resource fp display digest)"
  have req: "get_hitl_request hs1 ?t rid = Some ?req" by (simp add: hs1)
  have inv1: "hitl_inv hs1"
  proof (rule hitl_inv_update[OF inv, of ?t rid])
    have "responses_for hs ?t rid = []" using inv fresh unfolding hitl_inv_def by (metis option.simps(4))
    moreover have "present (hn_verb (approval_new env verb ctx resource fp display digest)) \<and>
        present (hn_requested_by (approval_new env verb ctx resource fp display digest))"
      using ask p fresh by (auto simp: enforce_approval_def nonempty_def gate_mint_def hitl_create_def
          approval_new_def split: prod.splits if_splits sum.splits)
    moreover have "fp \<noteq> []" using p fpne
      by (auto simp: gate_prepare_def approval_request_fingerprint_def canonical_hash_def rbind_Inr_iff)
    ultimately show "row_ok ?req (responses_for hs1 ?t rid)"
      by (simp add: row_ok_def hs1 responses_for_def present_def)
    show "get_hitl_request hs1 ?t rid = Some ?req" by (rule req)
  qed (auto simp: hs1 get_put_request responses_for_def)
  note a = answered_response[OF inv1 req rfresh ans]
  have fp: "fp \<noteq> []" using p fpne
    by (auto simp: gate_prepare_def approval_request_fingerprint_def canonical_hash_def rbind_Inr_iff)
  have to: "now2 < k" if "hr_timeout_at (?req\<lparr>hr_status := ANSWERED\<rparr>) = Some k" for k
    using that time by (auto simp: new_request_def split: option.splits if_splits)
  have c: "consume_approved_by hs2 now2 ?t rid verb fp
      = (Some u, put_request hs2 (?t, rid) (?req\<lparr>hr_status := CONSUMED\<rparr>))"
    using consume_approved_by_intro[OF a(1) _ _ _ fp _ to a(2), of verb] a(3,4) yes(1) by simp
  have "get_hitl_request (put_request hs2 (?t, rid) (?req\<lparr>hr_status := CONSUMED\<rparr>)) ?t rid = Some (?req\<lparr>hr_status := CONSUMED\<rparr>)"
    by simp
  from enforce_spent[OF p this] have "enforce_approval env (put_request hs2 (?t, rid) (?req\<lparr>hr_status := CONSUMED\<rparr>))
      store3 now3 nid3 b noun verb params ctx (Some rid)
    = (Inl (StateConflict rid), put_request hs2 (?t, rid) (?req\<lparr>hr_status := CONSUMED\<rparr>))" by simp
  with enforce_redeems[OF p rid yes(2) c] p show ?thesis by blast
qed

definition demo_ask :: "(gate_error + invocation_context) \<times> hitl_state" where
  "demo_ask = enforce_approval demo_env hitl_empty (Some run_store_empty) 0 ''r1'' demo_verb_binding ''mail'' ''mail.send''
     [(KStr ''to'', PStr ''bob'')] demo_context None"

definition demo_answer :: "(hitl_error + hitl_response) \<times> hitl_state" where
  "demo_answer = hitl_answer True (snd demo_ask) 5 ''p1'' ''t'' ''r1'' ''Approve'' ''bob'' ''''"

theorem held_call_passes_once_approved_witness:
  "\<exists>resource fp display hs3. gate_prepare demo_env demo_verb_binding ''mail'' ''mail.send'' [(KStr ''to'', PStr ''bob'')] demo_context
       = Inr (resource, fp, display) \<and>
     enforce_approval demo_env (snd demo_answer) None 6 ''x'' demo_verb_binding ''mail'' ''mail.send''
       [(KStr ''to'', PStr ''bob'')] demo_context (Some ''r1'') = (Inr (stamp_approval demo_context ''bob'' ''r1'' fp resource), hs3) \<and>
     enforce_approval demo_env hs3 None 7 ''y'' demo_verb_binding ''mail'' ''mail.send''
       [(KStr ''to'', PStr ''bob'')] demo_context (Some ''r1'') = (Inl (StateConflict ''r1''), hs3)"
proof (rule held_call_passes_once_approved)
  show "hitl_inv hitl_empty" by (rule hitl_reachable_inv) simp
  show "get_hitl_request hitl_empty (ctx_tenant_id demo_context) ''r1'' = None"
    by (simp add: get_hitl_request_def hitl_empty_def)
  have "fst demo_ask = Inl (PendingHuman ''r1'')" by code_simp
  then show "enforce_approval demo_env hitl_empty (Some run_store_empty) 0 ''r1'' demo_verb_binding ''mail'' ''mail.send''
     [(KStr ''to'', PStr ''bob'')] demo_context None = (Inl (PendingHuman ''r1''), snd demo_ask)"
    unfolding demo_ask_def by (metis prod.collapse)
  show "(ctx_tenant_id demo_context, ''p1'') \<notin> fst ` set (hs_responses (snd demo_ask))" by code_simp
  have "is_ok (fst demo_answer)" by code_simp
  moreover have "is_ok (fst p) \<Longrightarrow> p = (Inr (projr (fst p)), snd p)" for p :: "(hitl_error + hitl_response) \<times> hitl_state"
    by (cases p) (auto simp: is_ok_conv)
  ultimately have "demo_answer = (Inr (projr (fst demo_answer)), snd demo_answer)" by blast
  then show "hitl_answer True (snd demo_ask) 5 ''p1'' (ctx_tenant_id demo_context) ''r1'' ''Approve'' ''bob'' ''''
      = (Inr (projr (fst demo_answer)), snd demo_answer)"
    by (simp add: demo_answer_def demo_context_def)
  show "approving_decision ''Approve''" by code_simp
qed (simp_all add: demo_env_def)

theorem gate_opens_only_on_bound_approval_witness:
  "\<exists>ctx' hs' a. enforce_approval demo_env (snd demo_answer) None 6 ''x'' demo_verb_binding ''mail'' ''mail.send''
       [(KStr ''to'', PStr ''bob'')] demo_context (Some ''r1'') = (Inr ctx', hs') \<and> ctx'\<lparr>ctx_extra := ctx_extra demo_context\<rparr> = demo_context"
proof -
  have "is_ok (fst (enforce_approval demo_env (snd demo_answer) None 6 ''x'' demo_verb_binding ''mail'' ''mail.send''
       [(KStr ''to'', PStr ''bob'')] demo_context (Some ''r1'')))" by code_simp
  then obtain ctx' hs' where e: "enforce_approval demo_env (snd demo_answer) None 6 ''x'' demo_verb_binding ''mail'' ''mail.send''
       [(KStr ''to'', PStr ''bob'')] demo_context (Some ''r1'') = (Inr ctx', hs')" by (metis is_ok_conv prod.collapse)
  from gate_opens_only_on_bound_approval[OF e] have "ctx'\<lparr>ctx_extra := ctx_extra demo_context\<rparr> = demo_context" by blast
  with e show ?thesis by blast
qed

lemma enforce_error_cases:
  assumes "enforce_approval env hs store now nid b noun verb params ctx aid = (Inl e, hs')"
    "get_hitl_request hs (ctx_tenant_id ctx) nid = None"
    "\<And>r. r \<in> snd ` set (hs_responses hs) \<Longrightarrow> hp_respondent r \<noteq> []"
  shows "(e = PendingHuman nid \<and> name_redeemer store ctx \<noteq> None \<and>
        (\<exists>r. hs' = put_request hs (ctx_tenant_id ctx, nid) r \<and> hr_status r = PENDING \<and> hr_type r = APPROVAL \<and> hr_verb r = Some verb))
     \<or> ((\<forall>i. e \<noteq> PendingHuman i) \<and> hs' = hs)"
proof (cases "gate_prepare env b noun verb params ctx")
  case (Inl x)
  then show ?thesis using assms(1) by (auto simp: enforce_approval_def split: if_splits)
next
  case (Inr q)
  obtain resource fp display where q: "q = (resource, fp, display)" by (metis prod_cases3)
  let ?t = "ctx_tenant_id ctx"
  obtain r hs1 where c: "(if nonempty aid then consume_approved_by hs now ?t (the aid) verb fp else (None, hs)) = (r, hs1)"
    by force
  have r: "r = None"
  proof (rule ccontr)
    assume "r \<noteq> None"
    then obtain u where u: "r = Some u" by auto
    then have con: "consume_approved_by hs now ?t (the aid) verb fp = (Some u, hs1)" using c by (auto split: if_splits)
    from consume_approved_by_SomeD[OF con] obtain resp where
      "get_hitl_response hs ?t (the aid) = Some resp" "u = hp_respondent resp" by blast
    moreover have "latest_response rs = Some x \<Longrightarrow> x \<in> set rs" for rs x
      by (induction rs arbitrary: x) (auto split: option.splits if_splits)
    ultimately have "u \<noteq> []" using assms(3) by (fastforce simp: get_hitl_response_def)
    then show False using assms(1) Inr q c u by (simp add: enforce_approval_def nonempty_def)
  qed
  have hs1: "hs1 = hs" using c r consume_approved_by_NoneD[of hs now ?t "the aid" verb fp]
    by (auto split: if_splits)
  consider "hs' = hs" "e = StateConflict (the aid)"
    | "gate_mint env hs store now nid noun verb params ctx resource fp display = (e, hs')"
    using assms(1) Inr q c r hs1
    by (auto simp: enforce_approval_def nonempty_def Let_def split: if_splits prod.splits option.splits)
  then show ?thesis
  proof cases
    case 2
    from gate_mint_cases[OF 2 assms(2)] show ?thesis by (metis approval_new_simps(1,2) new_request_simps(3-5))
  qed auto
qed

text \<open>A refusal mints nothing: when the gate does not let a call through, either it held it, in which case
  some lane can redeem the approval and exactly one row changed, a fresh pending approval for this verb; or it failed
  (inputs that are not canonical JSON, a hook that raised, a spent approval, no redeemer) and the request table is exactly
  as it was. Respondents are taken to be named.\<close>

lemma refused_gate_mints_nothing:
  assumes "enforce_approval env hs store now nid b noun verb params ctx aid = (Inl e, hs')"
    and "get_hitl_request hs (ctx_tenant_id ctx) nid = None"
    and "\<And>r. r \<in> snd ` set (hs_responses hs) \<Longrightarrow> hp_respondent r \<noteq> []"
  shows "(e = PendingHuman nid \<and> name_redeemer store ctx \<noteq> None \<and>
        (\<exists>r. hs' = put_request hs (ctx_tenant_id ctx, nid) r \<and> hr_status r = PENDING \<and> hr_type r = APPROVAL \<and> hr_verb r = Some verb))
     \<or> ((\<forall>i. e \<noteq> PendingHuman i) \<and> hs' = hs)"
  using assms by (rule enforce_error_cases)

end
