(* ===== verification/Credentials.thy ===== *)
theory Credentials
  imports HeldCall
begin

text \<open>
  Credentials: the resolver of \<^verbatim>\<open>boltrig/kernel/credentials.py\<close>, the choice of a connection and the scope fence
  (\<^verbatim>\<open>boltrig/kernel/integration_scope.py\<close>, \<^verbatim>\<open>boltrig/kernel/integration_credentials.py\<close>), the environment secret store
  (\<^verbatim>\<open>boltrig/kernel/secret_stores.py\<close>) and the in-memory connection table (\<^verbatim>\<open>boltrig/models/integrations.py\<close>,
  \<^verbatim>\<open>boltrig/store/integrations.py\<close>, \<^verbatim>\<open>boltrig/store/integration_atomic.py\<close>).

  The credential table is that of held calls. Sealing is the pair \<open>seal\<close>, \<open>unseal\<close>; the process environment is
  a partial function, \<^verbatim>\<open>json.loads\<close> the parameter \<open>loads\<close> (\<open>None\<close> is its \<^verbatim>\<open>ValueError\<close>). The organisation's policy flag is
  \<open>cs_allow_own\<close>, undefined for a tenant without an organisation row. Timestamps of connections are left out.
\<close>

subsection \<open>Connections\<close>

definition INTEGRATION_HEALTH :: "string list" where
  "INTEGRATION_HEALTH = [''pending'', ''ok'', ''degraded'', ''down'', ''revoked'']"

definition INTEGRATION_SCOPE_LEVELS :: "string list" where
  "INTEGRATION_SCOPE_LEVELS = [''org'', ''user'']"

datatype cred_error = CredentialResolution | CredentialKeyError

record integration_connection =
  ic_id :: string
  ic_tenant_id :: string
  ic_integration_id :: string
  ic_adapter_id :: string
  ic_label :: string
  ic_health :: string
  ic_credential_ref :: "string option"
  ic_credential_owned :: bool
  ic_level :: string
  ic_scope_id :: string

definition integration_connection_post_init :: "integration_connection \<Rightarrow> py_error + integration_connection" where
  "integration_connection_post_init c =
     (if ic_health c \<notin> set INTEGRATION_HEALTH \<or> ic_level c \<notin> set INTEGRATION_SCOPE_LEVELS then Inl ValueError
      else let c1 = (if ic_level c = ''org'' then c\<lparr>ic_scope_id := ic_tenant_id c\<rparr> else c)
           in if ic_level c \<noteq> ''org'' \<and> ic_scope_id c = [] then Inl ValueError
              else if ic_level c = ''user'' \<and> nonempty (ic_credential_ref c) \<and> \<not> ic_credential_owned c then Inl ValueError
              else Inr c1)"

record cred_store =
  cs_run :: run_store
  cs_connections :: "((string \<times> string) \<times> integration_connection) list"
  cs_allow_own :: "string \<Rightarrow> bool option"
  cs_adapter_cred :: "((string \<times> string) \<times> string) list"

definition active_rows :: "cred_store \<Rightarrow> string \<Rightarrow> string \<Rightarrow> integration_connection list" where
  "active_rows s t adapter_id =
     filter (\<lambda>c. ic_tenant_id c = t \<and> ic_adapter_id c = adapter_id \<and> ic_health c \<noteq> ''revoked'') (map snd (cs_connections s))"

definition scope_taken :: "cred_store \<Rightarrow> integration_connection \<Rightarrow> bool" where
  "scope_taken s c \<longleftrightarrow> list_ex (\<lambda>r. ic_tenant_id r = ic_tenant_id c \<and> ic_adapter_id r = ic_adapter_id c \<and>
     ic_level r = ic_level c \<and> ic_scope_id r = ic_scope_id c \<and> ic_health r \<noteq> ''revoked'') (map snd (cs_connections s))"

definition upsert_integration_connection :: "cred_store \<Rightarrow> integration_connection \<Rightarrow> cred_store" where
  "upsert_integration_connection s c = s\<lparr>cs_connections := AList.update (ic_tenant_id c, ic_id c) c (cs_connections s)\<rparr>"

definition create_integration_connection :: "cred_store \<Rightarrow> integration_connection \<Rightarrow> bool \<times> cred_store" where
  "create_integration_connection s c =
     (if scope_taken s c \<or> map_of (cs_connections s) (ic_tenant_id c, ic_id c) \<noteq> None then (False, s)
      else (True, upsert_integration_connection s c))"

definition update_integration_connection_health_if_active ::
  "cred_store \<Rightarrow> string \<Rightarrow> string \<Rightarrow> string \<Rightarrow> (py_error + integration_connection option) \<times> cred_store" where
  "update_integration_connection_health_if_active s t cid health =
     (case map_of (cs_connections s) (t, cid) of
        None \<Rightarrow> (Inr None, s)
      | Some c \<Rightarrow>
          if ic_health c = ''revoked'' then (Inr None, s)
          else (case integration_connection_post_init (c\<lparr>ic_health := health\<rparr>) of
                  Inl e \<Rightarrow> (Inl e, s)
                | Inr c1 \<Rightarrow> (Inr (Some c1), s\<lparr>cs_connections := AList.update (t, cid) c1 (cs_connections s)\<rparr>)))"

definition create_with_credential ::
  "(pydict \<Rightarrow> pydict) \<Rightarrow> cred_store \<Rightarrow> integration_connection \<Rightarrow> pydict \<Rightarrow> (py_error + bool) \<times> cred_store" where
  "create_with_credential seal s c credential =
     (case ic_credential_ref c of
        None \<Rightarrow> (Inl ValueError, s)
      | Some ref \<Rightarrow>
          if \<not> ic_credential_owned c \<or> ref = [] \<or> credential = [] then (Inl ValueError, s)
          else if map_of (rs_creds (cs_run s)) (ic_tenant_id c, ref) \<noteq> None \<or>
                  map_of (cs_connections s) (ic_tenant_id c, ic_id c) \<noteq> None \<or> scope_taken s c
          then (Inr False, s)
          else (Inr True, upsert_integration_connection
                 (s\<lparr>cs_run := set_credential_ref seal (cs_run s) (ic_tenant_id c) ref credential\<rparr>) c))"

fun one_per_scope :: "integration_connection list \<Rightarrow> bool" where
  "one_per_scope [] \<longleftrightarrow> True"
| "one_per_scope (c # cs) \<longleftrightarrow> \<not> list_ex (\<lambda>d. ic_level d = ic_level c \<and> ic_scope_id d = ic_scope_id c) cs \<and> one_per_scope cs"

definition get_active_connection :: "cred_store \<Rightarrow> string \<Rightarrow> string \<Rightarrow> cred_error + integration_connection option" where
  "get_active_connection s t adapter_id =
     (let rows = filter (\<lambda>c. ic_level c = ''org'') (active_rows s t adapter_id)
      in if \<not> one_per_scope rows then Inl CredentialResolution else Inr (if rows = [] then None else Some (hd rows)))"

definition list_applicable_connections ::
  "cred_store \<Rightarrow> string \<Rightarrow> string \<Rightarrow> string option \<Rightarrow> cred_error + integration_connection list" where
  "list_applicable_connections s t adapter_id owner =
     (let me = (case owner of None \<Rightarrow> [] | Some u \<Rightarrow> u);
          rows = filter (\<lambda>c. ic_level c = ''org'' \<or> ic_level c = ''user'' \<and> ic_scope_id c = me) (active_rows s t adapter_id)
      in if \<not> one_per_scope rows then Inl CredentialResolution else Inr rows)"

definition revoke_with_credential ::
  "cred_store \<Rightarrow> string \<Rightarrow> string \<Rightarrow> (integration_connection option \<times> string option \<times> bool) \<times> cred_store" where
  "revoke_with_credential s t cid =
     (case map_of (cs_connections s) (t, cid) of
        None \<Rightarrow> ((None, None, False), s)
      | Some c \<Rightarrow>
          if ic_health c = ''revoked'' then ((Some c, None, False), s)
          else let revoked = c\<lparr>ic_health := ''revoked'', ic_credential_ref := None, ic_credential_owned := False\<rparr>;
                   s1 = s\<lparr>cs_connections := AList.update (t, cid) revoked (cs_connections s)\<rparr>
               in if ic_credential_owned c \<and> nonempty (ic_credential_ref c)
                  then ((Some revoked, ic_credential_ref c, map_of (rs_creds (cs_run s)) (t, the (ic_credential_ref c)) \<noteq> None),
                        s1\<lparr>cs_run := delete_credential_ref (cs_run s) t (the (ic_credential_ref c))\<rparr>)
                  else ((Some revoked, ic_credential_ref c, False), s1))"

subsection \<open>Which connection serves a caller\<close>

definition pick_connection :: "cred_store \<Rightarrow> string \<Rightarrow> string \<Rightarrow> string option \<Rightarrow> cred_error + integration_connection option" where
  "pick_connection s t adapter_id owner =
     rbind (list_applicable_connections s t adapter_id owner) (\<lambda>rows.
       let org_row = find (\<lambda>c. ic_level c = ''org'') rows;
           own_row = find (\<lambda>c. ic_level c = ''user'') rows
       in if own_row = None then Inr org_row
          else if cs_allow_own s t = Some True then Inr own_row else Inr org_row)"

definition scope_of :: "integration_connection option \<Rightarrow> string \<Rightarrow> string \<times> string" where
  "scope_of c t = (case c of None \<Rightarrow> (''org'', t) | Some r \<Rightarrow> (ic_level r, ic_scope_id r))"

definition acting_owner :: "invocation_context \<Rightarrow> string" where
  "acting_owner ctx = (case ctx_on_behalf_of ctx of None \<Rightarrow> ctx_actor ctx | Some u \<Rightarrow> if u = [] then ctx_actor ctx else u)"

definition is_own_personal_connection :: "(pyval \<Rightarrow> string) \<Rightarrow> cred_store \<Rightarrow> pydict \<Rightarrow> invocation_context \<Rightarrow> bool" where
  "is_own_personal_connection pstr s params ctx \<longleftrightarrow>
     (case map_of (cs_connections s) (ctx_tenant_id ctx, str_or_empty pstr (dict_get params ''connection_id'')) of
        None \<Rightarrow> False
      | Some c \<Rightarrow> ic_level c = ''user'' \<and> ic_scope_id c = acting_owner ctx)"

subsection \<open>Sealed integration references\<close>

definition INTEGRATION_MANUAL_SECRET_KIND :: string where
  "INTEGRATION_MANUAL_SECRET_KIND = ''integration_manual_secret''"

record credential =
  cr_id :: string
  cr_kind :: string
  cr_material :: pydict

definition string_fields :: "pydict \<Rightarrow> bool" where
  "string_fields d \<longleftrightarrow> list_all (\<lambda>(k, v). (case k of KStr _ \<Rightarrow> True | KOther _ \<Rightarrow> False) \<and> (case v of PStr _ \<Rightarrow> True | _ \<Rightarrow> False)) d"

definition integration_manual_secret_ref ::
  "string \<Rightarrow> string \<Rightarrow> string \<Rightarrow> string \<Rightarrow> pydict \<Rightarrow> string \<Rightarrow> string \<Rightarrow> cred_error + pydict" where
  "integration_manual_secret_ref integration_id adapter_id credential_kind contract_version secret_fields level scope_id =
     (if integration_id = [] \<or> adapter_id = [] \<or> contract_version = [] \<or> secret_fields = [] \<or> \<not> string_fields secret_fields then Inl CredentialResolution
      else if level \<notin> set INTEGRATION_SCOPE_LEVELS \<or> scope_id = [] then Inl CredentialResolution
      else Inr [(KStr ''kind'', PStr INTEGRATION_MANUAL_SECRET_KIND), (KStr ''level'', PStr level),
        (KStr ''scope_id'', PStr scope_id), (KStr ''integration_id'', PStr integration_id),
        (KStr ''adapter_id'', PStr adapter_id), (KStr ''credential_kind'', PStr credential_kind),
        (KStr ''contract_version'', PStr contract_version), (KStr ''fields'', PDict secret_fields)])"

definition scope_matches :: "pydict \<Rightarrow> string \<Rightarrow> string \<Rightarrow> bool" where
  "scope_matches ref level scope_id \<longleftrightarrow>
     (if dict_get ref ''level'' = PNone then level = ''org''
      else dict_get ref ''level'' = PStr level \<and> dict_get ref ''scope_id'' = PStr scope_id)"

definition resolve_integration_credential ::
  "(pyval \<Rightarrow> string) \<Rightarrow> pydict \<Rightarrow> string \<Rightarrow> string \<Rightarrow> string \<Rightarrow> string \<Rightarrow> cred_error + credential option" where
  "resolve_integration_credential pstr ref cred_id adapter_id level scope_id =
     (if dict_get ref ''kind'' \<noteq> PStr INTEGRATION_MANUAL_SECRET_KIND then Inr None
      else if dict_get ref ''adapter_id'' \<noteq> PStr adapter_id then Inl CredentialResolution
      else if \<not> scope_matches ref level scope_id then Inl CredentialResolution
      else case dict_get ref ''fields'' of
             PDict material \<Rightarrow>
               if material = [] \<or> \<not> string_fields material then Inl CredentialResolution
               else Inr (Some \<lparr>cr_id = cred_id,
                      cr_kind = (if truthy (dict_get ref ''credential_kind'') then str_val pstr (dict_get ref ''credential_kind'')
                                 else ''api_key''),
                      cr_material = material\<rparr>)
           | _ \<Rightarrow> Inl CredentialResolution)"

subsection \<open>Secret stores\<close>

definition PROCESS_CRITICAL :: "string list" where
  "PROCESS_CRITICAL = [''DATABASE_URL'', ''REDIS_URL'', ''BOLTRIG_AUDIT_HMAC_KEY'', ''BOLTRIG_DEV_AUTH'', ''BOLTRIG_PRODUCTION'']"

definition env_fetch :: "(string \<Rightarrow> pyval option) \<Rightarrow> (string \<Rightarrow> string option) \<Rightarrow> string \<Rightarrow> cred_error + pydict" where
  "env_fetch loads environ ref =
     (if ref \<in> set PROCESS_CRITICAL then Inl CredentialResolution
      else case environ ref of
             None \<Rightarrow> Inl CredentialResolution
           | Some raw \<Rightarrow> (case loads raw of
                            None \<Rightarrow> Inr [(KStr ''value'', PStr raw)]
                          | Some (PDict d) \<Rightarrow> Inr d
                          | Some v \<Rightarrow> Inr [(KStr ''value'', v)]))"

subsection \<open>The resolver\<close>

record resolver_env =
  re_unseal :: "pydict \<Rightarrow> pydict"
  re_pstr :: "pyval \<Rightarrow> string"
  re_fetch :: "string \<Rightarrow> string \<Rightarrow> cred_error + pydict"

definition bind_adapter_credential :: "cred_store \<Rightarrow> string \<Rightarrow> string \<Rightarrow> string \<Rightarrow> bool \<Rightarrow> bool \<times> cred_store" where
  "bind_adapter_credential s t adapter_id cred_id replace_existing =
     (if \<not> replace_existing \<and> map_of (cs_adapter_cred s) (t, adapter_id) \<noteq> None then (False, s)
      else (True, s\<lparr>cs_adapter_cred := AList.update (t, adapter_id) cred_id (cs_adapter_cred s)\<rparr>))"

definition replace_adapter_credential_binding ::
  "cred_store \<Rightarrow> string \<Rightarrow> string \<Rightarrow> string option \<Rightarrow> string option \<times> cred_store" where
  "replace_adapter_credential_binding s t adapter_id cred_id =
     (map_of (cs_adapter_cred s) (t, adapter_id),
      s\<lparr>cs_adapter_cred := (case cred_id of
          None \<Rightarrow> AList.delete (t, adapter_id) (cs_adapter_cred s)
        | Some c \<Rightarrow> AList.update (t, adapter_id) c (AList.delete (t, adapter_id) (cs_adapter_cred s)))\<rparr>)"

definition unbind_adapter_credential :: "cred_store \<Rightarrow> string \<Rightarrow> string \<Rightarrow> string \<Rightarrow> string \<Rightarrow> bool \<times> cred_store" where
  "unbind_adapter_credential s t adapter_id cred_id level =
     (if level \<noteq> ''org'' \<or> map_of (cs_adapter_cred s) (t, adapter_id) \<noteq> Some cred_id then (False, s)
      else (True, s\<lparr>cs_adapter_cred := AList.delete (t, adapter_id) (cs_adapter_cred s)\<rparr>))"

definition has_ref :: "cred_store \<Rightarrow> string \<Rightarrow> integration_connection option \<Rightarrow> bool" where
  "has_ref s t c = (case c of None \<Rightarrow> False
     | Some r \<Rightarrow> nonempty (ic_credential_ref r) \<and> map_of (rs_creds (cs_run s)) (t, the (ic_credential_ref r)) \<noteq> None)"

definition has_adapter_credential_reference ::
  "cred_store \<Rightarrow> string \<Rightarrow> string \<Rightarrow> string \<Rightarrow> string \<Rightarrow> cred_error + bool" where
  "has_adapter_credential_reference s t adapter_id level scope_id =
     (if level \<noteq> ''org'' then
        rbind (list_applicable_connections s t adapter_id (Some scope_id)) (\<lambda>rows.
          Inr (has_ref s t (find (\<lambda>r. ic_level r = level \<and> ic_scope_id r = scope_id) rows)))
      else if nonempty (map_of (cs_adapter_cred s) (t, adapter_id)) then Inr True
      else rbind (get_active_connection s t adapter_id) (\<lambda>c. Inr (has_ref s t c)))"

definition fetch_material :: "resolver_env \<Rightarrow> pydict \<Rightarrow> cred_error + pydict" where
  "fetch_material env ref =
     (case map_of ref (KStr ''ref'') of
        None \<Rightarrow> Inl CredentialKeyError
      | Some r \<Rightarrow> re_fetch env (case map_of ref (KStr ''store'') of None \<Rightarrow> ''env'' | Some st \<Rightarrow> str_val (re_pstr env) st)
                   (str_val (re_pstr env) r))"

definition selected_cred_id :: "cred_store \<Rightarrow> string \<Rightarrow> string \<Rightarrow> integration_connection option \<Rightarrow> cred_error + string option" where
  "selected_cred_id s t adapter_id connection =
     (let configured = map_of (cs_adapter_cred s) (t, adapter_id)
      in case connection of
           None \<Rightarrow> Inr (str_or configured None)
         | Some c \<Rightarrow>
             (case ic_credential_ref c of
                None \<Rightarrow> Inl CredentialResolution
              | Some durable \<Rightarrow>
                  if ic_level c = ''user'' then Inr (Some durable)
                  else if configured \<noteq> None \<and> configured \<noteq> Some durable then Inl CredentialResolution
                  else Inr (str_or configured (Some durable))))"

definition resolve_for_adapter ::
  "resolver_env \<Rightarrow> cred_store \<Rightarrow> string \<Rightarrow> string \<Rightarrow> string option \<Rightarrow> cred_error + credential option" where
  "resolve_for_adapter env s t adapter_id owner =
     rbind (pick_connection s t adapter_id owner) (\<lambda>connection.
     rbind (selected_cred_id s t adapter_id connection) (\<lambda>cred_id.
       case cred_id of
         None \<Rightarrow> Inr None
       | Some cid \<Rightarrow>
           (case get_credential_ref (re_unseal env) (cs_run s) t cid of
              None \<Rightarrow> Inl CredentialResolution
            | Some ref \<Rightarrow>
                (let (level, scope) = scope_of connection t
                 in rbind (resolve_integration_credential (re_pstr env) ref cid adapter_id level scope) (\<lambda>integration.
                      case integration of
                        Some c \<Rightarrow> Inr (Some c)
                      | None \<Rightarrow>
                          rbind (fetch_material env ref) (\<lambda>material.
                            Inr (Some \<lparr>cr_id = cid,
                                   cr_kind = (if map_of ref (KStr ''kind'') = None then ''api_key''
                                              else str_val (re_pstr env) (dict_get ref ''kind'')),
                                   cr_material = material\<rparr>)))))))"

subsection \<open>Run-scoped material\<close>

definition SECURE_ANSWER_KIND :: string where "SECURE_ANSWER_KIND = ''secure_answer''"
definition ADAPTER_BEARER_KIND :: string where "ADAPTER_BEARER_KIND = ''adapter_bearer''"

definition seal_run_scoped_value ::
  "(pydict \<Rightarrow> pydict) \<Rightarrow> run_store \<Rightarrow> string \<Rightarrow> string \<Rightarrow> string \<Rightarrow> string \<Rightarrow> string \<Rightarrow> (cred_error + string) \<times> run_store" where
  "seal_run_scoped_value seal s t run_id purpose value owner =
     (if run_id = [] \<or> purpose = [] \<or> owner = [] then (Inl CredentialResolution, s)
      else (Inr (RUN_SCOPED_REF_PREFIX @ run_id @ ''/'' @ purpose),
            set_credential_ref seal s t (run_scoped_cred_id run_id purpose)
              [(KStr ''kind'', PStr SECURE_ANSWER_KIND), (KStr ''run_id'', PStr run_id), (KStr ''purpose'', PStr purpose),
               (KStr ''owner'', PStr owner), (KStr ''value'', PStr value)]))"

definition resolve_run_scoped ::
  "(pydict \<Rightarrow> pydict) \<Rightarrow> run_store \<Rightarrow> string \<Rightarrow> string \<Rightarrow> string \<Rightarrow> string option \<Rightarrow> string option \<Rightarrow> cred_error + pyval" where
  "resolve_run_scoped unseal s t run_id purpose context_run_id context_owner =
     (if \<not> nonempty context_run_id \<or> context_run_id \<noteq> Some run_id then Inl CredentialResolution
      else case get_credential_ref unseal s t (run_scoped_cred_id run_id purpose) of
             None \<Rightarrow> Inl CredentialResolution
           | Some ref \<Rightarrow>
               if dict_get ref ''kind'' \<noteq> PStr SECURE_ANSWER_KIND \<or> dict_get ref ''run_id'' \<noteq> PStr run_id \<or>
                  dict_get ref ''purpose'' \<noteq> PStr purpose \<or> \<not> owner_matches ref context_owner then Inl CredentialResolution
               else Inr (dict_get ref ''value''))"

function (sequential) resolve_run_scoped_params ::
  "(pydict \<Rightarrow> pydict) \<Rightarrow> run_store \<Rightarrow> string \<Rightarrow> string option \<Rightarrow> string option \<Rightarrow> pyval \<Rightarrow> cred_error + pyval" where
  "resolve_run_scoped_params unseal s t run_id owner (PDict d) =
     rbind (rmap (\<lambda>(k, v). rbind (resolve_run_scoped_params unseal s t run_id owner v) (\<lambda>w. Inr (k, w))) d) (\<lambda>d'. Inr (PDict d'))"
| "resolve_run_scoped_params unseal s t run_id owner (PList xs) =
     rbind (rmap (resolve_run_scoped_params unseal s t run_id owner) xs) (\<lambda>ys. Inr (PList ys))"
| "resolve_run_scoped_params unseal s t run_id owner (PTuple xs) =
     rbind (rmap (resolve_run_scoped_params unseal s t run_id owner) xs) (\<lambda>ys. Inr (PList ys))"
| "resolve_run_scoped_params unseal s t run_id owner v =
     (case parse_run_scoped_ref v of
        None \<Rightarrow> Inr v
      | Some (r, purpose) \<Rightarrow> resolve_run_scoped unseal s t r purpose run_id owner)"
  by pat_completeness auto
termination
proof (relation "measure (\<lambda>(_, _, _, _, _, v). size v)", goal_cases)
  case 1
  show ?case by simp
next
  case (2 unseal s t run_id owner d x k v)
  then have "(k, v) \<in> set d" by auto
  then show ?case by (induction d) auto
next
  case (3 unseal s t run_id owner xs x)
  then show ?case by (induction xs) auto
next
  case (4 unseal s t run_id owner xs x)
  then show ?case by (induction xs) auto
qed

definition seal_run_scoped_adapter_bearer ::
  "(pydict \<Rightarrow> pydict) \<Rightarrow> run_store \<Rightarrow> string \<Rightarrow> string \<Rightarrow> string \<Rightarrow> string \<Rightarrow> string \<Rightarrow> (cred_error + unit) \<times> run_store" where
  "seal_run_scoped_adapter_bearer seal s t run_id adapter_id token owner =
     (if run_id = [] \<or> adapter_id = [] \<or> token = [] \<or> owner = [] then (Inl CredentialResolution, s)
      else (Inr (), set_credential_ref seal s t (adapter_bearer_cred_id run_id adapter_id)
              [(KStr ''kind'', PStr ADAPTER_BEARER_KIND), (KStr ''run_id'', PStr run_id), (KStr ''adapter_id'', PStr adapter_id),
               (KStr ''owner'', PStr owner), (KStr ''value'', PStr token)]))"

definition resolve_run_scoped_credential ::
  "(pydict \<Rightarrow> pydict) \<Rightarrow> run_store \<Rightarrow> string \<Rightarrow> string option \<Rightarrow> string \<Rightarrow> string option \<Rightarrow> credential option" where
  "resolve_run_scoped_credential unseal s t run_id adapter_id owner =
     (case run_id of
        None \<Rightarrow> None
      | Some r \<Rightarrow>
          if r = [] \<or> adapter_id = [] then None
          else (case get_credential_ref unseal s t (adapter_bearer_cred_id r adapter_id) of
                 None \<Rightarrow> None
               | Some ref \<Rightarrow>
                   if dict_get ref ''kind'' \<noteq> PStr ADAPTER_BEARER_KIND \<or> dict_get ref ''run_id'' \<noteq> PStr r \<or>
                      dict_get ref ''adapter_id'' \<noteq> PStr adapter_id \<or> \<not> owner_matches ref owner then None
                   else Some \<lparr>cr_id = adapter_bearer_cred_id r adapter_id, cr_kind = ''api_key'',
                              cr_material = [(KStr ''token'', dict_get ref ''value'')]\<rparr>))"

definition sweep_run_scoped :: "run_store \<Rightarrow> string \<Rightarrow> string \<Rightarrow> nat \<times> run_store" where
  "sweep_run_scoped s t run_id = delete_credential_refs_for_run s t run_id"

subsection \<open>Secure answers\<close>

definition sealing_ok :: "(pydict \<Rightarrow> pydict) \<Rightarrow> (pydict \<Rightarrow> pydict) \<Rightarrow> bool" where
  "sealing_ok seal unseal \<longleftrightarrow> (\<forall>d. unseal (seal d) = d)"

lemma split_on_single: "sep \<notin> set a \<Longrightarrow> split_on sep a = [a]"
  by (induction a) auto

lemma parse_sealed_ref:
  assumes "CHR ''/'' \<notin> set run_id" "CHR ''/'' \<notin> set purpose" "run_id \<noteq> []" "purpose \<noteq> []"
  shows "parse_run_scoped_ref (PStr (RUN_SCOPED_REF_PREFIX @ run_id @ ''/'' @ purpose)) = Some (run_id, purpose)"
proof -
  have "split_on CHR ''/'' (run_id @ CHR ''/'' # purpose) = [run_id, purpose]"
    using assms(1,2) by (simp add: split_on_sep split_on_single)
  then show ?thesis using assms(3,4) by (simp add: parse_run_scoped_ref_def)
qed

lemma get_after_set [simp]:
  "get_credential_ref unseal (set_credential_ref seal s t c ref) t' c' =
     (if (t', c') = (t, c) then Some (unseal (seal ref)) else get_credential_ref unseal s t' c')"
  by (simp add: get_credential_ref_def set_credential_ref_def update_conv')

text \<open>Property C36. A secure answer reaches only the run and the person it was sealed for: with the reference the sealing returned,
  the kernel resolves a parameter to the answer when the call comes from the same run and the same owner, and refuses
  every other call of the tenant.\<close>

theorem secure_answer_reaches_only_its_run_and_owner:
  assumes "sealing_ok seal unseal" and "seal_run_scoped_value seal s t run_id purpose answer owner = (Inr ref, s')"
    and "CHR ''/'' \<notin> set run_id" and "CHR ''/'' \<notin> set purpose"
  shows "resolve_run_scoped_params unseal s' t context_run context_owner (PStr ref) =
     (if context_run = Some run_id \<and> context_owner = Some owner then Inr (PStr answer) else Inl CredentialResolution)"
proof -
  have ne: "run_id \<noteq> []" "purpose \<noteq> []" "owner \<noteq> []" and ref: "ref = RUN_SCOPED_REF_PREFIX @ run_id @ ''/'' @ purpose"
    and s': "s' = set_credential_ref seal s t (run_scoped_cred_id run_id purpose)
              [(KStr ''kind'', PStr SECURE_ANSWER_KIND), (KStr ''run_id'', PStr run_id), (KStr ''purpose'', PStr purpose),
               (KStr ''owner'', PStr owner), (KStr ''value'', PStr answer)]"
    using assms(2) by (auto simp: seal_run_scoped_value_def split: if_splits)
  have "resolve_run_scoped_params unseal s' t context_run context_owner (PStr ref)
      = resolve_run_scoped unseal s' t run_id purpose context_run context_owner"
    using parse_sealed_ref[OF assms(3,4) ne(1,2)] unfolding ref by (simp del: append.simps)
  then show ?thesis using assms(1) ne
    by (auto simp: resolve_run_scoped_def s' sealing_ok_def dict_get_def owner_matches_def nonempty_def split: option.splits)
qed

theorem secure_answer_reaches_only_its_run_and_owner_witness:
  "let s' = snd (seal_run_scoped_value id run_store_empty ''t'' ''r1'' ''api-key'' ''hunter2'' ''ann'')
   in resolve_run_scoped_params id s' ''t'' (Some ''r1'') (Some ''ann'') (PStr ''credential:run/r1/api-key'') = Inr (PStr ''hunter2'') \<and>
      resolve_run_scoped_params id s' ''t'' (Some ''r2'') (Some ''ann'') (PStr ''credential:run/r1/api-key'') = Inl CredentialResolution"
proof -
  have ok: "sealing_ok id id" by (simp add: sealing_ok_def)
  have r: "seal_run_scoped_value id run_store_empty ''t'' ''r1'' ''api-key'' ''hunter2'' ''ann''
      = (Inr ''credential:run/r1/api-key'', snd (seal_run_scoped_value id run_store_empty ''t'' ''r1'' ''api-key'' ''hunter2'' ''ann''))"
    by (simp add: seal_run_scoped_value_def RUN_SCOPED_REF_PREFIX_def)
  note th = secure_answer_reaches_only_its_run_and_owner[OF ok r]
  show ?thesis using th[of "Some ''r1''" "Some ''ann''"] th[of "Some ''r2''" "Some ''ann''"] by (simp add: Let_def)
qed

subsection \<open>Whose credential\<close>

lemma picked_connection:
  assumes "pick_connection s t adapter_id owner = Inr (Some c)"
  shows "c \<in> set (active_rows s t adapter_id) \<and>
    (ic_level c = ''org'' \<or> ic_level c = ''user'' \<and> ic_scope_id c = (case owner of None \<Rightarrow> [] | Some u \<Rightarrow> u) \<and> cs_allow_own s t = Some True)"
proof -
  obtain rows where rows: "list_applicable_connections s t adapter_id owner = Inr rows"
    and c: "find (\<lambda>c. ic_level c = ''org'') rows = Some c \<or> find (\<lambda>c. ic_level c = ''user'') rows = Some c \<and> cs_allow_own s t = Some True"
    using assms by (auto simp: pick_connection_def rbind_Inr_iff Let_def split: if_splits)
  have "rows = filter (\<lambda>c. ic_level c = ''org'' \<or> ic_level c = ''user'' \<and> ic_scope_id c = (case owner of None \<Rightarrow> [] | Some u \<Rightarrow> u))
      (active_rows s t adapter_id)"
    using rows by (auto simp: list_applicable_connections_def Let_def split: if_splits)
  then show ?thesis using c find_SomeD by fastforce
qed

lemma integration_credential_id:
  "resolve_integration_credential pstr ref cid adapter_id level scope = Inr (Some c) \<Longrightarrow> cr_id c = cid"
  by (auto simp: resolve_integration_credential_def split: if_splits pyval.splits)

lemma resolved_credential:
  assumes "resolve_for_adapter env s t adapter_id owner = Inr (Some cred)"
  obtains conn cid integration where
    "pick_connection s t adapter_id owner = Inr conn" "get_credential_ref (re_unseal env) (cs_run s) t cid \<noteq> None"
    "resolve_integration_credential (re_pstr env) (the (get_credential_ref (re_unseal env) (cs_run s) t cid)) cid adapter_id
       (fst (scope_of conn t)) (snd (scope_of conn t)) = Inr integration" "cr_id cred = cid"
proof -
  obtain conn sel where c: "pick_connection s t adapter_id owner = Inr conn" "selected_cred_id s t adapter_id conn = Inr sel"
    using assms unfolding resolve_for_adapter_def rbind_Inr_iff by blast
  note r = assms[unfolded resolve_for_adapter_def c rbind_simps]
  obtain cid where sel: "sel = Some cid" using r by (cases sel) auto
  obtain ref where ref: "get_credential_ref (re_unseal env) (cs_run s) t cid = Some ref"
    using r sel by (cases "get_credential_ref (re_unseal env) (cs_run s) t cid") auto
  obtain integration where i: "resolve_integration_credential (re_pstr env) ref cid adapter_id
      (fst (scope_of conn t)) (snd (scope_of conn t)) = Inr integration"
    using r sel ref by (auto simp: rbind_Inr_iff split_beta)
  have "cr_id cred = cid" (is ?id)
    using r sel ref i integration_credential_id[of "re_pstr env" ref cid adapter_id]
    by (cases integration) (auto simp: split_beta rbind_Inr_iff)
  then show ?thesis using that[OF c(1) _ _ \<open>?id\<close>] ref i by simp
qed

text \<open>A call runs on a member's personal integration credential only when the caller is that member, the organisation
  allows personal credentials, and the credential was sealed for this adapter.\<close>

lemma personal_credential_serves_only_its_member:
  assumes "resolve_for_adapter env s t adapter_id owner = Inr (Some cred)"
    and "get_credential_ref (re_unseal env) (cs_run s) t (cr_id cred) = Some ref"
    and "dict_get ref ''kind'' = PStr INTEGRATION_MANUAL_SECRET_KIND" and "dict_get ref ''level'' = PStr ''user''"
  shows "dict_get ref ''scope_id'' = PStr (case owner of None \<Rightarrow> [] | Some u \<Rightarrow> u) \<and>
         cs_allow_own s t = Some True \<and> dict_get ref ''adapter_id'' = PStr adapter_id"
proof -
  obtain conn cid integration where
    c: "pick_connection s t adapter_id owner = Inr conn" and r: "get_credential_ref (re_unseal env) (cs_run s) t cid \<noteq> None"
    "resolve_integration_credential (re_pstr env) (the (get_credential_ref (re_unseal env) (cs_run s) t cid)) cid adapter_id
       (fst (scope_of conn t)) (snd (scope_of conn t)) = Inr integration" and i: "cr_id cred = cid"
    by (rule resolved_credential[OF assms(1)]) (rule that)
  have ref: "the (get_credential_ref (re_unseal env) (cs_run s) t cid) = ref" using assms(2) i by simp
  have "dict_get ref ''adapter_id'' = PStr adapter_id" "fst (scope_of conn t) = ''user''" "dict_get ref ''scope_id'' = PStr (snd (scope_of conn t))"
    using r(2) assms(3,4) unfolding ref by (auto simp: resolve_integration_credential_def scope_matches_def split: if_splits)
  then show ?thesis using picked_connection[of s t adapter_id owner] c
    by (cases conn) (auto simp: scope_of_def)
qed

definition demo_conn :: "string \<Rightarrow> string \<Rightarrow> integration_connection" where
  "demo_conn level scope = \<lparr>ic_id = level @ scope, ic_tenant_id = ''t'', ic_integration_id = ''crm'', ic_adapter_id = ''crm'', ic_label = ''CRM'',
     ic_health = ''ok'', ic_credential_ref = Some (''cred-'' @ level @ scope), ic_credential_owned = True, ic_level = level, ic_scope_id = scope\<rparr>"

definition demo_creds :: cred_store where
  "demo_creds = (let s = \<lparr>cs_run = run_store_empty, cs_connections = [], cs_allow_own = (\<lambda>_. Some True), cs_adapter_cred = []\<rparr>;
     secret = (\<lambda>level scope. case integration_manual_secret_ref ''crm'' ''crm'' ''api_key'' ''1'' [(KStr ''token'', PStr scope)] level scope of
                  Inr d \<Rightarrow> d | Inl _ \<Rightarrow> []);
     s1 = snd (create_with_credential id s (demo_conn ''org'' ''t'') (secret ''org'' ''t''))
     in snd (create_with_credential id s1 (demo_conn ''user'' ''ann'') (secret ''user'' ''ann'')))"

definition demo_resolver :: resolver_env where
  "demo_resolver = \<lparr>re_unseal = id, re_pstr = (\<lambda>_. []), re_fetch = (\<lambda>_ _. Inl CredentialResolution)\<rparr>"

lemmas creds_run = demo_creds_def demo_conn_def demo_resolver_def create_with_credential_def upsert_integration_connection_def
  integration_manual_secret_ref_def set_credential_ref_def run_store_empty_def string_fields_def INTEGRATION_SCOPE_LEVELS_def
  scope_taken_def resolve_for_adapter_def pick_connection_def list_applicable_connections_def active_rows_def selected_cred_id_def
  get_credential_ref_def scope_of_def resolve_integration_credential_def scope_matches_def dict_get_def
  INTEGRATION_MANUAL_SECRET_KIND_def str_val_def Let_def

subsection \<open>One active connection per scope\<close>

definition same_scope :: "integration_connection \<Rightarrow> integration_connection \<Rightarrow> bool" where
  "same_scope c d \<longleftrightarrow> ic_level d = ic_level c \<and> ic_scope_id d = ic_scope_id c"

lemma one_per_scope_pairwise: "one_per_scope cs \<longleftrightarrow> sorted_wrt (\<lambda>c d. \<not> same_scope c d) cs"
  by (induction cs) (auto simp: list_ex_iff same_scope_def)

lemma one_per_scope_filter: "one_per_scope cs \<Longrightarrow> one_per_scope (filter P cs)"
  by (simp add: one_per_scope_pairwise sorted_wrt_filter)

lemma one_per_scope_snoc: "one_per_scope (cs @ [c]) \<longleftrightarrow> one_per_scope cs \<and> \<not> list_ex (same_scope c) cs"
  by (auto simp: one_per_scope_pairwise sorted_wrt_append list_ex_iff same_scope_def)

text \<open>Replacing a row by one that is active only if the row was, at the same scope.\<close>

lemma update_absent: "map_of al k = None \<Longrightarrow> AList.update k v al = al @ [(k, v)]"
  by (induction al) (auto split: if_splits)

lemma one_per_scope_replace:
  assumes "map_of al k = Some old" "P v \<Longrightarrow> P old" "same_scope old v" "one_per_scope (filter P (map snd al))"
  shows "one_per_scope (filter P (map snd (AList.update k v al)))"
  using assms(1,4)
proof (induction al)
  case (Cons kv al)
  obtain k' w where kv: "kv = (k', w)" by (cases kv)
  have mem: "\<exists>d' \<in> set (map snd al). P d' \<and> same_scope d' d" if "d \<in> set (map snd (AList.update k v al))" "P d" "map_of al k = Some old" for d
    using that assms(2,3)
  proof (induction al)
    case (Cons x xs)
    then show ?case by (cases x) (auto simp: same_scope_def split: if_splits)
  qed simp
  show ?case
  proof (cases "k' = k")
    case True
    then show ?thesis using Cons.prems assms(2,3) kv by (auto simp: one_per_scope_pairwise same_scope_def split: if_splits)
  next
    case False
    then have m: "map_of al k = Some old" and o1: "one_per_scope (filter P (map snd al))" using Cons.prems kv by (auto split: if_splits)
    have "\<not> same_scope w d" if "P w" "d \<in> set (map snd (AList.update k v al))" "P d" for d
      using mem[OF that(2,3) m] Cons.prems(2) kv that(1) by (fastforce simp: one_per_scope_pairwise same_scope_def)
    then show ?thesis using Cons.IH[OF m o1] False kv by (auto simp: one_per_scope_pairwise)
  qed
qed simp

datatype conn_op =
    NewConnection integration_connection
  | NewConnectionWith integration_connection pydict
  | SetHealth string string string
  | Revoke string string

fun conn_step :: "(pydict \<Rightarrow> pydict) \<Rightarrow> cred_store \<Rightarrow> conn_op \<Rightarrow> cred_store" where
  "conn_step seal s (NewConnection raw) =
     (case integration_connection_post_init raw of Inl _ \<Rightarrow> s | Inr c \<Rightarrow> snd (create_integration_connection s c))"
| "conn_step seal s (NewConnectionWith raw d) =
     (case integration_connection_post_init raw of Inl _ \<Rightarrow> s | Inr c \<Rightarrow> snd (create_with_credential seal s c d))"
| "conn_step seal s (SetHealth t cid health) = snd (update_integration_connection_health_if_active s t cid health)"
| "conn_step seal s (Revoke t cid) = snd (revoke_with_credential s t cid)"

definition connection_ok :: "integration_connection \<Rightarrow> bool" where
  "connection_ok c \<longleftrightarrow> ic_level c \<in> set INTEGRATION_SCOPE_LEVELS \<and> (ic_level c = ''org'' \<longrightarrow> ic_scope_id c = ic_tenant_id c) \<and>
     (ic_level c \<noteq> ''org'' \<longrightarrow> ic_scope_id c \<noteq> []) \<and>
     (ic_level c = ''user'' \<longrightarrow> nonempty (ic_credential_ref c) \<longrightarrow> ic_credential_owned c)"

definition conn_inv :: "cred_store \<Rightarrow> bool" where
  "conn_inv s \<longleftrightarrow> (\<forall>t a. one_per_scope (active_rows s t a)) \<and>
     (\<forall>k c. map_of (cs_connections s) k = Some c \<longrightarrow> connection_ok c)"

lemma post_init_ok: "integration_connection_post_init raw = Inr c \<Longrightarrow> connection_ok c"
  unfolding integration_connection_post_init_def Let_def connection_ok_def
  by (cases "ic_level raw = ''org''") (auto split: if_splits)

lemma post_init_id: "connection_ok c \<Longrightarrow> integration_connection_post_init c = (if ic_health c \<in> set INTEGRATION_HEALTH then Inr c else Inl ValueError)"
  unfolding integration_connection_post_init_def Let_def connection_ok_def
  by (cases c) (auto simp: INTEGRATION_SCOPE_LEVELS_def)

lemma connection_ok_health: "connection_ok (c\<lparr>ic_health := h\<rparr>) = connection_ok c"
  by (simp add: connection_ok_def)

abbreviation serves_adapter :: "string \<Rightarrow> string \<Rightarrow> integration_connection \<Rightarrow> bool" where
  "serves_adapter t a \<equiv> \<lambda>c. ic_tenant_id c = t \<and> ic_adapter_id c = a \<and> ic_health c \<noteq> ''revoked''"

lemma conn_inv_add:
  assumes "conn_inv s" "\<not> scope_taken s c" "map_of (cs_connections s) (ic_tenant_id c, ic_id c) = None"
    and "connection_ok c"
  shows "conn_inv (upsert_integration_connection s c)"
proof -
  have "active_rows (upsert_integration_connection s c) t a = active_rows s t a @ (if serves_adapter t a c then [c] else [])" for t a
    by (simp add: active_rows_def upsert_integration_connection_def update_absent[OF assms(3)])
  moreover have "\<not> list_ex (same_scope c) (active_rows s t a)" if "serves_adapter t a c" for t a
    using assms(2) that by (auto simp: scope_taken_def list_ex_iff active_rows_def same_scope_def)
  ultimately show ?thesis using assms(1,4)
    by (auto simp: conn_inv_def one_per_scope_snoc upsert_integration_connection_def update_conv')
qed

lemma conn_inv_replace:
  assumes "conn_inv s" "map_of (cs_connections s) k = Some c" "ic_health c \<noteq> ''revoked''" "connection_ok c1"
    and "same_scope c c1" "ic_tenant_id c1 = ic_tenant_id c" "ic_adapter_id c1 = ic_adapter_id c"
  shows "conn_inv (s\<lparr>cs_connections := AList.update k c1 (cs_connections s)\<rparr>)"
proof -
  have "one_per_scope (filter (serves_adapter t a) (map snd (AList.update k c1 (cs_connections s))))" for t a
    using assms(1,3,6,7) by (intro one_per_scope_replace[OF assms(2)] assms(5)) (auto simp: conn_inv_def active_rows_def)
  then show ?thesis using assms(1,4) by (auto simp: conn_inv_def active_rows_def update_conv')
qed

lemma conn_inv_run [simp]: "conn_inv (s\<lparr>cs_run := r\<rparr>) = conn_inv s"
  by (simp add: conn_inv_def active_rows_def)

lemma conn_inv_step: "conn_inv s \<Longrightarrow> conn_inv (conn_step seal s x)"
proof (cases x)
  case (NewConnection raw)
  assume "conn_inv s"
  then show ?thesis using NewConnection conn_inv_add post_init_ok
    by (auto simp: create_integration_connection_def split: sum.split)
next
  case (NewConnectionWith raw d)
  assume i: "conn_inv s"
  show ?thesis
  proof (cases "integration_connection_post_init raw")
    case (Inl e)
    then show ?thesis using i NewConnectionWith by simp
  next
    case (Inr c)
    have "conn_inv (upsert_integration_connection (s\<lparr>cs_run := r\<rparr>) c)"
      if "\<not> scope_taken s c" "map_of (cs_connections s) (ic_tenant_id c, ic_id c) = None" for r
      using that i post_init_ok[OF Inr] by (intro conn_inv_add) (simp_all add: scope_taken_def)
    then show ?thesis using i NewConnectionWith Inr by (auto simp: create_with_credential_def split: option.split)
  qed
next
  case (SetHealth t cid health)
  assume i: "conn_inv s"
  have "conn_inv (s\<lparr>cs_connections := AList.update (t, cid) c1 (cs_connections s)\<rparr>)"
    if m: "map_of (cs_connections s) (t, cid) = Some c" "ic_health c \<noteq> ''revoked''"
      "integration_connection_post_init (c\<lparr>ic_health := health\<rparr>) = Inr c1" for c c1
  proof (rule conn_inv_replace[OF i m(1,2)])
    have "connection_ok c" using i m(1) by (simp add: conn_inv_def)
    then have c1: "c1 = c\<lparr>ic_health := health\<rparr>"
      using m(3) post_init_id[of "c\<lparr>ic_health := health\<rparr>"] by (simp add: connection_ok_health split: if_splits)
    show "same_scope c c1" "ic_tenant_id c1 = ic_tenant_id c" "ic_adapter_id c1 = ic_adapter_id c" unfolding c1 by (simp_all add: same_scope_def)
    show "connection_ok c1" using post_init_ok[OF m(3)] .
  qed
  then show ?thesis using i SetHealth
    by (auto simp: update_integration_connection_health_if_active_def split: option.split sum.split)
next
  case (Revoke t cid)
  assume i: "conn_inv s"
  have "conn_inv (s\<lparr>cs_connections := AList.update (t, cid)
      (c\<lparr>ic_health := ''revoked'', ic_credential_ref := None, ic_credential_owned := False\<rparr>) (cs_connections s)\<rparr>)"
    if m: "map_of (cs_connections s) (t, cid) = Some c" "ic_health c \<noteq> ''revoked''" for c
  proof (rule conn_inv_replace[OF i m])
    have "connection_ok c" using i m(1) by (simp add: conn_inv_def)
    then show "connection_ok (c\<lparr>ic_health := ''revoked'', ic_credential_ref := None, ic_credential_owned := False\<rparr>)"
      by (simp add: connection_ok_def nonempty_def)
  qed (simp_all add: same_scope_def)
  then show ?thesis using i Revoke by (auto simp: revoke_with_credential_def Let_def split: option.split)
qed

text \<open>However connections are created (with or without their credential), probed and revoked, an adapter has at most one
  active connection per scope, so looking up the connections that apply to a caller never fails for ambiguity.\<close>

lemma applicable_connections_are_never_ambiguous:
  assumes "cs_connections s = []"
  shows "is_ok (list_applicable_connections (foldl (conn_step seal) s ops) t adapter_id owner) \<and>
         is_ok (get_active_connection (foldl (conn_step seal) s ops) t adapter_id)"
proof -
  have "conn_inv s" using assms by (simp add: conn_inv_def active_rows_def)
  then have "conn_inv (foldl (conn_step seal) s ops)" by (induction ops arbitrary: s) (simp_all add: conn_inv_step)
  then show ?thesis
    by (simp add: conn_inv_def list_applicable_connections_def get_active_connection_def Let_def one_per_scope_filter)
qed

end
