(* ===== verification/Chain.thy ===== *)
theory Chain
  imports Json
begin

text \<open>
  The chain verifier both tamper-evident streams share: the key epochs and \<^verbatim>\<open>verify_chain\<close> of
  \<^verbatim>\<open>boltrig/kernel/audit.py\<close>. \<^verbatim>\<open>verify_chain\<close> is duck-typed over its rows and takes the serialiser as an argument;
  the record \<open>chain_view\<close> is that interface (\<^verbatim>\<open>e.seq\<close>, \<^verbatim>\<open>e.prev_hash\<close>, \<^verbatim>\<open>e.hash\<close>, \<^verbatim>\<open>canonical(e)\<close>). The rows are paged with
  the scan of the in-memory store (\<^verbatim>\<open>audit_scan\<close> and \<^verbatim>\<open>security_scan\<close> are the same code).

  What the module reads from its environment is the record \<open>audit_env\<close>: the HMAC (hex of HMAC-SHA256 of the UTF-8
  text), the live key, the raw text of the retired-key variable, the rendering of instants and floats, and the
  detectors of \<^verbatim>\<open>kernel/pii.py\<close> (regular expressions and an entropy estimate: the theorems hold for any
  detectors).

  The lemmas: reading a strictly increasing chain page by page gives the verdict of one pass over it, for
  every page size (\<open>verify_loop_one_pass\<close>); a row sealed on the head keeps the chain verifiable, and so does a key
  rotation recorded at the head (\<open>sealed_snoc\<close>, \<open>sealed_rotate\<close>); and, in the locale \<open>hash_chain\<close>, two verifying chains
  with one head hash carry the same rows.
\<close>

record audit_env =
  au_hmac :: "string \<Rightarrow> string \<Rightarrow> string"
  au_key :: string
  au_retired :: string
  au_iso :: "instant \<Rightarrow> string"
  au_frepr :: "rat \<Rightarrow> string"
  au_secret :: "string \<Rightarrow> string option"
  au_identity :: "string \<Rightarrow> bool"
  au_redact :: "string \<Rightarrow> string"
  au_digest :: "string \<Rightarrow> string"

subsection \<open>Key epochs\<close>

definition partition_first :: "char \<Rightarrow> string \<Rightarrow> string \<times> string" where
  "partition_first sep s = (takeWhile (\<lambda>c. c \<noteq> sep) s, tl (dropWhile (\<lambda>c. c \<noteq> sep) s))"

fun parse_epochs :: "string list \<Rightarrow> py_error + (int \<times> string) list" where
  "parse_epochs [] = Inr []"
| "parse_epochs (part # parts) =
     (let (boundary, key) = partition_first CHR '':'' (strip part)
      in if key = [] \<or> \<not> py_isdigit (strip boundary) then parse_epochs parts
         else case py_int_of_digits (strip boundary) of
                None \<Rightarrow> Inl ValueError
              | Some n \<Rightarrow> rbind (parse_epochs parts) (\<lambda>es. Inr ((n, key) # es)))"

definition retired_epochs :: "audit_env \<Rightarrow> py_error + (int \<times> string) list" where
  "retired_epochs env =
     (let raw = strip (au_retired env)
      in if raw = [] then Inr []
         else rbind (parse_epochs (split_on CHR '','' raw)) (\<lambda>es. Inr (sort_key fst es)))"

definition key_for_seq :: "audit_env \<Rightarrow> int option \<Rightarrow> (int \<times> string) list \<Rightarrow> string" where
  "key_for_seq env seq epochs =
     (case seq of None \<Rightarrow> au_key env
      | Some n \<Rightarrow> (case find (\<lambda>(boundary, _). n < boundary) epochs of
                     None \<Rightarrow> au_key env | Some (_, key) \<Rightarrow> key))"

definition key_in_force_at :: "audit_env \<Rightarrow> int option \<Rightarrow> py_error + string" where
  "key_in_force_at env seq = rbind (retired_epochs env) (\<lambda>epochs. Inr (key_for_seq env seq epochs))"

subsection \<open>The verifier\<close>

record 'e chain_view =
  cv_seq :: "'e \<Rightarrow> int option"
  cv_prev :: "'e \<Rightarrow> string option"
  cv_hash :: "'e \<Rightarrow> string option"
  cv_canonical :: "'e \<Rightarrow> py_error + string"

definition seq_or_0 :: "'e chain_view \<Rightarrow> 'e \<Rightarrow> int" where
  "seq_or_0 v e = (case cv_seq v e of None \<Rightarrow> 0 | Some n \<Rightarrow> n)"

definition chain_scan :: "'e chain_view \<Rightarrow> 'e list \<Rightarrow> int \<Rightarrow> nat \<Rightarrow> 'e list" where
  "chain_scan v chain after_seq limit = take limit (filter (\<lambda>e. seq_or_0 v e > after_seq) chain)"

text \<open>One page of rows: either the sequence number of the first bad row, or the hash the next row must chain to.\<close>

fun check_rows ::
  "audit_env \<Rightarrow> 'e chain_view \<Rightarrow> (int \<times> string) list \<Rightarrow> string option \<Rightarrow> 'e list \<Rightarrow> py_error + (int option + string option)" where
  "check_rows env v epochs prev [] = Inr (Inr prev)"
| "check_rows env v epochs prev (e # es) =
     (case cv_canonical v e of
        Inl err \<Rightarrow> Inl err
      | Inr text \<Rightarrow>
          (if cv_prev v e \<noteq> prev \<or> cv_hash v e \<noteq> Some (au_hmac env (key_for_seq env (cv_seq v e) epochs) text)
           then Inr (Inl (cv_seq v e))
           else check_rows env v epochs (cv_hash v e) es))"

lemma scan_progress:
  assumes "chain_scan v chain after page \<noteq> []" and "after < seq_or_0 v (last (chain_scan v chain after page))"
  shows "length (filter (\<lambda>e. seq_or_0 v (last (chain_scan v chain after page)) < seq_or_0 v e) chain)
           < length (filter (\<lambda>e. after < seq_or_0 v e) chain)"
proof -
  define l where "l = last (chain_scan v chain after page)"
  have "l \<in> set (chain_scan v chain after page)" using assms(1) unfolding l_def by simp
  then have l: "l \<in> set (filter (\<lambda>e. seq_or_0 v e > after) chain)" unfolding chain_scan_def by (metis in_set_takeD)
  have "filter (\<lambda>e. seq_or_0 v l < seq_or_0 v e) chain
      = filter (\<lambda>e. seq_or_0 v l < seq_or_0 v e) (filter (\<lambda>e. seq_or_0 v e > after) chain)"
    using assms(2) by (auto simp: l_def[symmetric] intro!: filter_cong)
  moreover have "length (filter (\<lambda>e. seq_or_0 v l < seq_or_0 v e) (filter (\<lambda>e. seq_or_0 v e > after) chain))
      < length (filter (\<lambda>e. seq_or_0 v e > after) chain)"
    using l by (intro length_filter_less) auto
  ultimately show ?thesis by (simp add: l_def)
qed

function (sequential) verify_loop ::
  "audit_env \<Rightarrow> 'e chain_view \<Rightarrow> (int \<times> string) list \<Rightarrow> 'e list \<Rightarrow> nat \<Rightarrow> string option \<Rightarrow> int
     \<Rightarrow> py_error + (bool \<times> int option)" where
  "verify_loop env v epochs chain page prev after =
     (let events = chain_scan v chain after page
      in if events = [] then Inr (True, None)
         else case check_rows env v epochs prev events of
                Inl err \<Rightarrow> Inl err
              | Inr (Inl bad) \<Rightarrow> Inr (False, bad)
              | Inr (Inr prev') \<Rightarrow>
                  (let nxt = seq_or_0 v (last events)
                   in if nxt \<le> after then Inr (False, cv_seq v (last events))
                      else verify_loop env v epochs chain page prev' nxt))"
  by pat_completeness auto
termination
  by (relation "measure (\<lambda>(env, v, epochs, chain, page, prev, after). length (filter (\<lambda>e. seq_or_0 v e > after) chain))")
     (auto intro: scan_progress)

declare verify_loop.simps [simp del]

definition verify_chain ::
  "audit_env \<Rightarrow> 'e chain_view \<Rightarrow> 'e list \<Rightarrow> int \<Rightarrow> int \<Rightarrow> string option \<Rightarrow> py_error + (bool \<times> int option)" where
  "verify_chain env v chain page_size start_after seed_prev =
     rbind (retired_epochs env) (\<lambda>epochs.
       verify_loop env v epochs chain (nat (max 1 page_size)) seed_prev (max 0 start_after))"


subsection \<open>Paging\<close>

definition rising :: "'e chain_view \<Rightarrow> 'e list \<Rightarrow> bool" where
  "rising v chain \<longleftrightarrow> sorted_wrt (<) (0 # map (seq_or_0 v) chain)"

lemma rising_append: "rising v (xs @ ys) \<Longrightarrow> rising v xs \<and> rising v ys"
  by (auto simp: rising_def sorted_wrt_append)

lemma check_rows_append:
  "check_rows env v epochs prev (xs @ ys) =
     (case check_rows env v epochs prev xs of
        Inl err \<Rightarrow> Inl err
      | Inr (Inl bad) \<Rightarrow> Inr (Inl bad)
      | Inr (Inr prev') \<Rightarrow> check_rows env v epochs prev' ys)"
  by (induction xs arbitrary: prev) (auto split: sum.splits)

definition verdict :: "py_error + (int option + string option) \<Rightarrow> py_error + (bool \<times> int option)" where
  "verdict r = (case r of Inl err \<Rightarrow> Inl err | Inr (Inl bad) \<Rightarrow> Inr (False, bad) | Inr (Inr _) \<Rightarrow> Inr (True, None))"

lemma scan_rest:
  assumes "sorted_wrt (<) (map (seq_or_0 v) (seen @ rest))" "\<And>e. e \<in> set seen \<Longrightarrow> seq_or_0 v e \<le> after"
    "\<And>e. e \<in> set rest \<Longrightarrow> after < seq_or_0 v e"
  shows "chain_scan v (seen @ rest) after page = take page rest"
proof -
  have "filter (\<lambda>e. after < seq_or_0 v e) seen = []" using assms(2) by (fastforce simp: filter_empty_conv)
  moreover have "filter (\<lambda>e. after < seq_or_0 v e) rest = rest" using assms(3) by (simp add: filter_id_conv)
  ultimately show ?thesis by (simp add: chain_scan_def)
qed

lemma below_last:
  fixes f :: "'a \<Rightarrow> int"
  shows "sorted_wrt (<) (map f xs) \<Longrightarrow> e \<in> set xs \<Longrightarrow> f e \<le> f (last xs)"
  by (induction xs) (auto simp: less_imp_le)

lemma verify_loop_rest:
  assumes "0 < page" "sorted_wrt (<) (map (seq_or_0 v) (seen @ rest))" "\<And>e. e \<in> set seen \<Longrightarrow> seq_or_0 v e \<le> after"
    "\<And>e. e \<in> set rest \<Longrightarrow> after < seq_or_0 v e"
  shows "verify_loop env v epochs (seen @ rest) page prev after = verdict (check_rows env v epochs prev rest)"
  using assms(2-4)
proof (induction rest arbitrary: seen prev after rule: length_induct)
  case (1 rest)
  note scan = scan_rest[OF "1.prems"]
  show ?case
  proof (cases "rest = []")
    case True
    then show ?thesis using scan[of page] by (simp add: verify_loop.simps verdict_def)
  next
    case False
    define xs ys where "xs = take page rest" and "ys = drop page rest"
    have rest: "rest = xs @ ys" and ne: "xs \<noteq> []" and len: "length ys < length rest"
      using False assms(1) by (auto simp: xs_def ys_def)
    have l: "last xs \<in> set rest" using ne rest by simp
    have sorted: "sorted_wrt (<) (map (seq_or_0 v) ((seen @ xs) @ ys))" using "1.prems"(1) rest by simp
    have "\<And>e. e \<in> set (seen @ xs) \<Longrightarrow> seq_or_0 v e \<le> seq_or_0 v (last xs)"
      using below_last[of "seq_or_0 v" "seen @ xs"] sorted ne by (simp add: sorted_wrt_append)
    moreover have "\<And>e. e \<in> set ys \<Longrightarrow> seq_or_0 v (last xs) < seq_or_0 v e"
      using sorted ne by (auto simp: sorted_wrt_append)
    ultimately have IH: "verify_loop env v epochs (seen @ rest) page prev' (seq_or_0 v (last xs))
        = verdict (check_rows env v epochs prev' ys)" for prev'
      using "1.IH"[rule_format, OF len sorted] rest by simp
    show ?thesis
      using scan[of page] ne "1.prems"(3)[OF l] IH rest unfolding xs_def[symmetric]
      by (subst verify_loop.simps) (simp add: check_rows_append verdict_def split: sum.splits)
  qed
qed

lemma verify_chain_one_pass:
  assumes "rising v chain" "retired_epochs env = Inr epochs"
  shows "verify_chain env v chain page_size 0 prev = verdict (check_rows env v epochs prev chain)"
  using verify_loop_rest[of "nat (max 1 page_size)" v "[]" chain 0 env epochs prev] assms
  by (auto simp: verify_chain_def rising_def)

text \<open>The loop with the number of page reads it may still make, and \<open>None\<close> when they run out.\<close>

fun verify_within ::
  "nat \<Rightarrow> audit_env \<Rightarrow> 'e chain_view \<Rightarrow> (int \<times> string) list \<Rightarrow> 'e list \<Rightarrow> nat \<Rightarrow> string option \<Rightarrow> int
     \<Rightarrow> (py_error + (bool \<times> int option)) option" where
  "verify_within 0 env v epochs chain page prev after = None"
| "verify_within (Suc n) env v epochs chain page prev after =
     (let events = chain_scan v chain after page
      in if events = [] then Some (Inr (True, None))
         else case check_rows env v epochs prev events of
                Inl err \<Rightarrow> Some (Inl err)
              | Inr (Inl bad) \<Rightarrow> Some (Inr (False, bad))
              | Inr (Inr prev') \<Rightarrow> verify_within n env v epochs chain page prev' (seq_or_0 v (last events)))"

lemma scan_advances: "chain_scan v chain after page \<noteq> [] \<Longrightarrow> after < seq_or_0 v (last (chain_scan v chain after page))"
proof -
  assume "chain_scan v chain after page \<noteq> []"
  then have "last (chain_scan v chain after page) \<in> set (filter (\<lambda>e. seq_or_0 v e > after) chain)"
    unfolding chain_scan_def by (metis in_set_takeD last_in_set)
  then show ?thesis by simp
qed

lemma verify_within_enough:
  "length (filter (\<lambda>e. seq_or_0 v e > after) chain) < n \<Longrightarrow>
   verify_within n env v epochs chain page prev after = Some (verify_loop env v epochs chain page prev after)"
proof (induction n arbitrary: prev after)
  case (Suc n)
  let ?events = "chain_scan v chain after page"
  show ?case
  proof (cases "?events = []")
    case True
    then show ?thesis by (simp add: verify_loop.simps)
  next
    case False
    have "length (filter (\<lambda>e. seq_or_0 v e > seq_or_0 v (last ?events)) chain) < n"
      using scan_progress[OF False scan_advances[OF False]] Suc.prems by simp
    from Suc.IH[OF this] show ?thesis using False scan_advances[OF False]
      by (simp add: verify_loop.simps[of env v epochs chain page prev after] Let_def split: sum.split)
  qed
qed simp

text \<open>Property C40. Verifying a chain always ends, whatever its rows hold: the loop returns within one page read per stored row and one
  more, for every page size and every resumption point, and it does so without its guard against a page that does
  not advance, which a store that honours the scan contract never triggers.\<close>

theorem verification_terminates:
  "verify_within (Suc (length chain)) env v epochs chain page prev after = Some (verify_loop env v epochs chain page prev after)"
  by (rule verify_within_enough) (simp add: le_imp_less_Suc)

subsection \<open>Sealing and rotation\<close>

definition head_hash :: "'e chain_view \<Rightarrow> 'e list \<Rightarrow> string option" where
  "head_hash v chain = (if chain = [] then None else cv_hash v (last chain))"

definition sealed :: "audit_env \<Rightarrow> 'e chain_view \<Rightarrow> (int \<times> string) list \<Rightarrow> 'e list \<Rightarrow> bool" where
  "sealed env v epochs chain \<longleftrightarrow>
     map (cv_seq v) chain = map (\<lambda>i. Some (int i + 1)) [0..<length chain] \<and>
     check_rows env v epochs None chain = Inr (Inr (head_hash v chain)) \<and>
     (\<forall>(b, k) \<in> set epochs. b \<le> int (length chain) + 1)"

lemma sealed_empty: "\<forall>(b, k) \<in> set epochs. b \<le> 1 \<Longrightarrow> sealed env v epochs []"
  by (simp add: sealed_def head_hash_def)

lemma sealed_seq: "sealed env v epochs chain \<Longrightarrow> e \<in> set chain
    \<Longrightarrow> \<exists>n. cv_seq v e = Some n \<and> 1 \<le> n \<and> n \<le> int (length chain)"
proof -
  assume "sealed env v epochs chain" "e \<in> set chain"
  then have "cv_seq v e \<in> set (map (\<lambda>i. Some (int i + 1)) [0..<length chain])"
    unfolding sealed_def by (metis image_eqI list.set_map)
  then show ?thesis by auto
qed

lemma head_of_sealed:
  "sealed env v epochs c \<Longrightarrow>
     (if c = [] then (0, None) else (case cv_seq v (last c) of None \<Rightarrow> 0 | Some n \<Rightarrow> n, cv_hash v (last c)))
       = (int (length c), head_hash v c)"
  using sealed_seq[of env v epochs c "last c"]
  by (cases c rule: rev_cases) (auto simp: head_hash_def sealed_def)

lemma sealed_rising: "sealed env v epochs chain \<Longrightarrow> rising v chain"
proof -
  assume s: "sealed env v epochs chain"
  have "map (seq_or_0 v) chain = map (\<lambda>x. case x of None \<Rightarrow> 0 | Some n \<Rightarrow> n) (map (cv_seq v) chain)"
    by (simp add: seq_or_0_def)
  also have "\<dots> = map (\<lambda>i. int i + 1) [0..<length chain]" using s unfolding sealed_def by simp
  finally have e: "map (seq_or_0 v) chain = map (\<lambda>i. int i + 1) [0..<length chain]" .
  have "sorted_wrt (<) (map (\<lambda>i. int i + 1) [0..<n])" for n
    by (induction n) (auto simp: sorted_wrt_append)
  then show ?thesis unfolding rising_def e by auto
qed

lemma sealed_verifies:
  assumes "sealed env v epochs chain" "retired_epochs env = Inr epochs"
  shows "verify_chain env v chain page_size 0 None = Inr (True, None)"
  using verify_chain_one_pass[OF sealed_rising[OF assms(1)] assms(2)] assms(1)
  by (simp add: sealed_def verdict_def)

lemma live_key: "\<forall>(b, k) \<in> set epochs. b \<le> n \<Longrightarrow> key_for_seq env (Some n) epochs = au_key env"
  by (auto simp: key_for_seq_def find_None_iff split: option.split dest!: find_SomeD)

lemma sealed_snoc:
  assumes "sealed env v epochs chain" "cv_seq v e = Some (int (length chain) + 1)" "cv_prev v e = head_hash v chain"
    "cv_canonical v e = Inr x" "cv_hash v e = Some (au_hmac env (au_key env) x)"
  shows "sealed env v epochs (chain @ [e])"
  using assms live_key[of epochs "int (length chain) + 1" env]
  by (auto simp: sealed_def check_rows_append head_hash_def)

lemma check_rows_cong:
  assumes "au_hmac env' = au_hmac env"
    "\<And>e. e \<in> set chain \<Longrightarrow> key_for_seq env' (cv_seq v e) epochs' = key_for_seq env (cv_seq v e) epochs"
  shows "check_rows env' v epochs' prev chain = check_rows env v epochs prev chain"
  using assms by (induction chain arbitrary: prev) (auto split: sum.split)

lemma find_append: "find P (xs @ ys) = (case find P xs of None \<Rightarrow> find P ys | Some x \<Rightarrow> Some x)"
  by (induction xs) auto

lemma sealed_rotate:
  assumes s: "sealed env v epochs chain" and h: "au_hmac env' = au_hmac env"
  shows "sealed env' v (epochs @ [(int (length chain) + 1, au_key env)]) chain"
proof -
  have "key_for_seq env' (cv_seq v e) (epochs @ [(int (length chain) + 1, au_key env)]) = key_for_seq env (cv_seq v e) epochs"
    if "e \<in> set chain" for e
    using sealed_seq[OF s that] by (auto simp: key_for_seq_def find_append split: option.split)
  then have "check_rows env' v (epochs @ [(int (length chain) + 1, au_key env)]) None chain
      = check_rows env v epochs None chain"
    using check_rows_cong[OF h] by blast
  then show ?thesis using s by (auto simp: sealed_def)
qed

subsection \<open>Tamper evidence\<close>

text \<open>Collision resistance of the HMAC, idealised: a hash determines the text that was sealed.\<close>

definition hmac_binding :: "audit_env \<Rightarrow> bool" where
  "hmac_binding env \<longleftrightarrow> (\<forall>k k' x x'. au_hmac env k x = au_hmac env k' x' \<longrightarrow> x = x')"

lemma check_rows_snoc:
  "check_rows env v epochs prev (xs @ [e]) = Inr (Inr h) \<longleftrightarrow>
     (\<exists>p x. check_rows env v epochs prev xs = Inr (Inr p) \<and> cv_canonical v e = Inr x \<and> cv_prev v e = p \<and>
        cv_hash v e = Some (au_hmac env (key_for_seq env (cv_seq v e) epochs) x) \<and> h = cv_hash v e)"
  by (auto simp: check_rows_append split: sum.splits)

lemma check_rows_None: "check_rows env v epochs None xs = Inr (Inr None) \<longleftrightarrow> xs = []"
  by (cases xs rule: rev_cases) (auto simp: check_rows_snoc)

lemma check_rows_head: "check_rows env v epochs None xs = Inr (Inr h) \<Longrightarrow> h = head_hash v xs"
  by (cases xs rule: rev_cases) (auto simp: check_rows_snoc head_hash_def)

lemma verified_head:
  assumes "rising v chain" "retired_epochs env = Inr epochs" "verify_chain env v chain page_size 0 None = Inr (True, b)"
  shows "check_rows env v epochs None chain = Inr (Inr (head_hash v chain))"
  using verify_chain_one_pass[OF assms(1,2), of page_size None] assms(3) check_rows_head[of env v epochs chain]
  by (auto simp: verdict_def split: sum.splits)

text \<open>What a stream promises: its serialiser determines the content of a row, and the content names the row it
  chains to.\<close>

locale hash_chain =
  fixes env :: audit_env and v :: "'e chain_view" and body :: "'e \<Rightarrow> pyval"
  assumes canonical_binds: "float_repr_ok (au_frepr env) \<Longrightarrow> cv_canonical v e = Inr x \<Longrightarrow> cv_canonical v e' = Inr x
      \<Longrightarrow> body e = body e'"
    and body_prev: "body e = body e' \<Longrightarrow> cv_prev v e = cv_prev v e'"
begin

lemma same_head_same_rows:
  assumes "hmac_binding env" "float_repr_ok (au_frepr env)"
    "check_rows env v epochs None c = Inr (Inr h)" "check_rows env v epochs' None c' = Inr (Inr h)"
  shows "map body c = map body c'"
  using assms(3,4)
proof (induction c arbitrary: c' h rule: rev_induct)
  case Nil
  then show ?case by (auto simp: check_rows_None)
next
  case (snoc e c)
  obtain p x where e: "check_rows env v epochs None c = Inr (Inr p)" "cv_canonical v e = Inr x" "cv_prev v e = p"
    "cv_hash v e = Some (au_hmac env (key_for_seq env (cv_seq v e) epochs) x)" "h = cv_hash v e"
    using snoc.prems(1) by (auto simp: check_rows_snoc)
  obtain d e' where c': "c' = d @ [e']" using snoc.prems(2) e(4,5) by (cases c' rule: rev_cases) auto
  obtain p' x' where e': "check_rows env v epochs' None d = Inr (Inr p')" "cv_canonical v e' = Inr x'" "cv_prev v e' = p'"
    "cv_hash v e' = Some (au_hmac env (key_for_seq env (cv_seq v e') epochs') x')" "h = cv_hash v e'"
    using snoc.prems(2) unfolding c' by (auto simp: check_rows_snoc)
  have "x' = x" using e(4,5) e'(4,5) assms(1) unfolding hmac_binding_def by (metis option.inject)
  then have b: "body e = body e'" using canonical_binds[OF assms(2) e(2)] e'(2) by simp
  then have "p' = p" using body_prev[OF b] e(3) e'(3) by simp
  then show ?case using snoc.IH[OF e(1)] e'(1) b c' by simp
qed

lemma tamper_evident:
  assumes "hmac_binding env" "float_repr_ok (au_frepr env)" "retired_epochs env = Inr epochs"
    "rising v c" "verify_chain env v c p 0 None = Inr (True, b)"
    "rising v c'" "verify_chain env v c' p' 0 None = Inr (True, b')"
    "head_hash v c = head_hash v c'"
  shows "map body c = map body c'"
  using same_head_same_rows[OF assms(1,2) verified_head[OF assms(4,3,5)]] verified_head[OF assms(6,3,7)] assms(8) by simp

end

end
