(* ===== verification/AuditLog.thy ===== *)
theory AuditLog
  imports Chain Context "HOL-Library.AList"
begin

text \<open>
  The tamper-evident audit chain: the events of \<^verbatim>\<open>boltrig/models/audit.py\<close>, the writer and the verifier of
  \<^verbatim>\<open>boltrig/kernel/audit.py\<close>, the in-memory tables (\<^verbatim>\<open>boltrig/store/memory.py\<close>, \<^verbatim>\<open>audit_head\<close> to \<^verbatim>\<open>audit_scan\<close>) and
  the outbox drain of \<^verbatim>\<open>boltrig/kernel/audit_outbox.py\<close>.

  What the module reads from its environment is the record \<open>audit_env\<close>: the HMAC (hex of HMAC-SHA256 of the UTF-8
  text), the live key, the raw text of the retired-key variable, the rendering of instants and floats, and the
  detectors of \<^verbatim>\<open>kernel/pii.py\<close> (regular expressions and an entropy estimate: the theorems hold for any
  detectors). An append that faults is an argument of the writer. A deferred payload is the event it was
  made from, without its chain fields; \<open>None\<close> stands for a stored payload that is not a dictionary.
\<close>

datatype action_type = TOOL_CALL | WORKFLOW_TRIGGER | AGENT_SPAWN | HITL | MODEL_CALL

fun action_value :: "action_type \<Rightarrow> string" where
  "action_value TOOL_CALL = ''tool_call''"
| "action_value WORKFLOW_TRIGGER = ''workflow_trigger''"
| "action_value AGENT_SPAWN = ''agent_spawn''"
| "action_value HITL = ''hitl''"
| "action_value MODEL_CALL = ''model_call''"

record audit_event =
  ae_tenant_id :: string
  ae_ts :: instant
  ae_actor :: string
  ae_action_type :: action_type
  ae_status :: string
  ae_run_id :: "string option"
  ae_parent_run_id :: "string option"
  ae_actor_tier :: "string option"
  ae_depth :: "int option"
  ae_noun :: "string option"
  ae_verb :: "string option"
  ae_target_adapter :: "string option"
  ae_on_behalf_of :: "string option"
  ae_latency_ms :: "int option"
  ae_tokens_used :: "int option"
  ae_cost_micros :: "int option"
  ae_skills_loaded :: "string list"
  ae_detail :: pydict
  ae_ip_address :: "string option"
  ae_user_agent :: "string option"
  ae_resource :: "string option"
  ae_resource_id :: "string option"
  ae_workspace_id :: "string option"
  ae_seq :: "int option"
  ae_prev_hash :: "string option"
  ae_hash :: "string option"

subsection \<open>Canonical text and scrubbing\<close>

definition of_int_opt :: "int option \<Rightarrow> pyval" where
  "of_int_opt x = (case x of None \<Rightarrow> PNone | Some i \<Rightarrow> PInt i)"

definition optional_field :: "string \<Rightarrow> string option \<Rightarrow> pydict" where
  "optional_field k v = (case v of None \<Rightarrow> [] | Some s \<Rightarrow> [(KStr k, PStr s)])"

definition audit_body :: "audit_env \<Rightarrow> audit_event \<Rightarrow> pydict" where
  "audit_body env e =
    [(KStr ''tenant_id'', PStr (ae_tenant_id e)),
     (KStr ''seq'', of_int_opt (ae_seq e)),
     (KStr ''ts'', PStr (au_iso env (ae_ts e))),
     (KStr ''run_id'', of_opt (ae_run_id e)),
     (KStr ''parent_run_id'', of_opt (ae_parent_run_id e)),
     (KStr ''actor'', PStr (ae_actor e)),
     (KStr ''actor_tier'', of_opt (ae_actor_tier e)),
     (KStr ''depth'', of_int_opt (ae_depth e)),
     (KStr ''action_type'', PStr (action_value (ae_action_type e))),
     (KStr ''noun'', of_opt (ae_noun e)),
     (KStr ''verb'', of_opt (ae_verb e)),
     (KStr ''target_adapter'', of_opt (ae_target_adapter e)),
     (KStr ''on_behalf_of'', of_opt (ae_on_behalf_of e)),
     (KStr ''status'', PStr (ae_status e)),
     (KStr ''latency_ms'', of_int_opt (ae_latency_ms e)),
     (KStr ''tokens_used'', of_int_opt (ae_tokens_used e)),
     (KStr ''cost_micros'', of_int_opt (ae_cost_micros e)),
     (KStr ''skills_loaded'', of_strs (ae_skills_loaded e)),
     (KStr ''detail'', PDict (ae_detail e)),
     (KStr ''prev_hash'', of_opt (ae_prev_hash e))] @
    optional_field ''ip_address'' (ae_ip_address e) @
    optional_field ''user_agent'' (ae_user_agent e) @
    optional_field ''resource'' (ae_resource e) @
    optional_field ''resource_id'' (ae_resource_id e) @
    optional_field ''workspace_id'' (ae_workspace_id e)"

definition audit_canonical :: "audit_env \<Rightarrow> audit_event \<Rightarrow> py_error + string" where
  "audit_canonical env e = json_dumps_default (au_frepr env) (PDict (audit_body env e))"

definition PREVIEW_LEN :: nat where "PREVIEW_LEN = 256"

definition scrub_marker :: "string \<Rightarrow> string" where
  "scrub_marker kind = ''[scrubbed:'' @ kind @ '']''"

definition scrub_free_text :: "audit_env \<Rightarrow> string option \<Rightarrow> string option" where
  "scrub_free_text env value =
     (case value of None \<Rightarrow> None
      | Some v \<Rightarrow> (case au_secret env v of
                     Some kind \<Rightarrow> Some (scrub_marker kind)
                   | None \<Rightarrow> Some (take PREVIEW_LEN (if au_identity env v then au_redact env v else v))))"

definition scrub_key :: "audit_env \<Rightarrow> pykey \<Rightarrow> pykey" where
  "scrub_key env k =
     (case k of KOther s \<Rightarrow> KOther s
      | KStr s \<Rightarrow> (case au_secret env s of
                     Some kind \<Rightarrow> KStr (scrub_marker kind)
                   | None \<Rightarrow> KStr (if au_identity env s then au_redact env s else s)))"

text \<open>A dictionary built entry by entry: a repeated key keeps its place and takes the later value.\<close>

definition build_dict :: "pydict \<Rightarrow> pydict" where
  "build_dict kvs = foldl (\<lambda>d (k, v). AList.update k v d) [] kvs"

fun scrub_value :: "audit_env \<Rightarrow> pyval \<Rightarrow> pyval" where
  "scrub_value env (PStr v) =
     (if au_secret env v \<noteq> None
      then PDict [(KStr ''_scrubbed'', PBool True), (KStr ''digest'', PStr (au_digest env v)),
                  (KStr ''size'', PInt (int (length v)))]
      else if au_identity env v then PStr (take PREVIEW_LEN (au_redact env v))
      else PStr (take PREVIEW_LEN v))"
| "scrub_value env (PDict d) = PDict (build_dict (map (\<lambda>(k, v). (scrub_key env k, scrub_value env v)) d))"
| "scrub_value env (PList xs) = PList (map (scrub_value env) xs)"
| "scrub_value env (PTuple xs) = PList (map (scrub_value env) xs)"
| "scrub_value env v = v"

definition scrub :: "audit_env \<Rightarrow> pydict \<Rightarrow> pydict" where
  "scrub env detail = build_dict (map (\<lambda>(k, v). (scrub_key env k, scrub_value env v)) detail)"

subsection \<open>The tables\<close>

record outbox_row =
  ob_id :: int
  ob_tenant_id :: string
  ob_payload :: "audit_event option"
  ob_append_error :: string
  ob_attempts :: int
  ob_next_retry_at :: instant

record audit_store =
  as_chains :: "(string \<times> audit_event list) list"
  as_outbox :: "outbox_row list"

definition audit_store_empty :: audit_store where
  "audit_store_empty = \<lparr>as_chains = [], as_outbox = []\<rparr>"

definition chain_of :: "audit_store \<Rightarrow> string \<Rightarrow> audit_event list" where
  "chain_of s t = (case map_of (as_chains s) t of None \<Rightarrow> [] | Some c \<Rightarrow> c)"

definition audit_head :: "audit_store \<Rightarrow> string \<Rightarrow> int \<times> string option" where
  "audit_head s t = (let chain = chain_of s t
     in if chain = [] then (0, None)
        else (case ae_seq (last chain) of None \<Rightarrow> 0 | Some n \<Rightarrow> n, ae_hash (last chain)))"

definition audit_append :: "audit_store \<Rightarrow> audit_event \<Rightarrow> audit_store" where
  "audit_append s e =
     s\<lparr>as_chains := AList.update (ae_tenant_id e) (chain_of s (ae_tenant_id e) @ [e]) (as_chains s)\<rparr>"

definition audit_query :: "audit_store \<Rightarrow> string \<Rightarrow> string option \<Rightarrow> nat \<Rightarrow> audit_event list" where
  "audit_query s t run_id limit =
     (let chain = (case run_id of None \<Rightarrow> chain_of s t
            | Some r \<Rightarrow> filter (\<lambda>e. ae_run_id e = Some r \<or> ae_parent_run_id e = Some r) (chain_of s t))
      in if limit = 0 then chain else drop (length chain - limit) chain)"

definition audit_outbox_enqueue :: "audit_store \<Rightarrow> instant \<Rightarrow> string \<Rightarrow> audit_event option \<Rightarrow> string \<Rightarrow> audit_store" where
  "audit_outbox_enqueue s now t payload append_error =
     s\<lparr>as_outbox := as_outbox s @ [\<lparr>ob_id = int (length (as_outbox s)) + 1, ob_tenant_id = t, ob_payload = payload,
        ob_append_error = append_error, ob_attempts = 0, ob_next_retry_at = now\<rparr>]\<rparr>"

definition audit_outbox_due :: "audit_store \<Rightarrow> string \<Rightarrow> instant \<Rightarrow> nat \<Rightarrow> outbox_row list" where
  "audit_outbox_due s t now limit =
     take limit (filter (\<lambda>r. ob_next_retry_at r \<le> now \<and> ob_tenant_id r = t) (as_outbox s))"

definition audit_outbox_delete :: "audit_store \<Rightarrow> int \<Rightarrow> audit_store" where
  "audit_outbox_delete s i = s\<lparr>as_outbox := filter (\<lambda>r. ob_id r \<noteq> i) (as_outbox s)\<rparr>"

fun mark_first :: "int \<Rightarrow> string \<Rightarrow> instant \<Rightarrow> outbox_row list \<Rightarrow> outbox_row list" where
  "mark_first i err retry_at [] = []"
| "mark_first i err retry_at (r # rs) =
     (if ob_id r = i
      then r\<lparr>ob_attempts := ob_attempts r + 1, ob_append_error := err, ob_next_retry_at := retry_at\<rparr> # rs
      else r # mark_first i err retry_at rs)"

definition audit_outbox_mark_failed :: "audit_store \<Rightarrow> int \<Rightarrow> string \<Rightarrow> instant \<Rightarrow> audit_store" where
  "audit_outbox_mark_failed s i err retry_at = s\<lparr>as_outbox := mark_first i err retry_at (as_outbox s)\<rparr>"

subsection \<open>The writer\<close>

text \<open>The critical section: head, chain fields, hash, append. It fails when the event has no JSON text or when
  the append faults.\<close>

definition chained_event :: "audit_env \<Rightarrow> audit_store \<Rightarrow> audit_event \<Rightarrow> py_error + audit_event" where
  "chained_event env s e =
     (let (head_seq, prev) = audit_head s (ae_tenant_id e);
          e1 = e\<lparr>ae_seq := Some (head_seq + 1), ae_prev_hash := prev\<rparr>
      in rbind (audit_canonical env e1) (\<lambda>text. Inr (e1\<lparr>ae_hash := Some (au_hmac env (au_key env) text)\<rparr>)))"

definition scrubbed :: "audit_env \<Rightarrow> audit_event \<Rightarrow> audit_event" where
  "scrubbed env e = e\<lparr>ae_detail := scrub env (ae_detail e), ae_user_agent := scrub_free_text env (ae_user_agent e)\<rparr>"

definition unchained :: "audit_event \<Rightarrow> audit_event" where
  "unchained e = e\<lparr>ae_seq := None, ae_prev_hash := None, ae_hash := None\<rparr>"

definition outbox_payload :: "audit_event \<Rightarrow> string \<Rightarrow> audit_event" where
  "outbox_payload e err =
     e\<lparr>ae_detail := AList.update (KStr ''outbox_deferred'') (PDict [(KStr ''append_error'', PStr err)]) (ae_detail e)\<rparr>"

fun error_name :: "py_error \<Rightarrow> string" where
  "error_name TypeError = ''TypeError''"
| "error_name ValueError = ''ValueError''"
| "error_name KeyError = ''KeyError''"

text \<open>\<^verbatim>\<open>write\<close>: \<open>fault\<close> is the name of the exception the append raises, if it does.\<close>

definition audit_write ::
  "audit_env \<Rightarrow> audit_store \<Rightarrow> instant \<Rightarrow> string option \<Rightarrow> audit_event \<Rightarrow> audit_event \<times> audit_store" where
  "audit_write env s now fault e =
     (let e1 = scrubbed env e;
          deferred = (\<lambda>err. (unchained e1,
             audit_outbox_enqueue s now (ae_tenant_id e1) (Some (outbox_payload (unchained e1) err)) err))
      in case chained_event env s e1 of
           Inl err \<Rightarrow> deferred (error_name err)
         | Inr e2 \<Rightarrow> (case fault of Some err \<Rightarrow> deferred err | None \<Rightarrow> (e2, audit_append s e2)))"

definition audit_write_now ::
  "audit_env \<Rightarrow> audit_store \<Rightarrow> string option \<Rightarrow> audit_event \<Rightarrow> (string + audit_event) \<times> audit_store" where
  "audit_write_now env s fault e =
     (case chained_event env s (scrubbed env e) of
        Inl err \<Rightarrow> (Inl (error_name err), s)
      | Inr e2 \<Rightarrow> (case fault of Some err \<Rightarrow> (Inl err, s) | None \<Rightarrow> (Inr e2, audit_append s e2)))"

subsection \<open>The verifier\<close>

definition audit_view :: "audit_env \<Rightarrow> audit_event chain_view" where
  "audit_view env = \<lparr>cv_seq = ae_seq, cv_prev = ae_prev_hash, cv_hash = ae_hash, cv_canonical = audit_canonical env\<rparr>"

definition audit_verify ::
  "audit_env \<Rightarrow> audit_store \<Rightarrow> string \<Rightarrow> int \<Rightarrow> int \<Rightarrow> string option \<Rightarrow> py_error + (bool \<times> int option)" where
  "audit_verify env s t page_size start_after seed_prev =
     verify_chain env (audit_view env) (chain_of s t) page_size start_after seed_prev"

subsection \<open>The outbox drain\<close>

definition BACKOFF_BASE_SECONDS :: int where "BACKOFF_BASE_SECONDS = 30"
definition BACKOFF_CAP_SECONDS :: int where "BACKOFF_CAP_SECONDS = 600"
definition DRAIN_BATCH :: nat where "DRAIN_BATCH = 100"

text \<open>The rows are those due when the drain starts; \<open>fault\<close> says which appends fail.\<close>

fun drain_rows ::
  "audit_env \<Rightarrow> instant \<Rightarrow> (audit_event \<Rightarrow> string option) \<Rightarrow> outbox_row list \<Rightarrow> audit_store \<Rightarrow> (nat \<times> nat) \<times> audit_store" where
  "drain_rows env now fault [] s = ((0, 0), s)"
| "drain_rows env now fault (r # rs) s =
     (case ob_payload r of
        None \<Rightarrow> drain_rows env now fault rs (audit_outbox_delete s (ob_id r))
      | Some p \<Rightarrow>
          (case audit_write_now env s (fault p) (unchained p) of
             (Inl err, s1) \<Rightarrow>
               (let attempts = ob_attempts r + 1;
                    backoff = min (BACKOFF_BASE_SECONDS * attempts) BACKOFF_CAP_SECONDS;
                    ((d, f), s2) = drain_rows env now fault rs
                       (audit_outbox_mark_failed s1 (ob_id r) err (now + backoff))
                in ((d, f + 1), s2))
           | (Inr _, s1) \<Rightarrow>
               (let ((d, f), s2) = drain_rows env now fault rs (audit_outbox_delete s1 (ob_id r))
                in ((d + 1, f), s2))))"

definition drain_tenant_once ::
  "audit_env \<Rightarrow> instant \<Rightarrow> (audit_event \<Rightarrow> string option) \<Rightarrow> audit_store \<Rightarrow> string \<Rightarrow> (nat \<times> nat) \<times> audit_store" where
  "drain_tenant_once env now fault s t = drain_rows env now fault (audit_outbox_due s t now DRAIN_BATCH) s"

subsection \<open>The chain of a tenant\<close>

lemma dict_same_entries:
  assumes "key_sorted (PDict d) = key_sorted (PDict d')"
  shows "(\<lambda>(k, v). (k, key_sorted v)) ` set d = (\<lambda>(k, v). (k, key_sorted v)) ` set d'"
proof -
  have "map (\<lambda>(k, v). (k, key_sorted v)) (sort_key (\<lambda>(k, v). key_str k) d)
      = map (\<lambda>(k, v). (k, key_sorted v)) (sort_key (\<lambda>(k, v). key_str k) d')"
    using assms by simp
  then have "set (map (\<lambda>(k, v). (k, key_sorted v)) (sort_key (\<lambda>(k, v). key_str k) d))
      = set (map (\<lambda>(k, v). (k, key_sorted v)) (sort_key (\<lambda>(k, v). key_str k) d'))" by simp
  then show ?thesis by simp
qed

lemma of_opt_sorted [simp]: "key_sorted (of_opt x) = of_opt x" and of_opt_inject [simp]: "of_opt x = of_opt y \<longleftrightarrow> x = y"
  by (cases x; cases y; simp add: of_opt_def)+

lemma optional_field_key: "(k, x) \<in> set (optional_field f s) \<Longrightarrow> k = KStr f"
  by (auto simp: optional_field_def split: option.splits)

lemma same_opt_field:
  assumes "key_sorted (PDict d) = key_sorted (PDict d')"
    "\<And>x. (k, x) \<in> set d \<longleftrightarrow> x = of_opt a" "\<And>x. (k, x) \<in> set d' \<longleftrightarrow> x = of_opt b"
  shows "a = b"
proof -
  have "(k, of_opt a) \<in> (\<lambda>(k, v). (k, key_sorted v)) ` set d" using assms(2) by (force simp: image_iff)
  then obtain x where "(k, x) \<in> set d'" "key_sorted x = of_opt a" unfolding dict_same_entries[OF assms(1)] by auto
  then show ?thesis using assms(3) by simp
qed

lemma body_prev_hash: "(KStr ''prev_hash'', x) \<in> set (audit_body env e) \<longleftrightarrow> x = of_opt (ae_prev_hash e)"
  by (auto simp: audit_body_def dest!: optional_field_key)

interpretation audit: hash_chain env "audit_view env" "\<lambda>e. key_sorted (PDict (audit_body env e))" for env
proof
  fix e e' x
  assume "float_repr_ok (au_frepr env)" "cv_canonical (audit_view env) e = Inr x" "cv_canonical (audit_view env) e' = Inr x"
  then show "key_sorted (PDict (audit_body env e)) = key_sorted (PDict (audit_body env e'))"
    unfolding audit_view_def audit_canonical_def chain_view.simps by (rule ascii.json_dumps_inject)
next
  fix e e' :: audit_event
  assume "key_sorted (PDict (audit_body env e)) = key_sorted (PDict (audit_body env e'))"
  then have "ae_prev_hash e = ae_prev_hash e'" by (rule same_opt_field) (rule body_prev_hash)+
  then show "cv_prev (audit_view env) e = cv_prev (audit_view env) e'" by (simp add: audit_view_def)
qed

lemma canonical_ignores_hash [simp]: "audit_canonical env (e\<lparr>ae_hash := h\<rparr>) = audit_canonical env e"
  by (simp add: audit_canonical_def audit_body_def)

definition tenant_sealed :: "audit_env \<Rightarrow> (int \<times> string) list \<Rightarrow> audit_store \<Rightarrow> string \<Rightarrow> bool" where
  "tenant_sealed env epochs s t \<longleftrightarrow> sealed env (audit_view env) epochs (chain_of s t)"

lemma audit_head_sealed:
  "tenant_sealed env epochs s t \<Longrightarrow>
     audit_head s t = (int (length (chain_of s t)), head_hash (audit_view env) (chain_of s t))"
  using head_of_sealed[of env "audit_view env" epochs "chain_of s t"]
  by (auto simp: tenant_sealed_def audit_head_def audit_view_def Let_def split: if_splits)

lemma chain_append: "chain_of (audit_append s e) t = (if t = ae_tenant_id e then chain_of s t @ [e] else chain_of s t)"
  by (simp add: chain_of_def audit_append_def update_conv' split: option.split)

lemma sealed_chained:
  assumes "tenant_sealed env epochs s t" "chained_event env s e = Inr e2"
  shows "tenant_sealed env epochs (audit_append s e2) t"
proof (cases "t = ae_tenant_id e")
  case True
  obtain x where e2: "e2 = e\<lparr>ae_seq := Some (int (length (chain_of s t)) + 1),
        ae_prev_hash := head_hash (audit_view env) (chain_of s t), ae_hash := Some (au_hmac env (au_key env) x)\<rparr>"
    "audit_canonical env e2 = Inr x"
    using assms(2) audit_head_sealed[OF assms(1)[unfolded True]] True
    by (auto simp: chained_event_def Let_def rbind_Inr_iff)
  have "sealed env (audit_view env) epochs (chain_of s t @ [e2])"
    using assms(1) e2 by (intro sealed_snoc[where x = x]) (auto simp: tenant_sealed_def audit_view_def)
  then show ?thesis using True e2(1) by (simp add: tenant_sealed_def chain_append)
next
  case False
  then have "t \<noteq> ae_tenant_id e2" using assms(2) by (auto simp: chained_event_def Let_def rbind_Inr_iff split: prod.splits)
  then show ?thesis using assms(1) by (simp add: tenant_sealed_def chain_append)
qed

lemma chain_outbox [simp]:
  "chain_of (audit_outbox_enqueue s now u p err) t = chain_of s t"
  "chain_of (audit_outbox_delete s i) t = chain_of s t"
  "chain_of (audit_outbox_mark_failed s i err r) t = chain_of s t"
  by (simp_all add: chain_of_def audit_outbox_enqueue_def audit_outbox_delete_def audit_outbox_mark_failed_def)

lemma sealed_write: "tenant_sealed env epochs s t \<Longrightarrow> tenant_sealed env epochs (snd (audit_write env s now fault e)) t"
  using sealed_chained[of env epochs s t]
  by (auto simp: audit_write_def Let_def tenant_sealed_def split: sum.split option.split)

lemma sealed_write_now: "tenant_sealed env epochs s t \<Longrightarrow> tenant_sealed env epochs (snd (audit_write_now env s fault e)) t"
  by (auto simp: audit_write_now_def sealed_chained split: sum.split option.split)

lemma sealed_drain_rows:
  "tenant_sealed env epochs s t \<Longrightarrow> tenant_sealed env epochs (snd (drain_rows env now fault rs s)) t"
proof (induction rs arbitrary: s)
  case Nil
  then show ?case by simp
next
  case (Cons r rs)
  have d: "tenant_sealed env epochs (snd (drain_rows env now fault rs (audit_outbox_delete s' i))) t"
    and m: "tenant_sealed env epochs (snd (drain_rows env now fault rs (audit_outbox_mark_failed s' i err x))) t"
    if "tenant_sealed env epochs s' t" for s' i err x
    using Cons.IH that by (simp_all add: tenant_sealed_def)
  show ?case
  proof (cases "ob_payload r")
    case None
    then show ?thesis using d[OF Cons.prems] by simp
  next
    case (Some p)
    obtain res s1 where w: "audit_write_now env s (fault p) (unchained p) = (res, s1)" by fastforce
    have "tenant_sealed env epochs s1 t" using sealed_write_now[OF Cons.prems, of "fault p" "unchained p"] w by simp
    from d[OF this] m[OF this] show ?thesis using Some w by (cases res) (simp_all add: Let_def split_beta)
  qed
qed

subsection \<open>Histories\<close>

datatype audit_op =
    AWrite instant "string option" audit_event
  | ADrain instant "audit_event \<Rightarrow> string option" string

fun audit_step :: "audit_env \<Rightarrow> audit_store \<Rightarrow> audit_op \<Rightarrow> audit_store" where
  "audit_step env s (AWrite now fault e) = snd (audit_write env s now fault e)"
| "audit_step env s (ADrain now fault t) = snd (drain_tenant_once env now fault s t)"

definition audit_run :: "audit_env \<Rightarrow> audit_store \<Rightarrow> audit_op list \<Rightarrow> audit_store" where
  "audit_run env s ops = foldl (audit_step env) s ops"

lemma sealed_run: "tenant_sealed env epochs s t \<Longrightarrow> tenant_sealed env epochs (audit_run env s ops) t"
  unfolding audit_run_def
proof (induction ops arbitrary: s)
  case (Cons x xs)
  then show ?case by (cases x) (simp_all add: sealed_write sealed_drain_rows drain_tenant_once_def)
qed simp

lemma tenant_sealed_empty: "tenant_sealed env [] audit_store_empty t"
  by (simp add: tenant_sealed_def sealed_empty chain_of_def audit_store_empty_def)

lemma audit_view_eq: "au_iso env' = au_iso env \<Longrightarrow> au_frepr env' = au_frepr env \<Longrightarrow> audit_view env' = audit_view env"
  unfolding audit_view_def audit_canonical_def audit_body_def by simp

definition demo_audit_env :: audit_env where
  "demo_audit_env = \<lparr>au_hmac = (\<lambda>k x. k @ x), au_key = ''old'', au_retired = [], au_iso = show_int, au_frepr = demo_frepr,
     au_secret = (\<lambda>s. if s = ''hunter2'' then Some ''password'' else None), au_identity = (\<lambda>_. False), au_redact = id,
     au_digest = (\<lambda>_. ''d'')\<rparr>"

definition demo_event :: "string \<Rightarrow> audit_event" where
  "demo_event t = \<lparr>ae_tenant_id = t, ae_ts = 0, ae_actor = ''bot'', ae_action_type = TOOL_CALL, ae_status = ''ok'',
     ae_run_id = None, ae_parent_run_id = None, ae_actor_tier = None, ae_depth = None, ae_noun = None,
     ae_verb = Some ''mail.send'', ae_target_adapter = None, ae_on_behalf_of = None, ae_latency_ms = None,
     ae_tokens_used = None, ae_cost_micros = None, ae_skills_loaded = [], ae_detail = [(KStr ''pw'', PStr ''hunter2'')],
     ae_ip_address = None, ae_user_agent = None, ae_resource = None, ae_resource_id = None, ae_workspace_id = None,
     ae_seq = None, ae_prev_hash = None, ae_hash = None\<rparr>"

text \<open>Property C10. However writes, append faults and outbox drains interleave, the chain of a tenant verifies at every page
  size, and it goes on verifying after the key is rotated, when the old key is recorded as retired at the
  sequence number the next row will have: rows written before the rotation verify under the old key, rows
  written after it under the new one.\<close>

theorem rotated_chain_still_verifies:
  assumes "retired_epochs env0 = Inr []"
    and "s = audit_run env0 audit_store_empty ops0"
    and "retired_epochs env1 = Inr [(int (length (chain_of s t)) + 1, au_key env0)]"
    and "au_hmac env1 = au_hmac env0" "au_iso env1 = au_iso env0" "au_frepr env1 = au_frepr env0"
  shows "audit_verify env0 s t page_size 0 None = Inr (True, None)
     \<and> audit_verify env1 (audit_run env1 s ops1) t page_size 0 None = Inr (True, None)"
proof
  have s: "tenant_sealed env0 [] s t" using sealed_run[OF tenant_sealed_empty] assms(2) by simp
  then show "audit_verify env0 s t page_size 0 None = Inr (True, None)"
    using sealed_verifies assms(1) by (simp add: audit_verify_def tenant_sealed_def)
  have "tenant_sealed env1 [(int (length (chain_of s t)) + 1, au_key env0)] s t"
    using sealed_rotate[of env0 "audit_view env0" "[]" "chain_of s t" env1] s assms(4) audit_view_eq[OF assms(5,6)]
    by (simp add: tenant_sealed_def)
  from sealed_verifies[OF sealed_run[OF this, unfolded tenant_sealed_def] assms(3)]
  show "audit_verify env1 (audit_run env1 s ops1) t page_size 0 None = Inr (True, None)"
    by (simp add: audit_verify_def)
qed

definition demo_rotated_env :: audit_env where
  "demo_rotated_env = demo_audit_env\<lparr>au_key := ''new'', au_retired := ''2:old''\<rparr>"

theorem rotated_chain_still_verifies_witness:
  "audit_verify demo_rotated_env
     (audit_run demo_rotated_env (audit_run demo_audit_env audit_store_empty [AWrite 0 None (demo_event ''t'')])
        [AWrite 1 (Some ''OSError'') (demo_event ''t''), ADrain 2 (\<lambda>_. None) ''t''])
     ''t'' 1 0 None = Inr (True, None)"
proof -
  have "retired_epochs demo_audit_env = Inr []" by code_simp
  moreover have "retired_epochs demo_rotated_env =
      Inr [(int (length (chain_of (audit_run demo_audit_env audit_store_empty [AWrite 0 None (demo_event ''t'')]) ''t'')) + 1,
            au_key demo_audit_env)]" by code_simp
  ultimately show ?thesis
    using rotated_chain_still_verifies[OF _ refl, of demo_audit_env demo_rotated_env "[AWrite 0 None (demo_event ''t'')]" "''t''"]
    by (simp add: demo_rotated_env_def demo_audit_env_def)
qed


definition demo_binding_env :: audit_env where
  "demo_binding_env = demo_audit_env\<lparr>au_hmac := (\<lambda>k x. x)\<rparr>"


text \<open>A write is never dropped: it either extends the tenant's chain by exactly the returned event, which carries
  its hash, and leaves the outbox alone, or it leaves every chain alone, returns the event without chain fields and
  adds exactly one outbox row that carries the scrubbed event and the marker of its deferral.\<close>

lemma every_write_is_chained_or_deferred:
  "let (e', s') = audit_write env s now fault e; t = ae_tenant_id e in
     (if ae_hash e' \<noteq> None
      then as_outbox s' = as_outbox s \<and> chain_of s' = (chain_of s)(t := chain_of s t @ [e'])
      else as_chains s' = as_chains s \<and> unchained e' = e' \<and>
           (\<exists>row err. as_outbox s' = as_outbox s @ [row] \<and> ob_tenant_id row = t \<and> ob_next_retry_at row = now \<and>
              ob_append_error row = err \<and> ob_payload row = Some (outbox_payload e' err)))"
proof -
  have t: "ae_tenant_id e2 = ae_tenant_id e \<and> ae_hash e2 \<noteq> None"
    if "chained_event env s (scrubbed env e) = Inr e2" for e2
    using that by (auto simp: chained_event_def rbind_Inr_iff Let_def scrubbed_def split: prod.splits)
  have u: "ae_tenant_id (scrubbed env e) = ae_tenant_id e" "ae_hash (unchained x) = None" "unchained (unchained x) = unchained x"
    for x by (simp_all add: scrubbed_def unchained_def)
  show ?thesis
  proof (cases "chained_event env s (scrubbed env e)")
    case (Inl err)
    then show ?thesis using u by (simp add: audit_write_def audit_outbox_enqueue_def Let_def)
  next
    case (Inr e2)
    then show ?thesis using t[OF Inr] u
      by (cases fault) (auto simp: audit_write_def audit_outbox_enqueue_def audit_append_def Let_def fun_eq_iff chain_of_def
          update_conv')
  qed
qed

text \<open>Outbox identifiers are reused (the next one is the number of rows plus one), so draining one
  tenant's row can delete another tenant's deferred event: here two deferred rows of tenant a, the first drained,
  then one deferred row of tenant b, then the second of a drained. The event of b is in no chain and in no outbox row.\<close>

lemma outbox_id_reuse_loses_a_deferred_event:
  "let r = (\<lambda>t i. (demo_event t)\<lparr>ae_run_id := Some i\<rparr>);
       s = audit_run demo_audit_env audit_store_empty
             [AWrite 0 (Some ''OSError'') (r ''a'' ''1''), AWrite 0 (Some ''OSError'') (r ''a'' ''2''),
              ADrain 1 (\<lambda>p. if ae_run_id p = Some ''2'' then Some ''OSError'' else None) ''a'',
              AWrite 2 (Some ''OSError'') (r ''b'' ''3'')];
       s' = audit_step demo_audit_env s (ADrain 100 (\<lambda>_. None) ''a'')
   in map ob_tenant_id (as_outbox s) = [''a'', ''b''] \<and> as_outbox s' = [] \<and> chain_of s' ''b'' = [] \<and>
      length (chain_of s' ''a'') = 2"
  by code_simp

text \<open>A retired-key entry whose boundary is a superscript digit passes \<^verbatim>\<open>isdigit\<close> and then fails in \<^verbatim>\<open>int\<close>.\<close>

lemma malformed_epoch_raises:
  "audit_verify (env\<lparr>au_retired := CHR 0xB2 # '':k''\<rparr>) s t page_size 0 None = Inl ValueError"
proof -
  have "strip (CHR 0xB2 # '':k'') = CHR 0xB2 # '':k''" by code_simp
  moreover have "parse_epochs (split_on CHR '','' (CHR 0xB2 # '':k'')) = Inl ValueError" by code_simp
  ultimately show ?thesis by (simp add: audit_verify_def verify_chain_def retired_epochs_def)
qed

subsection \<open>One boundary for every tenant\<close>

definition sealed_by :: "audit_env \<Rightarrow> audit_event \<Rightarrow> bool" where
  "sealed_by env e \<longleftrightarrow> (\<exists>x. audit_canonical env e = Inr x \<and> ae_hash e = Some (au_hmac env (au_key env) x))"

definition extends_by :: "audit_env \<Rightarrow> audit_event list \<Rightarrow> audit_event list \<Rightarrow> bool" where
  "extends_by env c c' \<longleftrightarrow> (\<exists>rows. c' = c @ rows \<and> list_all (sealed_by env) rows)"

lemma extends_refl: "extends_by env c c"
  by (simp add: extends_by_def)

lemma extends_trans: "extends_by env c c' \<Longrightarrow> extends_by env c' c'' \<Longrightarrow> extends_by env c c''"
  by (auto simp: extends_by_def)

lemma extends_chained:
  assumes "chained_event env s e = Inr e2"
  shows "extends_by env (chain_of s t) (chain_of (audit_append s e2) t)"
proof -
  have "sealed_by env e2" using assms by (auto simp: chained_event_def rbind_Inr_iff Let_def sealed_by_def split: prod.splits)
  then show ?thesis by (simp add: extends_by_def chain_append)
qed

lemma extends_write: "extends_by env (chain_of s t) (chain_of (snd (audit_write env s now fault e)) t)"
  using extends_chained[of env s "scrubbed env e"]
  by (auto simp: audit_write_def Let_def extends_refl split: sum.split option.split)

lemma extends_write_now: "extends_by env (chain_of s t) (chain_of (snd (audit_write_now env s fault e)) t)"
  using extends_chained[of env s "scrubbed env e"]
  by (auto simp: audit_write_now_def extends_refl split: sum.split option.split)

lemma extends_drain_rows: "extends_by env (chain_of s t) (chain_of (snd (drain_rows env now fault rs s)) t)"
proof (induction rs arbitrary: s)
  case Nil
  show ?case by (simp add: extends_refl)
next
  case (Cons r rs)
  show ?case
  proof (cases "ob_payload r")
    case None
    then show ?thesis using Cons.IH[of "audit_outbox_delete s (ob_id r)"] by simp
  next
    case (Some p)
    obtain res s1 where w: "audit_write_now env s (fault p) (unchained p) = (res, s1)" by fastforce
    have s1: "extends_by env (chain_of s t) (chain_of s1 t)" using extends_write_now[of env s t "fault p" "unchained p"] w by simp
    have step: "extends_by env (chain_of s t) (chain_of (snd (drain_rows env now fault rs s2)) t)"
      if "chain_of s2 t = chain_of s1 t" for s2
      using extends_trans[OF s1] Cons.IH[of s2] that by simp
    from step[of "audit_outbox_delete s1 i" for i] step[of "audit_outbox_mark_failed s1 i err x" for i err x]
    show ?thesis using Some w by (cases res) (simp_all add: Let_def split_beta)
  qed
qed

lemma extends_run: "extends_by env (chain_of s t) (chain_of (audit_run env s ops) t)"
  unfolding audit_run_def
proof (induction ops arbitrary: s)
  case Nil
  show ?case by (simp add: extends_refl)
next
  case (Cons x xs)
  have "extends_by env (chain_of s t) (chain_of (audit_step env s x) t)"
    by (cases x) (simp_all add: extends_write extends_drain_rows drain_tenant_once_def)
  then show ?case using extends_trans Cons.IH by fastforce
qed

lemma check_rows_key:
  "check_rows env v epochs prev c = Inr (Inr h) \<Longrightarrow> e \<in> set c \<Longrightarrow>
     \<exists>x. cv_canonical v e = Inr x \<and> cv_hash v e = Some (au_hmac env (key_for_seq env (cv_seq v e) epochs) x)"
  by (induction c arbitrary: prev) (auto split: sum.splits if_splits)

text \<open>The key a verifying row was sealed with is the one its sequence number selects.\<close>

lemma verified_row_key:
  assumes "tenant_sealed env ep s t" "retired_epochs env = Inr epochs" "audit_verify env s t p 0 None = Inr (True, None)"
    and "i < length (chain_of s t)" "audit_canonical env (chain_of s t ! i) = Inr x"
    and "ae_hash (chain_of s t ! i) = Some (au_hmac env k x)" "\<And>k k' x. au_hmac env k x = au_hmac env k' x \<Longrightarrow> k = k'"
  shows "key_for_seq env (Some (int i + 1)) epochs = k"
proof -
  have "map (cv_seq (audit_view env)) (chain_of s t) ! i = Some (int i + 1)"
    using assms(1,4) by (simp add: tenant_sealed_def sealed_def del: map_eq_conv)
  then have seq: "ae_seq (chain_of s t ! i) = Some (int i + 1)" using assms(4) by (simp add: audit_view_def)
  have "check_rows env (audit_view env) epochs None (chain_of s t) = Inr (Inr (head_hash (audit_view env) (chain_of s t)))"
    using verified_head[OF sealed_rising assms(2)] assms(1,3) by (simp add: tenant_sealed_def audit_verify_def)
  from check_rows_key[OF this, of "chain_of s t ! i"] show ?thesis
    using assms(4-6) seq assms(7)[of _ x k] by (auto simp: audit_view_def)
qed

lemma extends_nth:
  assumes "extends_by env c c'" "length c \<le> i" "i < length c'"
  shows "\<exists>x. audit_canonical env (c' ! i) = Inr x \<and> ae_hash (c' ! i) = Some (au_hmac env (au_key env) x)"
proof -
  obtain rows where r: "c' = c @ rows" "list_all (sealed_by env) rows" using assms(1) by (auto simp: extends_by_def)
  then have "sealed_by env (c' ! i)" using assms(2,3) by (auto simp: nth_append list_all_length)
  then show ?thesis by (simp add: sealed_by_def)
qed

lemma extends_prefix: "extends_by env c c' \<Longrightarrow> i < length c \<Longrightarrow> c' ! i = c ! i \<and> i < length c'"
  by (auto simp: extends_by_def nth_append)

text \<open>The retired-key list is one setting for the process while sequence numbers run per tenant. When the key is
  rotated while tenant a is ahead of tenant b and b writes again, no value of the setting makes both chains
  verify: the row of a and the row of b at the same sequence number were sealed with different keys, and the
  list selects one key per sequence number.\<close>

lemma one_boundary_cannot_serve_two_tenants:
  assumes "s0 = audit_run env0 audit_store_empty ops0" and "s1 = audit_run env1 s0 ops1"
    and "length (chain_of s0 b) < length (chain_of s0 a)" and "length (chain_of s0 b) < length (chain_of s1 b)"
    and "au_hmac env1 = au_hmac env0" "au_iso env1 = au_iso env0" "au_frepr env1 = au_frepr env0"
    and "au_key env1 \<noteq> au_key env0" and "\<And>k k' x. au_hmac env1 k x = au_hmac env1 k' x \<Longrightarrow> k = k'"
  shows "\<not> (audit_verify env1 s1 a p 0 None = Inr (True, None) \<and> audit_verify env1 s1 b p 0 None = Inr (True, None))"
proof
  assume v: "audit_verify env1 s1 a p 0 None = Inr (True, None) \<and> audit_verify env1 s1 b p 0 None = Inr (True, None)"
  then obtain epochs where epochs: "retired_epochs env1 = Inr epochs"
    by (auto simp: audit_verify_def verify_chain_def rbind_Inr_iff)
  define i where "i = length (chain_of s0 b)"
  have view: "audit_view env1 = audit_view env0" using audit_view_eq[OF assms(6,7)] .
  then have canon: "audit_canonical env1 = audit_canonical env0" by (auto simp: audit_view_def)
  have "tenant_sealed env0 [] s0 t" for t using sealed_run[OF tenant_sealed_empty] assms(1) by simp
  from sealed_rotate[OF this[unfolded tenant_sealed_def] assms(5)]
  have "\<exists>ep. tenant_sealed env1 ep s0 t" for t unfolding tenant_sealed_def view by blast
  then have sealed: "\<exists>ep. tenant_sealed env1 ep s1 t" for t using sealed_run assms(2) by blast
  have row_b: "i < length (chain_of s1 b)" using assms(4) i_def by simp
  have "extends_by env1 (chain_of s0 b) (chain_of s1 b)" using extends_run assms(2) by blast
  from extends_nth[OF this _ row_b] obtain x where
    x: "audit_canonical env1 (chain_of s1 b ! i) = Inr x" "ae_hash (chain_of s1 b ! i) = Some (au_hmac env1 (au_key env1) x)"
    unfolding i_def by blast
  have "extends_by env0 [] (chain_of s0 a)"
    using extends_run[of env0 audit_store_empty a ops0] assms(1) by (simp add: chain_of_def audit_store_empty_def)
  from extends_nth[OF this, of i] obtain y where
    y: "audit_canonical env0 (chain_of s0 a ! i) = Inr y" "ae_hash (chain_of s0 a ! i) = Some (au_hmac env0 (au_key env0) y)"
    using assms(3) i_def by auto
  have "extends_by env1 (chain_of s0 a) (chain_of s1 a)" using extends_run assms(2) by blast
  from extends_prefix[OF this, of i] have row_a: "chain_of s1 a ! i = chain_of s0 a ! i" "i < length (chain_of s1 a)"
    using assms(3) i_def by auto
  obtain ep where "tenant_sealed env1 ep s1 a" using sealed by blast
  from verified_row_key[OF this epochs v[THEN conjunct1] row_a(2), where x = y and k = "au_key env0"]
  have "key_for_seq env1 (Some (int i + 1)) epochs = au_key env0" using y row_a(1) canon assms(5,9) by simp
  moreover obtain ep' where "tenant_sealed env1 ep' s1 b" using sealed by blast
  from verified_row_key[OF this epochs _ row_b x] have "key_for_seq env1 (Some (int i + 1)) epochs = au_key env1"
    using v assms(9) by blast
  ultimately show False using assms(8) by simp
qed

subsection \<open>Paging\<close>

text \<open>Paging does not change the verdict: for every page size, verifying a tenant's chain page by page gives
  the verdict of one pass over all of its rows.\<close>

lemma paged_verification_is_one_pass:
  assumes "rising (audit_view env) (chain_of s t)" and "retired_epochs env = Inr epochs"
  shows "audit_verify env s t page_size 0 None = verdict (check_rows env (audit_view env) epochs None (chain_of s t))"
  unfolding audit_verify_def by (rule verify_chain_one_pass[OF assms])

definition demo_two_rows :: audit_store where
  "demo_two_rows = snd (audit_write demo_audit_env (snd (audit_write demo_audit_env audit_store_empty 0 None (demo_event ''t''))) 1 None
     (demo_event ''t''))"

end
