(* ===== verification/Security.thy ===== *)
theory Security
  imports AuditLog
begin

text \<open>
  The security stream and the rollup anchors of \<^verbatim>\<open>boltrig/kernel/security_events.py\<close>, with the events of
  \<^verbatim>\<open>boltrig/models/audit.py\<close> and the tables of \<^verbatim>\<open>boltrig/store/memory.py\<close> (\<^verbatim>\<open>security_head\<close> to \<^verbatim>\<open>list_audit_anchors\<close>).

  The stream is a second hash chain with its own canonical text, sealed with the key and verified with the retired
  epochs of the audit chain. A failed append is an argument of the writer, as in the audit log; the process-wide
  counter of dropped signals is part of the state. The two fields of an anchor an external signer
  would fill are always absent in this code and left out.
\<close>

subsection \<open>Signals\<close>

datatype security_event_type =
  LOGIN_FAILURE | RATE_LIMIT_TRIP | PERMISSION_DENIED | MCP_AUTH_FAILURE | HOST_BOUNDARY_CREDENTIAL |
  DEVELOPMENT_POSTURE_APPROVAL

fun security_type_value :: "security_event_type \<Rightarrow> string" where
  "security_type_value LOGIN_FAILURE = ''login_failure''"
| "security_type_value RATE_LIMIT_TRIP = ''rate_limit_trip''"
| "security_type_value PERMISSION_DENIED = ''permission_denied''"
| "security_type_value MCP_AUTH_FAILURE = ''mcp_auth_failure''"
| "security_type_value HOST_BOUNDARY_CREDENTIAL = ''host_boundary_credential''"
| "security_type_value DEVELOPMENT_POSTURE_APPROVAL = ''development_posture_approval''"

record security_event =
  sx_tenant_id :: string
  sx_ts :: instant
  sx_event_type :: security_event_type
  sx_reason :: string
  sx_actor :: "string option"
  sx_actor_tier :: "string option"
  sx_workspace_id :: "string option"
  sx_ip_address :: "string option"
  sx_user_agent :: "string option"
  sx_resource :: "string option"
  sx_resource_id :: "string option"
  sx_on_behalf_of :: "string option"
  sx_detail :: pydict
  sx_seq :: "int option"
  sx_prev_hash :: "string option"
  sx_hash :: "string option"

definition security_body :: "audit_env \<Rightarrow> security_event \<Rightarrow> pydict" where
  "security_body env e =
    [(KStr ''tenant_id'', PStr (sx_tenant_id e)),
     (KStr ''seq'', of_int_opt (sx_seq e)),
     (KStr ''ts'', PStr (au_iso env (sx_ts e))),
     (KStr ''event_type'', PStr (security_type_value (sx_event_type e))),
     (KStr ''reason'', PStr (sx_reason e)),
     (KStr ''actor'', of_opt (sx_actor e)),
     (KStr ''actor_tier'', of_opt (sx_actor_tier e)),
     (KStr ''workspace_id'', of_opt (sx_workspace_id e)),
     (KStr ''ip_address'', of_opt (sx_ip_address e)),
     (KStr ''user_agent'', of_opt (sx_user_agent e)),
     (KStr ''resource'', of_opt (sx_resource e)),
     (KStr ''resource_id'', of_opt (sx_resource_id e)),
     (KStr ''on_behalf_of'', of_opt (sx_on_behalf_of e)),
     (KStr ''detail'', PDict (sx_detail e)),
     (KStr ''prev_hash'', of_opt (sx_prev_hash e))]"

definition security_canonical :: "audit_env \<Rightarrow> security_event \<Rightarrow> py_error + string" where
  "security_canonical env e = json_dumps_default (au_frepr env) (PDict (security_body env e))"

subsection \<open>The tables\<close>

record audit_rollup_anchor =
  an_id :: string
  an_tenant_id :: string
  an_workspace_id :: "string option"
  an_seq_start :: int
  an_seq_end :: int
  an_rollup_root_hash :: string
  an_anchored_at :: instant
  an_is_dev_fallback :: bool

record security_store =
  sc_chains :: "(string \<times> security_event list) list"
  sc_anchors :: "(string \<times> audit_rollup_anchor list) list"
  sc_dropped :: nat

definition security_store_empty :: security_store where
  "security_store_empty = \<lparr>sc_chains = [], sc_anchors = [], sc_dropped = 0\<rparr>"

definition signals_of :: "security_store \<Rightarrow> string \<Rightarrow> security_event list" where
  "signals_of s t = (case map_of (sc_chains s) t of None \<Rightarrow> [] | Some c \<Rightarrow> c)"

definition security_head :: "security_store \<Rightarrow> string \<Rightarrow> int \<times> string option" where
  "security_head s t = (let chain = signals_of s t
     in if chain = [] then (0, None)
        else (case sx_seq (last chain) of None \<Rightarrow> 0 | Some n \<Rightarrow> n, sx_hash (last chain)))"

definition security_append :: "security_store \<Rightarrow> security_event \<Rightarrow> security_store" where
  "security_append s e =
     s\<lparr>sc_chains := AList.update (sx_tenant_id e) (signals_of s (sx_tenant_id e) @ [e]) (sc_chains s)\<rparr>"

definition security_query :: "security_store \<Rightarrow> string \<Rightarrow> string option \<Rightarrow> nat \<Rightarrow> security_event list" where
  "security_query s t event_type limit =
     (let chain = (case event_type of None \<Rightarrow> signals_of s t
            | Some x \<Rightarrow> filter (\<lambda>e. security_type_value (sx_event_type e) = x) (signals_of s t))
      in if limit = 0 then chain else drop (length chain - limit) chain)"

definition anchors_of :: "security_store \<Rightarrow> string \<Rightarrow> audit_rollup_anchor list" where
  "anchors_of s t = (case map_of (sc_anchors s) t of None \<Rightarrow> [] | Some a \<Rightarrow> a)"

definition add_audit_anchor :: "security_store \<Rightarrow> audit_rollup_anchor \<Rightarrow> security_store" where
  "add_audit_anchor s a =
     s\<lparr>sc_anchors := AList.update (an_tenant_id a) (anchors_of s (an_tenant_id a) @ [a]) (sc_anchors s)\<rparr>"

definition latest_audit_anchor :: "security_store \<Rightarrow> string \<Rightarrow> string option \<Rightarrow> audit_rollup_anchor option" where
  "latest_audit_anchor s t workspace_id =
     (let rows = filter (\<lambda>a. an_workspace_id a = workspace_id) (anchors_of s t)
      in if rows = [] then None else Some (last rows))"

definition list_audit_anchors :: "security_store \<Rightarrow> string \<Rightarrow> string option \<Rightarrow> nat \<Rightarrow> audit_rollup_anchor list" where
  "list_audit_anchors s t workspace_id limit =
     (let rows = filter (\<lambda>a. workspace_id = None \<or> an_workspace_id a = workspace_id) (anchors_of s t)
      in if limit = 0 then rows else drop (length rows - limit) rows)"

subsection \<open>The writer\<close>

definition security_scrubbed :: "audit_env \<Rightarrow> security_event \<Rightarrow> security_event" where
  "security_scrubbed env e =
     e\<lparr>sx_detail := scrub env (sx_detail e), sx_user_agent := scrub_free_text env (sx_user_agent e)\<rparr>"

definition security_write ::
  "audit_env \<Rightarrow> security_store \<Rightarrow> string option \<Rightarrow> security_event \<Rightarrow> (string + security_event) \<times> security_store" where
  "security_write env s fault e =
     (let e1 = security_scrubbed env e;
          (head_seq, prev) = security_head s (sx_tenant_id e1);
          e2 = e1\<lparr>sx_seq := Some (head_seq + 1), sx_prev_hash := prev\<rparr>
      in case security_canonical env e2 of
           Inl err \<Rightarrow> (Inl (error_name err), s)
         | Inr text \<Rightarrow>
             (let e3 = e2\<lparr>sx_hash := Some (au_hmac env (au_key env) text)\<rparr>
              in case fault of Some err \<Rightarrow> (Inl err, s) | None \<Rightarrow> (Inr e3, security_append s e3)))"

definition security_record :: "audit_env \<Rightarrow> security_store \<Rightarrow> string option \<Rightarrow> security_event \<Rightarrow> security_store" where
  "security_record env s fault e =
     (case security_write env s fault e of
        (Inl _, s') \<Rightarrow> s'\<lparr>sc_dropped := sc_dropped s' + 1\<rparr>
      | (Inr _, s') \<Rightarrow> s')"

definition security_view :: "audit_env \<Rightarrow> security_event chain_view" where
  "security_view env = \<lparr>cv_seq = sx_seq, cv_prev = sx_prev_hash, cv_hash = sx_hash, cv_canonical = security_canonical env\<rparr>"

definition security_verify :: "audit_env \<Rightarrow> security_store \<Rightarrow> string \<Rightarrow> int \<Rightarrow> py_error + (bool \<times> int option)" where
  "security_verify env s t page_size = verify_chain env (security_view env) (signals_of s t) page_size 0 None"

subsection \<open>Anchors\<close>

definition rollup_text :: "string list \<Rightarrow> string" where
  "rollup_text hashes = ''boltrig-audit-rollup-v1'' @ concat (map (\<lambda>h. h @ [CHR 0x1E]) hashes)"

definition hash_or_empty :: "audit_event \<Rightarrow> string" where
  "hash_or_empty e = (case ae_hash e of None \<Rightarrow> [] | Some h \<Rightarrow> h)"

definition rollup_key :: "audit_env \<Rightarrow> string \<Rightarrow> string" where
  "rollup_key env key = (if key = [] then au_key env else key)"

definition segment_root_hash :: "audit_env \<Rightarrow> audit_event list \<Rightarrow> string \<Rightarrow> string" where
  "segment_root_hash env events key = au_hmac env (rollup_key env key) (rollup_text (map hash_or_empty events))"

definition in_workspace :: "string option \<Rightarrow> audit_event \<Rightarrow> bool" where
  "in_workspace workspace_id e \<longleftrightarrow> workspace_id = None \<or> ae_workspace_id e = workspace_id"

definition ANCHOR_PAGE :: nat where "ANCHOR_PAGE = 10000"

definition VERIFY_LIMIT :: nat where "VERIFY_LIMIT = 1000000"

text \<open>The paging loop. The cursor of a page is the sequence number of its last row; the loop also stops when the
  cursor does not advance, which needs a negative cursor and so never happens from an anchor's \<^verbatim>\<open>seq_end\<close> or from zero.\<close>

function (sequential) anchor_pages ::
  "audit_env \<Rightarrow> audit_event list \<Rightarrow> nat \<Rightarrow> string option \<Rightarrow> int \<Rightarrow> int option \<Rightarrow> string list \<Rightarrow> int \<times> int option \<times> string list" where
  "anchor_pages env chain page_size workspace_id cursor seq_start row_hashes =
     (let page = chain_scan (audit_view env) chain cursor page_size
      in if page = [] then (cursor, seq_start, row_hashes)
         else let n = seq_or_0 (audit_view env) (last page);
                  cursor' = (if n = 0 then cursor else n);
                  scoped = filter (in_workspace workspace_id) page;
                  row_hashes' = row_hashes @ map hash_or_empty scoped;
                  seq_start' = (if seq_start = None \<and> scoped \<noteq> [] then Some (seq_or_0 (audit_view env) (hd scoped)) else seq_start)
              in if length page < page_size \<or> cursor' \<le> cursor then (cursor', seq_start', row_hashes')
                 else anchor_pages env chain page_size workspace_id cursor' seq_start' row_hashes')"
  by pat_completeness auto
termination
  by (relation "measure (\<lambda>(env, chain, page, ws, cursor, st, hs).
         length (filter (\<lambda>e. seq_or_0 (audit_view env) e > cursor) chain))")
     (auto split: if_splits intro: scan_progress)

declare anchor_pages.simps [simp del]

definition anchor ::
  "audit_env \<Rightarrow> audit_store \<Rightarrow> security_store \<Rightarrow> bool \<Rightarrow> nat \<Rightarrow> instant \<Rightarrow> string \<Rightarrow> string \<Rightarrow> string option
     \<Rightarrow> (py_error + audit_rollup_anchor option) \<times> security_store" where
  "anchor env audit s external page_size now new_id t workspace_id =
     (let floor = (case latest_audit_anchor s t workspace_id of None \<Rightarrow> 0 | Some a \<Rightarrow> an_seq_end a);
          (cursor, seq_start, row_hashes) = anchor_pages env (chain_of audit t) page_size workspace_id floor None []
      in case seq_start of
           None \<Rightarrow> (Inr None, s)
         | Some start \<Rightarrow>
             (if row_hashes = [] then (Inr None, s)
              else case key_in_force_at env (Some cursor) of
                     Inl err \<Rightarrow> (Inl err, s)
                   | Inr key \<Rightarrow>
                       (let a = \<lparr>an_id = new_id, an_tenant_id = t, an_workspace_id = workspace_id, an_seq_start = start,
                              an_seq_end = cursor,
                              an_rollup_root_hash = au_hmac env (rollup_key env key) (rollup_text row_hashes),
                              an_anchored_at = now, an_is_dev_fallback = \<not> external\<rparr>
                        in (Inr (Some a), add_audit_anchor s a))))"

definition verify_latest ::
  "audit_env \<Rightarrow> audit_store \<Rightarrow> security_store \<Rightarrow> string \<Rightarrow> string option \<Rightarrow> py_error + bool \<times> audit_rollup_anchor option" where
  "verify_latest env audit s t workspace_id =
     (case latest_audit_anchor s t workspace_id of
        None \<Rightarrow> Inr (True, None)
      | Some a \<Rightarrow>
          (let events = filter (in_workspace workspace_id) (audit_query audit t None VERIFY_LIMIT);
               segment = filter (\<lambda>e. an_seq_start a \<le> seq_or_0 (audit_view env) e \<and> seq_or_0 (audit_view env) e \<le> an_seq_end a) events
           in rbind (key_in_force_at env (Some (an_seq_end a))) (\<lambda>key.
                Inr (segment_root_hash env segment key = an_rollup_root_hash a, Some a))))"

subsection \<open>The stream is a hash chain\<close>

lemma security_prev_hash: "(KStr ''prev_hash'', x) \<in> set (security_body env e) \<longleftrightarrow> x = of_opt (sx_prev_hash e)"
  by (auto simp: security_body_def)

interpretation security: hash_chain env "security_view env" "\<lambda>e. key_sorted (PDict (security_body env e))" for env
proof
  fix e e' x
  assume "float_repr_ok (au_frepr env)" "cv_canonical (security_view env) e = Inr x" "cv_canonical (security_view env) e' = Inr x"
  then show "key_sorted (PDict (security_body env e)) = key_sorted (PDict (security_body env e'))"
    unfolding security_view_def security_canonical_def chain_view.simps by (rule ascii.json_dumps_inject)
next
  fix e e' :: security_event
  assume "key_sorted (PDict (security_body env e)) = key_sorted (PDict (security_body env e'))"
  then have "sx_prev_hash e = sx_prev_hash e'" by (rule same_opt_field) (rule security_prev_hash)+
  then show "cv_prev (security_view env) e = cv_prev (security_view env) e'" by (simp add: security_view_def)
qed

lemma security_canonical_ignores_hash [simp]: "security_canonical env (e\<lparr>sx_hash := h\<rparr>) = security_canonical env e"
  by (simp add: security_canonical_def security_body_def)

definition stream_sealed :: "audit_env \<Rightarrow> (int \<times> string) list \<Rightarrow> security_store \<Rightarrow> string \<Rightarrow> bool" where
  "stream_sealed env epochs s t \<longleftrightarrow> sealed env (security_view env) epochs (signals_of s t)"

lemma security_head_sealed:
  "stream_sealed env epochs s t \<Longrightarrow>
     security_head s t = (int (length (signals_of s t)), head_hash (security_view env) (signals_of s t))"
  using head_of_sealed[of env "security_view env" epochs "signals_of s t"]
  by (auto simp: stream_sealed_def security_head_def security_view_def Let_def split: if_splits)

lemma signals_append:
  "signals_of (security_append s e) t = (if t = sx_tenant_id e then signals_of s t @ [e] else signals_of s t)"
  by (simp add: signals_of_def security_append_def update_conv' split: option.split)

lemma security_write_cases:
  assumes "security_write env s fault e = (r, s')"
  obtains err where "r = Inl err" "s' = s"
    | e' x where "r = Inr e'" "s' = security_append s e'" "sx_tenant_id e' = sx_tenant_id e"
        "security_canonical env e' = Inr x" "sx_hash e' = Some (au_hmac env (au_key env) x)"
        "sx_seq e' = Some (fst (security_head s (sx_tenant_id e)) + 1)"
        "sx_prev_hash e' = snd (security_head s (sx_tenant_id e))"
proof -
  define e2 where "e2 = (security_scrubbed env e)\<lparr>sx_seq := Some (fst (security_head s (sx_tenant_id e)) + 1),
      sx_prev_hash := snd (security_head s (sx_tenant_id e))\<rparr>"
  have t: "sx_tenant_id (security_scrubbed env e) = sx_tenant_id e" "sx_tenant_id e2 = sx_tenant_id e"
    by (simp_all add: e2_def security_scrubbed_def)
  have w: "security_write env s fault e = (case security_canonical env e2 of Inl err \<Rightarrow> (Inl (error_name err), s)
      | Inr x \<Rightarrow> (let e3 = e2\<lparr>sx_hash := Some (au_hmac env (au_key env) x)\<rparr>
                 in case fault of Some err \<Rightarrow> (Inl err, s) | None \<Rightarrow> (Inr e3, security_append s e3)))"
    by (simp add: security_write_def e2_def t Let_def split_beta split: sum.split)
  show thesis
  proof (cases "security_canonical env e2")
    case (Inl a)
    then show ?thesis using assms w by (intro that(1)) auto
  next
    case (Inr x)
    show ?thesis
    proof (cases fault)
      case None
      then show ?thesis using assms w Inr t
        by (intro that(2)[of "e2\<lparr>sx_hash := Some (au_hmac env (au_key env) x)\<rparr>" x]) (simp_all add: e2_def Let_def)
    next
      case (Some a)
      then show ?thesis using assms w Inr by (intro that(1)) auto
    qed
  qed
qed

lemma sealed_security_write:
  assumes "stream_sealed env epochs s t" "security_write env s fault e = (r, s')"
  shows "stream_sealed env epochs s' t"
proof (cases rule: security_write_cases[OF assms(2)])
  case (1 err)
  then show ?thesis using assms(1) by simp
next
  case (2 e' x)
  show ?thesis
  proof (cases "t = sx_tenant_id e")
    case True
    have "sealed env (security_view env) epochs (signals_of s t @ [e'])"
      using assms(1) 2(4-7) security_head_sealed[OF assms(1)] True
      by (intro sealed_snoc[where x = x]) (auto simp: stream_sealed_def security_view_def)
    then show ?thesis using True 2(2,3) by (simp add: stream_sealed_def signals_append)
  next
    case False
    then show ?thesis using assms(1) 2(2,3) by (simp add: stream_sealed_def signals_append)
  qed
qed

lemma sealed_security_record:
  assumes "stream_sealed env epochs s t" shows "stream_sealed env epochs (security_record env s fault e) t"
proof -
  obtain r s' where w: "security_write env s fault e = (r, s')" by fastforce
  have "stream_sealed env epochs s' t" using sealed_security_write[OF assms w] .
  then show ?thesis using w by (cases r) (simp_all add: security_record_def stream_sealed_def signals_of_def)
qed


lemma stream_sealed_empty: "stream_sealed env [] security_store_empty t"
  by (simp add: stream_sealed_def sealed_empty signals_of_def security_store_empty_def)

lemma sealed_records:
  "stream_sealed env epochs s t \<Longrightarrow>
     stream_sealed env epochs (foldl (\<lambda>s (fault, e). security_record env s fault e) s signals) t"
  by (induction signals arbitrary: s) (auto simp: sealed_security_record)

lemma security_view_eq: "au_iso env' = au_iso env \<Longrightarrow> au_frepr env' = au_frepr env \<Longrightarrow> security_view env' = security_view env"
  unfolding security_view_def security_canonical_def security_body_def by simp

text \<open>A signal is chained or counted: the number of rows over all tenants plus the dropped counter grows by one.\<close>

lemma record_is_chained_or_counted:
  "length (signals_of (security_record env s fault e) (sx_tenant_id e)) + sc_dropped (security_record env s fault e)
     = length (signals_of s (sx_tenant_id e)) + sc_dropped s + 1"
proof -
  obtain r s' where w: "security_write env s fault e = (r, s')" by fastforce
  show ?thesis
  proof (cases rule: security_write_cases[OF w])
    case (1 err)
    then show ?thesis using w by (simp add: security_record_def signals_of_def)
  next
    case (2 e' x)
    then show ?thesis using w by (simp add: security_record_def signals_append) (simp add: security_append_def)
  qed
qed

subsection \<open>What an anchor covers\<close>

lemma anchor_pages_rest:
  assumes "0 < page" "0 \<le> cursor" "sorted_wrt (<) (map (seq_or_0 (audit_view env)) (seen @ rest))"
    "\<And>e. e \<in> set seen \<Longrightarrow> seq_or_0 (audit_view env) e \<le> cursor"
    "\<And>e. e \<in> set rest \<Longrightarrow> cursor < seq_or_0 (audit_view env) e"
  shows "anchor_pages env (seen @ rest) page ws cursor st hs =
     (if rest = [] then cursor else seq_or_0 (audit_view env) (last rest),
      if st = None \<and> filter (in_workspace ws) rest \<noteq> []
        then Some (seq_or_0 (audit_view env) (hd (filter (in_workspace ws) rest))) else st,
      hs @ map hash_or_empty (filter (in_workspace ws) rest))"
  using assms(2-)
proof (induction rest arbitrary: seen cursor st hs rule: length_induct)
  case (1 rest)
  let ?q = "seq_or_0 (audit_view env)"
  note scan = scan_rest[OF "1.prems"(2-4), of page]
  show ?case
  proof (cases "rest = []")
    case True
    then show ?thesis using scan by (simp add: anchor_pages.simps)
  next
    case False
    define xs ys where "xs = take page rest" and "ys = drop page rest"
    have rest: "rest = xs @ ys" and ne: "xs \<noteq> []" and len: "length ys < length rest"
      using False assms(1) by (auto simp: xs_def ys_def)
    have gt: "cursor < ?q (last xs)" using "1.prems"(4) ne rest by simp
    have sorted: "sorted_wrt (<) (map ?q ((seen @ xs) @ ys))" using "1.prems"(2) rest by simp
    have b: "\<And>e. e \<in> set (seen @ xs) \<Longrightarrow> ?q e \<le> ?q (last xs)"
      using below_last[of ?q "seen @ xs"] sorted ne by (simp add: sorted_wrt_append)
    have a: "\<And>e. e \<in> set ys \<Longrightarrow> ?q (last xs) < ?q e" using sorted ne by (auto simp: sorted_wrt_append)
    have pos: "0 \<le> ?q (last xs)" "?q (last xs) \<noteq> 0" using gt "1.prems"(1) by auto
    define st' where "st' = (if st = None \<and> filter (in_workspace ws) xs \<noteq> []
        then Some (?q (hd (filter (in_workspace ws) xs))) else st)"
    define hs' where "hs' = hs @ map hash_or_empty (filter (in_workspace ws) xs)"
    note IH = "1.IH"[rule_format, OF len pos(1) sorted b a, of st' hs']
    have step: "anchor_pages env (seen @ rest) page ws cursor st hs =
        (if length xs < page then (?q (last xs), st', hs') else anchor_pages env (seen @ rest) page ws (?q (last xs)) st' hs')"
      using scan ne gt pos unfolding xs_def[symmetric] st'_def hs'_def
      by (subst anchor_pages.simps) (simp add: Let_def)
    have short: "length xs < page \<Longrightarrow> ys = []" by (simp add: xs_def ys_def)
    show ?thesis using step IH short ne rest unfolding st'_def hs'_def by (cases "ys = []") auto
  qed
qed


definition row_seq :: "audit_event \<Rightarrow> int" where
  "row_seq e = (case ae_seq e of None \<Rightarrow> 0 | Some n \<Rightarrow> n)"

lemma audit_seq: "seq_or_0 (audit_view env) = row_seq"
  by (simp add: fun_eq_iff seq_or_0_def row_seq_def audit_view_def)

lemma sorted_split:
  fixes q :: "'a \<Rightarrow> int"
  shows "sorted_wrt (<) (map q c) \<Longrightarrow> filter (\<lambda>e. q e \<le> f) c @ filter (\<lambda>e. f < q e) c = c"
proof (induction c)
  case (Cons a c)
  show ?case
  proof (cases "q a \<le> f")
    case False
    then have "filter (\<lambda>e. q e \<le> f) c = []" using Cons.prems by (force simp: filter_empty_conv)
    then show ?thesis using Cons False by (auto simp: not_le)
  qed (use Cons in auto)
qed simp

definition tail_rows :: "string option \<Rightarrow> int \<Rightarrow> audit_event list \<Rightarrow> audit_event list" where
  "tail_rows ws f c = filter (in_workspace ws) (filter (\<lambda>e. f < row_seq e) c)"

lemma anchor_pages_tail:
  assumes "rising (audit_view env) c" "0 < page" "0 \<le> f"
  shows "anchor_pages env c page ws f None [] =
     (if filter (\<lambda>e. f < row_seq e) c = [] then f else row_seq (last c),
      if tail_rows ws f c = [] then None else Some (row_seq (hd (tail_rows ws f c))), map hash_or_empty (tail_rows ws f c))"
proof -
  let ?seen = "filter (\<lambda>e. row_seq e \<le> f) c" and ?rest = "filter (\<lambda>e. f < row_seq e) c"
  have s: "sorted_wrt (<) (map row_seq c)" using assms(1) by (simp add: rising_def audit_seq)
  have split: "?seen @ ?rest = c" using sorted_split[OF s] .
  have "last ?rest = last c" if "?rest \<noteq> []" using that split by (metis last_appendR)
  then show ?thesis
    using anchor_pages_rest[of page f env ?seen ?rest ws None "[]"] assms(2,3) s split
    by (auto simp: audit_seq tail_rows_def)
qed

lemma anchored_rows:
  assumes "sorted_wrt (<) (map row_seq c)" "tail_rows ws f c \<noteq> []"
  shows "filter (\<lambda>e. row_seq (hd (tail_rows ws f c)) \<le> row_seq e \<and> row_seq e \<le> row_seq (last c)) (filter (in_workspace ws) c)
      = tail_rows ws f c"
proof -
  let ?h = "hd (tail_rows ws f c)"
  have h: "f < row_seq ?h" using hd_in_set[OF assms(2)] by (auto simp: tail_rows_def)
  have "sorted_wrt (<) (map row_seq (tail_rows ws f c))"
    unfolding tail_rows_def using assms(1) by (simp add: sorted_wrt_map sorted_wrt_filter)
  then have first: "row_seq ?h \<le> row_seq e" if "e \<in> set (tail_rows ws f c)" for e
    using that assms(2) by (cases "tail_rows ws f c") auto
  have "row_seq ?h \<le> row_seq e \<and> row_seq e \<le> row_seq (last c) \<longleftrightarrow> f < row_seq e" if "e \<in> set (filter (in_workspace ws) c)" for e
    using that h first[of e] below_last[OF assms(1), of e] by (auto simp: tail_rows_def)
  then have "filter (\<lambda>e. row_seq ?h \<le> row_seq e \<and> row_seq e \<le> row_seq (last c)) (filter (in_workspace ws) c)
      = filter (\<lambda>e. f < row_seq e) (filter (in_workspace ws) c)" by (rule filter_cong[OF refl])
  then show ?thesis by (simp add: tail_rows_def conj_commute)
qed

text \<open>The anchor of a sealed chain, and the segment a later verification reads back.\<close>

definition floor_of :: "security_store \<Rightarrow> string \<Rightarrow> string option \<Rightarrow> int" where
  "floor_of s t ws = (case latest_audit_anchor s t ws of None \<Rightarrow> 0 | Some a \<Rightarrow> an_seq_end a)"

lemma sealed_last_seq: "sealed env (audit_view env) epochs c \<Longrightarrow> c \<noteq> [] \<Longrightarrow> row_seq (last c) = int (length c)"
  using head_of_sealed[of env "audit_view env" epochs c] by (simp add: row_seq_def audit_view_def)

lemma anchor_Some:
  assumes "tenant_sealed env epochs audit t" "retired_epochs env = Inr epochs" "0 < page" "0 \<le> floor_of s t ws"
    "anchor env audit s ext page now nid t ws = (Inr (Some a), s')"
  shows "tail_rows ws (floor_of s t ws) (chain_of audit t) \<noteq> []"
    and "an_seq_start a = row_seq (hd (tail_rows ws (floor_of s t ws) (chain_of audit t)))"
    and "an_seq_end a = int (length (chain_of audit t))"
    and "an_rollup_root_hash a = segment_root_hash env (tail_rows ws (floor_of s t ws) (chain_of audit t))
           (key_for_seq env (Some (an_seq_end a)) epochs)"
    and "latest_audit_anchor s' t ws = Some a"
proof -
  let ?c = "chain_of audit t" and ?tail = "tail_rows ws (floor_of s t ws) (chain_of audit t)"
  have sl: "sealed env (audit_view env) epochs ?c" using assms(1) by (simp add: tenant_sealed_def)
  note pages = anchor_pages_tail[OF sealed_rising[OF sl] assms(3,4), of ws]
  have tail: "?tail \<noteq> []" using assms(5) pages by (auto simp: anchor_def floor_of_def)
  then have ne: "filter (\<lambda>e. floor_of s t ws < row_seq e) ?c \<noteq> []" "?c \<noteq> []"
    by (auto simp: tail_rows_def filter_empty_conv)
  have a: "a = \<lparr>an_id = nid, an_tenant_id = t, an_workspace_id = ws, an_seq_start = row_seq (hd ?tail),
      an_seq_end = int (length ?c), an_rollup_root_hash = segment_root_hash env ?tail (key_for_seq env (Some (int (length ?c))) epochs),
      an_anchored_at = now, an_is_dev_fallback = \<not> ext\<rparr>" "s' = add_audit_anchor s a"
    using assms(2,5) pages tail ne sealed_last_seq[OF sl ne(2)]
    by (auto simp: anchor_def floor_of_def[symmetric] Let_def key_in_force_at_def segment_root_hash_def)
  show "?tail \<noteq> []" by (rule tail)
  show "an_seq_start a = row_seq (hd ?tail)" "an_seq_end a = int (length ?c)"
    "an_rollup_root_hash a = segment_root_hash env ?tail (key_for_seq env (Some (an_seq_end a)) epochs)" by (simp_all add: a(1))
  have "an_tenant_id a = t" "an_workspace_id a = ws" by (simp_all add: a(1))
  then show "latest_audit_anchor s' t ws = Some a"
    unfolding a(2) by (simp add: latest_audit_anchor_def add_audit_anchor_def anchors_of_def update_conv')
qed

lemma anchor_reads_back:
  assumes "latest_audit_anchor s t ws = Some a" "chain_of audit t = c @ later"
    "sealed env (audit_view env) epochs (c @ later)" "retired_epochs env = Inr epochs" "length (c @ later) \<le> VERIFY_LIMIT"
    "tail_rows ws f c \<noteq> []" "an_seq_start a = row_seq (hd (tail_rows ws f c))" "an_seq_end a = int (length c)"
  shows "verify_latest env audit s t ws =
     Inr (segment_root_hash env (tail_rows ws f c) (key_for_seq env (Some (an_seq_end a)) epochs) = an_rollup_root_hash a, Some a)"
proof -
  have sorted: "sorted_wrt (<) (map row_seq (c @ later))" using sealed_rising[OF assms(3)] by (simp add: rising_def audit_seq)
  have c: "c \<noteq> []" using assms(6) by (auto simp: tail_rows_def)
  have nums: "map ae_seq (c @ later) = map (\<lambda>i. Some (int i + 1)) [0..<length (c @ later)]"
    using assms(3) by (simp add: sealed_def audit_view_def)
  have lt: "length c - 1 < length (c @ later)" using c by (cases c) auto
  then have "ae_seq ((c @ later) ! (length c - 1)) = Some (int (length c - 1) + 1)"
    using arg_cong[OF nums, of "\<lambda>xs. xs ! (length c - 1)"] by (simp add: nth_map del: upt_Suc map_append)
  then have last: "row_seq (last c) = int (length c)" using c by (cases c rule: rev_cases) (auto simp: row_seq_def nth_append)
  have later: "int (length c) < row_seq e" if "e \<in> set later" for e
    using sorted that last_in_set[OF c] unfolding last[symmetric] by (simp add: sorted_wrt_append)
  have "filter (\<lambda>e. an_seq_start a \<le> row_seq e \<and> row_seq e \<le> an_seq_end a) (filter (in_workspace ws) (c @ later)) =
      filter (\<lambda>e. an_seq_start a \<le> row_seq e \<and> row_seq e \<le> an_seq_end a) (filter (in_workspace ws) c)"
    using later assms(8) by (auto simp: filter_empty_conv not_le)
  also have "\<dots> = tail_rows ws f c"
    using anchored_rows[of c ws f] sorted assms(6-8) last by (simp add: sorted_wrt_append)
  finally show ?thesis
    using assms(1,2,4,5) by (simp add: verify_latest_def audit_query_def audit_seq key_in_force_at_def Let_def VERIFY_LIMIT_def)
qed

text \<open>An anchor goes on matching. Whatever is written or drained after it was taken, and also after the sealing
  key is rotated with the old key recorded as retired, verifying the latest anchor recomputes the stored root: for an
  anchor over the whole tenant or over one workspace, for every page size of the anchoring scan. The chain may hold
  at most the million rows the verification reads.\<close>

lemma anchored_segment_still_verifies:
  assumes "retired_epochs env0 = Inr []" and "au_key env0 \<noteq> []" and "0 < page" and "0 \<le> floor_of sec t ws"
    and "s0 = audit_run env0 audit_store_empty ops0" and "anchor env0 s0 sec ext page now nid t ws = (Inr (Some a), sec')"
    and "s1 = audit_run env0 s0 ops1" and "retired_epochs env1 = Inr [(int (length (chain_of s1 t)) + 1, au_key env0)]"
    and "au_hmac env1 = au_hmac env0" "au_iso env1 = au_iso env0" "au_frepr env1 = au_frepr env0"
    and "s2 = audit_run env1 s1 ops2" and "length (chain_of s2 t) \<le> VERIFY_LIMIT"
  shows "verify_latest env0 s1 sec' t ws = Inr (True, Some a) \<and> verify_latest env1 s2 sec' t ws = Inr (True, Some a)"
proof -
  let ?e1 = "[(int (length (chain_of s1 t)) + 1, au_key env0)]"
  have 0: "tenant_sealed env0 [] s0 t" "tenant_sealed env0 [] s1 t"
    using sealed_run[OF tenant_sealed_empty] sealed_run[OF sealed_run[OF tenant_sealed_empty]] assms(5,7) by auto
  have "tenant_sealed env1 ?e1 s1 t"
    using sealed_rotate[of env0 "audit_view env0" "[]" "chain_of s1 t" env1] 0(2) assms(9) audit_view_eq[OF assms(10,11)]
    by (simp add: tenant_sealed_def)
  then have 1: "tenant_sealed env1 ?e1 s2 t" using sealed_run assms(12) by blast
  obtain r1 where r1: "chain_of s1 t = chain_of s0 t @ r1" using extends_run[of env0 s0 t ops1] assms(7) by (auto simp: extends_by_def)
  obtain r2 where r2: "chain_of s2 t = chain_of s1 t @ r2" using extends_run[of env1 s1 t ops2] assms(12) by (auto simp: extends_by_def)
  note A = anchor_Some[OF 0(1) assms(1,3,4,6)]
  have k0: "key_for_seq env0 (Some (an_seq_end a)) [] = au_key env0" "key_for_seq env1 (Some (an_seq_end a)) ?e1 = au_key env0"
    using A(3) r1 by (simp_all add: key_for_seq_def)
  have root: "segment_root_hash env1 x (au_key env0) = segment_root_hash env0 x (au_key env0)" for x
    using assms(2,9) by (simp add: segment_root_hash_def rollup_key_def)
  have "verify_latest env0 s1 sec' t ws = Inr (True, Some a)"
    using anchor_reads_back[OF A(5) r1 0(2)[unfolded tenant_sealed_def r1] assms(1) _ A(1-3)] assms(13) r1 r2 k0 A(4) by simp
  moreover have "verify_latest env1 s2 sec' t ws = Inr (True, Some a)"
    using anchor_reads_back[OF A(5) _ _ assms(8) _ A(1-3), of s2 "r1 @ r2"] 1[unfolded tenant_sealed_def] assms(13) r1 r2 k0 A(4) root
    by simp
  ultimately show ?thesis ..
qed


definition demo_anchor :: "(py_error + audit_rollup_anchor option) \<times> security_store" where
  "demo_anchor = anchor demo_audit_env (audit_run demo_audit_env audit_store_empty [AWrite 0 None (demo_event ''t'')])
     security_store_empty False 1 5 ''a1'' ''t'' None"

subsection \<open>An anchor pins what came before it\<close>

lemma rollup_text_inject:
  assumes "rollup_text hs = rollup_text hs'" "list_all (\<lambda>h. CHR 0x1E \<notin> set h) hs" "list_all (\<lambda>h. CHR 0x1E \<notin> set h) hs'"
  shows "hs = hs'"
proof -
  have "concat (map (\<lambda>h. h @ [CHR 0x1E]) hs) = concat (map (\<lambda>h. h @ [CHR 0x1E]) hs')"
    using assms(1) by (simp add: rollup_text_def)
  then show ?thesis using assms(2,3)
  proof (induction hs arbitrary: hs')
    case Nil
    then show ?case by (cases hs') auto
  next
    case (Cons h hs)
    then obtain h' ts where hs': "hs' = h' # ts" by (cases hs') auto
    have "h = h'" using Cons.prems unfolding hs' by (auto dest!: sep_unique[rotated 2])
    then show ?case using Cons unfolding hs' by simp
  qed
qed

definition anchored_segment :: "audit_rollup_anchor \<Rightarrow> audit_event list \<Rightarrow> audit_event list" where
  "anchored_segment a c = filter (\<lambda>e. an_seq_start a \<le> row_seq e \<and> row_seq e \<le> an_seq_end a) c"

definition hex_hashes :: "audit_event list \<Rightarrow> bool" where
  "hex_hashes c \<longleftrightarrow> list_all (\<lambda>e. CHR 0x1E \<notin> set (hash_or_empty e)) c"

lemma verify_latest_root:
  assumes "verify_latest env audit s t None = Inr (True, Some a)" "retired_epochs env = Inr epochs"
    "length (chain_of audit t) \<le> VERIFY_LIMIT"
  shows "an_rollup_root_hash a = segment_root_hash env (anchored_segment a (chain_of audit t)) (key_for_seq env (Some (an_seq_end a)) epochs)"
  using assms by (auto simp: verify_latest_def audit_query_def audit_seq key_in_force_at_def Let_def VERIFY_LIMIT_def
      anchored_segment_def in_workspace_def split: option.splits)

text \<open>The chain up to the last row of its anchored segment.\<close>

lemma segment_end:
  assumes "sorted_wrt (<) (map row_seq c)" "anchored_segment a c \<noteq> []"
  shows "filter (\<lambda>e. row_seq e \<le> an_seq_end a) c \<noteq> [] \<and>
    last (filter (\<lambda>e. row_seq e \<le> an_seq_end a) c) = last (anchored_segment a c)"
proof -
  let ?p = "filter (\<lambda>e. row_seq e \<le> an_seq_end a) c"
  have seg: "anchored_segment a c = filter (\<lambda>e. an_seq_start a \<le> row_seq e) ?p" by (simp add: anchored_segment_def conj_commute)
  have sp: "sorted_wrt (<) (map row_seq ?p)" using assms(1) by (simp add: sorted_wrt_map sorted_wrt_filter)
  have ne: "?p \<noteq> []" using assms(2) seg by (auto simp: filter_empty_conv)
  obtain e where e: "e \<in> set ?p" "an_seq_start a \<le> row_seq e" using assms(2) seg by (auto simp: filter_empty_conv)
  have "an_seq_start a \<le> row_seq (last ?p)" using below_last[OF sp e(1)] e(2) by simp
  then have "last (filter (\<lambda>e. an_seq_start a \<le> row_seq e) ?p) = last ?p"
    using ne by (metis append_butlast_last_id filter.simps(1) filter.simps(2) filter_append last_snoc)
  then show ?thesis using ne seg by simp
qed


lemma checked_prefix:
  assumes "check_rows env v epochs None c = Inr (Inr h)" "c = p @ q" shows "check_rows env v epochs None p = Inr (Inr (head_hash v p))"
  using assms check_rows_head[of env v epochs p] by (auto simp: check_rows_append split: sum.splits)

lemma checked_hash_present: "check_rows env v epochs None c = Inr (Inr h) \<Longrightarrow> c \<noteq> [] \<Longrightarrow> cv_hash v (last c) \<noteq> None"
  by (cases c rule: rev_cases) (auto simp: check_rows_snoc)


definition demo_pinned :: audit_store where
  "demo_pinned = audit_run demo_binding_env audit_store_empty [AWrite 0 None (demo_event ''t'')]"

definition demo_later :: audit_store where
  "demo_later = audit_run demo_binding_env demo_pinned [AWrite 1 None (demo_event ''t'')]"

definition demo_pin :: "(py_error + audit_rollup_anchor option) \<times> security_store" where
  "demo_pin = anchor demo_binding_env demo_pinned security_store_empty False 7 5 ''a1'' ''t'' None"


subsection \<open>One list of epochs for two streams\<close>

definition demo_signal :: "string \<Rightarrow> security_event" where
  "demo_signal t = \<lparr>sx_tenant_id = t, sx_ts = 0, sx_event_type = PERMISSION_DENIED, sx_reason = ''grant_missing'', sx_actor = Some ''bot'',
     sx_actor_tier = None, sx_workspace_id = None, sx_ip_address = None, sx_user_agent = None, sx_resource = None, sx_resource_id = None,
     sx_on_behalf_of = None, sx_detail = [], sx_seq = None, sx_prev_hash = None, sx_hash = None\<rparr>"

lemma security_stream_verifies:
  assumes "retired_epochs env = Inr []"
  shows "security_verify env (foldl (\<lambda>s (fault, e). security_record env s fault e) security_store_empty signals) t page_size = Inr (True, None)"
  using sealed_verifies[OF sealed_records[OF stream_sealed_empty, unfolded stream_sealed_def] assms] by (simp add: security_verify_def)

text \<open>The rotation that keeps the audit chain verifying (one row, hence the boundary 2) breaks the security stream of the same
  tenant when that holds two rows: the stream has its own sequence numbers and is checked against the audit boundary.\<close>

lemma audit_rotation_breaks_the_security_stream:
  "let audit = audit_run demo_audit_env audit_store_empty [AWrite 0 None (demo_event ''t'')];
       stream = foldl (\<lambda>s (fault, e). security_record demo_audit_env s fault e) security_store_empty
                  [(None, demo_signal ''t''), (None, demo_signal ''t'')]
   in audit_verify demo_rotated_env audit ''t'' 10 0 None = Inr (True, None) \<and>
      security_verify demo_audit_env stream ''t'' 10 = Inr (True, None) \<and>
      security_verify demo_rotated_env stream ''t'' 10 = Inr (False, Some 2)"
  by code_simp

end
