(* ===== verification/Floats.thy ===== *)
theory Floats
  imports Values
begin

text \<open>
  Python's floats: IEEE 754 binary64 with rounding half to even, as the values of \<open>pyfloat\<close>. \<open>round_float\<close> is the float
  nearest to a rational (53 significant bits, fewer below the normal range, \<open>FNonFinite\<close> beyond it), and each operation
  rounds its exact result. Infinities and not-a-number are one value, so \<^verbatim>\<open>round\<close> of either is one error.
\<close>

definition floor_log2 :: "rat \<Rightarrow> int" where
  "floor_log2 x =
     (let (a, b) = quotient_of x; e = int (bit_length (nat a)) - int (bit_length (nat b))
      in if 2 powi e \<le> x then e else e - 1)"

text \<open>The spacing of the floats around a number, and the nearest point of that grid.\<close>

definition spacing_exp :: "rat \<Rightarrow> int" where
  "spacing_exp x = max (floor_log2 \<bar>x\<bar> - 52) (- 1074)"

definition nearest :: "rat \<Rightarrow> rat" where
  "nearest x = (if x = 0 then 0 else of_int (round_half_even (x / 2 powi spacing_exp x)) * 2 powi spacing_exp x)"

definition round_float :: "rat \<Rightarrow> pyfloat" where
  "round_float x = (if \<bar>nearest x\<bar> < 2 ^ 1024 then FFin (nearest x) else FNonFinite)"

text \<open>\<^verbatim>\<open>float(i)\<close>; \<open>None\<close> is the \<^verbatim>\<open>OverflowError\<close>.\<close>

definition float_of_int :: "int \<Rightarrow> pyfloat option" where
  "float_of_int i = (case round_float (of_int i) of FFin r \<Rightarrow> Some (FFin r) | FNonFinite \<Rightarrow> None)"

fun float_mul :: "pyfloat \<Rightarrow> pyfloat \<Rightarrow> pyfloat" where
  "float_mul (FFin a) (FFin b) = round_float (a * b)"
| "float_mul _ _ = FNonFinite"

fun float_add :: "pyfloat \<Rightarrow> pyfloat \<Rightarrow> pyfloat" where
  "float_add (FFin a) (FFin b) = round_float (a + b)"
| "float_add _ _ = FNonFinite"

subsection \<open>Bit length and logarithm\<close>

lemma bit_length_lower: "n \<noteq> 0 \<Longrightarrow> 2 ^ (bit_length n - 1) \<le> n"
proof (induction n rule: bit_length.induct)
  case (1 n)
  show ?case
  proof (cases "n div 2 = 0")
    case True
    then show ?thesis using 1(2) by (simp add: bit_length.simps[of n] bit_length.simps[of 0])
  next
    case False
    from 1(1)[OF 1(2) this] have ih: "2 ^ (bit_length (n div 2) - 1) \<le> n div 2" .
    have two: "bit_length n = Suc (bit_length (n div 2))" using 1(2) by (subst bit_length.simps) simp
    have "bit_length (n div 2) \<noteq> 0" using False bit_length.simps[of "n div 2"] by (metis nat.distinct(1))
    then have "(2::nat) ^ (bit_length n - 1) = 2 * 2 ^ (bit_length (n div 2) - 1)"
      unfolding two by (cases "bit_length (n div 2)") simp_all
    then show ?thesis using ih by simp
  qed
qed

lemma bit_length_upper: "n < 2 ^ bit_length n"
  by (induction n rule: bit_length.induct) (subst bit_length.simps, auto)

lemma bit_length_bounds:
  assumes "0 < a"
  shows "2 powi (int (bit_length (nat a)) - 1) \<le> (of_int a :: rat)" "(of_int a :: rat) < 2 powi int (bit_length (nat a))"
proof -
  define n where "n = nat a"
  have a: "of_int a = (of_nat n :: rat)" and n: "n \<noteq> 0" using assms by (simp_all add: n_def)
  have L: "bit_length n \<noteq> 0" using n bit_length.simps[of n] by (metis nat.distinct(1))
  have "of_nat (2 ^ (bit_length n - 1)) \<le> (of_nat n :: rat)" using bit_length_lower[OF n] by (simp only: of_nat_le_iff)
  moreover have "(2::rat) powi (int (bit_length n) - 1) = 2 ^ (bit_length n - 1)"
    using L by (simp add: power_int_def nat_diff_distrib)
  ultimately show "2 powi (int (bit_length (nat a)) - 1) \<le> (of_int a :: rat)" by (simp add: a flip: n_def)
  have "of_nat n < (of_nat (2 ^ bit_length n) :: rat)" using bit_length_upper[of n] by (simp only: of_nat_less_iff)
  then show "(of_int a :: rat) < 2 powi int (bit_length (nat a))" by (simp add: a flip: n_def)
qed

lemma floor_log2_bounds:
  assumes "0 < x"
  shows "2 powi floor_log2 x \<le> x" "x < 2 powi (floor_log2 x + 1)"
proof -
  obtain a b where q: "quotient_of x = (a, b)" by (cases "quotient_of x")
  have b: "0 < b" using quotient_of_denom_pos[OF q] .
  have x: "x = of_int a / of_int b" using quotient_of_div[OF q] .
  have a: "0 < a" using assms x b by (simp add: zero_less_divide_iff)
  let ?A = "int (bit_length (nat a))" and ?B = "int (bit_length (nat b))"
  note A = bit_length_bounds[OF a] and B = bit_length_bounds[OF b]
  have hi: "x < 2 powi (?A - ?B + 1)"
  proof -
    have "of_int a < 2 powi (?A - ?B + 1) * (2 powi (?B - 1) :: rat)" using A(2) by (simp add: power_int_add[symmetric])
    also have "\<dots> \<le> 2 powi (?A - ?B + 1) * of_int b" using B(1) by (intro mult_left_mono) auto
    finally show ?thesis using b by (simp add: x field_simps)
  qed
  have lo: "2 powi (?A - ?B - 1) \<le> x"
  proof -
    have "2 powi (?A - ?B - 1) * of_int b \<le> 2 powi (?A - ?B - 1) * (2 powi ?B :: rat)" using B(2) by (intro mult_left_mono) auto
    also have "\<dots> = 2 powi (?A - 1)" by (subst power_int_add[symmetric]) simp_all
    also have "\<dots> \<le> of_int a" using A(1) .
    finally show ?thesis using b by (simp add: x field_simps)
  qed
  show "2 powi floor_log2 x \<le> x" using lo by (auto simp: floor_log2_def q Let_def)
  show "x < 2 powi (floor_log2 x + 1)" using hi by (auto simp: floor_log2_def q Let_def)
qed

lemma floor_log2_mono: "0 < x \<Longrightarrow> x \<le> y \<Longrightarrow> floor_log2 x \<le> floor_log2 y"
proof (rule ccontr)
  assume a: "0 < x" "x \<le> y" "\<not> floor_log2 x \<le> floor_log2 y"
  then have "(2::rat) powi (floor_log2 y + 1) \<le> 2 powi floor_log2 x" by (intro power_int_increasing) auto
  then show False using floor_log2_bounds[of x] floor_log2_bounds[of y] a(1,2) by linarith
qed

subsection \<open>Rounding\<close>

lemma round_mono: "x \<le> y \<Longrightarrow> round_half_even x \<le> round_half_even y"
proof -
  assume le: "x \<le> y"
  show ?thesis
  proof (cases "\<lfloor>x\<rfloor> = \<lfloor>y\<rfloor>")
    case True
    then show ?thesis using le by (auto simp: round_half_even_def Let_def)
  next
    case False
    then have "\<lfloor>x\<rfloor> + 1 \<le> \<lfloor>y\<rfloor>" using floor_mono[OF le] by linarith
    then show ?thesis by (auto simp: round_half_even_def Let_def)
  qed
qed

lemma round_int [simp]: "round_half_even (of_int n) = n"
  by (simp add: round_half_even_def Let_def)

lemma round_bounds: "of_int n \<le> x \<Longrightarrow> n \<le> round_half_even x" "x \<le> of_int n \<Longrightarrow> round_half_even x \<le> n"
  using round_mono[of "of_int n" x] round_mono[of x "of_int n"] by simp_all

lemma powi_int: "0 \<le> k \<Longrightarrow> (2::rat) powi k = of_int (2 ^ nat k)"
  by (simp add: power_int_def)

lemma powi_grid: "e \<le> k \<Longrightarrow> (of_int (2 ^ nat (k - e)) :: rat) = 2 powi k / 2 powi e"
  using powi_int[of "k - e"] power_int_diff[of "2::rat" k e] by simp

lemma nearest_nonneg: "0 \<le> x \<Longrightarrow> 0 \<le> nearest x"
  using round_bounds(1)[of 0 "x / 2 powi spacing_exp x"] by (simp add: nearest_def)

text \<open>A power of two that is on the grid bounds the rounded value as it bounds the number.\<close>

lemma nearest_above_power:
  assumes "2 powi k \<le> x" "- 1074 \<le> k"
  shows "2 powi k \<le> nearest x"
proof -
  have x: "0 < x" using assms(1) by (rule order.strict_trans2[rotated]) simp
  let ?e = "spacing_exp x"
  have "k \<le> floor_log2 x"
  proof (rule ccontr)
    assume "\<not> k \<le> floor_log2 x"
    then have "(2::rat) powi (floor_log2 x + 1) \<le> 2 powi k" by (intro power_int_increasing) auto
    then show False using floor_log2_bounds(2)[OF x] assms(1) by linarith
  qed
  define m where "m = max k ?e"
  have m: "2 powi m \<le> x"
  proof (cases "?e \<le> k")
    case True
    then show ?thesis using assms(1) by (simp add: m_def max_def)
  next
    case False
    then have "?e \<le> floor_log2 x" using assms(2) x by (auto simp: spacing_exp_def max_def split: if_splits)
    then have "(2::rat) powi ?e \<le> 2 powi floor_log2 x" by (intro power_int_increasing) auto
    then show ?thesis using False floor_log2_bounds(1)[OF x] by (simp add: m_def max_def)
  qed
  have d: "?e \<le> m" by (simp add: m_def)
  have "of_int (2 ^ nat (m - ?e)) \<le> x / 2 powi ?e" unfolding powi_grid[OF d] using m by (simp add: divide_right_mono)
  then have "(of_int (2 ^ nat (m - ?e)) :: rat) \<le> of_int (round_half_even (x / 2 powi ?e))"
    using round_bounds(1) by (simp only: of_int_le_iff)
  then have "2 powi m / 2 powi ?e \<le> (of_int (round_half_even (x / 2 powi ?e)) :: rat)" unfolding powi_grid[OF d] .
  then have "2 powi m \<le> nearest x" using x by (simp add: nearest_def field_simps)
  moreover have "(2::rat) powi k \<le> 2 powi m" by (intro power_int_increasing) (auto simp: m_def)
  ultimately show ?thesis by linarith
qed

lemma nearest_below_power:
  assumes "0 \<le> x" "x \<le> 2 powi k" "spacing_exp x \<le> k"
  shows "nearest x \<le> 2 powi k"
proof (cases "x = 0")
  case False
  let ?e = "spacing_exp x"
  have "x / 2 powi ?e \<le> of_int (2 ^ nat (k - ?e))" unfolding powi_grid[OF assms(3)] using assms(2) by (simp add: divide_right_mono)
  then have "(of_int (round_half_even (x / 2 powi ?e)) :: rat) \<le> of_int (2 ^ nat (k - ?e))"
    using round_bounds(2) by (simp only: of_int_le_iff)
  then have "of_int (round_half_even (x / 2 powi ?e)) \<le> (2 powi k / 2 powi ?e :: rat)" unfolding powi_grid[OF assms(3)] .
  then show ?thesis using False by (simp add: nearest_def field_simps)
qed (simp add: nearest_def)

lemma nearest_mono:
  assumes "0 \<le> x" "x \<le> y"
  shows "nearest x \<le> nearest y"
proof (cases "x = 0")
  case True
  then show ?thesis using nearest_nonneg[of y] assms by (simp add: nearest_def)
next
  case False
  then have x: "0 < x" "0 < y" using assms by auto
  have le: "floor_log2 x \<le> floor_log2 y" using floor_log2_mono x(1) assms(2) .
  show ?thesis
  proof (cases "spacing_exp x = spacing_exp y")
    case True
    have "x / 2 powi spacing_exp y \<le> y / 2 powi spacing_exp y" using assms(2) by (simp add: divide_right_mono)
    from round_mono[OF this] show ?thesis using x True by (simp add: nearest_def mult_right_mono)
  next
    case False
    have ey: "spacing_exp y = floor_log2 y - 52" and lt: "floor_log2 x < floor_log2 y"
      using False le x by (auto simp: spacing_exp_def max_def split: if_splits)
    have "(2::rat) powi (floor_log2 x + 1) \<le> 2 powi floor_log2 y" using lt by (intro power_int_increasing) auto
    then have up: "x \<le> 2 powi floor_log2 y" using floor_log2_bounds(2)[OF x(1)] by linarith
    have big: "- 1074 \<le> floor_log2 y - 52" using ey by (simp add: spacing_exp_def max_def split: if_splits)
    have "spacing_exp x \<le> floor_log2 y" using lt big x by (auto simp: spacing_exp_def max_def)
    from nearest_below_power[OF assms(1) up this] nearest_above_power[OF floor_log2_bounds(1)[OF x(2)]] big
    show ?thesis by linarith
  qed
qed

text \<open>Evaluation: the nearest float of a number whose binary order is known, and integers below \<open>2 ^ 53\<close>.\<close>

lemma floor_log2_eq:
  assumes "2 powi e \<le> x" "x < 2 powi (e + 1)"
  shows "floor_log2 x = e"
proof -
  have x: "0 < x" using assms(1) by (rule order.strict_trans2[rotated]) simp
  note b = floor_log2_bounds[OF x]
  have "(2::rat) powi e < 2 powi (floor_log2 x + 1)" "(2::rat) powi floor_log2 x < 2 powi (e + 1)" using b assms by linarith+
  then have "e < floor_log2 x + 1" "floor_log2 x < e + 1"
    using power_int_increasing[of "floor_log2 x + 1" e "2::rat"] power_int_increasing[of "e + 1" "floor_log2 x" "2::rat"] by linarith+
  then show ?thesis by simp
qed

lemma nearest_eval:
  assumes "2 powi e \<le> x" "x < 2 powi (e + 1)" "- 1022 \<le> e"
  shows "nearest x = of_int (round_half_even (x / 2 powi (e - 52))) * 2 powi (e - 52)"
proof -
  have x: "0 < x" using assms(1) by (rule order.strict_trans2[rotated]) simp
  have "spacing_exp x = e - 52" using floor_log2_eq[OF assms(1,2)] x assms(3) by (simp add: spacing_exp_def)
  then show ?thesis using x by (simp add: nearest_def)
qed

lemma round_near: "of_int q - 1 / 2 < x \<Longrightarrow> x < of_int q + 1 / 2 \<Longrightarrow> round_half_even x = q"
proof -
  assume a: "of_int q - 1 / 2 < x" "x < of_int q + 1 / 2"
  then consider "\<lfloor>x\<rfloor> = q" "x - of_int q < 1 / 2" | "\<lfloor>x\<rfloor> = q - 1" "1 / 2 < x - of_int (q - 1)"
  proof (cases "of_int q \<le> x")
    case True
    then have "\<lfloor>x\<rfloor> = q" using a by (simp add: floor_eq_iff)
    then show ?thesis using a that(1) by linarith
  next
    case False
    then have "\<lfloor>x\<rfloor> = q - 1" using a by (simp add: floor_eq_iff)
    then show ?thesis using a that(2) by simp
  qed
  then show ?thesis by cases (auto simp: round_half_even_def Let_def)
qed

lemma round_tie: "even q \<Longrightarrow> \<bar>x - of_int q\<bar> = 1 / 2 \<Longrightarrow> round_half_even x = q"
proof -
  assume a: "even q" "\<bar>x - of_int q\<bar> = 1 / 2"
  then consider "x = of_int q + 1 / 2" | "x = of_int (q - 1) + 1 / 2" by (auto simp: abs_if split: if_splits)
  then show ?thesis
  proof cases
    case 1
    then have "\<lfloor>x\<rfloor> = q" by (simp add: floor_eq_iff)
    then show ?thesis using 1 a(1) by (simp add: round_half_even_def Let_def)
  next
    case 2
    then have "\<lfloor>x\<rfloor> = q - 1" by (simp add: floor_eq_iff)
    then show ?thesis using 2 a(1) by (simp add: round_half_even_def Let_def)
  qed
qed

lemma round_float_eval:
  assumes "2 ^ 52 \<le> x * 2 ^ k" "x * 2 ^ k < 2 ^ 53" "k \<le> 1074" "round_half_even (x * 2 ^ k) = q" "0 \<le> q" "q \<le> 2 ^ 53"
  shows "round_float x = FFin (of_int q / 2 ^ k)"
proof -
  have p: "(2::rat) powi (52 - int k) = 2 ^ 52 / 2 ^ k" "(2::rat) powi (52 - int k + 1) = 2 ^ 53 / 2 ^ k" "(2::rat) powi (- int k) = 1 / 2 ^ k"
    by (simp_all add: power_int_diff power_int_add power_int_minus inverse_eq_divide)
  have b: "2 powi (52 - int k) \<le> x" "x < 2 powi (52 - int k + 1)" unfolding p using assms(1,2) by (simp_all add: field_simps)
  have e: "52 - int k - 52 = - int k" by simp
  have n: "nearest x = of_int q / 2 ^ k" using nearest_eval[OF b] assms(3,4) unfolding e p by simp
  have "(of_int q :: rat) / 2 ^ k \<le> of_int q" using assms(5) by (simp add: divide_le_eq mult_le_cancel_left1)
  moreover have "q < 2 ^ 1024" using assms(6) power_strict_increasing[of 53 1024 "2::int"] by linarith
  then have "(of_int q :: rat) < of_int (2 ^ 1024)" by (simp only: of_int_less_iff)
  ultimately have "\<bar>of_int q / 2 ^ k\<bar> < (2::rat) ^ 1024" using assms(5) by (simp add: abs_of_nonneg)
  then show ?thesis by (simp add: round_float_def n)
qed

lemma nearest_int:
  assumes "0 \<le> n" "n < 2 ^ 53"
  shows "nearest (of_int n) = of_int n"
proof (cases "n = 0")
  case False
  then have x: "0 < (of_int n :: rat)" using assms(1) by simp
  let ?e = "spacing_exp (of_int n)"
  have "floor_log2 (of_int n) \<le> 52"
  proof (rule ccontr)
    assume "\<not> floor_log2 (of_int n) \<le> 52"
    then have "(2::rat) powi 53 \<le> 2 powi floor_log2 (of_int n)" by (intro power_int_increasing) auto
    then have "(2::rat) powi 53 \<le> of_int n" using floor_log2_bounds(1)[OF x] by linarith
    then have "(of_int (2 ^ 53) :: rat) \<le> of_int n" using powi_int[of 53] by simp
    then show False using assms(2) by (simp only: of_int_le_iff)
  qed
  moreover have "(0::int) \<le> 52 - (-1074)" by simp
  ultimately have e: "?e \<le> 0" using x by (simp add: spacing_exp_def)
  define d :: rat where "d = 2 powi ?e"
  have "of_int n / d = of_int (n * 2 ^ nat (0 - ?e))" using powi_grid[OF e] by (simp add: d_def)
  then have "of_int (round_half_even (of_int n / d)) = of_int n / d" by (metis round_int)
  moreover have "d \<noteq> 0" by (simp add: d_def)
  ultimately show ?thesis using False by (simp add: nearest_def flip: d_def)
qed (simp add: nearest_def)

lemma round_float_int: "0 \<le> n \<Longrightarrow> n < 2 ^ 53 \<Longrightarrow> round_float (of_int n) = FFin (of_int n)"
proof -
  assume n: "0 \<le> n" "n < 2 ^ 53"
  have "n < 2 ^ 1024" using n(2) power_increasing[of 53 1024 "2::int"] by linarith
  then have "(of_int n :: rat) < of_int (2 ^ 1024)" by (simp only: of_int_less_iff)
  then show ?thesis using n by (simp add: round_float_def nearest_int)
qed

lemma round_float_mono:
  assumes "0 \<le> x" "x \<le> y" "round_float y = FFin b"
  shows "\<exists>a. round_float x = FFin a \<and> 0 \<le> a \<and> a \<le> b"
  using nearest_mono[OF assms(1,2)] nearest_nonneg[OF assms(1)] assms(3) by (auto simp: round_float_def split: if_splits)

lemma float_of_int_overflow:
  assumes "2 ^ 1024 \<le> i" shows "float_of_int i = None"
proof -
  have "(of_int (2 ^ 1024) :: rat) \<le> of_int i" using assms by (simp only: of_int_le_iff)
  then have "(2::rat) powi 1024 \<le> of_int i" using powi_int[of 1024] by simp
  from nearest_above_power[OF this] have "2 powi 1024 \<le> nearest (of_int i)" by simp
  moreover have "(2::rat) powi 1024 = 2 ^ 1024" by (simp add: power_int_def)
  ultimately have "\<not> \<bar>nearest (of_int i)\<bar> < 2 ^ 1024" by linarith
  then show ?thesis by (simp only: float_of_int_def round_float_def if_False pyfloat.case)
qed

end
