(* ===== verification/RunEvents.thy ===== *)
theory RunEvents
  imports AuditLog Floats
begin

text \<open>
  What a call leaves on the run stream and in the audit row: the shaping functions of
  \<^verbatim>\<open>boltrig/kernel/run_event_projection.py\<close>, the schema findings and hints of
  \<^verbatim>\<open>boltrig/kernel/schema_diagnosis.py\<close> with the error of \<^verbatim>\<open>boltrig/models/errors.py\<close> that carries them, and the
  helpers of \<^verbatim>\<open>boltrig/kernel/dispatch.py\<close> that validate an instance and name the acted-on resource.

  The JSON Schema validator is the parameter \<open>iter_errors\<close>: for a schema and an instance, the schema path and
  the failing keyword of each error, in the order it yields them. SHA-256 is \<open>sha256\<close>, \<^verbatim>\<open>str()\<close> of a value that is
  not a string \<open>pstr\<close>. Frames are dictionaries.
\<close>

subsection \<open>Frames\<close>

definition MAX_PARAM_KEYS :: nat where "MAX_PARAM_KEYS = 50"

definition sorted_keys :: "pydict \<Rightarrow> string list" where
  "sorted_keys d = sort (map (\<lambda>(k, _). key_str k) d)"

definition summarise_params :: "pyval \<Rightarrow> pydict" where
  "summarise_params params =
     (case params of
        PDict d \<Rightarrow> [(KStr ''keys'', of_strs (take MAX_PARAM_KEYS (sorted_keys d))), (KStr ''count'', PInt (int (length d)))]
      | _ \<Rightarrow> [(KStr ''keys'', PList []), (KStr ''count'', PInt 0)])"

definition summarise_output :: "pyval \<Rightarrow> pydict" where
  "summarise_output output =
     (case output of PDict d \<Rightarrow> [(KStr ''keys'', of_strs (sorted_keys d))] | _ \<Rightarrow> [(KStr ''keys'', PList [])])"

definition media_payload :: "pydict \<Rightarrow> bool" where
  "media_payload d =
     (case dict_get d ''media_type'' of
        PStr m \<Rightarrow> startswith m ''image/'' \<or> startswith m ''audio/'' \<or> startswith m ''video/''
      | _ \<Rightarrow> False)"

fun event_safe :: "pyval \<Rightarrow> pyval" where
  "event_safe (PDict d) =
     PDict (build_dict (map (\<lambda>(k, v). (KStr (key_str k),
        if sensitive_key k \<or> (media_payload d \<and> key_str k \<in> {''data'', ''blob'', ''bytes''}) then PStr ''[redacted]''
        else event_safe v)) d))"
| "event_safe (PList xs) = PList (map event_safe xs)"
| "event_safe (PTuple xs) = PList (map event_safe xs)"
| "event_safe v = v"

text \<open>\<^verbatim>\<open>_tone_frame\<close>; \<open>None\<close> outside is the \<^verbatim>\<open>OverflowError\<close> of \<^verbatim>\<open>float\<close> on an integer beyond its range.\<close>

definition tone_intensity :: "pyval \<Rightarrow> pyval option" where
  "tone_intensity v =
     (case v of
        PInt i \<Rightarrow> map_option PFloat (float_of_int i)
      | PBool b \<Rightarrow> Some (PFloat (FFin (if b then 1 else 0)))
      | PFloat f \<Rightarrow> Some (PFloat f)
      | _ \<Rightarrow> Some (PFloat (FFin (1 / 2))))"

definition tone_frame :: "string \<Rightarrow> pyval \<Rightarrow> string option \<Rightarrow> pydict option option" where
  "tone_frame status output run_id =
     (if status \<noteq> ''ok'' then Some None
      else case output of
        PDict d \<Rightarrow>
          (case dict_get d ''tone'' of
             PDict block \<Rightarrow>
               (case dict_get block ''tone'' of
                  PStr label \<Rightarrow>
                    (if label = [] then Some None
                     else case tone_intensity (dict_get block ''intensity'') of
                       None \<Rightarrow> None
                     | Some intensity \<Rightarrow>
                         Some (Some [(KStr ''type'', PStr ''voice_tone''), (KStr ''tone'', PStr label),
                           (KStr ''intensity'', intensity), (KStr ''calibrated_on'', dict_get block ''calibrated_on''),
                           (KStr ''run_id'', of_opt run_id)]))
                | _ \<Rightarrow> Some None)
           | _ \<Rightarrow> Some None)
      | _ \<Rightarrow> Some None)"

definition result_frames :: "string \<Rightarrow> string \<Rightarrow> pyval \<Rightarrow> string option \<Rightarrow> string \<Rightarrow> pydict list option" where
  "result_frames verb status output run_id call_id =
     (let frame = [(KStr ''type'', PStr ''tool_result''), (KStr ''verb'', PStr verb), (KStr ''status'', PStr status),
            (KStr ''output'', if status = ''ok'' then event_safe output else PNone),
            (KStr ''run_id'', of_opt run_id), (KStr ''call_id'', PStr call_id),
            (KStr ''result_summary'', PDict (if status = ''ok'' then summarise_output output
               else [(KStr ''status'', PStr status)]))]
      in case tone_frame status output run_id of
           None \<Rightarrow> None
         | Some None \<Rightarrow> Some [frame]
         | Some (Some tone) \<Rightarrow> Some [frame, tone])"

subsection \<open>Schema findings\<close>

definition SCHEMA_KEYWORDS :: "string list" where
  "SCHEMA_KEYWORDS =
     [''additionalItems'', ''additionalProperties'', ''allOf'', ''anyOf'', ''const'', ''contains'',
      ''contentEncoding'', ''contentMediaType'', ''contentSchema'', ''dependentRequired'',
      ''dependentSchemas'', ''else'', ''enum'', ''exclusiveMaximum'', ''exclusiveMinimum'', ''format'',
      ''if'', ''items'', ''maxContains'', ''maxItems'', ''maxLength'', ''maxProperties'', ''maximum'',
      ''minContains'', ''minItems'', ''minLength'', ''minProperties'', ''minimum'', ''multipleOf'',
      ''not'', ''oneOf'', ''pattern'', ''patternProperties'', ''prefixItems'', ''properties'',
      ''propertyNames'', ''required'', ''then'', ''type'', ''unevaluatedItems'', ''unevaluatedProperties'',
      ''uniqueItems'']"

definition MAX_SCHEMA_ERRORS :: nat where "MAX_SCHEMA_ERRORS = 10"
definition MAX_SCHEMA_PATH_DEPTH :: nat where "MAX_SCHEMA_PATH_DEPTH = 10"
definition MAX_SCHEMA_PATH_SEGMENT :: nat where "MAX_SCHEMA_PATH_SEGMENT = 64"

datatype path_segment = SegName string | SegIndex nat

fun segment_str :: "path_segment \<Rightarrow> string" where
  "segment_str (SegName s) = s"
| "segment_str (SegIndex n) = show_nat n"

type_synonym schema_validator = "pydict \<Rightarrow> pyval \<Rightarrow> (path_segment list \<times> string option) list"

record schema_finding =
  sf_schema_path :: "string list"
  sf_keyword :: string

definition finding_of :: "path_segment list \<times> string option \<Rightarrow> schema_finding" where
  "finding_of e =
     \<lparr>sf_schema_path = map (\<lambda>seg. take MAX_SCHEMA_PATH_SEGMENT (segment_str seg)) (take MAX_SCHEMA_PATH_DEPTH (fst e)),
      sf_keyword = (case snd e of None \<Rightarrow> ''unknown'' | Some k \<Rightarrow> if k \<in> set SCHEMA_KEYWORDS then k else ''unknown'')\<rparr>"

definition validate :: "schema_validator \<Rightarrow> pydict \<Rightarrow> pyval \<Rightarrow> schema_finding list" where
  "validate iter_errors schema inst =
     (if schema = [] then [] else map finding_of (take MAX_SCHEMA_ERRORS (iter_errors schema inst)))"

definition schema_digest :: "(rat \<Rightarrow> string) \<Rightarrow> (string \<Rightarrow> string) \<Rightarrow> pydict \<Rightarrow> py_error + string" where
  "schema_digest frepr sha256 schema =
     rbind (json_dumps_default frepr (PDict schema)) (\<lambda>canonical. Inr (sha256 canonical))"

subsection \<open>Hints for the caller\<close>

definition HINT_KEYWORDS :: "string list" where
  "HINT_KEYWORDS = [''type'', ''enum'', ''required'', ''format'', ''minimum'', ''maximum'', ''minItems'', ''maxItems'',
     ''minLength'', ''maxLength'']"

definition MAX_HINT_ITEMS :: nat where "MAX_HINT_ITEMS = 20"

fun walk :: "pyval \<Rightarrow> string list \<Rightarrow> py_error + pyval option" where
  "walk node [] = Inr (Some node)"
| "walk node (seg # segs) =
     (case node of
        PDict d \<Rightarrow> (case map_of d (KStr seg) of None \<Rightarrow> Inr None | Some v \<Rightarrow> walk v segs)
      | PList xs \<Rightarrow>
          (if \<not> py_isdigit seg then Inr None
           else case py_int_of_digits seg of
                  None \<Rightarrow> Inl ValueError
                | Some i \<Rightarrow> if i < int (length xs) then walk (xs ! nat i) segs else Inr None)
      | _ \<Rightarrow> Inr None)"

text \<open>The segment after the last \<^verbatim>\<open>properties\<close>.\<close>

fun after_last :: "string \<Rightarrow> string list \<Rightarrow> string list option" where
  "after_last x [] = None"
| "after_last x (y # ys) = (case after_last x ys of Some r \<Rightarrow> Some r | None \<Rightarrow> if y = x then Some ys else None)"

definition field_of :: "string list \<Rightarrow> string" where
  "field_of path = (case after_last ''properties'' path of Some (f # _) \<Rightarrow> f | _ \<Rightarrow> ''(root)'')"

definition bounded :: "(pyval \<Rightarrow> string) \<Rightarrow> pyval \<Rightarrow> pyval" where
  "bounded pstr v =
     (case v of
        PList xs \<Rightarrow> of_strs (map (\<lambda>x. take MAX_SCHEMA_PATH_SEGMENT (case x of PStr s \<Rightarrow> s | _ \<Rightarrow> pstr x)) (take MAX_HINT_ITEMS xs))
      | PBool b \<Rightarrow> PBool b
      | PInt i \<Rightarrow> PInt i
      | PFloat f \<Rightarrow> PFloat f
      | PStr s \<Rightarrow> PStr (take MAX_SCHEMA_PATH_SEGMENT s)
      | _ \<Rightarrow> PNone)"

record schema_hint =
  sh_field :: string
  sh_keyword :: string
  sh_expected :: "pyval option"

definition hint_of :: "(pyval \<Rightarrow> string) \<Rightarrow> pydict \<Rightarrow> schema_finding \<Rightarrow> py_error + schema_hint" where
  "hint_of pstr schema f =
     rbind (if sf_keyword f \<in> set HINT_KEYWORDS then walk (PDict schema) (sf_schema_path f) else Inr None) (\<lambda>node.
       Inr \<lparr>sh_field = field_of (sf_schema_path f), sh_keyword = sf_keyword f,
            sh_expected = (case node of None \<Rightarrow> None
               | Some v \<Rightarrow> if bounded pstr v = PNone then None else Some (bounded pstr v))\<rparr>)"

definition caller_hints :: "(pyval \<Rightarrow> string) \<Rightarrow> pydict \<Rightarrow> schema_finding list \<Rightarrow> py_error + schema_hint list" where
  "caller_hints pstr schema findings = rmap (hint_of pstr schema) findings"

subsection \<open>The schema error\<close>

record schema_error =
  se_message :: string
  se_errors :: "schema_finding list"
  se_schema_digest :: "string option"
  se_hints :: "schema_hint list"

definition finding_value :: "schema_finding \<Rightarrow> pyval" where
  "finding_value f = PDict [(KStr ''schema_path'', of_strs (sf_schema_path f)), (KStr ''keyword'', PStr (sf_keyword f))]"

definition schema_audit_detail :: "schema_error \<Rightarrow> pydict" where
  "schema_audit_detail e =
     (KStr ''schema_errors'', PList (map finding_value (se_errors e))) #
     optional_field ''schema_digest'' (se_schema_digest e) @
     (if length (se_errors e) \<ge> 10 then [(KStr ''truncated'', PBool True)] else [])"

definition hint_value :: "schema_hint \<Rightarrow> pyval" where
  "hint_value h = PDict ([(KStr ''field'', PStr (sh_field h)), (KStr ''keyword'', PStr (sh_keyword h))] @
     (case sh_expected h of None \<Rightarrow> [] | Some v \<Rightarrow> [(KStr ''expected'', v)]))"

definition schema_caller_detail :: "schema_error \<Rightarrow> pydict" where
  "schema_caller_detail e =
     (if se_hints e = [] then [] else [(KStr ''schema_hints'', PList (map hint_value (se_hints e)))]) @
     optional_field ''schema_digest'' (se_schema_digest e)"

definition schema_message :: "string \<Rightarrow> string \<Rightarrow> string" where
  "schema_message kind verb = ''invalid '' @ kind @ '' for '' @ [CHR 0x27] @ verb @ [CHR 0x27]"

record schema_env =
  sv_iter_errors :: schema_validator
  sv_frepr :: "rat \<Rightarrow> string"
  sv_sha :: "string \<Rightarrow> string"
  sv_pstr :: "pyval \<Rightarrow> string"

text \<open>\<^verbatim>\<open>_reject_if_invalid\<close>: \<open>Inl (Inl e)\<close> is the schema error, \<open>Inl (Inr x)\<close> an exception of the standard library.\<close>

definition reject_if_invalid ::
  "schema_env \<Rightarrow> string \<Rightarrow> string \<Rightarrow> pydict \<Rightarrow> pyval \<Rightarrow> (schema_error + py_error) + unit" where
  "reject_if_invalid env kind verb schema inst =
     (let errors = validate (sv_iter_errors env) schema inst
      in if errors = [] then Inr ()
         else case schema_digest (sv_frepr env) (sv_sha env) schema of
                Inl x \<Rightarrow> Inl (Inr x)
              | Inr digest \<Rightarrow>
                  (case caller_hints (sv_pstr env) schema errors of
                     Inl x \<Rightarrow> Inl (Inr x)
                   | Inr hints \<Rightarrow> Inl (Inl \<lparr>se_message = schema_message kind verb, se_errors = errors, se_schema_digest = Some digest,
                                        se_hints = hints\<rparr>)))"

subsection \<open>Reading a recorded failure\<close>

datatype diagnosis =
    NotRecorded
  | SchemaMoved pyval string
  | Diagnosed "pyval list" "pyval list" "pyval list" pyval bool

text \<open>\<^verbatim>\<open>sorted\<close> on names. A recorded key that the audit scrub replaced is a dictionary, which has no order; a name of the
  schema is a string.\<close>

definition sorted_names :: "pyval list \<Rightarrow> py_error + pyval list" where
  "sorted_names xs =
     (if length xs \<le> 1 then Inr xs
      else rbind (rmap (\<lambda>x. case x of PStr s \<Rightarrow> Inr s | _ \<Rightarrow> Inl TypeError) xs) (\<lambda>names. Inr (map PStr (sort names))))"

fun as_list :: "pyval \<Rightarrow> pyval list" where
  "as_list (PList xs) = xs"
| "as_list _ = []"

text \<open>\<open>detail\<close> is that of a row the dispatcher wrote: its parameters, if any, are the summary above.\<close>

definition diagnose :: "(rat \<Rightarrow> string) \<Rightarrow> (string \<Rightarrow> string) \<Rightarrow> pydict \<Rightarrow> pydict \<Rightarrow> py_error + diagnosis" where
  "diagnose frepr sha256 detail schema =
     (if map_of detail (KStr ''schema_errors'') = None then Inr NotRecorded
      else rbind (schema_digest frepr sha256 schema) (\<lambda>current.
        if dict_get detail ''schema_digest'' \<noteq> PStr current
        then Inr (SchemaMoved (dict_get detail ''schema_digest'') current)
        else
          (let keys = (case dict_get detail ''params'' of PDict p \<Rightarrow> as_list (dict_get p ''keys'') | _ \<Rightarrow> []);
               properties = (case dict_get schema ''properties'' of PDict p \<Rightarrow> sorted_keys p | _ \<Rightarrow> []);
               required = as_list (dict_get schema ''required'')
           in rbind (sorted_names (filter (\<lambda>k. k \<notin> set keys) required)) (\<lambda>missing.
              rbind (sorted_names (filter (\<lambda>k. properties \<noteq> [] \<and> k \<notin> PStr ` set properties) keys)) (\<lambda>unexpected.
                Inr (Diagnosed keys missing unexpected
                  (let errs = dict_get detail ''schema_errors'' in if truthy errs then errs else PList [])
                  (truthy (dict_get detail ''truncated''))))))))"

subsection \<open>The acted-on resource\<close>

definition RESOURCE_ID_KEYS :: "string list" where
  "RESOURCE_ID_KEYS = [''id'', ''resource_id'', ''target_id'', ''object_id'', ''item_id'', ''key'']"

definition RESOURCE_ID_MAXLEN :: nat where "RESOURCE_ID_MAXLEN = 128"

definition scalar_id :: "pyval \<Rightarrow> string option" where
  "scalar_id v = (case v of PStr s \<Rightarrow> Some s | PInt i \<Rightarrow> Some (show_int i) | _ \<Rightarrow> None)"

fun first_id :: "pydict \<Rightarrow> string list \<Rightarrow> string option" where
  "first_id params [] = None"
| "first_id params (k # ks) =
     (case scalar_id (dict_get params k) of
        Some s \<Rightarrow> if 0 < length s \<and> length s \<le> RESOURCE_ID_MAXLEN then Some s else first_id params ks
      | None \<Rightarrow> first_id params ks)"

definition resource_ref :: "string \<Rightarrow> pyval \<Rightarrow> string option \<times> string option" where
  "resource_ref noun params =
     (let resource = (if noun = [] then None else Some noun)
      in case params of PDict d \<Rightarrow> (resource, first_id d RESOURCE_ID_KEYS) | _ \<Rightarrow> (resource, None))"

subsection \<open>What an event may show\<close>

lemma build_dict_entries: "set (build_dict kvs) \<subseteq> set kvs"
proof -
  have up: "set (AList.update k v d) \<subseteq> insert (k, v) (set d)" for k :: pykey and v :: pyval and d by (induction d) auto
  have "set (foldl (\<lambda>d (k, v). AList.update k v d) d kvs) \<subseteq> set d \<union> set kvs" for d :: pydict
  proof (induction kvs arbitrary: d)
    case (Cons kv kvs)
    obtain k v where kv: "kv = (k, v)" by (cases kv)
    show ?case using Cons.IH[of "AList.update k v d"] up[of k v d] by (auto simp: kv)
  qed simp
  from this[of "[]"] show ?thesis by (simp add: build_dict_def)
qed

fun names_redacted :: "pyval \<Rightarrow> bool" where
  "names_redacted (PDict d) = list_all (\<lambda>(k, v). (sensitive_key k \<longrightarrow> v = PStr ''[redacted]'') \<and> names_redacted v) d"
| "names_redacted (PList xs) = list_all names_redacted xs"
| "names_redacted (PTuple xs) = list_all names_redacted xs"
| "names_redacted v = True"

text \<open>No secret reaches the run stream by its name: in the event-safe form of any value, at any depth, every entry
  whose key names a secret shows the redaction mark instead of its value.\<close>

lemma event_safe_redacts_by_name: "names_redacted (event_safe v)"
proof (induction v)
  case (PDict d)
  let ?f = "\<lambda>(k, v). (KStr (key_str k), if sensitive_key k \<or> (media_payload d \<and> key_str k \<in> {''data'', ''blob'', ''bytes''})
      then PStr ''[redacted]'' else event_safe v)"
  have "(sensitive_key k \<longrightarrow> v = PStr ''[redacted]'') \<and> names_redacted v" if "(k, v) \<in> set (map ?f d)" for k v
  proof -
    from that obtain k0 v0 where kv: "(k0, v0) \<in> set d" "(k, v) = ?f (k0, v0)" by auto
    have "names_redacted (event_safe v0)" using PDict[of "(k0, v0)" v0] kv(1) by simp
    then show ?thesis using kv(2) by (auto split: if_splits)
  qed
  then show ?case using build_dict_entries[of "map ?f d"] by (simp add: list_all_iff) blast
qed (simp_all add: list_all_iff)

text \<open>A secret-shaped string under an ordinary name is relayed as it is, although the approver's view of the same value
  hides it.\<close>

lemma event_safe_relays_secret_strings:
  "event_safe (PDict [(KStr ''note'', PStr ''Bearer abc'')]) = PDict [(KStr ''note'', PStr ''Bearer abc'')] \<and>
   secret_shaped (PDict [(KStr ''note'', PStr ''Bearer abc'')]) \<and>
   approval_display_value (PDict [(KStr ''note'', PStr ''Bearer abc'')]) = PDict [(KStr ''note'', PStr ''[redacted]'')]"
  by code_simp

subsection \<open>What a schema failure records\<close>


text \<open>Reading the recorded names back.\<close>

lemma sorted_names_strs: "sorted_names (map PStr xs) = Inr (map PStr (sort xs))"
proof -
  have "rmap (\<lambda>x. case x of PStr s \<Rightarrow> Inr s | _ \<Rightarrow> Inl TypeError) (map PStr xs) = Inr xs"
    by (induction xs) simp_all
  moreover have "length xs \<le> 1 \<Longrightarrow> sort xs = xs" by (cases xs) auto
  ultimately show ?thesis by (simp add: sorted_names_def)
qed

lemma sorted_filter_plain: "sorted xs \<Longrightarrow> sorted (filter P xs)" for xs :: "string list"
  using sorted_filter[of "\<lambda>x. x" xs P] by simp

lemma filter_strs: "filter P (map PStr xs) = map PStr (filter (\<lambda>s. P (PStr s)) xs)"
  by (induction xs) simp_all


definition demo_schema :: pydict where
  "demo_schema = [(KStr ''required'', of_strs [''to'']), (KStr ''properties'', PDict [(KStr ''to'', PDict []), (KStr ''cc'', PDict [])])]"

definition demo_schema_env :: schema_env where
  "demo_schema_env = \<lparr>sv_iter_errors = (\<lambda>schema inst. [([SegName ''required''], Some ''required'')]), sv_frepr = demo_frepr, sv_sha = id,
     sv_pstr = (\<lambda>_. '''')\<rparr>"


text \<open>Past the cap on the recorded names the diagnosis is wrong: a required name that was sent, but sorts behind fifty
  others, is reported missing, and nothing in the answer says that the names were cut.\<close>

definition demo_wide :: pydict where
  "demo_wide = map (\<lambda>i. (KStr (replicate i CHR ''a''), PNone)) [0..<50] @ [(KStr ''to'', PNone)]"

lemma capped_names_are_reported_missing:
  "''to'' \<in> set (sorted_keys demo_wide) \<and>
   (case diagnose demo_frepr id [(KStr ''schema_errors'', PList []), (KStr ''schema_digest'', PStr (projr (schema_digest demo_frepr id demo_schema))),
     (KStr ''params'', PDict (summarise_params (PDict demo_wide)))] demo_schema of
      Inr (Diagnosed keys missing unexpected errors truncated) \<Rightarrow> missing = [PStr ''to''] \<and> \<not> truncated | _ \<Rightarrow> False)"
  by code_simp

text \<open>A key that the audit scrub replaced stands in the row as a dictionary. Beside a second unknown key it cannot be sorted,
  and the reading raises.\<close>

lemma scrubbed_name_breaks_diagnosis:
  "diagnose demo_frepr id [(KStr ''schema_errors'', PList []), (KStr ''schema_digest'', PStr (projr (schema_digest demo_frepr id demo_schema))),
     (KStr ''params'', scrub_value demo_audit_env (PDict (summarise_params (PDict [(KStr ''hunter2'', PNone), (KStr ''b'', PNone)]))))] demo_schema
   = Inl TypeError"
  by code_simp

subsection \<open>A tone beyond the floats\<close>

lemma huge_tone_raises:
  "2 ^ 1024 \<le> i \<Longrightarrow> label \<noteq> [] \<Longrightarrow>
   tone_frame ''ok'' (PDict [(KStr ''tone'', PDict [(KStr ''tone'', PStr label), (KStr ''intensity'', PInt i)])]) run_id = None"
  by (simp add: tone_frame_def dict_get_def tone_intensity_def float_of_int_overflow)

end
