(* ===== verification/Dispatch.thy ===== *)
theory Dispatch
  imports ApprovalGate Credentials Security RunEvents
begin

text \<open>
  The dispatch chokepoint, \<^verbatim>\<open>boltrig/kernel/dispatch.py\<close>: \<^verbatim>\<open>Dispatcher.invoke\<close> with everything it calls. The components it
  composes are those of the other theories; here are their composition, the pausing question verb
  (\<^verbatim>\<open>boltrig/kernel/questions.py\<close>), the execution of an adapter or an agent with the failure taxonomy of
  \<^verbatim>\<open>boltrig/kernel/adapter_errors.py\<close> and \<^verbatim>\<open>boltrig/models/errors.py\<close>, and the run-effect ledger
  (\<^verbatim>\<open>boltrig/kernel/run_effect_recorder.py\<close>, \<^verbatim>\<open>kernel/effect_inverses.py\<close>, \<^verbatim>\<open>store/effect_ledger_memory.py\<close>).

  The record \<open>dispatch_env\<close> holds what is not this code: the adapters and the agent runtime (functions on a world of any
  type \<open>'w\<close>, which may raise), the user directory as a view of that world, the registered inverse builders (\<open>None\<close>
  is also a builder that raises), and the text of an error. The kernel's own tables are the record \<open>dispatch_state\<close>;
  adapters act on the world only. \<open>ds_calls\<close> is the trace of the external executions. Fresh identifiers, the clock and
  the faults of the append-only stores are the record \<open>fresh\<close>; one instant stands for the duration of a call.
\<close>

subsection \<open>Results and errors\<close>

datatype error_class = NOT_FOUND | UNAUTHORISED | RATE_LIMITED | UNAVAILABLE | INVALID | CONFLICT | INTERNAL

record adapter_error =
  ax_error_class :: error_class
  ax_message :: string
  ax_retry_after :: "rat option"

record result =
  res_ok :: bool
  res_output :: pyval
  res_error :: "adapter_error option"

datatype dispatch_error =
    BindingNotFound route_error
  | RouteRequiredError route_error
  | GrantMissing grant_denial
  | SchemaValidationError schema_error
  | IdempotencyConflict idem_error
  | HITLStateConflict string
  | NotHoldable string
  | NotCanonicalJson
  | Throttled rate_error
  | AdapterThrottled string "rat option"
  | CredentialFailure
  | AdapterFailure string int string
  | VerbUnavailable string string
  | DegradedMode pydict
  | Pending string
  | Crash string

fun error_reason :: "dispatch_error \<Rightarrow> string" where
  "error_reason (BindingNotFound _) = ''binding_not_found''"
| "error_reason (RouteRequiredError _) = ''route_required''"
| "error_reason (GrantMissing _) = ''grant_missing''"
| "error_reason (SchemaValidationError _) = ''schema_invalid''"
| "error_reason (IdempotencyConflict _) = ''idempotency_conflict''"
| "error_reason (HITLStateConflict _) = ''hitl_state_conflict''"
| "error_reason (NotHoldable _) = ''approval_not_holdable''"
| "error_reason NotCanonicalJson = ''internal_error''"
| "error_reason (Throttled _) = ''rate_limited''"
| "error_reason (AdapterThrottled _ _) = ''rate_limited''"
| "error_reason CredentialFailure = ''credential_resolution_failed''"
| "error_reason (AdapterFailure _ _ reason) = reason"
| "error_reason (VerbUnavailable _ _) = ''internal_error''"
| "error_reason (DegradedMode _) = ''degraded''"
| "error_reason (Pending _) = ''pending_human''"
| "error_reason (Crash _) = ''error''"

fun route_failure :: "route_error \<Rightarrow> dispatch_error" where
  "route_failure (NotGranted d) = GrantMissing d"
| "route_failure BadPin = Crash ''ValueError''"
| "route_failure (RouteRequired c op ds) = RouteRequiredError (RouteRequired c op ds)"
| "route_failure e = BindingNotFound e"

fun idem_failure :: "idem_error \<Rightarrow> dispatch_error" where
  "idem_failure ParamsNotCanonical =
     SchemaValidationError \<lparr>se_message = ''idempotent params must be canonical JSON'', se_errors = [], se_schema_digest = None,
       se_hints = []\<rparr>"
| "idem_failure e = IdempotencyConflict e"

fun gate_failure :: "gate_error \<Rightarrow> dispatch_error" where
  "gate_failure NotCanonical = NotCanonicalJson"
| "gate_failure (GateRaised e) = Crash (error_name e)"
| "gate_failure (StateConflict a) = HITLStateConflict a"
| "gate_failure (ApprovalNotHoldable v) = NotHoldable v"
| "gate_failure (PendingHuman i) = Pending i"
| "gate_failure (Unmintable e) = Crash ''ValueError''"

fun cred_failure :: "cred_error \<Rightarrow> dispatch_error" where
  "cred_failure CredentialResolution = CredentialFailure"
| "cred_failure CredentialKeyError = Crash ''KeyError''"

fun schema_failure :: "schema_error + py_error \<Rightarrow> dispatch_error" where
  "schema_failure (Inl e) = SchemaValidationError e"
| "schema_failure (Inr x) = Crash (error_name x)"

fun transport_error :: "error_class \<Rightarrow> int \<times> string" where
  "transport_error NOT_FOUND = (404, ''adapter_not_found'')"
| "transport_error UNAUTHORISED = (403, ''adapter_unauthorised'')"
| "transport_error INVALID = (400, ''adapter_invalid'')"
| "transport_error CONFLICT = (409, ''adapter_conflict'')"
| "transport_error INTERNAL = (502, ''adapter_internal'')"
| "transport_error _ = (502, ''adapter_internal'')"

definition adapter_failure :: "adapter_error option \<Rightarrow> dispatch_error" where
  "adapter_failure err =
     (case err of
        None \<Rightarrow> AdapterFailure ''adapter returned no error detail'' 502 ''adapter_internal''
      | Some e \<Rightarrow> (case transport_error (ax_error_class e) of (code, reason) \<Rightarrow> AdapterFailure (ax_message e) code reason))"

subsection \<open>State\<close>

record run_effect =
  ef_tenant_id :: string
  ef_run_id :: string
  ef_seq :: int
  ef_verb_id :: string
  ef_status :: string
  ef_inverse_verb :: "string option"
  ef_inverse_params :: pydict
  ef_summary :: string

type_synonym effect_rows = "((string \<times> string) \<times> run_effect list) list"

record external_call =
  xc_target :: string
  xc_verb :: string
  xc_context :: invocation_context

record 'w dispatch_state =
  ds_registry :: registry_store
  ds_routes :: route_store
  ds_perms :: "string \<Rightarrow> tenant_permissions option"
  ds_idem :: idem_store
  ds_hitl :: hitl_state
  ds_creds :: cred_store
  ds_rate :: buckets
  ds_audit :: audit_store
  ds_security :: security_store
  ds_effects :: effect_rows
  ds_events :: "(string \<times> string \<times> pydict) list"
  ds_calls :: "external_call list"
  ds_world :: 'w

type_synonym 'w adapter_execute =
  "string \<Rightarrow> pyval \<Rightarrow> credential option \<Rightarrow> invocation_context \<Rightarrow> 'w \<Rightarrow> (dispatch_error + result) \<times> 'w"

type_synonym 'w agent_invoker =
  "string \<Rightarrow> pydict \<Rightarrow> invocation_context \<Rightarrow> string \<Rightarrow> 'w \<Rightarrow> (dispatch_error + result) \<times> 'w"

record 'w dispatch_env =
  de_nfkc :: "string \<Rightarrow> string"
  de_gate :: gate_env
  de_audit :: audit_env
  de_resolver :: resolver_env
  de_schema :: schema_env
  de_seal :: "pydict \<Rightarrow> pydict"
  de_blocking_verbs :: "string list"
  de_adapter :: "string \<Rightarrow> string \<Rightarrow> 'w adapter_execute option"
  de_agent :: "'w agent_invoker option"
  de_users :: "'w \<Rightarrow> string \<Rightarrow> (string \<times> string) list"
  de_builders :: "string \<Rightarrow> (pydict \<Rightarrow> pydict \<Rightarrow> (string \<times> pydict) option) option"
  de_message :: "dispatch_error \<Rightarrow> string"
  de_has_events :: bool
  de_has_security :: bool

record fresh =
  fr_now :: instant
  fr_call_id :: string
  fr_request_id :: string
  fr_owner_token :: string
  fr_latency_ms :: int
  fr_audit_fault :: "string option"
  fr_crossing_fault :: "string option"
  fr_security_fault :: "string option"

definition get_tenant_permissions :: "'w dispatch_state \<Rightarrow> string \<Rightarrow> tenant_permissions" where
  "get_tenant_permissions s t =
     (case ds_perms s t of None \<Rightarrow> \<lparr>tp_tenant_id = t, tp_grants = EMPTY_GRANTS\<rparr> | Some p \<Rightarrow> p)"

subsection \<open>Run events\<close>

definition emit :: "'w dispatch_env \<Rightarrow> 'w dispatch_state \<Rightarrow> string \<Rightarrow> string option \<Rightarrow> pydict \<Rightarrow> 'w dispatch_state" where
  "emit env s t run_id event =
     (if \<not> de_has_events env \<or> \<not> nonempty run_id then s
      else s\<lparr>ds_events := ds_events s @ [(t, the run_id, event)]\<rparr>)"

definition emit_run_and_parent :: "'w dispatch_env \<Rightarrow> 'w dispatch_state \<Rightarrow> invocation_context \<Rightarrow> pydict \<Rightarrow> 'w dispatch_state" where
  "emit_run_and_parent env s ctx event =
     (let t = ctx_tenant_id ctx; s1 = emit env s t (ctx_run_id ctx) event; parent = ctx_parent_run_id ctx
      in if nonempty parent \<and> parent \<noteq> ctx_run_id ctx then emit env s1 t parent event else s1)"

fun hitl_type_value :: "hitl_type \<Rightarrow> string" where
  "hitl_type_value APPROVAL = ''approval''"
| "hitl_type_value CLARIFICATION = ''clarification''"
| "hitl_type_value ESCALATION = ''escalation''"
| "hitl_type_value QUESTION = ''question''"

definition pending_event :: "hitl_state \<Rightarrow> invocation_context \<Rightarrow> string \<Rightarrow> string \<Rightarrow> string \<Rightarrow> pydict" where
  "pending_event hs ctx request_id verb call_id =
     (let req = get_hitl_request hs (ctx_tenant_id ctx) request_id
      in [(KStr ''type'', PStr ''hitl''), (KStr ''verb'', PStr verb), (KStr ''call_id'', PStr call_id),
          (KStr ''hitl_request_id'', PStr request_id),
          (KStr ''kind'', PStr (case req of None \<Rightarrow> ''approval'' | Some r \<Rightarrow> hitl_type_value (hr_type r))),
          (KStr ''question'', PStr (case req of None \<Rightarrow> ''Approve '' @ verb @ ''?'' | Some r \<Rightarrow> hr_question r)),
          (KStr ''options'', of_strs (case req of None \<Rightarrow> [''approve'', ''reject''] | Some r \<Rightarrow> hr_options r)),
          (KStr ''requested_by'', (case req of None \<Rightarrow> PStr (ctx_actor ctx) | Some r \<Rightarrow> of_opt (hr_requested_by r)))] @
         (case req of None \<Rightarrow> []
          | Some r \<Rightarrow> if hr_secure r then [(KStr ''secure'', PBool True), (KStr ''secure_purpose'', of_opt (hr_secure_purpose r))]
                     else []))"

definition hold_pause ::
  "'w dispatch_env \<Rightarrow> 'w dispatch_state \<Rightarrow> fresh \<Rightarrow> invocation_context \<Rightarrow> string \<Rightarrow> string \<Rightarrow> string \<Rightarrow> pydict \<Rightarrow> 'w dispatch_state" where
  "hold_pause env s f ctx request_id noun verb params =
     (let s1 = emit_run_and_parent env s ctx (pending_event (ds_hitl s) ctx request_id verb (fr_call_id f))
      in case get_hitl_request (ds_hitl s1) (ctx_tenant_id ctx) request_id of
           None \<Rightarrow> s1
         | Some req \<Rightarrow>
             (if hr_type req \<noteq> APPROVAL then s1
              else s1\<lparr>ds_creds := (ds_creds s1)\<lparr>cs_run :=
                     snd (record_held_call (de_seal env) (cs_run (ds_creds s1)) (fr_now f) ctx noun verb params request_id (fr_call_id f))\<rparr>\<rparr>))"

definition record_security ::
  "'w dispatch_env \<Rightarrow> 'w dispatch_state \<Rightarrow> fresh \<Rightarrow> security_event_type \<Rightarrow> string \<Rightarrow> string \<Rightarrow> string \<Rightarrow> pydict \<Rightarrow> invocation_context
     \<Rightarrow> 'w dispatch_state" where
  "record_security env s f event_type reason noun verb params ctx =
     (if \<not> de_has_security env then s
      else case resource_ref noun (PDict params) of (resource, resource_id) \<Rightarrow>
        s\<lparr>ds_security := security_record (de_audit env) (ds_security s) (fr_security_fault f)
            \<lparr>sx_tenant_id = ctx_tenant_id ctx, sx_ts = fr_now f, sx_event_type = event_type, sx_reason = reason,
             sx_actor = Some (ctx_actor ctx), sx_actor_tier = Some (ctx_actor_tier ctx), sx_workspace_id = ctx_workspace_id ctx,
             sx_ip_address = ctx_ip_address ctx, sx_user_agent = ctx_user_agent ctx, sx_resource = resource,
             sx_resource_id = resource_id, sx_on_behalf_of = ctx_on_behalf_of ctx, sx_detail = [(KStr ''verb'', PStr verb)],
             sx_seq = None, sx_prev_hash = None, sx_hash = None\<rparr>\<rparr>)"

subsection \<open>The question verb\<close>

definition QUESTIONS_VERB :: string where "QUESTIONS_VERB = ''chat.ask_user''"

definition ask_user ::
  "'w dispatch_env \<Rightarrow> 'w dispatch_state \<Rightarrow> fresh \<Rightarrow> pydict \<Rightarrow> invocation_context \<Rightarrow> dispatch_error \<times> 'w dispatch_state" where
  "ask_user env s f params ctx =
     (let pstr = ge_pstr (de_gate env);
          prompt = str_or_empty pstr (dict_get params ''prompt'');
          choices = (case dict_get params ''choices'' of PList xs \<Rightarrow> map (str_val pstr) xs | _ \<Rightarrow> []);
          secure = (dict_get params ''secure'' = PBool True);
          purpose = (if secure then str_or_empty pstr (dict_get params ''purpose'') else []);
          run_id = (case ctx_run_id ctx of None \<Rightarrow> [] | Some r \<Rightarrow> r)
      in case hitl_create (ds_hitl s) (fr_now f) (fr_request_id f) (ctx_tenant_id ctx)
               \<lparr>hn_run_id = run_id, hn_type = QUESTION, hn_question = prompt,
                hn_context = ctx_actor ctx @ '' asks the user a question'', hn_urgency = BLOCKING, hn_options = choices,
                hn_assignee = None, hn_timeout_seconds = None, hn_work_item_id = ctx_run_id ctx, hn_verb = None,
                hn_requested_by = Some (ctx_actor ctx), hn_requested_on_behalf_of = ctx_on_behalf_of ctx,
                hn_request_fingerprint = None, hn_action_digest = None, hn_workspace_id = ctx_workspace_id ctx,
                hn_department_scope = hitl_department_scope pstr ctx, hn_secure = secure,
                hn_secure_purpose = (if purpose = [] then None else Some purpose)\<rparr> of
           (Inl e, hs) \<Rightarrow> (Crash ''ValueError'', s\<lparr>ds_hitl := hs\<rparr>)
         | (Inr req, hs) \<Rightarrow>
             (let event = [(KStr ''type'', PStr ''question''), (KStr ''run_id'', of_opt (ctx_run_id ctx)),
                     (KStr ''question_id'', PStr (hr_id req)), (KStr ''prompt'', PStr prompt), (KStr ''choices'', of_strs choices)] @
                    (if secure then [(KStr ''secure'', PBool True), (KStr ''purpose'', PStr purpose)] else [])
              in (Pending (hr_id req), emit env (s\<lparr>ds_hitl := hs\<rparr>) (ctx_tenant_id ctx) (ctx_run_id ctx) event)))"

subsection \<open>Execution\<close>

text \<open>A declared degraded output that is not a dictionary makes \<^verbatim>\<open>dict()\<close> raise.\<close>

definition degrade_or_fail :: "verb_def \<Rightarrow> string \<Rightarrow> dispatch_error" where
  "degrade_or_fail v reason =
     (case vd_degraded_mode v of
        None \<Rightarrow> VerbUnavailable (vd_id v) reason
      | Some dm \<Rightarrow>
          (if dm = [] then VerbUnavailable (vd_id v) reason
           else case get_default dm ''output'' (PDict []) of
                  PDict output \<Rightarrow> DegradedMode (AList.update (KStr ''_degraded'') (PDict [(KStr ''reason'', PStr reason),
                      (KStr ''strategy'', get_default dm ''strategy'' (PStr ''deferred''))]) output)
                | _ \<Rightarrow> Crash ''TypeError''))"

definition log_call :: "'w dispatch_state \<Rightarrow> verb_binding \<Rightarrow> verb_def \<Rightarrow> invocation_context \<Rightarrow> 'w \<Rightarrow> 'w dispatch_state" where
  "log_call s b v ctx w =
     s\<lparr>ds_world := w, ds_calls := ds_calls s @ [\<lparr>xc_target = vb_target_ref b, xc_verb = vd_id v, xc_context = ctx\<rparr>]\<rparr>"

definition adapter_credential ::
  "'w dispatch_env \<Rightarrow> 'w dispatch_state \<Rightarrow> verb_binding \<Rightarrow> pydict \<Rightarrow> invocation_context \<Rightarrow> cred_error + (credential option \<times> pyval)" where
  "adapter_credential env s b params ctx =
     (let t = ctx_tenant_id ctx; unseal = re_unseal (de_resolver env); run = cs_run (ds_creds s)
      in rbind (resolve_for_adapter (de_resolver env) (ds_creds s) t (vb_target_ref b) (Some (acting_owner ctx))) (\<lambda>credential.
         rbind (resolve_run_scoped_params unseal run t (ctx_run_id ctx) (ctx_on_behalf_of ctx) (PDict params)) (\<lambda>resolved.
           Inr (case resolve_run_scoped_credential unseal run t (ctx_run_id ctx) (vb_target_ref b) (ctx_on_behalf_of ctx) of
                  None \<Rightarrow> credential | Some bearer \<Rightarrow> Some bearer, resolved))))"

definition execute_adapter ::
  "'w dispatch_env \<Rightarrow> 'w dispatch_state \<Rightarrow> verb_def \<Rightarrow> verb_binding \<Rightarrow> pydict \<Rightarrow> invocation_context
     \<Rightarrow> (dispatch_error + pyval) \<times> 'w dispatch_state" where
  "execute_adapter env s v b params ctx =
     (case de_adapter env (ctx_tenant_id ctx) (vb_target_ref b) of
        None \<Rightarrow> (Inl (degrade_or_fail v ''adapter_not_loaded''), s)
      | Some execute \<Rightarrow>
          (case adapter_credential env s b params ctx of
             Inl e \<Rightarrow> (Inl (cred_failure e), s)
           | Inr (credential, resolved) \<Rightarrow>
               (case execute (vd_id v) resolved credential ctx (ds_world s) of
                  (Inl e, w) \<Rightarrow> (Inl e, log_call s b v ctx w)
                | (Inr r, w) \<Rightarrow>
                    (if res_ok r then Inr (res_output r)
                     else case res_error r of
                            Some err \<Rightarrow>
                              (if ax_error_class err = RATE_LIMITED then Inl (AdapterThrottled (ax_message err) (ax_retry_after err))
                               else if ax_error_class err = UNAVAILABLE then Inl (degrade_or_fail v ''backend_unavailable'')
                               else Inl (adapter_failure (Some err)))
                          | None \<Rightarrow> Inl (adapter_failure None), log_call s b v ctx w))))"

definition execute_agent ::
  "'w dispatch_env \<Rightarrow> 'w dispatch_state \<Rightarrow> verb_def \<Rightarrow> verb_binding \<Rightarrow> pydict \<Rightarrow> invocation_context
     \<Rightarrow> (dispatch_error + pyval) \<times> 'w dispatch_state" where
  "execute_agent env s v b params ctx =
     (case de_agent env of
        None \<Rightarrow> (Inl (degrade_or_fail v ''agent_runtime_absent''), s)
      | Some invoker \<Rightarrow>
          (case invoker (vd_id v) params ctx (vb_target_ref b) (ds_world s) of
             (Inl e, w) \<Rightarrow> (Inl e, log_call s b v ctx w)
           | (Inr r, w) \<Rightarrow> (if res_ok r then Inr (res_output r) else Inl (degrade_or_fail v ''agent_failed''), log_call s b v ctx w)))"

text \<open>The block between \<^verbatim>\<open>start\<close> and \<^verbatim>\<open>complete\<close>.\<close>

definition perform ::
  "'w dispatch_env \<Rightarrow> 'w dispatch_state \<Rightarrow> fresh \<Rightarrow> string \<Rightarrow> pydict \<Rightarrow> invocation_context \<Rightarrow> verb_def \<Rightarrow> verb_binding
     \<Rightarrow> (dispatch_error + pyval) \<times> 'w dispatch_state" where
  "perform env s f verb params ctx v b =
     (if verb = QUESTIONS_VERB then (case ask_user env s f params ctx of (e, s1) \<Rightarrow> (Inl e, s1))
      else case (case vb_target_type b of ADAPTER \<Rightarrow> execute_adapter env s v b params ctx
                 | AGENT \<Rightarrow> execute_agent env s v b params ctx) of
             (Inl e, s1) \<Rightarrow> (Inl e, s1)
           | (Inr output, s1) \<Rightarrow>
               (case reject_if_invalid (de_schema env) ''output'' verb (vd_output_schema v) output of
                  Inl x \<Rightarrow> (Inl (schema_failure x), s1)
                | Inr _ \<Rightarrow> (Inr output, s1)))"

subsection \<open>The gates\<close>

definition authorize :: "'w dispatch_env \<Rightarrow> 'w dispatch_state \<Rightarrow> invocation_context \<Rightarrow> string \<Rightarrow> grant_denial + unit" where
  "authorize env s ctx name =
     check (de_nfkc env) (ctx_grants ctx) name (get_tenant_permissions s (ctx_tenant_id ctx))"

definition rate_stage ::
  "'w dispatch_state \<Rightarrow> fresh \<Rightarrow> string \<Rightarrow> string \<Rightarrow> verb_binding \<Rightarrow> (dispatch_error + unit) \<times> 'w dispatch_state" where
  "rate_stage s f t verb b =
     (case rate_enforce incr (ds_rate s) (fr_now f) t verb (vb_rate_limit b) of
        (Inl e, rate) \<Rightarrow> (Inl (Throttled e), s\<lparr>ds_rate := rate\<rparr>)
      | (Inr _, rate) \<Rightarrow> (Inr (), s\<lparr>ds_rate := rate\<rparr>))"

definition approval_stage ::
  "'w dispatch_env \<Rightarrow> 'w dispatch_state \<Rightarrow> fresh \<Rightarrow> string \<Rightarrow> string \<Rightarrow> pydict \<Rightarrow> invocation_context \<Rightarrow> string option \<Rightarrow> verb_binding
     \<Rightarrow> bool \<Rightarrow> (dispatch_error + invocation_context) \<times> 'w dispatch_state" where
  "approval_stage env s f noun verb params ctx approval_id b gated =
     (if \<not> gated then (Inr ctx, s)
      else case enforce_approval (de_gate env) (ds_hitl s) (Some (cs_run (ds_creds s))) (fr_now f) (fr_request_id f) b noun verb
                  params ctx approval_id of
             (Inl e, hs) \<Rightarrow> (Inl (gate_failure e), s\<lparr>ds_hitl := hs\<rparr>)
           | (Inr ctx', hs) \<Rightarrow> (Inr ctx', s\<lparr>ds_hitl := hs\<rparr>))"

text \<open>The throttle ahead of the gate when the call carries an approval, behind it otherwise.\<close>

definition gate_stage ::
  "'w dispatch_env \<Rightarrow> 'w dispatch_state \<Rightarrow> fresh \<Rightarrow> string \<Rightarrow> string \<Rightarrow> pydict \<Rightarrow> invocation_context \<Rightarrow> string option \<Rightarrow> verb_binding
     \<Rightarrow> bool \<Rightarrow> (dispatch_error + invocation_context) \<times> 'w dispatch_state" where
  "gate_stage env s f noun verb params ctx approval_id b gated =
     (let t = ctx_tenant_id ctx; carries_approval = (gated \<and> approval_id \<noteq> None)
      in case (if carries_approval then rate_stage s f t verb b else (Inr (), s)) of
           (Inl e, s1) \<Rightarrow> (Inl e, s1)
         | (Inr _, s1) \<Rightarrow>
             (case approval_stage env s1 f noun verb params ctx approval_id b gated of
                (Inl e, s2) \<Rightarrow> (Inl e, s2)
              | (Inr ctx', s2) \<Rightarrow>
                  (case (if carries_approval then (Inr (), s2) else rate_stage s2 f t verb b) of
                     (Inl e, s3) \<Rightarrow> (Inl e, s3)
                   | (Inr _, s3) \<Rightarrow> (Inr ctx', s3))))"

subsection \<open>The author boundary\<close>

definition AUTHOR_ROLES :: "string list" where
  "AUTHOR_ROLES = [''superadmin'', ''admin'', ''org-admin'', ''department-head'', ''manager'', ''lead'', ''integrator'']"

definition active_author_count :: "'w dispatch_env \<Rightarrow> 'w dispatch_state \<Rightarrow> string \<Rightarrow> nat" where
  "active_author_count env s t =
     length (filter (\<lambda>(status, role). status = ''active'' \<and> role \<in> set AUTHOR_ROLES) (de_users env (ds_world s) t))"

definition base_event :: "fresh \<Rightarrow> invocation_context \<Rightarrow> string \<Rightarrow> string \<Rightarrow> string \<Rightarrow> pydict \<Rightarrow> audit_event" where
  "base_event f ctx noun verb status detail =
     \<lparr>ae_tenant_id = ctx_tenant_id ctx, ae_ts = fr_now f, ae_actor = ctx_actor ctx, ae_action_type = TOOL_CALL, ae_status = status,
      ae_run_id = ctx_run_id ctx, ae_parent_run_id = ctx_parent_run_id ctx, ae_actor_tier = Some (ctx_actor_tier ctx),
      ae_depth = Some (ctx_depth ctx), ae_noun = Some noun, ae_verb = Some verb, ae_target_adapter = None,
      ae_on_behalf_of = ctx_on_behalf_of ctx, ae_latency_ms = None, ae_tokens_used = None, ae_cost_micros = None,
      ae_skills_loaded = [], ae_detail = detail, ae_ip_address = None, ae_user_agent = None, ae_resource = None,
      ae_resource_id = None, ae_workspace_id = None, ae_seq = None, ae_prev_hash = None, ae_hash = None\<rparr>"

definition write_audit :: "'w dispatch_env \<Rightarrow> 'w dispatch_state \<Rightarrow> fresh \<Rightarrow> string option \<Rightarrow> audit_event \<Rightarrow> 'w dispatch_state" where
  "write_audit env s f fault e = s\<lparr>ds_audit := snd (audit_write (de_audit env) (ds_audit s) (fr_now f) fault e)\<rparr>"

definition announce_author_crossing ::
  "'w dispatch_env \<Rightarrow> 'w dispatch_state \<Rightarrow> fresh \<Rightarrow> string \<Rightarrow> string \<Rightarrow> invocation_context \<Rightarrow> nat \<Rightarrow> 'w dispatch_state" where
  "announce_author_crossing env s f verb noun ctx before =
     (let after = active_author_count env s (ctx_tenant_id ctx)
      in if before = after \<or> min before after > 1 then s
         else write_audit env s f (fr_crossing_fault f) (base_event f ctx noun ''control.author_tier.crossing'' ''ok''
                [(KStr ''verb'', PStr verb), (KStr ''active_authors_before'', PInt (int before)),
                 (KStr ''active_authors_after'', PInt (int after)), (KStr ''sole_author_exemption_after'', PBool (after = 1))]))"

subsection \<open>The inner pipeline\<close>

record invoke_meta =
  im_target_adapter :: "string option"
  im_gated :: bool

definition idem_caller_of :: "invocation_context \<Rightarrow> idem_caller" where
  "idem_caller_of ctx = \<lparr>ic_tenant = ctx_tenant_id ctx, ic_actor = ctx_actor ctx, ic_on_behalf_of = ctx_on_behalf_of ctx,
     ic_workspace_id = ctx_workspace_id ctx\<rparr>"

definition release :: "'w dispatch_state \<Rightarrow> idem_handle option \<Rightarrow> 'w dispatch_state" where
  "release s run = s\<lparr>ds_idem := coord_release (ds_idem s) run\<rparr>"

text \<open>From the started key to the completed one.\<close>

definition execute_started ::
  "'w dispatch_env \<Rightarrow> 'w dispatch_state \<Rightarrow> fresh \<Rightarrow> string \<Rightarrow> string \<Rightarrow> pydict \<Rightarrow> invocation_context \<Rightarrow> verb_def \<Rightarrow> verb_binding
     \<Rightarrow> idem_handle option \<Rightarrow> (dispatch_error + pyval) \<times> 'w dispatch_state" where
  "execute_started env s f noun verb params ctx v b run =
     (let before = (if startswith verb ''control.'' then Some (active_author_count env s (ctx_tenant_id ctx)) else None)
      in case perform env s f verb params ctx v b of
           (Inl e, s1) \<Rightarrow> (Inl e, release s1 run)
         | (Inr output, s1) \<Rightarrow>
             (case coord_complete (ds_idem s1) run output of
                (Inl e, idem) \<Rightarrow> (Inl (idem_failure e), s1\<lparr>ds_idem := idem\<rparr>)
              | (Inr _, idem) \<Rightarrow>
                  (Inr output, case before of
                     None \<Rightarrow> s1\<lparr>ds_idem := idem\<rparr>
                   | Some n \<Rightarrow> announce_author_crossing env (s1\<lparr>ds_idem := idem\<rparr>) f verb noun ctx n)))"

definition execute_claimed ::
  "'w dispatch_env \<Rightarrow> 'w dispatch_state \<Rightarrow> fresh \<Rightarrow> string \<Rightarrow> string \<Rightarrow> pydict \<Rightarrow> invocation_context \<Rightarrow> string option \<Rightarrow> verb_def
     \<Rightarrow> verb_binding \<Rightarrow> bool \<Rightarrow> idem_handle option \<Rightarrow> (dispatch_error + pyval) \<times> 'w dispatch_state" where
  "execute_claimed env s f noun verb params ctx approval_id v b gated run =
     (case gate_stage env s f noun verb params ctx approval_id b gated of
        (Inl e, s1) \<Rightarrow> (Inl e, release s1 run)
      | (Inr ctx', s1) \<Rightarrow>
          (case coord_start (ds_idem s1) (fr_now f) run of
             (Inl e, idem) \<Rightarrow> (Inl (idem_failure e), s1\<lparr>ds_idem := idem\<rparr>)
           | (Inr _, idem) \<Rightarrow> execute_started env (s1\<lparr>ds_idem := idem\<rparr>) f noun verb params ctx' v b run))"

definition invoke_inner ::
  "'w dispatch_env \<Rightarrow> 'w dispatch_state \<Rightarrow> fresh \<Rightarrow> string \<Rightarrow> string \<Rightarrow> pydict \<Rightarrow> invocation_context \<Rightarrow> string option \<Rightarrow> string option
     \<Rightarrow> (dispatch_error + pyval) \<times> invoke_meta \<times> 'w dispatch_state" where
  "invoke_inner env s f noun verb params ctx idempotency_key approval_id =
     (case resolve_invocation_target (ds_registry s) (ds_routes s) (ctx_tenant_id ctx) verb (ctx_workspace_id ctx)
             (Some (authorize env s ctx)) of
        Inl e \<Rightarrow> (Inl (route_failure e), \<lparr>im_target_adapter = None, im_gated = False\<rparr>, s)
      | Inr (v, b, plan, m) \<Rightarrow>
          (let meta = \<lparr>im_target_adapter = Some (rm_target_adapter m), im_gated = False\<rparr>
           in case rmap (authorize env s ctx) (grant_verbs verb v plan) of
                Inl d \<Rightarrow> (Inl (GrantMissing d), meta, s)
              | Inr _ \<Rightarrow>
                  (case reject_if_invalid (de_schema env) ''params'' verb (vd_input_schema v) (PDict params) of
                     Inl x \<Rightarrow> (Inl (schema_failure x), meta, s)
                   | Inr _ \<Rightarrow>
                       (case coord_claim (ge_frepr (de_gate env)) (ge_sha (de_gate env)) (ds_idem s) (fr_now f) (fr_owner_token f)
                               idempotency_key noun verb (PDict params) (idem_caller_of ctx) (vd_idempotency_mode v) of
                          (Inl e, idem) \<Rightarrow> (Inl (idem_failure e), meta, s\<lparr>ds_idem := idem\<rparr>)
                        | (Inr (Some (IdemReplay output)), idem) \<Rightarrow> (Inr output, meta, s\<lparr>ds_idem := idem\<rparr>)
                        | (Inr claim, idem) \<Rightarrow>
                            (let run = (case claim of Some (IdemRun h) \<Rightarrow> Some h | _ \<Rightarrow> None); s1 = s\<lparr>ds_idem := idem\<rparr>
                             in case requires_approval (ds_routes s1) (de_blocking_verbs env) verb v b plan ctx of
                                  Inl x \<Rightarrow> (Inl (Crash (error_name x)), meta, s1)
                                | Inr gated \<Rightarrow>
                                    (case execute_claimed env s1 f noun verb params ctx approval_id v b gated run of
                                       (r, s2) \<Rightarrow> (r, meta\<lparr>im_gated := gated\<rparr>, s2)))))))"

subsection \<open>The run-effect ledger\<close>

definition append_run_effect :: "effect_rows \<Rightarrow> run_effect \<Rightarrow> run_effect \<times> effect_rows" where
  "append_run_effect rows e =
     (let key = (ef_tenant_id e, ef_run_id e);
          bucket = (case map_of rows key of None \<Rightarrow> [] | Some xs \<Rightarrow> xs);
          stamped = e\<lparr>ef_seq := int (length bucket) + 1\<rparr>
      in (stamped, AList.update key (bucket @ [stamped]) rows))"

definition inverse_for ::
  "(string \<Rightarrow> (pydict \<Rightarrow> pydict \<Rightarrow> (string \<times> pydict) option) option) \<Rightarrow> string \<Rightarrow> pydict \<Rightarrow> pyval \<Rightarrow> (string \<times> pydict) option" where
  "inverse_for builders verb_id params output =
     (case builders verb_id of
        None \<Rightarrow> None
      | Some builder \<Rightarrow> (case output of PDict d \<Rightarrow> builder params d | _ \<Rightarrow> if truthy output then None else builder params []))"

definition SUMMARY_BOUND :: nat where "SUMMARY_BOUND = 200"

definition record_run_effect ::
  "'w dispatch_env \<Rightarrow> 'w dispatch_state \<Rightarrow> string \<Rightarrow> pydict \<Rightarrow> pyval \<Rightarrow> invocation_context \<Rightarrow> invoke_meta \<Rightarrow> 'w dispatch_state" where
  "record_run_effect env s verb params output ctx meta =
     (if \<not> nonempty (ctx_run_id ctx) \<or> truthy (dict_get (ctx_extra ctx) ''effect_revert'') then s
      else let inverse = inverse_for (de_builders env) verb params output
           in if \<not> im_gated meta \<and> inverse = None then s
              else s\<lparr>ds_effects := snd (append_run_effect (ds_effects s)
                     \<lparr>ef_tenant_id = ctx_tenant_id ctx, ef_run_id = the (ctx_run_id ctx), ef_seq = 0, ef_verb_id = verb,
                      ef_status = (if inverse \<noteq> None \<and> fst (the inverse) \<noteq> [] then ''recorded'' else ''not_undoable''),
                      ef_inverse_verb = map_option fst inverse,
                      ef_inverse_params = (case inverse of None \<Rightarrow> [] | Some (_, p) \<Rightarrow> p),
                      ef_summary = take SUMMARY_BOUND (ge_pstr (de_gate env) (PDict (summarise_params (PDict params))))\<rparr>)\<rparr>)"

subsection \<open>invoke\<close>

definition outcome_status :: "dispatch_error + pyval \<Rightarrow> string" where
  "outcome_status r = (case r of Inr _ \<Rightarrow> ''ok'' | Inl e \<Rightarrow> error_reason e)"

definition outcome_detail :: "'w dispatch_env \<Rightarrow> dispatch_error + pyval \<Rightarrow> pydict" where
  "outcome_detail env r =
     (case r of
        Inr _ \<Rightarrow> []
      | Inl (Pending i) \<Rightarrow> [(KStr ''hitl_request_id'', PStr i)]
      | Inl (DegradedMode _) \<Rightarrow> []
      | Inl (Crash name) \<Rightarrow> [(KStr ''message'', PStr name)]
      | Inl (SchemaValidationError e) \<Rightarrow> (KStr ''message'', PStr (de_message env (SchemaValidationError e))) # schema_audit_detail e
      | Inl e \<Rightarrow> [(KStr ''message'', PStr (de_message env e))])"

definition settle_outcome ::
  "'w dispatch_env \<Rightarrow> 'w dispatch_state \<Rightarrow> fresh \<Rightarrow> string \<Rightarrow> string \<Rightarrow> pydict \<Rightarrow> invocation_context \<Rightarrow> invoke_meta
     \<Rightarrow> dispatch_error + pyval \<Rightarrow> 'w dispatch_state" where
  "settle_outcome env s f noun verb params ctx meta r =
     (case r of
        Inr output \<Rightarrow> record_run_effect env s verb params output ctx meta
      | Inl (Pending i) \<Rightarrow> hold_pause env s f ctx i noun verb params
      | Inl (GrantMissing _) \<Rightarrow> record_security env s f PERMISSION_DENIED ''grant_missing'' noun verb params ctx
      | Inl (Throttled _) \<Rightarrow> record_security env s f RATE_LIMIT_TRIP ''rate_limited'' noun verb params ctx
      | Inl (AdapterThrottled _ _) \<Rightarrow> record_security env s f RATE_LIMIT_TRIP ''rate_limited'' noun verb params ctx
      | Inl _ \<Rightarrow> s)"

definition tool_call_event :: "fresh \<Rightarrow> string \<Rightarrow> string \<Rightarrow> pydict \<Rightarrow> invocation_context \<Rightarrow> pydict" where
  "tool_call_event f noun verb params ctx =
     [(KStr ''type'', PStr ''tool_call''), (KStr ''verb'', PStr verb), (KStr ''noun'', PStr noun),
      (KStr ''input'', event_safe (PDict params)), (KStr ''run_id'', of_opt (ctx_run_id ctx)), (KStr ''tool'', PStr verb),
      (KStr ''call_id'', PStr (fr_call_id f)), (KStr ''args_summary'', PDict (summarise_params (PDict params)))]"

definition call_event ::
  "'w dispatch_env \<Rightarrow> fresh \<Rightarrow> string \<Rightarrow> string \<Rightarrow> pydict \<Rightarrow> invocation_context \<Rightarrow> invoke_meta \<Rightarrow> dispatch_error + pyval \<Rightarrow> audit_event" where
  "call_event env f noun verb params ctx meta r =
     (let (resource, resource_id) = resource_ref noun (PDict params)
      in (base_event f ctx noun verb (outcome_status r)
            (outcome_detail env r @ [(KStr ''params'', PDict (summarise_params (PDict params)))]))
         \<lparr>ae_target_adapter := im_target_adapter meta, ae_latency_ms := Some (fr_latency_ms f),
          ae_skills_loaded := ctx_skills_loaded ctx, ae_ip_address := ctx_ip_address ctx, ae_user_agent := ctx_user_agent ctx,
          ae_resource := resource, ae_resource_id := resource_id, ae_workspace_id := ctx_workspace_id ctx\<rparr>)"

text \<open>The \<^verbatim>\<open>finally\<close> block: the result frames (their \<^verbatim>\<open>OverflowError\<close> replaces the outcome and leaves the block), then the
  audit row.\<close>

definition finish ::
  "'w dispatch_env \<Rightarrow> 'w dispatch_state \<Rightarrow> fresh \<Rightarrow> string \<Rightarrow> string \<Rightarrow> pydict \<Rightarrow> invocation_context \<Rightarrow> invoke_meta
     \<Rightarrow> dispatch_error + pyval \<Rightarrow> (dispatch_error + pyval) \<times> 'w dispatch_state" where
  "finish env s f noun verb params ctx meta r =
     (let status = outcome_status r;
          frames = (if status = ''pending_human'' then Some []
                    else result_frames verb status (case r of Inr output \<Rightarrow> output | Inl _ \<Rightarrow> PNone) (ctx_run_id ctx) (fr_call_id f))
      in case frames of
           None \<Rightarrow> (Inl (Crash ''OverflowError''), s)
         | Some fs \<Rightarrow>
             (let s1 = foldl (\<lambda>s frame. emit_run_and_parent env s ctx frame) s fs
              in (r, write_audit env s1 f (fr_audit_fault f) (call_event env f noun verb params ctx meta r))))"

definition invoke ::
  "'w dispatch_env \<Rightarrow> 'w dispatch_state \<Rightarrow> fresh \<Rightarrow> string \<Rightarrow> string \<Rightarrow> pydict \<Rightarrow> invocation_context \<Rightarrow> string option \<Rightarrow> string option
     \<Rightarrow> (dispatch_error + pyval) \<times> 'w dispatch_state" where
  "invoke env s f noun verb params ctx idempotency_key approval_id =
     (let s0 = emit_run_and_parent env s ctx (tool_call_event f noun verb params ctx);
          (r, meta, s1) = invoke_inner env s0 f noun verb params ctx idempotency_key approval_id;
          s2 = settle_outcome env s1 f noun verb params ctx meta r
      in finish env s2 f noun verb params ctx meta r)"

subsection \<open>Lemmas: what each stage leaves alone\<close>

lemma emit_frame [simp]:
  "ds_registry (emit env s t r e) = ds_registry s"
  "ds_routes (emit env s t r e) = ds_routes s"
  "ds_perms (emit env s t r e) = ds_perms s"
  "ds_idem (emit env s t r e) = ds_idem s"
  "ds_hitl (emit env s t r e) = ds_hitl s"
  "ds_creds (emit env s t r e) = ds_creds s"
  "ds_rate (emit env s t r e) = ds_rate s"
  "ds_audit (emit env s t r e) = ds_audit s"
  "ds_security (emit env s t r e) = ds_security s"
  "ds_effects (emit env s t r e) = ds_effects s"
  "ds_calls (emit env s t r e) = ds_calls s"
  "ds_world (emit env s t r e) = ds_world s"
  by (simp_all add: emit_def split_beta Let_def split: option.splits)

lemma emit_both_frame [simp]:
  "ds_registry (emit_run_and_parent env s ctx e) = ds_registry s"
  "ds_routes (emit_run_and_parent env s ctx e) = ds_routes s"
  "ds_perms (emit_run_and_parent env s ctx e) = ds_perms s"
  "ds_idem (emit_run_and_parent env s ctx e) = ds_idem s"
  "ds_hitl (emit_run_and_parent env s ctx e) = ds_hitl s"
  "ds_creds (emit_run_and_parent env s ctx e) = ds_creds s"
  "ds_rate (emit_run_and_parent env s ctx e) = ds_rate s"
  "ds_audit (emit_run_and_parent env s ctx e) = ds_audit s"
  "ds_security (emit_run_and_parent env s ctx e) = ds_security s"
  "ds_effects (emit_run_and_parent env s ctx e) = ds_effects s"
  "ds_calls (emit_run_and_parent env s ctx e) = ds_calls s"
  "ds_world (emit_run_and_parent env s ctx e) = ds_world s"
  by (simp_all add: emit_run_and_parent_def split_beta Let_def split: option.splits)

lemma emit_frames [simp]:
  "ds_registry (foldl (\<lambda>s frame. emit_run_and_parent env s ctx frame) s fs) = ds_registry s"
  "ds_routes (foldl (\<lambda>s frame. emit_run_and_parent env s ctx frame) s fs) = ds_routes s"
  "ds_perms (foldl (\<lambda>s frame. emit_run_and_parent env s ctx frame) s fs) = ds_perms s"
  "ds_idem (foldl (\<lambda>s frame. emit_run_and_parent env s ctx frame) s fs) = ds_idem s"
  "ds_hitl (foldl (\<lambda>s frame. emit_run_and_parent env s ctx frame) s fs) = ds_hitl s"
  "ds_creds (foldl (\<lambda>s frame. emit_run_and_parent env s ctx frame) s fs) = ds_creds s"
  "ds_rate (foldl (\<lambda>s frame. emit_run_and_parent env s ctx frame) s fs) = ds_rate s"
  "ds_audit (foldl (\<lambda>s frame. emit_run_and_parent env s ctx frame) s fs) = ds_audit s"
  "ds_security (foldl (\<lambda>s frame. emit_run_and_parent env s ctx frame) s fs) = ds_security s"
  "ds_effects (foldl (\<lambda>s frame. emit_run_and_parent env s ctx frame) s fs) = ds_effects s"
  "ds_calls (foldl (\<lambda>s frame. emit_run_and_parent env s ctx frame) s fs) = ds_calls s"
  "ds_world (foldl (\<lambda>s frame. emit_run_and_parent env s ctx frame) s fs) = ds_world s"
  by (induction fs arbitrary: s) simp_all

lemma hold_pause_frame [simp]:
  "ds_registry (hold_pause env s f ctx i noun verb params) = ds_registry s"
  "ds_routes (hold_pause env s f ctx i noun verb params) = ds_routes s"
  "ds_perms (hold_pause env s f ctx i noun verb params) = ds_perms s"
  "ds_idem (hold_pause env s f ctx i noun verb params) = ds_idem s"
  "ds_hitl (hold_pause env s f ctx i noun verb params) = ds_hitl s"
  "ds_rate (hold_pause env s f ctx i noun verb params) = ds_rate s"
  "ds_audit (hold_pause env s f ctx i noun verb params) = ds_audit s"
  "ds_security (hold_pause env s f ctx i noun verb params) = ds_security s"
  "ds_effects (hold_pause env s f ctx i noun verb params) = ds_effects s"
  "ds_calls (hold_pause env s f ctx i noun verb params) = ds_calls s"
  "ds_world (hold_pause env s f ctx i noun verb params) = ds_world s"
  by (simp_all add: hold_pause_def split_beta Let_def split: option.splits)

lemma record_security_frame [simp]:
  "ds_registry (record_security env s f ty why noun verb params ctx) = ds_registry s"
  "ds_routes (record_security env s f ty why noun verb params ctx) = ds_routes s"
  "ds_perms (record_security env s f ty why noun verb params ctx) = ds_perms s"
  "ds_idem (record_security env s f ty why noun verb params ctx) = ds_idem s"
  "ds_hitl (record_security env s f ty why noun verb params ctx) = ds_hitl s"
  "ds_creds (record_security env s f ty why noun verb params ctx) = ds_creds s"
  "ds_rate (record_security env s f ty why noun verb params ctx) = ds_rate s"
  "ds_audit (record_security env s f ty why noun verb params ctx) = ds_audit s"
  "ds_effects (record_security env s f ty why noun verb params ctx) = ds_effects s"
  "ds_events (record_security env s f ty why noun verb params ctx) = ds_events s"
  "ds_calls (record_security env s f ty why noun verb params ctx) = ds_calls s"
  "ds_world (record_security env s f ty why noun verb params ctx) = ds_world s"
  by (simp_all add: record_security_def split_beta Let_def split: option.splits)

lemma write_audit_frame [simp]:
  "ds_registry (write_audit env s f fault e) = ds_registry s"
  "ds_routes (write_audit env s f fault e) = ds_routes s"
  "ds_perms (write_audit env s f fault e) = ds_perms s"
  "ds_idem (write_audit env s f fault e) = ds_idem s"
  "ds_hitl (write_audit env s f fault e) = ds_hitl s"
  "ds_creds (write_audit env s f fault e) = ds_creds s"
  "ds_rate (write_audit env s f fault e) = ds_rate s"
  "ds_security (write_audit env s f fault e) = ds_security s"
  "ds_effects (write_audit env s f fault e) = ds_effects s"
  "ds_events (write_audit env s f fault e) = ds_events s"
  "ds_calls (write_audit env s f fault e) = ds_calls s"
  "ds_world (write_audit env s f fault e) = ds_world s"
  by (simp_all add: write_audit_def split_beta Let_def split: option.splits)

lemma release_frame [simp]:
  "ds_registry (release s run) = ds_registry s"
  "ds_routes (release s run) = ds_routes s"
  "ds_perms (release s run) = ds_perms s"
  "ds_hitl (release s run) = ds_hitl s"
  "ds_creds (release s run) = ds_creds s"
  "ds_rate (release s run) = ds_rate s"
  "ds_audit (release s run) = ds_audit s"
  "ds_security (release s run) = ds_security s"
  "ds_effects (release s run) = ds_effects s"
  "ds_events (release s run) = ds_events s"
  "ds_calls (release s run) = ds_calls s"
  "ds_world (release s run) = ds_world s"
  by (simp_all add: release_def split_beta Let_def split: option.splits)

lemma crossing_frame [simp]:
  "ds_registry (announce_author_crossing env s f verb noun ctx n) = ds_registry s"
  "ds_routes (announce_author_crossing env s f verb noun ctx n) = ds_routes s"
  "ds_perms (announce_author_crossing env s f verb noun ctx n) = ds_perms s"
  "ds_idem (announce_author_crossing env s f verb noun ctx n) = ds_idem s"
  "ds_hitl (announce_author_crossing env s f verb noun ctx n) = ds_hitl s"
  "ds_creds (announce_author_crossing env s f verb noun ctx n) = ds_creds s"
  "ds_rate (announce_author_crossing env s f verb noun ctx n) = ds_rate s"
  "ds_security (announce_author_crossing env s f verb noun ctx n) = ds_security s"
  "ds_effects (announce_author_crossing env s f verb noun ctx n) = ds_effects s"
  "ds_events (announce_author_crossing env s f verb noun ctx n) = ds_events s"
  "ds_calls (announce_author_crossing env s f verb noun ctx n) = ds_calls s"
  "ds_world (announce_author_crossing env s f verb noun ctx n) = ds_world s"
  by (simp_all add: announce_author_crossing_def split_beta Let_def split: option.splits)

lemma record_effect_frame [simp]:
  "ds_registry (record_run_effect env s verb params out ctx m) = ds_registry s"
  "ds_routes (record_run_effect env s verb params out ctx m) = ds_routes s"
  "ds_perms (record_run_effect env s verb params out ctx m) = ds_perms s"
  "ds_idem (record_run_effect env s verb params out ctx m) = ds_idem s"
  "ds_hitl (record_run_effect env s verb params out ctx m) = ds_hitl s"
  "ds_creds (record_run_effect env s verb params out ctx m) = ds_creds s"
  "ds_rate (record_run_effect env s verb params out ctx m) = ds_rate s"
  "ds_audit (record_run_effect env s verb params out ctx m) = ds_audit s"
  "ds_security (record_run_effect env s verb params out ctx m) = ds_security s"
  "ds_events (record_run_effect env s verb params out ctx m) = ds_events s"
  "ds_calls (record_run_effect env s verb params out ctx m) = ds_calls s"
  "ds_world (record_run_effect env s verb params out ctx m) = ds_world s"
  by (simp_all add: record_run_effect_def split_beta Let_def split: option.splits)

lemma log_call_frame [simp]:
  "ds_registry (log_call s b v ctx w) = ds_registry s"
  "ds_routes (log_call s b v ctx w) = ds_routes s"
  "ds_perms (log_call s b v ctx w) = ds_perms s"
  "ds_idem (log_call s b v ctx w) = ds_idem s"
  "ds_hitl (log_call s b v ctx w) = ds_hitl s"
  "ds_creds (log_call s b v ctx w) = ds_creds s"
  "ds_rate (log_call s b v ctx w) = ds_rate s"
  "ds_audit (log_call s b v ctx w) = ds_audit s"
  "ds_security (log_call s b v ctx w) = ds_security s"
  "ds_effects (log_call s b v ctx w) = ds_effects s"
  "ds_events (log_call s b v ctx w) = ds_events s"
  by (simp_all add: log_call_def split_beta Let_def split: option.splits)

lemma rate_stage_frame [simp]:
  "ds_registry (snd (rate_stage s f t verb b)) = ds_registry s" "ds_routes (snd (rate_stage s f t verb b)) = ds_routes s"
  "ds_perms (snd (rate_stage s f t verb b)) = ds_perms s" "ds_idem (snd (rate_stage s f t verb b)) = ds_idem s"
  "ds_hitl (snd (rate_stage s f t verb b)) = ds_hitl s" "ds_creds (snd (rate_stage s f t verb b)) = ds_creds s"
  "ds_audit (snd (rate_stage s f t verb b)) = ds_audit s" "ds_calls (snd (rate_stage s f t verb b)) = ds_calls s"
  "ds_world (snd (rate_stage s f t verb b)) = ds_world s" "ds_effects (snd (rate_stage s f t verb b)) = ds_effects s"
  by (simp_all add: rate_stage_def split_beta split: sum.splits)

lemma settle_frame [simp]:
  "ds_idem (settle_outcome env s f noun verb params ctx m r) = ds_idem s"
  "ds_hitl (settle_outcome env s f noun verb params ctx m r) = ds_hitl s"
  "ds_calls (settle_outcome env s f noun verb params ctx m r) = ds_calls s"
  "ds_world (settle_outcome env s f noun verb params ctx m r) = ds_world s"
  "ds_audit (settle_outcome env s f noun verb params ctx m r) = ds_audit s"
  "ds_registry (settle_outcome env s f noun verb params ctx m r) = ds_registry s"
  "ds_routes (settle_outcome env s f noun verb params ctx m r) = ds_routes s"
  "ds_perms (settle_outcome env s f noun verb params ctx m r) = ds_perms s"
  "ds_rate (settle_outcome env s f noun verb params ctx m r) = ds_rate s"
  by (cases r; simp add: settle_outcome_def split: dispatch_error.split)+

lemma finish_frame [simp]:
  "ds_idem (snd (finish env s f noun verb params ctx m r)) = ds_idem s"
  "ds_hitl (snd (finish env s f noun verb params ctx m r)) = ds_hitl s"
  "ds_calls (snd (finish env s f noun verb params ctx m r)) = ds_calls s"
  "ds_world (snd (finish env s f noun verb params ctx m r)) = ds_world s"
  "ds_registry (snd (finish env s f noun verb params ctx m r)) = ds_registry s"
  "ds_routes (snd (finish env s f noun verb params ctx m r)) = ds_routes s"
  "ds_perms (snd (finish env s f noun verb params ctx m r)) = ds_perms s"
  "ds_rate (snd (finish env s f noun verb params ctx m r)) = ds_rate s"
  "ds_effects (snd (finish env s f noun verb params ctx m r)) = ds_effects s"
  by (simp_all add: finish_def Let_def split: option.split)

abbreviation enforce_in ::
  "'w dispatch_env \<Rightarrow> 'w dispatch_state \<Rightarrow> fresh \<Rightarrow> verb_binding \<Rightarrow> string \<Rightarrow> string \<Rightarrow> pydict \<Rightarrow> invocation_context \<Rightarrow> string option
     \<Rightarrow> (gate_error + invocation_context) \<times> hitl_state" where
  "enforce_in env s f b noun verb params ctx aid \<equiv>
     enforce_approval (de_gate env) (ds_hitl s) (Some (cs_run (ds_creds s))) (fr_now f) (fr_request_id f) b noun verb params ctx aid"

lemma approval_stage_frame [simp]:
  "ds_registry (snd (approval_stage env s f noun verb params ctx aid b g)) = ds_registry s"
  "ds_routes (snd (approval_stage env s f noun verb params ctx aid b g)) = ds_routes s"
  "ds_perms (snd (approval_stage env s f noun verb params ctx aid b g)) = ds_perms s"
  "ds_idem (snd (approval_stage env s f noun verb params ctx aid b g)) = ds_idem s"
  "ds_creds (snd (approval_stage env s f noun verb params ctx aid b g)) = ds_creds s"
  "ds_audit (snd (approval_stage env s f noun verb params ctx aid b g)) = ds_audit s"
  "ds_calls (snd (approval_stage env s f noun verb params ctx aid b g)) = ds_calls s"
  "ds_world (snd (approval_stage env s f noun verb params ctx aid b g)) = ds_world s"
  "ds_effects (snd (approval_stage env s f noun verb params ctx aid b g)) = ds_effects s"
  by (simp_all add: approval_stage_def split_beta split: sum.splits)

lemma gate_stage_frame:
  assumes "gate_stage env s f noun verb params ctx aid b gated = (r, s')"
  shows "ds_registry s' = ds_registry s" "ds_routes s' = ds_routes s" "ds_perms s' = ds_perms s" "ds_idem s' = ds_idem s"
    "ds_creds s' = ds_creds s" "ds_audit s' = ds_audit s" "ds_calls s' = ds_calls s" "ds_world s' = ds_world s"
    "ds_effects s' = ds_effects s"
proof -
  let ?t = "ctx_tenant_id ctx"
  define c where "c = (gated \<and> aid \<noteq> None)"
  obtain r1 s1 where 1: "(if c then rate_stage s f ?t verb b else (Inr (), s)) = (r1, s1)" by fastforce
  obtain r2 s2 where 2: "approval_stage env s1 f noun verb params ctx aid b gated = (r2, s2)" by fastforce
  obtain r3 s3 where 3: "(if c then (Inr (), s2) else rate_stage s2 f ?t verb b) = (r3, s3)" by fastforce
  have s1: "s1 = (if c then snd (rate_stage s f ?t verb b) else s)"
    and s2: "s2 = snd (approval_stage env s1 f noun verb params ctx aid b gated)"
    and s3: "s3 = (if c then s2 else snd (rate_stage s2 f ?t verb b))"
    using 1 2 3 by (auto split: if_splits)
  have "s' = s1 \<or> s' = s2 \<or> s' = s3"
    using assms 1 2 3 unfolding gate_stage_def Let_def c_def[symmetric] by (cases r1; cases r2; cases r3) simp_all
  then show "ds_registry s' = ds_registry s" "ds_routes s' = ds_routes s" "ds_perms s' = ds_perms s" "ds_idem s' = ds_idem s"
    "ds_creds s' = ds_creds s" "ds_audit s' = ds_audit s" "ds_calls s' = ds_calls s" "ds_world s' = ds_world s"
    "ds_effects s' = ds_effects s"
    unfolding s3 s2 s1 by (elim disjE; simp)+
qed

lemma enforce_without_approval: "enforce_approval ge hs st now nid b noun verb params ctx None \<noteq> (Inr ctx', hs')"
  using enforce_Inr[of ge hs st now nid b noun verb params ctx None ctx' hs'] by fast

text \<open>Passing the gates means that the call is not gated or that its approval was consumed; a throttled call has not touched
  the approvals.\<close>

lemma gate_stage_Inr:
  assumes "gate_stage env s f noun verb params ctx aid b gated = (Inr ctx', s')"
  shows "if gated then enforce_in env s f b noun verb params ctx aid = (Inr ctx', ds_hitl s')
         else ctx' = ctx \<and> ds_hitl s' = ds_hitl s"
proof (cases gated)
  case False
  then show ?thesis
    using assms by (auto simp: gate_stage_def approval_stage_def rate_stage_def split: prod.splits sum.splits)
next
  case True
  show ?thesis
  proof (cases "aid = None")
    case None: True
    obtain r2 hs where e: "enforce_in env s f b noun verb params ctx aid = (r2, hs)" by fastforce
    have "\<exists>x. r2 = Inr x" using assms True None e
      by (cases r2) (auto simp: gate_stage_def approval_stage_def)
    then show ?thesis using e None enforce_without_approval by blast
  next
    case False
    obtain r1 s1 where 1: "rate_stage s f (ctx_tenant_id ctx) verb b = (r1, s1)" by fastforce
    have s1: "ds_hitl s1 = ds_hitl s" "ds_creds s1 = ds_creds s"
      using rate_stage_frame(5,6)[of s f "ctx_tenant_id ctx" verb b] 1 by simp_all
    obtain r2 hs where e: "enforce_in env s f b noun verb params ctx aid = (r2, hs)" by fastforce
    show ?thesis using assms True False 1 e s1
      by (cases r1; cases r2) (auto simp: gate_stage_def approval_stage_def)
  qed
qed

lemma gate_stage_throttled:
  assumes "gate_stage env s f noun verb params ctx aid b gated = (Inl (Throttled e), s')"
  shows "ds_hitl s' = ds_hitl s"
proof -
  have g: "gate_failure ge \<noteq> Throttled e" for ge by (cases ge) auto
  obtain r1 s1 where 1: "rate_stage s f (ctx_tenant_id ctx) verb b = (r1, s1)" by fastforce
  have s1: "ds_hitl s1 = ds_hitl s" "ds_creds s1 = ds_creds s"
    using rate_stage_frame(5,6)[of s f "ctx_tenant_id ctx" verb b] 1 by simp_all
  obtain r2 hs where e: "enforce_in env s f b noun verb params ctx aid = (r2, hs)" by fastforce
  show ?thesis
  proof (cases "gated \<and> aid \<noteq> None")
    case True
    then show ?thesis using assms 1 e s1 g
      by (cases r1; cases r2) (auto simp: gate_stage_def approval_stage_def)
  next
    case False
    show ?thesis
    proof (cases gated)
      case True
      then have "aid = None" using False by simp
      then have "\<exists>ge. r2 = Inl ge"
        using e enforce_without_approval by (cases r2) blast+
      then show ?thesis using assms True \<open>aid = None\<close> e g by (auto simp: gate_stage_def approval_stage_def)
    next
      case no_gate: False
      then show ?thesis using assms 1 s1 by (cases r1) (auto simp: gate_stage_def approval_stage_def)
    qed
  qed
qed

subsection \<open>Lemmas: execution\<close>

lemma execute_adapter_cases:
  "execute_adapter env s v b params ctx = (r, s') \<Longrightarrow> s' = s \<and> (\<exists>e. r = Inl e) \<or> (\<exists>w. s' = log_call s b v ctx w)"
  by (auto simp: execute_adapter_def split: option.splits sum.splits prod.splits)

lemma execute_agent_cases:
  "execute_agent env s v b params ctx = (r, s') \<Longrightarrow> s' = s \<and> (\<exists>e. r = Inl e) \<or> (\<exists>w. s' = log_call s b v ctx w)"
  by (auto simp: execute_agent_def split: option.splits sum.splits prod.splits)

definition external :: "verb_binding \<Rightarrow> verb_def \<Rightarrow> invocation_context \<Rightarrow> external_call" where
  "external b v ctx = \<lparr>xc_target = vb_target_ref b, xc_verb = vd_id v, xc_context = ctx\<rparr>"

lemma log_call_calls [simp]: "ds_calls (log_call s b v ctx w) = ds_calls s @ [external b v ctx]"
  by (simp add: log_call_def external_def)

lemma ask_user_frame:
  assumes "ask_user env s f params ctx = (e, s')"
  shows "ds_registry s' = ds_registry s" "ds_routes s' = ds_routes s" "ds_perms s' = ds_perms s" "ds_idem s' = ds_idem s"
    "ds_audit s' = ds_audit s" "ds_calls s' = ds_calls s" "ds_world s' = ds_world s" "ds_rate s' = ds_rate s"
  using assms by (auto simp: ask_user_def Let_def split: prod.splits sum.splits)

text \<open>The block either calls nothing, or it makes the one call of its binding and leaves every kernel table alone.\<close>

lemma perform_cases:
  assumes "perform env s f verb params ctx v b = (r, s')"
  obtains (quiet) e where "r = Inl e" "ds_calls s' = ds_calls s" "ds_world s' = ds_world s" "ds_idem s' = ds_idem s"
      "ds_audit s' = ds_audit s" "ds_registry s' = ds_registry s" "ds_routes s' = ds_routes s" "ds_perms s' = ds_perms s"
    | (called) w where "s' = log_call s b v ctx w"
proof (cases "verb = QUESTIONS_VERB")
  case True
  obtain e s1 where a: "ask_user env s f params ctx = (e, s1)" by fastforce
  then have "r = Inl e" "s' = s1" using assms True by (simp_all add: perform_def)
  then show ?thesis using ask_user_frame[OF a] by (intro quiet) simp_all
next
  case False
  obtain r1 s1 where x: "(case vb_target_type b of ADAPTER \<Rightarrow> execute_adapter env s v b params ctx
      | AGENT \<Rightarrow> execute_agent env s v b params ctx) = (r1, s1)" by fastforce
  have c: "s1 = s \<and> (\<exists>e. r1 = Inl e) \<or> (\<exists>w. s1 = log_call s b v ctx w)"
    using x by (cases "vb_target_type b") (auto dest: execute_adapter_cases execute_agent_cases)
  have s': "s' = s1" and r: "r1 = Inl e \<Longrightarrow> r = Inl e" for e
    using assms False x by (cases r1; force simp: perform_def split: sum.splits)+
  from c show ?thesis
  proof
    assume "s1 = s \<and> (\<exists>e. r1 = Inl e)"
    then show ?thesis using s' r by (auto intro: quiet)
  next
    assume "\<exists>w. s1 = log_call s b v ctx w"
    then show ?thesis using s' called by auto
  qed
qed

lemma perform_idem [simp]: "ds_idem (snd (perform env s f verb params ctx v b)) = ds_idem s"
proof -
  obtain r s' where p: "perform env s f verb params ctx v b = (r, s')" by fastforce
  show ?thesis by (cases rule: perform_cases[OF p]) (simp_all add: p)
qed

definition at_most_one_call :: "'w dispatch_state \<Rightarrow> 'w dispatch_state \<Rightarrow> external_call \<Rightarrow> bool" where
  "at_most_one_call s s' c \<longleftrightarrow> ds_calls s' = ds_calls s \<or> ds_calls s' = ds_calls s @ [c] \<and> ds_hitl s' = ds_hitl s"

lemma execute_started_calls:
  assumes "execute_started env s f noun verb params ctx v b run = (r, s')"
  shows "at_most_one_call s s' (external b v ctx)"
proof -
  obtain r1 s1 where p: "perform env s f verb params ctx v b = (r1, s1)" by fastforce
  have s': "ds_calls s' = ds_calls s1" "ds_hitl s' = ds_hitl s1"
    using assms p by (auto simp: execute_started_def Let_def split: sum.splits prod.splits option.splits if_splits)
  show ?thesis by (cases rule: perform_cases[OF p]) (simp_all add: s' at_most_one_call_def)
qed

lemma execute_claimed_calls:
  assumes "execute_claimed env s f noun verb params ctx aid v b gated run = (r, s')" "ds_calls s' \<noteq> ds_calls s"
  obtains ctx' s1 where "gate_stage env s f noun verb params ctx aid b gated = (Inr ctx', s1)"
    "ds_calls s' = ds_calls s @ [external b v ctx']" "ds_hitl s' = ds_hitl s1"
proof -
  obtain r1 s1 where g: "gate_stage env s f noun verb params ctx aid b gated = (r1, s1)" by fastforce
  note fr = gate_stage_frame[OF g]
  obtain ctx' where r1: "r1 = Inr ctx'" using assms g fr(7) by (cases r1) (auto simp: execute_claimed_def)
  obtain r2 idem where st: "coord_start (ds_idem s1) (fr_now f) run = (r2, idem)" by fastforce
  have "\<exists>u. r2 = Inr u" using assms g r1 st fr(7) by (cases r2) (auto simp: execute_claimed_def)
  then have x: "execute_started env (s1\<lparr>ds_idem := idem\<rparr>) f noun verb params ctx' v b run = (r, s')"
    using assms(1) g r1 st by (auto simp: execute_claimed_def)
  from execute_started_calls[OF x] show thesis
    using that[OF g[unfolded r1]] assms(2) fr(7) by (auto simp: at_most_one_call_def)
qed

subsection \<open>Lemmas: the pipeline\<close>

abbreviation resolve_in where
  "resolve_in env s verb ctx \<equiv> resolve_invocation_target (ds_registry s) (ds_routes s) (ctx_tenant_id ctx) verb (ctx_workspace_id ctx)
     (Some (authorize env s ctx))"

abbreviation claim_in where
  "claim_in env s f key noun verb params ctx v \<equiv> coord_claim (ge_frepr (de_gate env)) (ge_sha (de_gate env)) (ds_idem s) (fr_now f)
     (fr_owner_token f) key noun verb (PDict params) (idem_caller_of ctx) (vd_idempotency_mode v)"

definition admitted ::
  "'w dispatch_env \<Rightarrow> 'w dispatch_state \<Rightarrow> string \<Rightarrow> pydict \<Rightarrow> invocation_context \<Rightarrow> verb_def \<Rightarrow> verb_binding \<Rightarrow> execution_plan option \<Rightarrow> bool" where
  "admitted env s verb params ctx v b plan \<longleftrightarrow>
     (\<exists>m. resolve_in env s verb ctx = Inr (v, b, plan, m)) \<and> is_ok (rmap (authorize env s ctx) (grant_verbs verb v plan)) \<and>
     is_ok (reject_if_invalid (de_schema env) ''params'' verb (vd_input_schema v) (PDict params))"

fun handle_of :: "idem_outcome option \<Rightarrow> idem_handle option" where
  "handle_of (Some (IdemRun h)) = Some h"
| "handle_of _ = None"

lemma inner_cases:
  assumes "invoke_inner env s f noun verb params ctx key aid = (r, m, s')"
  obtains (refused) e where "r = Inl e" "s' = s" "\<And>v b plan. \<not> admitted env s verb params ctx v b plan"
    | (unclaimed) v b plan e idem where "admitted env s verb params ctx v b plan"
        "claim_in env s f key noun verb params ctx v = (Inl e, idem)" "r = Inl (idem_failure e)" "s' = s\<lparr>ds_idem := idem\<rparr>"
    | (replayed) v b plan out idem where "admitted env s verb params ctx v b plan"
        "claim_in env s f key noun verb params ctx v = (Inr (Some (IdemReplay out)), idem)" "r = Inr out" "s' = s\<lparr>ds_idem := idem\<rparr>"
        "\<not> im_gated m"
    | (crashed) v b plan claim idem x where "admitted env s verb params ctx v b plan"
        "claim_in env s f key noun verb params ctx v = (Inr claim, idem)" "\<And>out. claim \<noteq> Some (IdemReplay out)"
        "requires_approval (ds_routes s) (de_blocking_verbs env) verb v b plan ctx = Inl x" "r = Inl (Crash (error_name x))"
        "s' = s\<lparr>ds_idem := idem\<rparr>"
    | (executed) v b plan claim idem gated where "admitted env s verb params ctx v b plan"
        "claim_in env s f key noun verb params ctx v = (Inr claim, idem)" "\<And>out. claim \<noteq> Some (IdemReplay out)"
        "requires_approval (ds_routes s) (de_blocking_verbs env) verb v b plan ctx = Inr gated"
        "execute_claimed env (s\<lparr>ds_idem := idem\<rparr>) f noun verb params ctx aid v b gated (handle_of claim) = (r, s')"
proof (cases "resolve_in env s verb ctx")
  case (Inl e)
  then show ?thesis using assms by (intro refused) (auto simp: invoke_inner_def admitted_def)
next
  case (Inr x)
  obtain v b plan rm where x: "x = (v, b, plan, rm)" by (cases x) auto
  note res = Inr[unfolded x]
  show ?thesis
  proof (cases "is_ok (rmap (authorize env s ctx) (grant_verbs verb v plan)) \<and>
      is_ok (reject_if_invalid (de_schema env) ''params'' verb (vd_input_schema v) (PDict params))")
    case False
    then have "(\<exists>e. r = Inl e) \<and> s' = s" using assms res
      by (auto simp: invoke_inner_def is_ok_conv Let_def split: sum.splits)
    moreover have "\<And>v b plan. \<not> admitted env s verb params ctx v b plan" using False res by (auto simp: admitted_def)
    ultimately show ?thesis using refused by blast
  next
    case True
    then have ad: "admitted env s verb params ctx v b plan" using res by (auto simp: admitted_def)
    obtain g u where ok: "rmap (authorize env s ctx) (grant_verbs verb v plan) = Inr g"
        "reject_if_invalid (de_schema env) ''params'' verb (vd_input_schema v) (PDict params) = Inr u"
      using True by (auto simp: is_ok_conv)
    obtain c idem where cl: "claim_in env s f key noun verb params ctx v = (c, idem)" by fastforce
    show ?thesis
    proof (cases c)
      case (Inl e)
      then show ?thesis using assms res ok cl by (intro unclaimed[OF ad]) (auto simp: invoke_inner_def Let_def)
    next
      case (Inr claim)
      show ?thesis
      proof (cases "\<exists>out. claim = Some (IdemReplay out)")
        case True
        then show ?thesis using assms res ok cl Inr by (auto simp: invoke_inner_def Let_def intro!: replayed[OF ad])
      next
        case False
        then have run: "(case claim of Some (IdemRun h) \<Rightarrow> Some h | _ \<Rightarrow> None) = handle_of claim"
          by (cases claim) (auto split: idem_outcome.split)
        have "invoke_inner env s f noun verb params ctx key aid =
          (case requires_approval (ds_routes s) (de_blocking_verbs env) verb v b plan ctx of
             Inl x \<Rightarrow> (Inl (Crash (error_name x)), \<lparr>im_target_adapter = Some (rm_target_adapter rm), im_gated = False\<rparr>, s\<lparr>ds_idem := idem\<rparr>)
           | Inr gated \<Rightarrow> (case execute_claimed env (s\<lparr>ds_idem := idem\<rparr>) f noun verb params ctx aid v b gated (handle_of claim) of
               (r, s2) \<Rightarrow> (r, \<lparr>im_target_adapter = Some (rm_target_adapter rm), im_gated = gated\<rparr>, s2)))"
          using res ok cl Inr False unfolding run[symmetric]
          by (cases claim) (auto simp: invoke_inner_def Let_def split: idem_outcome.splits sum.split)
        then show ?thesis using assms ad cl Inr False
          by (cases "requires_approval (ds_routes s) (de_blocking_verbs env) verb v b plan ctx")
             (auto split: prod.splits intro: crashed executed)
      qed
    qed
  qed
qed

lemma authorize_cong: "ds_perms s' = ds_perms s \<Longrightarrow> authorize env s' = authorize env s"
  by (simp add: fun_eq_iff authorize_def get_tenant_permissions_def)

lemma admitted_cong:
  assumes "ds_registry s' = ds_registry s" "ds_routes s' = ds_routes s" "ds_perms s' = ds_perms s"
  shows "admitted env s' verb params ctx v b plan = admitted env s verb params ctx v b plan"
  using assms authorize_cong[OF assms(3)] by (simp add: admitted_def)

lemma admitted_unique:
  "admitted env s verb params ctx v b plan \<Longrightarrow> admitted env s verb params ctx v' b' plan' \<Longrightarrow> v' = v \<and> b' = b \<and> plan' = plan"
  by (auto simp: admitted_def)

lemma authorize_Inr:
  "authorize env s ctx n = Inr u \<longleftrightarrow>
     permits (de_nfkc env) (tp_grants (get_tenant_permissions s (ctx_tenant_id ctx))) n \<and> permits (de_nfkc env) (ctx_grants ctx) n"
  by (simp add: authorize_def check_def)

lemma rmap_ok_iff: "is_ok (rmap f xs) \<longleftrightarrow> (\<forall>x \<in> set xs. is_ok (f x))"
  by (induction xs) (auto simp: is_ok_conv rbind_Inr_iff)

lemma admitted_grants:
  assumes "admitted env s verb params ctx v b plan" "n \<in> set (grant_verbs verb v plan)"
  shows "permits (de_nfkc env) (tp_grants (get_tenant_permissions s (ctx_tenant_id ctx))) n \<and> permits (de_nfkc env) (ctx_grants ctx) n"
proof -
  have "is_ok (authorize env s ctx n)" using assms by (simp add: admitted_def rmap_ok_iff)
  then show ?thesis by (auto simp: is_ok_conv authorize_Inr)
qed

text \<open>A call as its inner pipeline, run after the announcing event, and the bookkeeping that follows it.\<close>

lemma invoke_cases:
  assumes "invoke env s f noun verb params ctx key aid = (r, s')"
  obtains s0 r0 m s1 where "s0 = emit_run_and_parent env s ctx (tool_call_event f noun verb params ctx)"
    "invoke_inner env s0 f noun verb params ctx key aid = (r0, m, s1)"
    "finish env (settle_outcome env s1 f noun verb params ctx m r0) f noun verb params ctx m r0 = (r, s')"
    "ds_idem s' = ds_idem s1" "ds_hitl s' = ds_hitl s1" "ds_calls s' = ds_calls s1" "ds_world s' = ds_world s1" "ds_rate s' = ds_rate s1"
    "ds_registry s' = ds_registry s1" "ds_routes s' = ds_routes s1" "ds_perms s' = ds_perms s1"
    "r = r0 \<or> r = Inl (Crash ''OverflowError'')"
proof -
  define s0 where "s0 = emit_run_and_parent env s ctx (tool_call_event f noun verb params ctx)"
  obtain r0 m s1 where i: "invoke_inner env s0 f noun verb params ctx key aid = (r0, m, s1)" by (metis surj_pair)
  have fin: "finish env (settle_outcome env s1 f noun verb params ctx m r0) f noun verb params ctx m r0 = (r, s')"
    using assms i by (simp add: invoke_def s0_def[symmetric])
  have s': "s' = snd (finish env (settle_outcome env s1 f noun verb params ctx m r0) f noun verb params ctx m r0)" using fin by simp
  have "r = r0 \<or> r = Inl (Crash ''OverflowError'')" using fin by (auto simp: finish_def Let_def split: option.splits)
  then show thesis using that[OF s0_def i fin] unfolding s' by simp
qed

end
