(* ===== verification/Governance.thy ===== *)
theory Governance
  imports Dispatch
begin

text \<open>
  What the dispatch chokepoint guarantees of a whole call (\<^verbatim>\<open>Dispatcher.invoke\<close>), proved over the pipeline cases of
  \<open>Dispatch\<close>: governed execution, approvals and throttling, idempotency keys, and the audit trail.
\<close>

text \<open>Property C1. Nothing reaches an adapter or an agent ungoverned. When a call executes anything outside the kernel, it executes
  exactly one operation, that of the binding its name resolves to; the tenant and the caller hold a grant for every
  name of the action; and if the approval posture gates the action, this call has spent an approval: one that was
  given to this very action, parameters and initiator, and whose approver is stamped into the context the adapter sees.\<close>

theorem external_call_is_granted_and_approved:
  assumes "invoke env s f noun verb params ctx key aid = (r, s')" and "ds_calls s' \<noteq> ds_calls s"
  shows "\<exists>v b plan m gated ctx'.
     resolve_invocation_target (ds_registry s) (ds_routes s) (ctx_tenant_id ctx) verb (ctx_workspace_id ctx)
       (Some (authorize env s ctx)) = Inr (v, b, plan, m) \<and>
     ds_calls s' = ds_calls s @ [\<lparr>xc_target = vb_target_ref b, xc_verb = vd_id v, xc_context = ctx'\<rparr>] \<and>
     (\<forall>n \<in> set (grant_verbs verb v plan).
        permits (de_nfkc env) (tp_grants (get_tenant_permissions s (ctx_tenant_id ctx))) n \<and> permits (de_nfkc env) (ctx_grants ctx) n) \<and>
     requires_approval (ds_routes s) (de_blocking_verbs env) verb v b plan ctx = Inr gated \<and>
     (if gated
      then \<exists>a u resource fp display. aid = Some a \<and> u \<noteq> [] \<and>
             gate_prepare (de_gate env) b noun verb params ctx = Inr (resource, fp, display) \<and>
             consume_approved_by (ds_hitl s) (fr_now f) (ctx_tenant_id ctx) a verb fp = (Some u, ds_hitl s') \<and>
             ctx' = stamp_approval ctx u a fp resource
      else ctx' = ctx)"
proof (cases rule: invoke_cases[OF assms(1)])
  case (1 s0 r0 m0 s1)
  have s0: "ds_registry s0 = ds_registry s" "ds_routes s0 = ds_routes s" "ds_perms s0 = ds_perms s" "ds_calls s0 = ds_calls s"
    "ds_hitl s0 = ds_hitl s" by (simp_all add: 1(1))
  note admitted_s0 = admitted_cong[OF s0(1-3)]
  have calls: "ds_calls s1 \<noteq> ds_calls s0" using assms(2) 1(6) s0(4) by simp
  from 1(2) show ?thesis
  proof (cases rule: inner_cases)
    case (executed v b plan claim idem gated)
    have "ds_calls s1 \<noteq> ds_calls (s0\<lparr>ds_idem := idem\<rparr>)" using calls by simp
    then obtain ctx' s2 where g: "gate_stage env (s0\<lparr>ds_idem := idem\<rparr>) f noun verb params ctx aid b gated = (Inr ctx', s2)"
        and c: "ds_calls s1 = ds_calls s0 @ [external b v ctx']" and h: "ds_hitl s1 = ds_hitl s2"
      using execute_claimed_calls[OF executed(5)] by (metis dispatch_state.select_convs(12) dispatch_state.update_convs(4) dispatch_state.surjective)
    have ad: "admitted env s verb params ctx v b plan" using executed(1) admitted_s0 by simp
    then obtain m where m: "resolve_in env s verb ctx = Inr (v, b, plan, m)" by (auto simp: admitted_def)
    have gate: "if gated then \<exists>a u resource fp display. aid = Some a \<and> u \<noteq> [] \<and>
             gate_prepare (de_gate env) b noun verb params ctx = Inr (resource, fp, display) \<and>
             consume_approved_by (ds_hitl s) (fr_now f) (ctx_tenant_id ctx) a verb fp = (Some u, ds_hitl s') \<and>
             ctx' = stamp_approval ctx u a fp resource
         else ctx' = ctx"
    proof (cases gated)
      case True
      then have e: "enforce_approval (de_gate env) (ds_hitl s) (Some (cs_run (ds_creds s0))) (fr_now f) (fr_request_id f) b noun verb
          params ctx aid = (Inr ctx', ds_hitl s')"
        using gate_stage_Inr[OF g] s0(5) h 1(5) by simp
      show ?thesis by (rule enforce_Inr[OF e]) (use True in auto)
    next
      case False
      then show ?thesis using gate_stage_Inr[OF g] by simp
    qed
    show ?thesis
      using m c 1(6) s0(4) admitted_grants[OF ad] executed(4)[unfolded s0(2)] gate
      by (intro exI[of _ v] exI[of _ b] exI[of _ plan] exI[of _ m] exI[of _ gated] exI[of _ ctx']) (simp add: external_def)
  qed (use calls in simp_all)
qed

subsection \<open>Throttling and approvals\<close>

lemma degrade_not_throttled: "degrade_or_fail v why \<noteq> Throttled e"
  by (simp add: degrade_or_fail_def split: option.split pyval.split)

lemma cred_not_throttled: "cred_failure x \<noteq> Throttled e"
  by (cases x) simp_all

lemma schema_not_throttled: "schema_failure x \<noteq> Throttled e"
  by (cases x) simp_all

lemma idem_not_throttled: "idem_failure x \<noteq> Throttled e"
  by (cases x) simp_all

lemma route_not_throttled: "route_failure x \<noteq> Throttled e"
  by (cases x) simp_all

lemmas not_throttled = degrade_not_throttled cred_not_throttled schema_not_throttled idem_not_throttled route_not_throttled

lemma perform_throttled_called:
  assumes "perform env s f verb params ctx v b = (Inl (Throttled e), s')"
  shows "\<exists>w. s' = log_call s b v ctx w"
proof (cases "verb = QUESTIONS_VERB")
  case True
  then show ?thesis using assms by (auto simp: perform_def ask_user_def Let_def split: prod.splits sum.splits)
next
  case False
  have a: "execute_adapter env s v b params ctx = (Inl (Throttled e), s1) \<Longrightarrow> \<exists>w. s1 = log_call s b v ctx w" for s1
    by (auto simp: execute_adapter_def not_throttled split: option.splits sum.splits prod.splits if_splits)
  have g: "execute_agent env s v b params ctx = (Inl (Throttled e), s1) \<Longrightarrow> \<exists>w. s1 = log_call s b v ctx w" for s1
    by (auto simp: execute_agent_def not_throttled split: option.splits sum.splits prod.splits if_splits)
  show ?thesis using assms False a g
    by (auto simp: perform_def not_throttled split: prod.splits sum.splits target_type.splits)
qed

lemma claimed_throttled:
  assumes "execute_claimed env s f noun verb params ctx aid v b gated run = (Inl (Throttled e), s')" "ds_calls s' = ds_calls s"
  shows "ds_hitl s' = ds_hitl s"
proof -
  obtain r1 s1 where g: "gate_stage env s f noun verb params ctx aid b gated = (r1, s1)" by fastforce
  show ?thesis
  proof (cases r1)
    case (Inl e1)
    then have "e1 = Throttled e" "s' = release s1 run" using assms(1) g by (auto simp: execute_claimed_def)
    then show ?thesis using gate_stage_throttled[of env s f noun verb params ctx aid b gated e s1] g Inl by simp
  next
    case (Inr ctx')
    obtain r2 idem where st: "coord_start (ds_idem s1) (fr_now f) run = (r2, idem)" by fastforce
    obtain u where "r2 = Inr u" using assms(1) g Inr st by (cases r2) (auto simp: execute_claimed_def not_throttled)
    then have x: "execute_started env (s1\<lparr>ds_idem := idem\<rparr>) f noun verb params ctx' v b run = (Inl (Throttled e), s')"
      using assms(1) g Inr st by (simp add: execute_claimed_def)
    obtain r3 s3 where p: "perform env (s1\<lparr>ds_idem := idem\<rparr>) f verb params ctx' v b = (r3, s3)" by fastforce
    have "r3 = Inl (Throttled e)" "s' = release s3 run"
      using x p by (auto simp: execute_started_def Let_def not_throttled split: sum.splits prod.splits)
    then have "ds_calls s' \<noteq> ds_calls s1" using perform_throttled_called[of env _ f verb params ctx' v b e s3] p by fastforce
    then show ?thesis using assms(2) gate_stage_frame(7)[OF g] by simp
  qed
qed

text \<open>Property C4. A throttle never burns an approval: a call that the rate limiter refuses leaves every approval request as it was,
  so the human authorisation it carried can still be redeemed by the retry.\<close>

theorem throttled_call_keeps_its_approval:
  assumes "invoke env s f noun verb params ctx key aid = (Inl (Throttled e), s')" and "ds_calls s' = ds_calls s"
  shows "ds_hitl s' = ds_hitl s"
proof (cases rule: invoke_cases[OF assms(1)])
  case (1 s0 r0 m0 s1)
  have s0: "ds_calls s0 = ds_calls s" "ds_hitl s0 = ds_hitl s" by (simp_all add: 1(1))
  have r0: "r0 = Inl (Throttled e)" using 1(12) by auto
  from 1(2) have "ds_hitl s1 = ds_hitl s0"
  proof (cases rule: inner_cases)
    case (executed v b plan claim idem gated)
    have "ds_calls s1 = ds_calls (s0\<lparr>ds_idem := idem\<rparr>)" using assms(2) 1(6) s0(1) by simp
    from claimed_throttled[OF executed(5)[unfolded r0] this] show ?thesis by simp
  qed simp_all
  then show ?thesis using 1(5) s0(2) by simp
qed

subsection \<open>Keys\<close>

lemma claimed_key:
  assumes "execute_claimed env s f noun verb params ctx aid v b gated (Some h) = (r, s')"
    "ds_idem s (handle_key h) = Some rec" "ir_status rec = Claimed" "ir_owner_token rec = Some (run_owner_token h)"
  shows "case r of
      Inl e \<Rightarrow> ds_idem s' = (ds_idem s)(handle_key h := None)
    | Inr out \<Rightarrow> ds_idem s' = (ds_idem s)(handle_key h \<mapsto> rec\<lparr>ir_status := (if secret_shaped out then Uncacheable else Completed),
          ir_owner_token := None, ir_lease_expires_at := None, ir_result := (if secret_shaped out then None else Some out)\<rparr>)"
proof -
  obtain r1 s1 where g: "gate_stage env s f noun verb params ctx aid b gated = (r1, s1)" by fastforce
  have idem: "ds_idem s1 = ds_idem s" using gate_stage_frame(4)[OF g] .
  show ?thesis
  proof (cases r1)
    case (Inl e)
    then have "r = Inl e" "s' = release s1 (Some h)" using assms(1) g by (auto simp: execute_claimed_def)
    then show ?thesis using idem assms(2-4) by (simp add: release_def coord_release_def idempotency_release_def)
  next
    case (Inr ctx')
    let ?rec = "rec\<lparr>ir_status := Executing, ir_lease_expires_at := Some (fr_now f + max 0 LEASE_SECONDS)\<rparr>"
    let ?s2 = "s1\<lparr>ds_idem := (ds_idem s)(handle_key h \<mapsto> ?rec)\<rparr>"
    have x: "execute_started env ?s2 f noun verb params ctx' v b (Some h) = (r, s')"
      using assms g Inr idem by (simp add: execute_claimed_def coord_start_def idempotency_start_def idem_owned_def)
    obtain r3 s3 where p: "perform env ?s2 f verb params ctx' v b = (r3, s3)" by fastforce
    have i3: "ds_idem s3 = (ds_idem s)(handle_key h \<mapsto> ?rec)" using perform_idem[of env ?s2 f verb params ctx' v b] p by simp
    show ?thesis
    proof (cases r3)
      case (Inl e)
      then have "r = Inl e" "s' = release s3 (Some h)" using x p by (auto simp: execute_started_def Let_def)
      then show ?thesis using i3 assms(4) by (simp add: release_def coord_release_def idempotency_release_def)
    next
      case (Inr out)
      then have "r = Inr out \<and> ds_idem s' = snd (coord_complete (ds_idem s3) (Some h) out)"
        using x p i3 assms(4)
        by (auto simp: execute_started_def Let_def coord_complete_def idempotency_complete_def idempotency_uncacheable_def idem_owned_def
            split: option.splits if_splits)
      then show ?thesis using i3 assms(4)
        by (auto simp: coord_complete_def idempotency_complete_def idempotency_uncacheable_def idem_owned_def)
    qed
  qed
qed

lemma claim_fresh:
  assumes "claim_in env s f (Some k) noun verb params ctx v = (c, idem)" "ds_idem s (ctx_tenant_id ctx, k) = None"
  obtains (refused) e where "c = Inl e" "idem = ds_idem s"
    | (claimed) h rec where "c = Inr (Some (IdemRun h))" "handle_key h = (ctx_tenant_id ctx, k)" "run_owner_token h = fr_owner_token f"
        "idem = (ds_idem s)(handle_key h \<mapsto> rec)" "ir_status rec = Claimed" "ir_owner_token rec = Some (run_owner_token h)"
        "vd_idempotency_mode v \<noteq> Disabled"
        "canonical_request_hash (ge_frepr (de_gate env)) (ge_sha (de_gate env)) (PDict params) = Inr (ib_request_hash (ir_bound rec))"
        "ir_bound rec = bound_of (idem_caller_of ctx) noun verb (ib_request_hash (ir_bound rec))"
proof (cases "vd_idempotency_mode v = Disabled")
  case True
  then show ?thesis using assms refused by (auto simp: coord_claim_def)
next
  case False
  show ?thesis
  proof (cases "canonical_request_hash (ge_frepr (de_gate env)) (ge_sha (de_gate env)) (PDict params)")
    case (Inl e)
    then show ?thesis using assms False refused by (auto simp: coord_claim_def)
  next
    case (Inr x)
    let ?h = "\<lparr>run_tenant = ctx_tenant_id ctx, run_key = k, run_owner_token = fr_owner_token f\<rparr>"
    let ?rec = "\<lparr>ir_bound = bound_of (idem_caller_of ctx) noun verb x, ir_status = Claimed, ir_owner_token = Some (fr_owner_token f),
        ir_lease_expires_at = Some (fr_now f + max 0 LEASE_SECONDS), ir_result = None\<rparr>"
    show ?thesis using assms False Inr
      by (intro claimed[of ?h ?rec]) (auto simp: coord_claim_def idempotency_claim_def idem_caller_of_def handle_key_def bound_of_def)
  qed
qed

lemma requires_approval_ok: "is_ok (unpinned names) \<Longrightarrow> requires_approval rt names verb v b plan ctx \<noteq> Inl x"
  by (auto simp: requires_approval_def is_ok_conv split: prod.splits if_splits)

text \<open>The inner pipeline on a fresh key.\<close>

lemma inner_fresh_key:
  assumes "invoke_inner env s f noun verb params ctx (Some k) aid = (r, m, s')" "ds_idem s (ctx_tenant_id ctx, k) = None"
    "is_ok (unpinned (de_blocking_verbs env))"
  obtains (failed) e where "r = Inl e" "ds_idem s' = ds_idem s"
    | (succeeded) out v b plan rec where "r = Inr out" "admitted env s verb params ctx v b plan" "vd_idempotency_mode v \<noteq> Disabled"
        "ds_idem s' = (ds_idem s)((ctx_tenant_id ctx, k) \<mapsto> rec)"
        "ir_status rec = (if secret_shaped out then Uncacheable else Completed)" "ir_result rec = (if secret_shaped out then None else Some out)"
        "canonical_request_hash (ge_frepr (de_gate env)) (ge_sha (de_gate env)) (PDict params) = Inr (ib_request_hash (ir_bound rec))"
        "ir_bound rec = bound_of (idem_caller_of ctx) noun verb (ib_request_hash (ir_bound rec))"
  using assms(1)
proof (cases rule: inner_cases)
  case (unclaimed v b plan e idem)
  then show ?thesis using assms(2) by (cases rule: claim_fresh[OF unclaimed(2) assms(2)]) (auto intro: failed)
next
  case (replayed v b plan out idem)
  then show ?thesis by (cases rule: claim_fresh[OF replayed(2) assms(2)]) auto
next
  case (crashed v b plan claim idem x)
  then show ?thesis using requires_approval_ok[OF assms(3)] by blast
next
  case (executed v b plan claim idem gated)
  show ?thesis
  proof (cases rule: claim_fresh[OF executed(2) assms(2)])
    case (2 h rec)
    then have h: "handle_of claim = Some h" by simp
    have base: "ds_idem (s\<lparr>ds_idem := idem\<rparr>) (handle_key h) = Some rec" using 2(4) by simp
    have gone: "idem(handle_key h := None) = ds_idem s" using 2(2,4) assms(2) by (auto simp: fun_eq_iff)
    note key = claimed_key[OF executed(5)[unfolded h] base 2(5,6)]
    show ?thesis
    proof (cases r)
      case (Inl e)
      then show ?thesis using key gone by (intro failed) simp_all
    next
      case (Inr out)
      let ?rec = "rec\<lparr>ir_status := (if secret_shaped out then Uncacheable else Completed), ir_owner_token := None,
          ir_lease_expires_at := None, ir_result := (if secret_shaped out then None else Some out)\<rparr>"
      have "ds_idem s' = (ds_idem s)((ctx_tenant_id ctx, k) \<mapsto> ?rec)" using key Inr 2(2,4) by simp
      then show ?thesis using Inr executed(1) 2 by (intro succeeded[of out v b plan ?rec]) simp_all
    qed
  qed (use executed in auto)
qed (rule failed; simp)


lemma claimed_tables:
  assumes "execute_claimed env s f noun verb params ctx aid v b gated run = (r, s')"
  shows "ds_registry s' = ds_registry s" "ds_routes s' = ds_routes s" "ds_perms s' = ds_perms s"
proof -
  obtain r1 s1 where g: "gate_stage env s f noun verb params ctx aid b gated = (r1, s1)" by fastforce
  note fr = gate_stage_frame(1-3)[OF g]
  have "ds_registry s' = ds_registry s1 \<and> ds_routes s' = ds_routes s1 \<and> ds_perms s' = ds_perms s1"
  proof (cases r1)
    case (Inl e)
    then show ?thesis using assms g by (auto simp: execute_claimed_def)
  next
    case (Inr ctx')
    obtain r2 idem where st: "coord_start (ds_idem s1) (fr_now f) run = (r2, idem)" by fastforce
    obtain r3 s3 where p: "perform env (s1\<lparr>ds_idem := idem\<rparr>) f verb params ctx' v b = (r3, s3)" by fastforce
    have s3: "ds_registry s3 = ds_registry s1 \<and> ds_routes s3 = ds_routes s1 \<and> ds_perms s3 = ds_perms s1"
      by (cases rule: perform_cases[OF p]) auto
    show ?thesis using assms g Inr st p s3
      by (auto simp: execute_claimed_def execute_started_def Let_def split: sum.splits prod.splits option.splits)
  qed
  then show "ds_registry s' = ds_registry s" "ds_routes s' = ds_routes s" "ds_perms s' = ds_perms s" using fr by auto
qed

lemma invoke_tables:
  assumes "invoke env s f noun verb params ctx key aid = (r, s')"
  shows "ds_registry s' = ds_registry s" "ds_routes s' = ds_routes s" "ds_perms s' = ds_perms s"
proof -
  have "ds_registry s' = ds_registry s \<and> ds_routes s' = ds_routes s \<and> ds_perms s' = ds_perms s"
  proof (cases rule: invoke_cases[OF assms])
    case (1 s0 r0 m0 s1)
    have s0: "ds_registry s0 = ds_registry s" "ds_routes s0 = ds_routes s" "ds_perms s0 = ds_perms s" by (simp_all add: 1(1))
    from 1(2) have "ds_registry s1 = ds_registry s0 \<and> ds_routes s1 = ds_routes s0 \<and> ds_perms s1 = ds_perms s0"
    proof (cases rule: inner_cases)
      case (executed v b plan claim idem gated)
      then show ?thesis using claimed_tables[OF executed(5)] by simp
    qed simp_all
    then show ?thesis using 1(9-11) s0 by simp
  qed
  then show "ds_registry s' = ds_registry s" "ds_routes s' = ds_routes s" "ds_perms s' = ds_perms s" by auto
qed

lemma finish_ok:
  "fst (finish env s f noun verb params ctx m (Inr out)) =
     (if tone_frame ''ok'' out (ctx_run_id ctx) = None then Inl (Crash ''OverflowError'') else Inr out)"
  by (auto simp: finish_def outcome_status_def result_frames_def Let_def split: option.splits)

text \<open>Calling again with the key of a settled record: the claim is answered from the record, and nothing runs.\<close>

lemma settled_key_answers:
  assumes "invoke_inner env s f noun verb params ctx (Some k) aid = (r, m, s')"
    "admitted env s verb params ctx v b plan" "vd_idempotency_mode v \<noteq> Disabled"
    "canonical_request_hash (ge_frepr (de_gate env)) (ge_sha (de_gate env)) (PDict params) = Inr x"
    "ds_idem s (ctx_tenant_id ctx, k) = Some rec" "ir_bound rec = bound_of (idem_caller_of ctx) noun verb x"
    "ir_status rec = Completed \<or> ir_status rec = Uncacheable"
  shows "s' = s \<and> r = (if ir_status rec = Completed then Inr (replay_dict (ir_result rec)) else Inl (IdempotencyConflict ResultUncacheable))"
proof -
  have cl: "claim_in env s f (Some k) noun verb params ctx v =
      (if ir_status rec = Completed then Inr (Some (IdemReplay (replay_dict (ir_result rec)))) else Inl ResultUncacheable, ds_idem s)"
    using assms(3-7) by (auto simp: coord_claim_def idempotency_claim_def idem_caller_of_def)
  have same: "s\<lparr>ds_idem := ds_idem s\<rparr> = s" by simp
  from assms(1) show ?thesis
  proof (cases rule: inner_cases)
    case (refused e)
    then show ?thesis using assms(2) by blast
  next
    case (unclaimed v' b' plan' e idem)
    then show ?thesis using admitted_unique[OF assms(2) unclaimed(1)] cl same by (auto split: if_splits)
  next
    case (replayed v' b' plan' out idem)
    then show ?thesis using admitted_unique[OF assms(2) replayed(1)] cl same by (auto split: if_splits)
  next
    case (crashed v' b' plan' claim idem y)
    then show ?thesis using admitted_unique[OF assms(2) crashed(1)] cl by (auto split: if_splits)
  next
    case (executed v' b' plan' claim idem gated)
    then show ?thesis using admitted_unique[OF assms(2) executed(1)] cl by (auto split: if_splits)
  qed
qed

text \<open>Property C2. Exactly once per key. After a call with a fresh idempotency key has succeeded, repeating the call under that key
  (with any approval, at any later time) executes nothing, spends no approval and takes no rate token; it returns the
  recorded output, or, when the output was secret-shaped and so was not kept, a conflict.\<close>

theorem repeated_call_executes_once:
  assumes "invoke env s f noun verb params ctx (Some k) aid = (Inr out, s')" and "ds_idem s (ctx_tenant_id ctx, k) = None"
    and "is_ok (unpinned (de_blocking_verbs env))"
    and "invoke env s' f' noun verb params ctx (Some k) aid' = (r, s'')"
  shows "ds_calls s'' = ds_calls s' \<and> ds_world s'' = ds_world s' \<and> ds_hitl s'' = ds_hitl s' \<and> ds_rate s'' = ds_rate s' \<and>
     ds_idem s'' = ds_idem s' \<and>
     r = (if secret_shaped out then Inl (IdempotencyConflict ResultUncacheable) else Inr (replay_dict (Some out)))"
proof (cases rule: invoke_cases[OF assms(1)])
  case first: (1 s0 r0 m0 s1)
  have s0: "ds_registry s0 = ds_registry s" "ds_routes s0 = ds_routes s" "ds_perms s0 = ds_perms s" "ds_idem s0 = ds_idem s"
    by (simp_all add: first(1))
  have r0: "r0 = Inr out" using first(12) by auto
  have tone: "tone_frame ''ok'' out (ctx_run_id ctx) \<noteq> None"
    using finish_ok[of env "settle_outcome env s1 f noun verb params ctx m0 r0" f noun verb params ctx m0 out] first(3) r0
    by (auto split: if_splits)
  have fresh: "ds_idem s0 (ctx_tenant_id ctx, k) = None" using assms(2) s0(4) by simp
  show ?thesis
  proof (cases rule: inner_fresh_key[OF first(2) fresh assms(3)])
    case (1 e)
    then show ?thesis using r0 by simp
  next
    case settled: (2 out' v b plan rec)
    have out': "out' = out" using settled(1) r0 by simp
    show ?thesis
    proof (cases rule: invoke_cases[OF assms(4)])
      case again: (1 t0 q0 n0 t1)
      have t0: "ds_registry t0 = ds_registry s0" "ds_routes t0 = ds_routes s0" "ds_perms t0 = ds_perms s0" "ds_idem t0 = ds_idem s1"
          "ds_calls t0 = ds_calls s'" "ds_world t0 = ds_world s'" "ds_hitl t0 = ds_hitl s'" "ds_rate t0 = ds_rate s'"
        using invoke_tables[OF assms(1)] s0 first(4) by (simp_all add: again(1))
      have ad: "admitted env t0 verb params ctx v b plan" using admitted_cong[OF t0(1-3)] settled(2) by simp
      have rec: "ds_idem t0 (ctx_tenant_id ctx, k) = Some rec" using settled(4) t0(4) by simp
      have st: "ir_status rec = Completed \<or> ir_status rec = Uncacheable" using settled(5) by simp
      note ans = settled_key_answers[OF again(2) ad settled(3,7) rec settled(8) st]
      have frames: "tone_frame ''ok'' (replay_dict (Some out)) (ctx_run_id ctx) \<noteq> None"
        using tone by (auto simp: replay_dict_def tone_frame_def dict_get_def)
      have "r = q0"
      proof (cases "secret_shaped out")
        case True
        then have "q0 = Inl (IdempotencyConflict ResultUncacheable)" using ans settled(5) out' by simp
        then show ?thesis using again(3) by (auto simp: finish_def outcome_status_def result_frames_def tone_frame_def Let_def)
      next
        case False
        then have q0: "q0 = Inr (replay_dict (Some out))" using ans settled(5,6) out' by simp
        then show ?thesis
          using again(3) frames finish_ok[of env "settle_outcome env t1 f' noun verb params ctx n0 q0" f' noun verb params ctx n0 "replay_dict (Some out)"]
          by simp
      qed
      then show ?thesis using ans settled(5,6) out' t0 again(4-8) first(4) by (auto split: if_splits)
    qed
  qed
qed

subsection \<open>Concrete calls\<close>

text \<open>A small deployment: one mailing verb behind one adapter, which answers that it sent the message.\<close>

definition demo_mail_verb :: verb_def where
  "demo_mail_verb = \<lparr>vd_id = ''mail.send'', vd_tenant_id = ''t'', vd_noun_id = ''mail'', vd_input_schema = [], vd_output_schema = [],
     vd_description = [], vd_consequence = HIGH, vd_degraded_mode = None, vd_identity_mode = ''service-principal'',
     vd_idempotency_mode = Cacheable, vd_is_active = True\<rparr>"

definition demo_mail_binding :: "rate_limit option \<Rightarrow> verb_binding" where
  "demo_mail_binding rl = \<lparr>vb_verb_id = ''mail.send'', vb_tenant_id = ''t'', vb_target_type = ADAPTER, vb_target_ref = ''mailer'',
     vb_rate_limit = rl, vb_internal_source_operation_id = None, vb_canonical_capability_id = None, vb_model_display_name = None,
     vb_connection_label = None\<rparr>"

definition demo_mailer :: "bool \<Rightarrow> nat adapter_execute" where
  "demo_mailer up verb p cred ctx w =
     (Inr \<lparr>res_ok = up, res_output = PDict [(KStr ''sent'', PBool True)],
        res_error = (if up then None else Some \<lparr>ax_error_class = UNAVAILABLE, ax_message = ''down'', ax_retry_after = None\<rparr>)\<rparr>, Suc w)"

definition demo_system :: "bool \<Rightarrow> nat dispatch_env" where
  "demo_system up = \<lparr>de_nfkc = id, de_gate = demo_env, de_audit = demo_audit_env, de_resolver = demo_resolver,
     de_schema = \<lparr>sv_iter_errors = (\<lambda>_ _. []), sv_frepr = demo_frepr, sv_sha = id, sv_pstr = (\<lambda>_. ''?'')\<rparr>, de_seal = id,
     de_blocking_verbs = [], de_adapter = (\<lambda>t ref. if ref = ''mailer'' then Some (demo_mailer up) else None),
     de_agent = None, de_users = (\<lambda>_ _. []), de_builders = (\<lambda>_. None), de_message = (\<lambda>_. ''?''), de_has_events = False,
     de_has_security = True\<rparr>"

definition demo_no_creds :: cred_store where
  "demo_no_creds = \<lparr>cs_run = run_store_empty, cs_connections = [], cs_allow_own = (\<lambda>_. None), cs_adapter_cred = []\<rparr>"

definition demo_tables :: "consequence \<Rightarrow> rate_limit option \<Rightarrow> hitl_state \<Rightarrow> nat dispatch_state" where
  "demo_tables c rl hs = \<lparr>ds_registry = registry_empty\<lparr>rg_nouns := [((''t'', ''mail''), \<lparr>no_id = ''mail'', no_tenant_id = ''t'',
        no_description = [], no_schema = [], no_is_active = True\<rparr>)],
        rg_verbs := [((''t'', ''mail.send''), demo_mail_verb\<lparr>vd_consequence := c\<rparr>)],
        rg_bindings := [((''t'', ''mail.send''), demo_mail_binding rl)]\<rparr>,
     ds_routes = route_empty, ds_perms = (\<lambda>t. Some \<lparr>tp_tenant_id = t, tp_grants = \<lparr>allow = [''mail.*''], deny = []\<rparr>\<rparr>),
     ds_idem = Map.empty, ds_hitl = hs,
     ds_creds = demo_no_creds,
     ds_rate = Map.empty, ds_audit = audit_store_empty, ds_security = security_store_empty, ds_effects = [], ds_events = [],
     ds_calls = [], ds_world = 0\<rparr>"

lemma demo_tables_sel [simp]:
  "ds_calls (demo_tables c rl hs) = []" "ds_creds (demo_tables c rl hs) = demo_no_creds" "ds_hitl (demo_tables c rl hs) = hs"
  "ds_idem (demo_tables c rl hs) = Map.empty" "ds_rate (demo_tables c rl hs) = Map.empty" "ds_world (demo_tables c rl hs) = 0"
  by (simp_all add: demo_tables_def)

lemma demo_tables_idem [simp]: "demo_tables c rl hs\<lparr>ds_idem := \<lambda>_. None\<rparr> = demo_tables c rl hs"
  by (simp add: demo_tables_def)

lemma demo_system_quiet: "\<not> de_has_events (demo_system up)" by (simp add: demo_system_def)

definition demo_fresh :: fresh where
  "demo_fresh = \<lparr>fr_now = 6, fr_call_id = ''c2'', fr_request_id = ''r2'', fr_owner_token = ''w'', fr_latency_ms = 3,
     fr_audit_fault = None, fr_crossing_fault = None, fr_security_fault = None\<rparr>"

definition demo_mail :: pydict where "demo_mail = [(KStr ''to'', PStr ''bob'')]"

text \<open>The approvals after the verb was asked for and a human said yes.\<close>

definition demo_approvals :: hitl_state where
  "demo_approvals = snd (hitl_answer True (snd (enforce_approval demo_env hitl_empty (Some run_store_empty) 0 ''r1''
     (demo_mail_binding None) ''mail'' ''mail.send'' demo_mail demo_context None)) 5 ''p1'' ''t'' ''r1'' ''Approve'' ''bob'' '''')"

lemma is_ok_rbind: "is_ok (rbind x (\<lambda>y. Inr (g y))) = is_ok x"
  by (cases x) (simp_all add: is_ok_conv)

lemma demo_admitted: "admitted (demo_system up) (demo_tables c rl hs) ''mail.send'' demo_mail demo_context
     (demo_mail_verb\<lparr>vd_consequence := c\<rparr>) (demo_mail_binding rl) None"
proof -
  have "resolve_invocation_target (ds_registry (demo_tables c rl hs)) (ds_routes (demo_tables c rl hs)) ''t'' ''mail.send'' None a
      = Inr (demo_mail_verb\<lparr>vd_consequence := c\<rparr>, demo_mail_binding rl, None, \<lparr>rm_target_adapter = ''mailer'', rm_plan = None\<rparr>)" for a
    by (simp add: resolve_invocation_target_def get_verb_def get_verb_any_def get_noun_def get_noun_any_def get_binding_def demo_tables_def demo_mail_verb_def demo_mail_binding_def
       registry_empty_def Let_def)
  moreover have "is_ok (check id \<lparr>allow = [''mail.*''], deny = []\<rparr> ''mail.send''
     \<lparr>tp_tenant_id = ''t'', tp_grants = \<lparr>allow = [''mail.*''], deny = []\<rparr>\<rparr>)" by code_simp
  ultimately show ?thesis
    by (simp add: admitted_def is_ok_rbind grant_verbs_def authorize_def get_tenant_permissions_def demo_tables_def demo_system_def
       demo_context_def reject_if_invalid_def validate_def demo_mail_verb_def)
qed

lemma demo_gated: "requires_approval (ds_routes (demo_tables c rl hs)) (de_blocking_verbs (demo_system up)) ''mail.send''
     (demo_mail_verb\<lparr>vd_consequence := c\<rparr>) (demo_mail_binding rl) None demo_context = Inr (c = HIGH)"
  by (simp add: requires_approval_def demo_tables_def demo_system_def unpinned_def governed_capabilities_def blocking_names_def
     posture_requires_approval_def approval_posture_for_def list_user_settings_def list_capability_bindings_def Let_def
     demo_mail_verb_def demo_mail_binding_def demo_context_def route_empty_def startswith_def)

lemma demo_approved:
  obtains ctx' hs' where "enforce_approval demo_env demo_approvals (Some run_store_empty) 6 ''r2'' (demo_mail_binding None) ''mail''
    ''mail.send'' demo_mail demo_context (Some ''r1'') = (Inr ctx', hs')"
proof -
  have "is_ok (fst (enforce_approval demo_env demo_approvals (Some run_store_empty) 6 ''r2'' (demo_mail_binding None) ''mail''
    ''mail.send'' demo_mail demo_context (Some ''r1'')))" by code_simp
  then show thesis using that by (metis is_ok_conv prod.collapse)
qed

lemma finish_Inl: "fst (finish env s f noun verb params ctx m (Inl e)) = Inl e"
  by (simp add: finish_def result_frames_def tone_frame_def Let_def)

text \<open>How the concrete calls below run: their claim, then the gates, then the adapter.\<close>

lemma invoke_after_claim:
  assumes "\<not> de_has_events env" "admitted env s verb params ctx v b plan"
    "requires_approval (ds_routes s) (de_blocking_verbs env) verb v b plan ctx = Inr gated"
    "claim_in env s f key noun verb params ctx v = (Inr claim, idem)" "\<And>out. claim \<noteq> Some (IdemReplay out)"
    "execute_claimed env (s\<lparr>ds_idem := idem\<rparr>) f noun verb params ctx aid v b gated (handle_of claim) = (r, s1)"
  shows "\<exists>m. invoke env s f noun verb params ctx key aid =
     finish env (settle_outcome env s1 f noun verb params ctx m r) f noun verb params ctx m r"
proof -
  have s0: "emit_run_and_parent env s ctx e = s" for e using assms(1) by (simp add: emit_run_and_parent_def emit_def Let_def)
  obtain r0 m s1' where i: "invoke_inner env s f noun verb params ctx key aid = (r0, m, s1')" by (metis surj_pair)
  then have "r0 = r \<and> s1' = s1"
  proof (cases rule: inner_cases)
    case (refused e)
    then show ?thesis using assms(2) by blast
  next
    case (unclaimed v' b' plan' e idem')
    then show ?thesis using admitted_unique[OF assms(2) unclaimed(1)] assms(4) by simp
  next
    case (replayed v' b' plan' out idem')
    then show ?thesis using admitted_unique[OF assms(2) replayed(1)] assms(4,5) by simp
  next
    case (crashed v' b' plan' c idem' y)
    then show ?thesis using admitted_unique[OF assms(2) crashed(1)] assms(3) by simp
  next
    case (executed v' b' plan' c idem' g)
    then show ?thesis using admitted_unique[OF assms(2) executed(1)] assms(3,4,6) by simp
  qed
  then show ?thesis using i s0 by (auto simp: invoke_def)
qed

lemma demo_credential:
  "adapter_credential (demo_system up) s (demo_mail_binding rl) demo_mail (demo_context\<lparr>ctx_extra := x\<rparr>) = Inr (None, PDict demo_mail)"
  if "ds_creds s = demo_no_creds"
proof -
  have "resolve_for_adapter demo_resolver demo_no_creds ''t'' ''mailer'' (Some ''ann'') = Inr None" by code_simp
  moreover have "resolve_run_scoped_params id run_store_empty ''t'' (Some ''child'') (Some ''ann'') (PDict demo_mail) = Inr (PDict demo_mail)"
    by code_simp
  moreover have "resolve_run_scoped_credential id run_store_empty ''t'' (Some ''child'') ''mailer'' (Some ''ann'') = None" by code_simp
  ultimately show ?thesis using that
    by (simp add: adapter_credential_def demo_system_def demo_mail_binding_def demo_context_def acting_owner_def Let_def demo_no_creds_def
        demo_resolver_def)
qed

lemma demo_perform:
  "perform (demo_system up) s demo_fresh ''mail.send'' demo_mail (demo_context\<lparr>ctx_extra := x\<rparr>) (demo_mail_verb\<lparr>vd_consequence := c\<rparr>)
       (demo_mail_binding rl)
     = (if up then Inr (PDict [(KStr ''sent'', PBool True)]) else Inl (VerbUnavailable ''mail.send'' ''backend_unavailable''),
        log_call s (demo_mail_binding rl) (demo_mail_verb\<lparr>vd_consequence := c\<rparr>) (demo_context\<lparr>ctx_extra := x\<rparr>) (Suc (ds_world s)))"
  if "ds_creds s = demo_no_creds"
proof -
  have "execute_adapter (demo_system up) s (demo_mail_verb\<lparr>vd_consequence := c\<rparr>) (demo_mail_binding rl) demo_mail (demo_context\<lparr>ctx_extra := x\<rparr>)
     = (if up then Inr (PDict [(KStr ''sent'', PBool True)]) else Inl (VerbUnavailable ''mail.send'' ''backend_unavailable''),
        log_call s (demo_mail_binding rl) (demo_mail_verb\<lparr>vd_consequence := c\<rparr>) (demo_context\<lparr>ctx_extra := x\<rparr>) (Suc (ds_world s)))"
    unfolding execute_adapter_def demo_credential[OF that]
    by (simp add: demo_system_def demo_mailer_def demo_mail_binding_def demo_mail_verb_def degrade_or_fail_def)
  then show ?thesis
    by (auto simp: perform_def QUESTIONS_VERB_def demo_mail_binding_def reject_if_invalid_def validate_def demo_mail_verb_def)
qed

definition demo_send where
  "demo_send = invoke (demo_system True) (demo_tables HIGH None demo_approvals) demo_fresh ''mail'' ''mail.send'' demo_mail demo_context
     None (Some ''r1'')"

lemma demo_send_calls: "ds_calls (snd demo_send) \<noteq> []"
proof -
  let ?s = "demo_tables HIGH None demo_approvals" and ?env = "demo_system True"
  let ?v = "demo_mail_verb\<lparr>vd_consequence := HIGH\<rparr>" and ?b = "demo_mail_binding None"
  obtain ctx' hs' where e: "enforce_approval demo_env demo_approvals (Some run_store_empty) 6 ''r2'' ?b ''mail''
    ''mail.send'' demo_mail demo_context (Some ''r1'') = (Inr ctx', hs')" by (rule demo_approved)
  obtain x where x: "ctx' = demo_context\<lparr>ctx_extra := x\<rparr>" by (rule enforce_Inr[OF e]) (simp add: stamp_approval_def)
  have g: "gate_stage ?env ?s demo_fresh ''mail'' ''mail.send'' demo_mail demo_context (Some ''r1'') ?b True = (Inr ctx', ?s\<lparr>ds_hitl := hs'\<rparr>)"
    using e by (simp add: gate_stage_def approval_stage_def rate_stage_def rate_enforce_def demo_mail_binding_def demo_tables_def
       demo_system_def demo_fresh_def demo_no_creds_def)
  have cr: "ds_creds (?s\<lparr>ds_hitl := hs'\<rparr>) = demo_no_creds" by simp
  have p: "fst (execute_claimed ?env ?s demo_fresh ''mail'' ''mail.send'' demo_mail demo_context (Some ''r1'') ?v ?b True None) =
     Inr (PDict [(KStr ''sent'', PBool True)]) \<and>
     ds_calls (snd (execute_claimed ?env ?s demo_fresh ''mail'' ''mail.send'' demo_mail demo_context (Some ''r1'') ?v ?b True None)) =
     ds_calls ?s @ [external ?b ?v ctx']"
    by (simp add: execute_claimed_def g coord_start_def execute_started_def demo_perform[OF cr] x coord_complete_def startswith_def)
  let ?x = "execute_claimed ?env ?s demo_fresh ''mail'' ''mail.send'' demo_mail demo_context (Some ''r1'') ?v ?b True None"
  obtain m where m: "demo_send = finish ?env (settle_outcome ?env (snd ?x) demo_fresh ''mail'' ''mail.send'' demo_mail demo_context m (fst ?x)) demo_fresh
     ''mail'' ''mail.send'' demo_mail demo_context m (fst ?x)"
    using invoke_after_claim[OF demo_system_quiet demo_admitted demo_gated, where key = None and claim = None
        and idem = "ds_idem ?s" and aid = "Some ''r1''" and r = "fst ?x" and ?s1.0 = "snd ?x" and f = demo_fresh and noun = "''mail''"
        and up1 = True and hs1 = demo_approvals and c1 = HIGH and rl1 = None]
    by (auto simp: coord_claim_def demo_send_def)
  show ?thesis using p unfolding m by simp
qed

theorem external_call_is_granted_and_approved_witness:
  "\<exists>u fp resource. ds_calls (snd demo_send) = [\<lparr>xc_target = ''mailer'', xc_verb = ''mail.send'',
     xc_context = stamp_approval demo_context u ''r1'' fp resource\<rparr>] \<and> u \<noteq> []"
proof -
  let ?s = "demo_tables HIGH None demo_approvals" and ?env = "demo_system True"
  have i: "invoke ?env ?s demo_fresh ''mail'' ''mail.send'' demo_mail demo_context None (Some ''r1'') = (fst demo_send, snd demo_send)"
    by (simp add: demo_send_def)
  have "ds_calls (snd demo_send) \<noteq> ds_calls ?s" using demo_send_calls by (simp add: demo_tables_def)
  from external_call_is_granted_and_approved[OF i this] obtain v b plan m gated ctx' where
    t: "resolve_in ?env ?s ''mail.send'' demo_context = Inr (v, b, plan, m)"
      "ds_calls (snd demo_send) = ds_calls ?s @ [\<lparr>xc_target = vb_target_ref b, xc_verb = vd_id v, xc_context = ctx'\<rparr>]"
      "requires_approval (ds_routes ?s) (de_blocking_verbs ?env) ''mail.send'' v b plan demo_context = Inr gated"
      "if gated
      then \<exists>a u resource fp display. Some ''r1'' = Some a \<and> u \<noteq> [] \<and>
             gate_prepare (de_gate ?env) b ''mail'' ''mail.send'' demo_mail demo_context = Inr (resource, fp, display) \<and>
             consume_approved_by (ds_hitl ?s) (fr_now demo_fresh) (ctx_tenant_id demo_context) a ''mail.send'' fp = (Some u, ds_hitl (snd demo_send)) \<and>
             ctx' = stamp_approval demo_context u a fp resource
      else ctx' = demo_context"
    by blast
  have v: "v = demo_mail_verb\<lparr>vd_consequence := HIGH\<rparr>" "b = demo_mail_binding None" "plan = None"
    using demo_admitted[of True HIGH None demo_approvals] t(1) by (auto simp: admitted_def)
  have "gated" using t(3) demo_gated[of HIGH None demo_approvals True] v by simp
  then obtain u fp resource where "u \<noteq> []" "ctx' = stamp_approval demo_context u ''r1'' fp resource" using t(4) by auto
  then show ?thesis using t(2) v by (auto simp: demo_mail_verb_def demo_mail_binding_def)
qed


text \<open>The same verb, ungated, under an idempotency key.\<close>

lemma demo_claim:
  obtains rec where "claim_in (demo_system up) (demo_tables c rl hs) demo_fresh (Some ''k'') ''mail'' ''mail.send'' demo_mail demo_context
      (demo_mail_verb\<lparr>vd_consequence := c\<rparr>) = (Inr (Some (IdemRun \<lparr>run_tenant = ''t'', run_key = ''k'', run_owner_token = ''w''\<rparr>)),
         Map.empty((''t'', ''k'') \<mapsto> rec))"
    "ir_status rec = Claimed" "ir_owner_token rec = Some ''w''"
proof -
  have "is_ok (canonical_request_hash demo_frepr (Cons CHR ''h'') (PDict demo_mail))" by code_simp
  then obtain x where x: "canonical_request_hash demo_frepr (Cons CHR ''h'') (PDict demo_mail) = Inr x" by (auto simp: is_ok_conv)
  show thesis
    by (rule that[of "\<lparr>ir_bound = bound_of (idem_caller_of demo_context) ''mail'' ''mail.send'' x, ir_status = Claimed,
         ir_owner_token = Some ''w'', ir_lease_expires_at = Some (6 + max 0 LEASE_SECONDS), ir_result = None\<rparr>"])
       (simp_all add: coord_claim_def demo_mail_verb_def demo_system_def demo_env_def x idempotency_claim_def idem_caller_of_def demo_context_def
         demo_fresh_def)
qed

definition demo_keyed where
  "demo_keyed up = invoke (demo_system up) (demo_tables LOW None hitl_empty) demo_fresh ''mail'' ''mail.send'' demo_mail demo_context
     (Some ''k'') None"

lemma demo_keyed_runs:
  "fst (demo_keyed up) = (if up then Inr (PDict [(KStr ''sent'', PBool True)]) else Inl (VerbUnavailable ''mail.send'' ''backend_unavailable''))
   \<and> ds_world (snd (demo_keyed up)) = 1"
proof -
  let ?s = "demo_tables LOW None hitl_empty" and ?env = "demo_system up"
  let ?v = "demo_mail_verb\<lparr>vd_consequence := LOW\<rparr>" and ?b = "demo_mail_binding None"
  let ?h = "\<lparr>run_tenant = ''t'', run_key = ''k'', run_owner_token = ''w''\<rparr>"
  obtain rec where c: "claim_in ?env ?s demo_fresh (Some ''k'') ''mail'' ''mail.send'' demo_mail demo_context ?v =
      (Inr (Some (IdemRun ?h)), Map.empty((''t'', ''k'') \<mapsto> rec))" "ir_status rec = Claimed" "ir_owner_token rec = Some ''w''"
    by (rule demo_claim)
  define s1 where "s1 = ?s\<lparr>ds_idem := Map.empty((''t'', ''k'') \<mapsto> rec)\<rparr>"
  have s1: "ds_idem s1 = Map.empty((''t'', ''k'') \<mapsto> rec)" "ds_world s1 = 0" "ds_creds s1 = demo_no_creds" by (simp_all add: s1_def)
  have g: "gate_stage (demo_system u) s1 demo_fresh ''mail'' ''mail.send'' demo_mail demo_context None ?b False = (Inr demo_context, s1)" for u
    by (simp add: gate_stage_def approval_stage_def rate_stage_def rate_enforce_def demo_mail_binding_def)
  let ?x = "execute_claimed ?env s1 demo_fresh ''mail'' ''mail.send'' demo_mail demo_context None ?v ?b False (Some ?h)"
  have self: "demo_context = demo_context\<lparr>ctx_extra := []\<rparr>" by (simp add: demo_context_def)
  have p: "perform (demo_system u) (s1\<lparr>ds_idem := i\<rparr>) demo_fresh ''mail.send'' demo_mail demo_context ?v ?b =
     (if u then Inr (PDict [(KStr ''sent'', PBool True)]) else Inl (VerbUnavailable ''mail.send'' ''backend_unavailable''),
        log_call (s1\<lparr>ds_idem := i\<rparr>) ?b ?v demo_context 1)" for i u
    using demo_perform[of "s1\<lparr>ds_idem := i\<rparr>" u "[]" LOW None] self s1 by simp
  have x: "fst ?x = (if up then Inr (PDict [(KStr ''sent'', PBool True)]) else Inl (VerbUnavailable ''mail.send'' ''backend_unavailable''))
     \<and> ds_world (snd ?x) = 1"
    using c s1 by (cases up) (simp_all add: execute_claimed_def g coord_start_def idempotency_start_def idem_owned_def handle_key_def
        execute_started_def p coord_complete_def startswith_def idempotency_complete_def idempotency_uncacheable_def log_call_def)
  obtain m where m: "demo_keyed up = finish ?env (settle_outcome ?env (snd ?x) demo_fresh ''mail'' ''mail.send'' demo_mail demo_context m (fst ?x))
     demo_fresh ''mail'' ''mail.send'' demo_mail demo_context m (fst ?x)"
    using invoke_after_claim[OF demo_system_quiet demo_admitted demo_gated c(1), where aid = None and r = "fst ?x" and ?s1.0 = "snd ?x"]
    by (auto simp: s1_def demo_keyed_def)
  have "tone_frame ''ok'' (PDict [(KStr ''sent'', PBool True)]) r \<noteq> None" for r
    by (simp add: tone_frame_def dict_get_def)
  then show ?thesis using x unfolding m by (cases up) (simp_all add: finish_ok finish_Inl)
qed


theorem repeated_call_executes_once_witness:
  "fst (invoke (demo_system True) (snd (demo_keyed True)) demo_fresh ''mail'' ''mail.send'' demo_mail demo_context (Some ''k'') None)
     = Inr (PDict [(KStr ''sent'', PBool True)]) \<and>
   ds_world (snd (invoke (demo_system True) (snd (demo_keyed True)) demo_fresh ''mail'' ''mail.send'' demo_mail demo_context (Some ''k'') None)) = 1"
proof -
  let ?out = "PDict [(KStr ''sent'', PBool True)]"
  let ?again = "invoke (demo_system True) (snd (demo_keyed True)) demo_fresh ''mail'' ''mail.send'' demo_mail demo_context (Some ''k'') None"
  have r: "fst (demo_keyed True) = Inr ?out" using demo_keyed_runs[of True] by simp
  have i: "invoke (demo_system True) (demo_tables LOW None hitl_empty) demo_fresh ''mail'' ''mail.send'' demo_mail demo_context (Some ''k'') None
     = (Inr ?out, snd (demo_keyed True))"
    by (metis r demo_keyed_def prod.collapse)
  have u: "is_ok (unpinned (de_blocking_verbs (demo_system True)))" by (simp add: demo_system_def unpinned_def is_ok_conv)
  have plain: "\<not> secret_shaped ?out" by code_simp
  have "?again = (fst ?again, snd ?again)" by simp
  from repeated_call_executes_once[OF i _ u this] plain show ?thesis
    using demo_keyed_runs[of True] by (simp add: replay_dict_def)
qed

definition demo_throttled where
  "demo_throttled = invoke (demo_system True) (demo_tables HIGH (Some \<lparr>rl_per = ''minute'', rl_max = 0, rl_scope = ''tenant''\<rparr>) demo_approvals)
     demo_fresh ''mail'' ''mail.send'' demo_mail demo_context None (Some ''r1'')"

theorem throttled_call_keeps_its_approval_witness:
  "(\<exists>e. fst demo_throttled = Inl (Throttled e)) \<and> ds_hitl (snd demo_throttled) = demo_approvals"
proof -
  let ?rl = "\<lparr>rl_per = ''minute'', rl_max = 0, rl_scope = ''tenant''\<rparr>"
  let ?s = "demo_tables HIGH (Some ?rl) demo_approvals" and ?env = "demo_system True"
  let ?v = "demo_mail_verb\<lparr>vd_consequence := HIGH\<rparr>" and ?b = "demo_mail_binding (Some ?rl)"
  let ?x = "execute_claimed ?env ?s demo_fresh ''mail'' ''mail.send'' demo_mail demo_context (Some ''r1'') ?v ?b True None"
  obtain e s1 where st: "rate_stage ?s demo_fresh ''t'' ''mail.send'' ?b = (Inl (Throttled e), s1)"
    by (fastforce simp: rate_stage_def rate_enforce_def demo_mail_binding_def incr_def Let_def)
  have s1: "ds_calls s1 = []" using rate_stage_frame(8)[of ?s demo_fresh "''t''" "''mail.send''" ?b] st by simp
  have t: "ctx_tenant_id demo_context = ''t''" by (simp add: demo_context_def)
  have x: "?x = (Inl (Throttled e), release s1 None)"
    by (simp add: execute_claimed_def gate_stage_def t st)
  obtain m where dt: "demo_throttled = finish ?env (settle_outcome ?env (release s1 None) demo_fresh ''mail'' ''mail.send'' demo_mail demo_context m
       (Inl (Throttled e))) demo_fresh ''mail'' ''mail.send'' demo_mail demo_context m (Inl (Throttled e))"
    using invoke_after_claim[OF demo_system_quiet demo_admitted demo_gated, where key = None and claim = None
        and idem = "ds_idem ?s" and aid = "Some ''r1''" and r = "Inl (Throttled e)" and ?s1.0 = "release s1 None" and f = demo_fresh
        and noun = "''mail''" and up1 = True and hs1 = demo_approvals and c1 = HIGH and rl1 = "Some ?rl"]
    by (auto simp: x coord_claim_def demo_throttled_def)
  have f: "fst demo_throttled = Inl (Throttled e)" and c: "ds_calls (snd demo_throttled) = ds_calls ?s"
    using s1 unfolding dt by (simp_all add: finish_Inl)
  have i: "invoke ?env ?s demo_fresh ''mail'' ''mail.send'' demo_mail demo_context None (Some ''r1'') = (Inl (Throttled e), snd demo_throttled)"
    by (metis f demo_throttled_def prod.collapse)
  from throttled_call_keeps_its_approval[OF i c] f show ?thesis by simp
qed

subsection \<open>The audit trail of a call\<close>

lemma started_audit:
  assumes "execute_started env s f noun verb params ctx v b run = (r, s')" "\<not> startswith verb ''control.''"
  shows "ds_audit s' = ds_audit s"
proof -
  obtain r1 s1 where p: "perform env s f verb params ctx v b = (r1, s1)" by fastforce
  have "ds_audit s1 = ds_audit s" by (cases rule: perform_cases[OF p]) simp_all
  then show ?thesis using assms p by (auto simp: execute_started_def split: sum.splits prod.splits)
qed

lemma inner_audit:
  assumes "invoke_inner env s f noun verb params ctx key aid = (r, m, s')" "\<not> startswith verb ''control.''"
  shows "ds_audit s' = ds_audit s"
  using assms(1)
proof (cases rule: inner_cases)
  case (executed v b plan claim idem gated)
  obtain r1 s1 where g: "gate_stage env (s\<lparr>ds_idem := idem\<rparr>) f noun verb params ctx aid b gated = (r1, s1)" by fastforce
  have s1: "ds_audit s1 = ds_audit s" using gate_stage_frame(6)[OF g] by simp
  show ?thesis
  proof (cases r1)
    case (Inl e)
    then show ?thesis using executed(5) g s1 by (auto simp: execute_claimed_def)
  next
    case (Inr ctx')
    obtain r2 idem' where st: "coord_start (ds_idem s1) (fr_now f) (handle_of claim) = (r2, idem')" by fastforce
    show ?thesis using executed(5) g Inr st s1
      by (cases r2) (auto simp: execute_claimed_def dest: started_audit[OF _ assms(2)])
  qed
qed simp_all

text \<open>One write is one row: in the chain, or, when the append fails, in the outbox.\<close>

definition one_row_added :: "audit_store \<Rightarrow> audit_store \<Rightarrow> string \<Rightarrow> audit_event \<Rightarrow> bool" where
  "one_row_added s s' t e \<longleftrightarrow>
     chain_of s' = (chain_of s)(t := chain_of s t @ [e]) \<and> as_outbox s' = as_outbox s \<and> ae_hash e \<noteq> None \<or>
     as_chains s' = as_chains s \<and> (\<exists>row. as_outbox s' = as_outbox s @ [row] \<and> ob_tenant_id row = t \<and> ob_payload row = Some e)"

definition same_call :: "audit_event \<Rightarrow> audit_event \<Rightarrow> bool" where
  "same_call e' e \<longleftrightarrow> ae_tenant_id e' = ae_tenant_id e \<and> ae_actor e' = ae_actor e \<and> ae_status e' = ae_status e \<and> ae_noun e' = ae_noun e \<and>
     ae_verb e' = ae_verb e \<and> ae_run_id e' = ae_run_id e \<and> ae_on_behalf_of e' = ae_on_behalf_of e"

lemma audit_write_one_row:
  "\<exists>e'. one_row_added s (snd (audit_write env s now fault e)) (ae_tenant_id e) e' \<and> same_call e' e"
proof -
  define p where "p = (\<lambda>err. outbox_payload (unchained (scrubbed env e)) err)"
  have t: "ae_tenant_id (scrubbed env e) = ae_tenant_id e" by (simp add: scrubbed_def)
  have same: "same_call (p err) e" for err by (simp add: p_def same_call_def outbox_payload_def unchained_def scrubbed_def)
  have deferred: ?thesis if "snd (audit_write env s now fault e) = audit_outbox_enqueue s now (ae_tenant_id e) (Some (p err)) err" for err
    using same[of err] unfolding that by (auto simp: one_row_added_def audit_outbox_enqueue_def)
  show ?thesis
  proof (cases "chained_event env s (scrubbed env e)")
    case (Inl err)
    then show ?thesis using deferred[of "error_name err"] by (simp add: audit_write_def t p_def Let_def)
  next
    case (Inr e2)
    have e2: "same_call e2 e" "ae_tenant_id e2 = ae_tenant_id e" "ae_hash e2 \<noteq> None"
      using Inr by (auto simp: same_call_def chained_event_def rbind_Inr_iff Let_def scrubbed_def split: prod.splits)
    show ?thesis
    proof (cases fault)
      case None
      then have "snd (audit_write env s now fault e) = audit_append s e2" using Inr by (simp add: audit_write_def Let_def)
      then show ?thesis using e2 by (auto simp: one_row_added_def audit_append_def chain_of_def fun_eq_iff update_conv')
    next
      case (Some err)
      then show ?thesis using deferred[of err] Inr by (simp add: audit_write_def t p_def Let_def)
    qed
  qed
qed

lemma call_event_fields:
  "ae_tenant_id (call_event env f noun verb params ctx m r) = ctx_tenant_id ctx"
  "ae_actor (call_event env f noun verb params ctx m r) = ctx_actor ctx"
  "ae_status (call_event env f noun verb params ctx m r) = outcome_status r"
  "ae_noun (call_event env f noun verb params ctx m r) = Some noun"
  "ae_verb (call_event env f noun verb params ctx m r) = Some verb"
  "ae_run_id (call_event env f noun verb params ctx m r) = ctx_run_id ctx"
  "ae_on_behalf_of (call_event env f noun verb params ctx m r) = ctx_on_behalf_of ctx"
  by (simp_all add: call_event_def base_event_def split: prod.splits)



text \<open>The exception: an adapter that reports a tone whose intensity is an integer beyond the floats. The call has
  executed and its key is settled, but building the event raises in the \<^verbatim>\<open>finally\<close> block, before the audit row.\<close>

lemma overflowing_tone_is_unaudited:
  assumes "invoke_inner env (emit_run_and_parent env s ctx (tool_call_event f noun verb params ctx)) f noun verb params ctx key aid =
      (Inr (PDict [(KStr ''tone'', PDict [(KStr ''tone'', PStr label), (KStr ''intensity'', PInt i)])]), m, s1)"
    and "2 ^ 1024 \<le> i" "label \<noteq> []" "\<not> startswith verb ''control.''"
  shows "fst (invoke env s f noun verb params ctx key aid) = Inl (Crash ''OverflowError'') \<and>
     ds_audit (snd (invoke env s f noun verb params ctx key aid)) = ds_audit s"
  using assms(1) inner_audit[OF assms(1,4)] huge_tone_raises[OF assms(2,3), of "ctx_run_id ctx"]
  by (simp add: invoke_def finish_def outcome_status_def result_frames_def Let_def)

text \<open>A replay executes nothing, yet it is recorded as an effect again when its verb has an inverse: the ledger of the run
  then holds the one effect twice, and undoing the run applies its inverse twice.\<close>

lemma replay_records_its_effect_again:
  assumes "\<not> de_has_events env" "admitted env s verb params ctx v b plan"
    "claim_in env s f key noun verb params ctx v = (Inr (Some (IdemReplay out)), idem)"
    "nonempty (ctx_run_id ctx)" "\<not> truthy (dict_get (ctx_extra ctx) ''effect_revert'')"
    "inverse_for (de_builders env) verb params out = Some (iv, ip)" "iv \<noteq> []"
  shows "\<exists>e. ds_effects (snd (invoke env s f noun verb params ctx key aid)) = snd (append_run_effect (ds_effects s) e) \<and>
     ef_status e = ''recorded'' \<and> ef_inverse_verb e = Some iv \<and> ds_calls (snd (invoke env s f noun verb params ctx key aid)) = ds_calls s"
proof -
  have s0: "emit_run_and_parent env s ctx e = s" for e using assms(1) by (simp add: emit_run_and_parent_def emit_def Let_def)
  obtain r0 m s1 where i: "invoke_inner env s f noun verb params ctx key aid = (r0, m, s1)" by (metis surj_pair)
  then have "r0 = Inr out \<and> s1 = s\<lparr>ds_idem := idem\<rparr>"
  proof (cases rule: inner_cases)
    case (refused e)
    then show ?thesis using assms(2) by blast
  next
    case (unclaimed v' b' plan' e idem')
    then show ?thesis using admitted_unique[OF assms(2) unclaimed(1)] assms(3) by simp
  next
    case (replayed v' b' plan' out' idem')
    then show ?thesis using admitted_unique[OF assms(2) replayed(1)] assms(3) by simp
  next
    case (crashed v' b' plan' c idem' y)
    then show ?thesis using admitted_unique[OF assms(2) crashed(1)] assms(3) by auto
  next
    case (executed v' b' plan' c idem' g)
    then show ?thesis using admitted_unique[OF assms(2) executed(1)] assms(3) by auto
  qed
  then show ?thesis using i s0 assms(4-7) by (simp add: invoke_def settle_outcome_def record_run_effect_def Let_def) (rule exI, rule conjI, rule refl, simp)
qed

text \<open>A name in the blocking list that cannot be parsed raises between the claim and the guarded block, and the key stays
  claimed until its lease runs out.\<close>

lemma unparsable_blocking_name_strands_the_key:
  assumes "invoke env s f noun verb params ctx (Some k) aid = (r, s')" "ds_idem s (ctx_tenant_id ctx, k) = None"
    "admitted env s verb params ctx v b plan" "vd_idempotency_mode v \<noteq> Disabled"
    "canonical_request_hash (ge_frepr (de_gate env)) (ge_sha (de_gate env)) (PDict params) = Inr x"
    "requires_approval (ds_routes s) (de_blocking_verbs env) verb v b plan ctx = Inl e"
  shows "\<exists>rec. ds_idem s' (ctx_tenant_id ctx, k) = Some rec \<and> ir_status rec = Claimed \<and> r = Inl (Crash (error_name e))"
proof (cases rule: invoke_cases[OF assms(1)])
  case (1 s0 r0 m s1)
  have s0: "ds_registry s0 = ds_registry s" "ds_routes s0 = ds_routes s" "ds_perms s0 = ds_perms s" "ds_idem s0 = ds_idem s"
    by (simp_all add: 1(1))
  have ad: "admitted env s0 verb params ctx v b plan" using admitted_cong[OF s0(1-3)] assms(3) by simp
  have fresh: "ds_idem s0 (ctx_tenant_id ctx, k) = None" using assms(2) s0(4) by simp
  from 1(2) have "(\<exists>rec. ds_idem s1 (ctx_tenant_id ctx, k) = Some rec \<and> ir_status rec = Claimed) \<and> r0 = Inl (Crash (error_name e))"
  proof (cases rule: inner_cases)
    case (refused e)
    then show ?thesis using ad by blast
  next
    case (unclaimed v' b' plan' e' idem')
    then show ?thesis using admitted_unique[OF ad unclaimed(1)] assms(4,5) fresh
      by (auto simp: coord_claim_def idempotency_claim_def idem_caller_of_def)
  next
    case (replayed v' b' plan' out' idem')
    then show ?thesis by (cases rule: claim_fresh[OF replayed(2) fresh]) auto
  next
    case (crashed v' b' plan' c idem' y)
    then show ?thesis using admitted_unique[OF ad crashed(1)] assms(6) s0(2)
      by (cases rule: claim_fresh[OF crashed(2) fresh]) auto
  next
    case (executed v' b' plan' c idem' g)
    then show ?thesis using admitted_unique[OF ad executed(1)] assms(6) s0(2) by simp
  qed
  then show ?thesis using 1(3,4) by (auto simp: finish_Inl dest: arg_cong[where f = fst])
qed


end
