(* ===== verification/Cost.thy ===== *)
theory Cost
  imports Floats "HOL-Library.AList" "HOL-Library.Product_Lexorder"
begin

text \<open>
  Budgets: the policies and usage buckets of \<^verbatim>\<open>boltrig/models/libraries.py\<close> (\<^verbatim>\<open>Budget\<close>, \<^verbatim>\<open>BudgetWindowRef\<close>), the window
  identities of \<^verbatim>\<open>boltrig/store/budget_windows.py\<close>, the in-memory tables of \<^verbatim>\<open>boltrig/store/budget_usage.py\<close> and
  \<^verbatim>\<open>boltrig/store/budget_policy.py\<close>, pricing and the accountant of \<^verbatim>\<open>boltrig/kernel/cost.py\<close>, and the scopes and the
  estimate of \<^verbatim>\<open>boltrig/fleet/spawn_budget.py\<close>.

  A timestamp is a civil date with the microsecond of the day, already converted to UTC, or a naive one. The SHA-256 of a
  run identity is the parameter \<open>sha\<close>, \<^verbatim>\<open>float(text)\<close> the parameter \<open>pfloat\<close>. Prices are computed in the floats of
  \<open>Floats\<close>, every product and sum rounded as the code rounds it. Error messages are left out.

  The accountant reads the budgets first and commits afterwards, and other calls may run in between; so
  \<open>cost_reserve\<close> takes the store it reads and the store it commits to as two arguments.
\<close>

subsection \<open>Windows\<close>

record civil =
  dt_year :: nat
  dt_month :: nat
  dt_day :: nat
  dt_micros :: nat

datatype stamp = Naive civil | Utc civil

datatype cost_error = BudgetExceeded | BudgetWindowUnavailable | CostValueError | CostOverflow

definition leap_year :: "nat \<Rightarrow> bool" where
  "leap_year y \<longleftrightarrow> 4 dvd y \<and> (\<not> 100 dvd y \<or> 400 dvd y)"

definition days_in_month :: "nat \<Rightarrow> nat \<Rightarrow> nat" where
  "days_in_month y m = (if m = 2 then (if leap_year y then 29 else 28) else if m \<in> {4, 6, 9, 11} then 30 else 31)"

definition valid_civil :: "civil \<Rightarrow> bool" where
  "valid_civil c \<longleftrightarrow> 1 \<le> dt_year c \<and> dt_year c \<le> 9999 \<and> 1 \<le> dt_month c \<and> dt_month c \<le> 12 \<and>
     1 \<le> dt_day c \<and> dt_day c \<le> days_in_month (dt_year c) (dt_month c) \<and> dt_micros c < 86400000000"

definition zero_pad :: "nat \<Rightarrow> nat \<Rightarrow> string" where
  "zero_pad w n = replicate (w - length (show_nat n)) CHR ''0'' @ show_nat n"

definition month_text :: "civil \<Rightarrow> string" where
  "month_text c = zero_pad 4 (dt_year c) @ ''-'' @ zero_pad 2 (dt_month c)"

definition date_text :: "civil \<Rightarrow> string" where
  "date_text c = month_text c @ ''-'' @ zero_pad 2 (dt_day c)"

text \<open>The end of a day and of a month; the calendar ends with the year 9999.\<close>

definition plus_one_day :: "civil \<Rightarrow> cost_error + civil" where
  "plus_one_day c =
     (if dt_day c < days_in_month (dt_year c) (dt_month c) then Inr (c\<lparr>dt_day := dt_day c + 1\<rparr>)
      else if dt_month c < 12 then Inr (c\<lparr>dt_month := dt_month c + 1, dt_day := 1\<rparr>)
      else if dt_year c < 9999 then Inr (c\<lparr>dt_year := dt_year c + 1, dt_month := 1, dt_day := 1\<rparr>)
      else Inl CostOverflow)"

definition next_month_start :: "civil \<Rightarrow> cost_error + civil" where
  "next_month_start c =
     (if dt_month c = 12
      then if dt_year c < 9999 then Inr (c\<lparr>dt_year := dt_year c + 1, dt_month := 1\<rparr>) else Inl CostValueError
      else Inr (c\<lparr>dt_month := dt_month c + 1\<rparr>))"

record budget_window_ref =
  wr_scope_id :: string
  wr_window :: string
  wr_window_key :: string
  wr_started_at :: civil
  wr_ends_at :: "civil option"
  wr_reset_generation :: int

definition WINDOWS :: "string list" where
  "WINDOWS = [''run'', ''daily'', ''monthly'']"

definition run_identity :: "string option \<Rightarrow> string" where
  "run_identity run_id = strip (case run_id of None \<Rightarrow> [] | Some r \<Rightarrow> r)"

definition window_ref ::
  "(string \<Rightarrow> string) \<Rightarrow> string \<Rightarrow> string \<Rightarrow> string option \<Rightarrow> stamp \<Rightarrow> cost_error + budget_window_ref" where
  "window_ref sha scope_id window run_id stamp =
     (case stamp of
        Naive _ \<Rightarrow> Inl CostValueError
      | Utc observed \<Rightarrow>
          if window \<notin> set WINDOWS then Inl CostValueError
          else if window = ''run'' then
            (if run_identity run_id = [] then Inl BudgetWindowUnavailable
             else Inr \<lparr>wr_scope_id = scope_id, wr_window = window,
                       wr_window_key = ''run:'' @ take 32 (sha (run_identity run_id)), wr_started_at = observed,
                       wr_ends_at = None, wr_reset_generation = 0\<rparr>)
          else if window = ''daily'' then
            (let start = observed\<lparr>dt_micros := 0\<rparr>
             in rbind (plus_one_day start) (\<lambda>end_at.
               Inr \<lparr>wr_scope_id = scope_id, wr_window = window, wr_window_key = ''day:'' @ date_text start,
                    wr_started_at = start, wr_ends_at = Some end_at, wr_reset_generation = 0\<rparr>))
          else
            (let start = observed\<lparr>dt_day := 1, dt_micros := 0\<rparr>
             in rbind (next_month_start start) (\<lambda>end_at.
               Inr \<lparr>wr_scope_id = scope_id, wr_window = window, wr_window_key = ''month:'' @ month_text start,
                    wr_started_at = start, wr_ends_at = Some end_at, wr_reset_generation = 0\<rparr>)))"

subsection \<open>Policies and usage\<close>

record budget =
  bu_id :: string
  bu_tenant_id :: string
  bu_scope_type :: string
  bu_token_limit :: "int option"
  bu_cost_limit :: "int option"
  bu_hard_stop :: bool
  bu_window :: string
  bu_spent_tokens :: int
  bu_spent_micros :: int
  bu_usage_state :: string
  bu_window_key :: "string option"
  bu_window_started_at :: "civil option"
  bu_window_ends_at :: "civil option"
  bu_reset_generation :: int

definition usage_view :: "budget \<Rightarrow> budget_window_ref option \<Rightarrow> int \<Rightarrow> int \<Rightarrow> budget" where
  "usage_view policy ref tokens micros =
     (case ref of
        None \<Rightarrow> policy\<lparr>bu_spent_tokens := 0, bu_spent_micros := 0, bu_usage_state := ''run_context_required'',
                       bu_window_key := None, bu_window_started_at := None, bu_window_ends_at := None, bu_reset_generation := 0\<rparr>
      | Some r \<Rightarrow> policy\<lparr>bu_spent_tokens := max 0 tokens, bu_spent_micros := max 0 micros, bu_usage_state := ''current'',
                       bu_window_key := Some (wr_window_key r), bu_window_started_at := Some (wr_started_at r),
                       bu_window_ends_at := wr_ends_at r, bu_reset_generation := wr_reset_generation r\<rparr>)"

type_synonym usage_key = "string \<times> string \<times> string"
type_synonym usage = "budget_window_ref \<times> int \<times> int"

record budget_store =
  bs_budgets :: "((string \<times> string) \<times> budget) list"
  bs_usage :: "(usage_key \<times> usage) list"

definition get_budget ::
  "(string \<Rightarrow> string) \<Rightarrow> budget_store \<Rightarrow> string \<Rightarrow> string \<Rightarrow> string option \<Rightarrow> stamp \<Rightarrow> cost_error + budget option" where
  "get_budget sha s t scope_id run_id observed =
     (case map_of (bs_budgets s) (t, scope_id) of
        None \<Rightarrow> Inr None
      | Some policy \<Rightarrow>
          if bu_window policy = ''run'' \<and> run_identity run_id = [] then Inr (Some (usage_view policy None 0 0))
          else rbind (window_ref sha scope_id (bu_window policy) run_id observed) (\<lambda>candidate.
            case map_of (bs_usage s) (t, scope_id, wr_window_key candidate) of
              None \<Rightarrow> Inr (Some (usage_view policy (Some candidate) 0 0))
            | Some (ref, tokens, micros) \<Rightarrow> Inr (Some (usage_view policy (Some ref) tokens micros))))"

definition list_budgets ::
  "(string \<Rightarrow> string) \<Rightarrow> budget_store \<Rightarrow> string \<Rightarrow> string option \<Rightarrow> stamp \<Rightarrow> cost_error + budget list" where
  "list_budgets sha s t run_id observed =
     rbind (rmap (\<lambda>((_, scope_id), _). get_budget sha s t scope_id run_id observed)
              (filter (\<lambda>((u, _), _). u = t) (bs_budgets s)))
       (\<lambda>bs. Inr (List.map_filter id bs))"

definition put_usage :: "budget_store \<Rightarrow> usage_key \<Rightarrow> usage \<Rightarrow> budget_store" where
  "put_usage s k u = s\<lparr>bs_usage := AList.update k u (bs_usage s)\<rparr>"

text \<open>The opening balance a new daily or monthly policy may carry.\<close>

definition put_policy :: "budget_store \<Rightarrow> budget \<Rightarrow> budget_store" where
  "put_policy s b =
     s\<lparr>bs_budgets := AList.update (bu_tenant_id b, bu_id b) (b\<lparr>bu_spent_tokens := 0, bu_spent_micros := 0\<rparr>) (bs_budgets s)\<rparr>"

definition open_balance :: "(string \<Rightarrow> string) \<Rightarrow> budget_store \<Rightarrow> budget \<Rightarrow> stamp \<Rightarrow> cost_error + budget_store" where
  "open_balance sha s b observed =
     (if bu_window b \<noteq> ''run'' \<and> (bu_spent_tokens b \<noteq> 0 \<or> bu_spent_micros b \<noteq> 0)
      then rbind (window_ref sha (bu_id b) (bu_window b) None observed) (\<lambda>ref.
             Inr (put_usage s (bu_tenant_id b, bu_id b, wr_window_key ref) (ref, bu_spent_tokens b, bu_spent_micros b)))
      else Inr s)"

definition set_budget ::
  "(string \<Rightarrow> string) \<Rightarrow> budget_store \<Rightarrow> budget \<Rightarrow> stamp \<Rightarrow> (cost_error + unit) \<times> budget_store" where
  "set_budget sha s b observed =
     (let s1 = put_policy s b
      in case open_balance sha s1 b observed of Inl e \<Rightarrow> (Inl e, s1) | Inr s2 \<Rightarrow> (Inr (), s2))"

definition upsert_budget_policy ::
  "(string \<Rightarrow> string) \<Rightarrow> budget_store \<Rightarrow> budget \<Rightarrow> stamp \<Rightarrow> (cost_error + budget option) \<times> budget_store" where
  "upsert_budget_policy sha s b observed =
     (let current = map_of (bs_budgets s) (bu_tenant_id b, bu_id b);
          s1 = put_policy s b
      in case (if current = None then open_balance sha s1 b observed else Inr s1) of
           Inl e \<Rightarrow> (Inl e, s1)
         | Inr s2 \<Rightarrow> (get_budget sha s2 (bu_tenant_id b) (bu_id b) None observed, s2))"

definition reset_budget_usage ::
  "(string \<Rightarrow> string) \<Rightarrow> budget_store \<Rightarrow> string \<Rightarrow> string \<Rightarrow> bool \<Rightarrow> bool \<Rightarrow> stamp
     \<Rightarrow> (cost_error + budget option) \<times> budget_store" where
  "reset_budget_usage sha s t scope_id reset_tokens reset_cost observed =
     (case map_of (bs_budgets s) (t, scope_id) of
        None \<Rightarrow> (Inr None, s)
      | Some policy \<Rightarrow>
          if bu_window policy = ''run'' then (Inl CostValueError, s)
          else (case window_ref sha scope_id (bu_window policy) None observed of
            Inl e \<Rightarrow> (Inl e, s)
          | Inr candidate \<Rightarrow>
              (let k = (t, scope_id, wr_window_key candidate);
                   (ref, tokens, micros) = (case map_of (bs_usage s) k of None \<Rightarrow> (candidate, 0, 0) | Some u \<Rightarrow> u);
                   s1 = put_usage s k (ref\<lparr>wr_reset_generation := wr_reset_generation ref + 1\<rparr>,
                          if reset_tokens then 0 else tokens, if reset_cost then 0 else micros)
               in (get_budget sha s1 t scope_id None observed, s1))))"

definition reconcile_budget :: "budget_store \<Rightarrow> string \<Rightarrow> budget_window_ref \<Rightarrow> int \<Rightarrow> int \<Rightarrow> budget_store" where
  "reconcile_budget s t window delta_tokens delta_micros =
     (let k = (t, wr_scope_id window, wr_window_key window)
      in case map_of (bs_usage s) k of
           None \<Rightarrow> s
         | Some (ref, spent_tokens, spent_micros) \<Rightarrow>
             if wr_reset_generation ref \<noteq> wr_reset_generation window then s
             else put_usage s k (ref, max 0 (spent_tokens + delta_tokens), max 0 (spent_micros + delta_micros)))"

definition aggregate :: "(string \<times> int \<times> int) list \<Rightarrow> (string \<times> int \<times> int) list" where
  "aggregate reservations =
     foldl (\<lambda>result (scope_id, tokens, micros).
        let (ct, cm) = (case map_of result scope_id of None \<Rightarrow> (0, 0) | Some c \<Rightarrow> c)
        in AList.update scope_id (ct + max 0 tokens, cm + max 0 micros) result) [] reservations"

definition over :: "int option \<Rightarrow> int \<Rightarrow> bool" where
  "over limit n \<longleftrightarrow> (case limit of None \<Rightarrow> False | Some l \<Rightarrow> n > l)"

definition over_limit :: "budget \<Rightarrow> int \<Rightarrow> int \<Rightarrow> bool" where
  "over_limit policy tokens micros \<longleftrightarrow> over (bu_token_limit policy) tokens \<or> over (bu_cost_limit policy) micros"

fun plan_scopes ::
  "(string \<Rightarrow> string) \<Rightarrow> budget_store \<Rightarrow> string \<Rightarrow> string option \<Rightarrow> stamp \<Rightarrow> (string \<times> int \<times> int) list
     \<Rightarrow> cost_error + usage list option" where
  "plan_scopes sha s t run_id observed [] = Inr (Some [])"
| "plan_scopes sha s t run_id observed ((scope_id, tokens, micros) # rest) =
     (case map_of (bs_budgets s) (t, scope_id) of
        None \<Rightarrow> plan_scopes sha s t run_id observed rest
      | Some policy \<Rightarrow>
          rbind (window_ref sha scope_id (bu_window policy) run_id observed) (\<lambda>candidate.
            let (ref, spent_tokens, spent_micros) =
                  (case map_of (bs_usage s) (t, scope_id, wr_window_key candidate) of
                     None \<Rightarrow> (candidate, 0, 0) | Some u \<Rightarrow> u)
            in if bu_hard_stop policy \<and> over_limit policy (spent_tokens + tokens) (spent_micros + micros) then Inr None
               else rbind (plan_scopes sha s t run_id observed rest) (\<lambda>planned.
                 Inr (map_option (Cons (ref, spent_tokens + tokens, spent_micros + micros)) planned))))"

definition apply_plan :: "string \<Rightarrow> budget_store \<Rightarrow> usage list \<Rightarrow> budget_store" where
  "apply_plan t s planned =
     foldl (\<lambda>s (ref, tokens, micros). put_usage s (t, wr_scope_id ref, wr_window_key ref) (ref, tokens, micros)) s planned"

definition reserve_budgets_atomic ::
  "(string \<Rightarrow> string) \<Rightarrow> budget_store \<Rightarrow> string \<Rightarrow> (string \<times> int \<times> int) list \<Rightarrow> string option \<Rightarrow> stamp
     \<Rightarrow> (cost_error + budget_window_ref list option) \<times> budget_store" where
  "reserve_budgets_atomic sha s t reservations run_id observed =
     (case plan_scopes sha s t run_id observed (aggregate reservations) of
        Inl e \<Rightarrow> (Inl e, s)
      | Inr None \<Rightarrow> (Inr None, s)
      | Inr (Some planned) \<Rightarrow> (Inr (Some (map fst planned)), apply_plan t s planned))"

subsection \<open>The accountant\<close>

record budget_reservation =
  br_tenant_id :: string
  br_run_id :: "string option"
  br_reserved_at :: stamp
  br_windows :: "budget_window_ref list"

definition read_budgets ::
  "(string \<Rightarrow> string) \<Rightarrow> budget_store \<Rightarrow> string \<Rightarrow> string list \<Rightarrow> string option \<Rightarrow> stamp
     \<Rightarrow> cost_error + (string \<times> budget) list" where
  "read_budgets sha s t scope_ids run_id observed =
     foldl (\<lambda>acc scope_id. rbind acc (\<lambda>budgets.
        rbind (get_budget sha s t scope_id run_id observed) (\<lambda>b.
          case b of None \<Rightarrow> Inr budgets
          | Some b \<Rightarrow> if bu_usage_state b \<noteq> ''current'' then Inl BudgetWindowUnavailable
                      else Inr (AList.update scope_id b budgets)))) (Inr []) scope_ids"

definition ALERT_FRACTION :: rat where "ALERT_FRACTION = 4 / 5"

definition budget_alerts :: "(string \<times> budget) list \<Rightarrow> int \<Rightarrow> (string \<times> rat) list" where
  "budget_alerts budgets micros = List.map_filter (\<lambda>(scope_id, b).
     case bu_cost_limit b of None \<Rightarrow> None
     | Some l \<Rightarrow> (let used = of_int (bu_spent_micros b + micros) / of_int l
                  in if l \<noteq> 0 \<and> used \<ge> ALERT_FRACTION then Some (scope_id, used) else None)) budgets"

definition cost_reserve ::
  "(string \<Rightarrow> string) \<Rightarrow> budget_store \<Rightarrow> budget_store \<Rightarrow> string \<Rightarrow> string list \<Rightarrow> int \<Rightarrow> int \<Rightarrow> string option \<Rightarrow> stamp
     \<Rightarrow> (cost_error + budget_reservation) \<times> (string \<times> rat) list \<times> budget_store" where
  "cost_reserve sha seen s t scope_ids tokens micros run_id observed =
     (case read_budgets sha seen t scope_ids run_id observed of
        Inl e \<Rightarrow> (Inl e, [], s)
      | Inr budgets \<Rightarrow>
          if list_ex (\<lambda>(_, b). bu_hard_stop b \<and>
               over_limit b (bu_spent_tokens b + max 0 tokens) (bu_spent_micros b + max 0 micros)) budgets
          then (Inl BudgetExceeded, [], s)
          else (case reserve_budgets_atomic sha s t (map (\<lambda>scope_id. (scope_id, tokens, micros)) scope_ids) run_id observed of
                 (Inl e, s1) \<Rightarrow> (Inl e, budget_alerts budgets micros, s1)
               | (Inr None, s1) \<Rightarrow> (Inl BudgetExceeded, budget_alerts budgets micros, s1)
               | (Inr (Some windows), s1) \<Rightarrow>
                   (Inr \<lparr>br_tenant_id = t, br_run_id = run_id, br_reserved_at = observed, br_windows = windows\<rparr>,
                    budget_alerts budgets micros, s1)))"

definition cost_reconcile :: "budget_store \<Rightarrow> budget_reservation \<Rightarrow> int \<Rightarrow> int \<Rightarrow> budget_store" where
  "cost_reconcile s r delta_tokens delta_micros =
     (if delta_tokens = 0 \<and> delta_micros = 0 then s
      else foldl (\<lambda>s w. reconcile_budget s (br_tenant_id r) w delta_tokens delta_micros) s (br_windows r))"

subsection \<open>Pricing\<close>

definition tier_micros_per_token :: "string \<Rightarrow> rat" where
  "tier_micros_per_token tier = (if tier = ''cheap'' then 1 else if tier = ''standard'' then 5
     else if tier = ''expensive'' then 25 else 5)"

fun as_rate :: "(string \<Rightarrow> pyfloat option) \<Rightarrow> pyval \<Rightarrow> cost_error + pyfloat option" where
  "as_rate pfloat (PInt i) = (case float_of_int i of None \<Rightarrow> Inl CostOverflow | Some f \<Rightarrow> Inr (Some f))"
| "as_rate pfloat (PFloat f) = Inr (Some f)"
| "as_rate pfloat (PStr s) = Inr (pfloat s)"
| "as_rate pfloat _ = Inr None"

definition rate_pair :: "(string \<Rightarrow> pyfloat option) \<Rightarrow> pyval \<Rightarrow> cost_error + (pyfloat \<times> pyfloat) option" where
  "rate_pair pfloat rate =
     (case rate of
        PDict d \<Rightarrow>
          rbind (as_rate pfloat (dict_get d ''input'')) (\<lambda>input_rate.
          rbind (as_rate pfloat (dict_get d ''output'')) (\<lambda>output_rate.
            Inr (case (input_rate, output_rate) of
                   (None, None) \<Rightarrow> None
                 | (None, Some out) \<Rightarrow> Some (out, out)
                 | (Some inp, None) \<Rightarrow> Some (inp, inp)
                 | (Some inp, Some out) \<Rightarrow> Some (inp, out))))
      | _ \<Rightarrow> rbind (as_rate pfloat rate) (\<lambda>value. Inr (map_option (\<lambda>v. (v, v)) value)))"

text \<open>An integer times a float converts the integer first; \<^verbatim>\<open>round\<close> fails on infinities and not-a-number.\<close>

definition int_times :: "int \<Rightarrow> pyfloat \<Rightarrow> cost_error + pyfloat" where
  "int_times n rate = (case float_of_int n of None \<Rightarrow> Inl CostOverflow | Some f \<Rightarrow> Inr (float_mul f rate))"

fun float_round :: "pyfloat \<Rightarrow> cost_error + int" where
  "float_round (FFin x) = Inr (round_half_even x)"
| "float_round FNonFinite = Inl CostValueError"

definition priced_micros :: "pyfloat \<times> pyfloat \<Rightarrow> int \<Rightarrow> int \<Rightarrow> int \<Rightarrow> cost_error + int" where
  "priced_micros rates tokens input_tokens output_tokens =
     (let (input_rate, output_rate) = rates;
          billed_input = max 0 input_tokens;
          billed_output = max 0 output_tokens;
          unattributed = max 0 (max 0 tokens - billed_input - billed_output)
      in rbind (int_times billed_input input_rate) (\<lambda>a.
         rbind (int_times billed_output output_rate) (\<lambda>b.
         rbind (int_times unattributed input_rate) (\<lambda>c.
         rbind (float_round (float_add (float_add a b) c)) (\<lambda>micros. Inr (max 0 micros))))))"

definition price_micros ::
  "(string \<Rightarrow> pyfloat option) \<Rightarrow> int \<Rightarrow> string \<Rightarrow> string option \<Rightarrow> (string \<times> pyval) list option \<Rightarrow> int \<Rightarrow> int
     \<Rightarrow> cost_error + int" where
  "price_micros pfloat tokens cost_tier model prices input_tokens output_tokens =
     rbind (case (prices, model) of
              (Some ps, Some m) \<Rightarrow> (case map_of ps m of None \<Rightarrow> Inr None | Some r \<Rightarrow> rate_pair pfloat r)
            | _ \<Rightarrow> Inr None) (\<lambda>rates.
       let tier = FFin (tier_micros_per_token cost_tier)
       in priced_micros (case rates of None \<Rightarrow> (tier, tier) | Some r \<Rightarrow> r) tokens input_tokens output_tokens)"

definition budget_scope_ids :: "string \<Rightarrow> string option \<Rightarrow> string list" where
  "budget_scope_ids tenant_id department =
     tenant_id # (case department of None \<Rightarrow> [] | Some d \<Rightarrow> if d = [] then [] else [d])"

definition spawn_estimate :: "(string \<Rightarrow> pyfloat option) \<Rightarrow> string \<Rightarrow> string \<Rightarrow> string list \<Rightarrow> string \<Rightarrow> cost_error + int \<times> int" where
  "spawn_estimate pfloat task prompt skills cost_tier =
     (let chars = int (length task + length prompt + sum_list (map length skills));
          tokens = max 16 (chars div 4)
      in rbind (price_micros pfloat tokens cost_tier None None 0 0) (\<lambda>micros. Inr (tokens, micros)))"

subsection \<open>What a reservation asks of a scope\<close>

definition demand :: "(string \<times> int \<times> int) list \<Rightarrow> string \<Rightarrow> int \<times> int" where
  "demand rs scope_id =
     (sum_list (map (\<lambda>(sc, tokens, micros). if sc = scope_id then max 0 tokens else 0) rs),
      sum_list (map (\<lambda>(sc, tokens, micros). if sc = scope_id then max 0 micros else 0) rs))"

lemma demand_nonneg: "0 \<le> fst (demand rs sc)" "0 \<le> snd (demand rs sc)"
  by (auto simp: demand_def intro!: sum_list_nonneg)

lemma demand_absent: "sc \<notin> fst ` set rs \<Longrightarrow> demand rs sc = (0, 0)"
  by (induction rs) (auto simp: demand_def)

lemma aggregate_snoc: "aggregate (rs @ [(sc, tk, mc)]) =
    (let (ct, cm) = (case map_of (aggregate rs) sc of None \<Rightarrow> (0, 0) | Some c \<Rightarrow> c)
     in AList.update sc (ct + max 0 tk, cm + max 0 mc) (aggregate rs))"
  by (simp add: aggregate_def)

lemma aggregate_lookup: "map_of (aggregate rs) sc = (if sc \<in> fst ` set rs then Some (demand rs sc) else None)"
proof (induction rs rule: rev_induct)
  case Nil
  show ?case by (simp add: aggregate_def)
next
  case (snoc r rs)
  obtain sc' tk mc where r: "r = (sc', tk, mc)" by (cases r)
  show ?case
  proof (cases "sc' = sc")
    case True
    then show ?thesis using snoc.IH demand_absent[of sc rs] unfolding r aggregate_snoc
      by (auto simp: update_conv' demand_def Let_def)
  next
    case False
    then show ?thesis using snoc.IH unfolding r aggregate_snoc
      by (auto simp: update_conv' demand_def Let_def split: prod.split)
  qed
qed

lemma aggregate_distinct: "distinct (map fst (aggregate rs))"
  by (induction rs rule: rev_induct) (auto simp: aggregate_snoc aggregate_def[of "[]"] Let_def distinct_update split: prod.split)

lemma aggregate_entry: "(sc, d) \<in> set (aggregate rs) \<longleftrightarrow> sc \<in> fst ` set rs \<and> d = demand rs sc"
  using aggregate_lookup[of rs sc] map_of_eq_Some_iff[OF aggregate_distinct, of rs sc d]
  by (auto split: if_splits)

subsection \<open>Buckets\<close>

text \<open>The ledger read as a total function: what a bucket has spent.\<close>

definition spent :: "budget_store \<Rightarrow> usage_key \<Rightarrow> int \<times> int" where
  "spent s k = (case map_of (bs_usage s) k of None \<Rightarrow> (0, 0) | Some (_, tokens, micros) \<Rightarrow> (tokens, micros))"

definition ledger_ok :: "budget_store \<Rightarrow> bool" where
  "ledger_ok s \<longleftrightarrow> (\<forall>t sc k ref tokens micros. map_of (bs_usage s) (t, sc, k) = Some (ref, tokens, micros) \<longrightarrow>
     wr_scope_id ref = sc \<and> wr_window_key ref = k \<and> 0 \<le> tokens \<and> 0 \<le> micros)"

lemma ledger_okD:
  assumes "ledger_ok s" "map_of (bs_usage s) (t, sc, k) = Some (ref, tokens, micros)"
  shows "wr_scope_id ref = sc" "wr_window_key ref = k" "0 \<le> tokens" "0 \<le> micros"
  using assms unfolding ledger_ok_def by blast+

lemma window_ref_scope: "window_ref sha sc w r o' = Inr ref \<Longrightarrow> wr_scope_id ref = sc \<and> wr_reset_generation ref = 0"
  by (auto simp: window_ref_def Let_def rbind_Inr_iff split: stamp.splits if_splits)

lemma put_usage_simps [simp]:
  "bs_budgets (put_usage s k u) = bs_budgets s" "map_of (bs_usage (put_usage s k u)) = (map_of (bs_usage s))(k \<mapsto> u)"
  by (simp_all add: put_usage_def update_conv')

lemma spent_put [simp]: "spent (put_usage s k (ref, tk, mc)) k' = (if k' = k then (tk, mc) else spent s k')"
  by (simp add: spent_def)

lemma ledger_put:
  "ledger_ok s \<Longrightarrow> wr_scope_id ref = sc \<Longrightarrow> wr_window_key ref = k \<Longrightarrow> 0 \<le> tk \<Longrightarrow> 0 \<le> mc
     \<Longrightarrow> ledger_ok (put_usage s (t, sc, k) (ref, tk, mc))"
  by (auto simp: ledger_ok_def)

text \<open>One planned bucket: the scope's policy, its window, and the new totals.\<close>

definition plans_bucket ::
  "(string \<Rightarrow> string) \<Rightarrow> budget_store \<Rightarrow> string \<Rightarrow> string option \<Rightarrow> stamp \<Rightarrow> string \<times> int \<times> int \<Rightarrow> usage \<Rightarrow> bool" where
  "plans_bucket sha s t run_id observed entry u \<longleftrightarrow>
     (case entry of (sc, dt, dm) \<Rightarrow> case u of (ref, tk, mc) \<Rightarrow>
        wr_scope_id ref = sc \<and> (tk, mc) = (fst (spent s (t, sc, wr_window_key ref)) + dt, snd (spent s (t, sc, wr_window_key ref)) + dm) \<and>
        (\<exists>policy cand. map_of (bs_budgets s) (t, sc) = Some policy \<and> window_ref sha sc (bu_window policy) run_id observed = Inr cand \<and>
           wr_window_key ref = wr_window_key cand \<and>
           (case map_of (bs_usage s) (t, sc, wr_window_key cand) of None \<Rightarrow> ref = cand | Some (r, _) \<Rightarrow> ref = r) \<and>
           \<not> (bu_hard_stop policy \<and> over_limit policy tk mc)))"

lemma plan_scopes_buckets:
  assumes "ledger_ok s" "plan_scopes sha s t run_id observed es = Inr (Some planned)"
  shows "list_all2 (plans_bucket sha s t run_id observed)
           (filter (\<lambda>(sc, _). map_of (bs_budgets s) (t, sc) \<noteq> None) es) planned"
  using assms(2)
proof (induction es arbitrary: planned)
  case Nil
  then show ?case by simp
next
  case (Cons e es)
  obtain sc dt dm where e: "e = (sc, dt, dm)" by (cases e)
  show ?case
  proof (cases "map_of (bs_budgets s) (t, sc)")
    case None
    then show ?thesis using Cons e by simp
  next
    case (Some policy)
    obtain cand where cand: "window_ref sha sc (bu_window policy) run_id observed = Inr cand"
      using Cons.prems Some e by (auto simp: rbind_Inr_iff)
    define u where "u = (case map_of (bs_usage s) (t, sc, wr_window_key cand) of None \<Rightarrow> (cand, 0, 0) | Some u \<Rightarrow> u)"
    obtain ref st sm where u: "u = (ref, st, sm)" by (cases u)
    obtain rest where rest: "plan_scopes sha s t run_id observed es = Inr (Some rest)" "planned = (ref, st + dt, sm + dm) # rest"
      and ok: "\<not> (bu_hard_stop policy \<and> over_limit policy (st + dt) (sm + dm))"
      using Cons.prems Some e cand u by (auto simp: rbind_Inr_iff u_def[symmetric] split: if_splits)
    have key: "wr_scope_id ref = sc" "wr_window_key ref = wr_window_key cand" "spent s (t, sc, wr_window_key cand) = (st, sm)"
      using u ledger_okD[OF assms(1)] window_ref_scope[OF cand] by (auto simp: u_def spent_def split: option.splits)
    have "plans_bucket sha s t run_id observed e (ref, st + dt, sm + dm)"
      using key Some cand ok u unfolding e plans_bucket_def u_def by (auto split: option.splits)
    then show ?thesis using Cons.IH[OF rest(1)] Some e rest(2) by simp
  qed
qed

abbreviation bucket :: "string \<Rightarrow> budget_window_ref \<Rightarrow> usage_key" where
  "bucket t ref \<equiv> (t, wr_scope_id ref, wr_window_key ref)"

lemma apply_plan_snoc [simp]:
  "apply_plan t s (us @ [(ref, tk, mc)]) = put_usage (apply_plan t s us) (bucket t ref) (ref, tk, mc)"
  "apply_plan t s [] = s"
  by (simp_all add: apply_plan_def)

lemma apply_plan_budgets [simp]: "bs_budgets (apply_plan t s us) = bs_budgets s"
proof (induction us rule: rev_induct)
  case (snoc u us)
  then show ?case by (cases u) simp
qed simp

lemma apply_plan_other:
  "kk \<notin> (\<lambda>u. bucket t (fst u)) ` set us \<Longrightarrow> map_of (bs_usage (apply_plan t s us)) kk = map_of (bs_usage s) kk"
proof (induction us rule: rev_induct)
  case (snoc u us)
  then show ?case by (cases u) auto
qed simp

lemma apply_plan_planned:
  "distinct (map (wr_scope_id \<circ> fst) us) \<Longrightarrow> (ref, tk, mc) \<in> set us
     \<Longrightarrow> map_of (bs_usage (apply_plan t s us)) (bucket t ref) = Some (ref, tk, mc)"
proof (induction us rule: rev_induct)
  case (snoc u us)
  then show ?case by (cases u) (auto simp: image_iff)
qed simp

lemma filtered_keys: "fst ` set (filter (\<lambda>(k, _). P k) es) = {k. P k \<and> (\<exists>d. (k, d) \<in> set es)}"
  by force

text \<open>A reservation that goes through, spelled out.\<close>

lemma reserve_atomicE:
  assumes "ledger_ok s" "reserve_budgets_atomic sha s t rs run_id observed = (Inr (Some refs), s')"
  obtains planned where "refs = map fst planned" "s' = apply_plan t s planned"
    "distinct (map (wr_scope_id \<circ> fst) planned)"
    "\<And>u. u \<in> set planned \<Longrightarrow> plans_bucket sha s t run_id observed (wr_scope_id (fst u), demand rs (wr_scope_id (fst u))) u"
    "(wr_scope_id \<circ> fst) ` set planned = {sc \<in> fst ` set rs. map_of (bs_budgets s) (t, sc) \<noteq> None}"
proof -
  obtain planned where p: "plan_scopes sha s t run_id observed (aggregate rs) = Inr (Some planned)"
    "refs = map fst planned" "s' = apply_plan t s planned"
    using assms(2) by (auto simp: reserve_budgets_atomic_def split: sum.splits option.splits)
  let ?es = "filter (\<lambda>(sc, _). map_of (bs_budgets s) (t, sc) \<noteq> None) (aggregate rs)"
  have l: "list_all2 (plans_bucket sha s t run_id observed) ?es planned" using plan_scopes_buckets[OF assms(1) p(1)] .
  have "list_all2 (\<lambda>e u. fst e = wr_scope_id (fst u)) ?es planned"
    by (rule list_all2_mono[OF l]) (auto simp: plans_bucket_def)
  then have scopes: "map (wr_scope_id \<circ> fst) planned = map fst ?es" by (induction rule: list_all2_induct) auto
  have "distinct (map fst ?es)" using distinct_map_filter[OF aggregate_distinct] .
  then have d: "distinct (map (wr_scope_id \<circ> fst) planned)" unfolding scopes .
  have "(wr_scope_id \<circ> fst) ` set planned = fst ` set ?es" using arg_cong[OF scopes, of set] by (simp only: set_map)
  also have "\<dots> = {sc \<in> fst ` set rs. map_of (bs_budgets s) (t, sc) \<noteq> None}"
    unfolding filtered_keys aggregate_entry by blast
  finally have dom: "(wr_scope_id \<circ> fst) ` set planned = {sc \<in> fst ` set rs. map_of (bs_budgets s) (t, sc) \<noteq> None}" .
  have b: "plans_bucket sha s t run_id observed (wr_scope_id (fst u), demand rs (wr_scope_id (fst u))) u" if u: "u \<in> set planned" for u
  proof -
    obtain e where e: "e \<in> set ?es" "plans_bucket sha s t run_id observed e u"
      using list_all2_right[OF l u] by blast
    then have "fst e = wr_scope_id (fst u)" by (auto simp: plans_bucket_def)
    then show ?thesis using e aggregate_entry[of "fst e" "snd e" rs] by (cases e) auto
  qed
  show ?thesis by (rule that[OF p(2,3) d b dom])
qed

lemma demand_uniform:
  "demand (map (\<lambda>sc. (sc, tk, mc)) scs) sc = (int (count_list scs sc) * max 0 tk, int (count_list scs sc) * max 0 mc)"
  by (induction scs) (auto simp: demand_def algebra_simps)

lemma reserve_fails_unchanged: "cost_reserve sha seen s t scs tk mc run_id observed = (Inl e, alerts, s') \<Longrightarrow> s' = s"
  by (auto simp: cost_reserve_def reserve_budgets_atomic_def split: sum.splits option.splits if_splits)

lemma cost_reserveE:
  assumes "cost_reserve sha seen s t scs tk mc run_id observed = (Inr res, alerts, s')"
  shows "br_tenant_id res = t"
    "reserve_budgets_atomic sha s t (map (\<lambda>sc. (sc, tk, mc)) scs) run_id observed = (Inr (Some (br_windows res)), s')"
  using assms by (auto simp: cost_reserve_def split: sum.splits option.splits if_splits prod.splits)

definition add2 :: "int \<times> int \<Rightarrow> int \<times> int \<Rightarrow> int \<times> int" where
  "add2 a b = (fst a + fst b, snd a + snd b)"

lemma reserve_spent:
  assumes "ledger_ok s" "reserve_budgets_atomic sha s t rs run_id observed = (Inr (Some refs), s')"
  shows "spent s' kk = (if kk \<in> bucket t ` set refs then add2 (spent s kk) (demand rs (fst (snd kk))) else spent s kk)"
    and "distinct (map wr_scope_id refs)"
    and "wr_scope_id ` set refs = {sc \<in> fst ` set rs. map_of (bs_budgets s) (t, sc) \<noteq> None}"
    and "ref \<in> set refs \<Longrightarrow> \<exists>u. map_of (bs_usage s') (bucket t ref) = Some (ref, u)"
proof -
  obtain planned where p: "refs = map fst planned" "s' = apply_plan t s planned" "distinct (map (wr_scope_id \<circ> fst) planned)"
    "\<And>u. u \<in> set planned \<Longrightarrow> plans_bucket sha s t run_id observed (wr_scope_id (fst u), demand rs (wr_scope_id (fst u))) u"
    "(wr_scope_id \<circ> fst) ` set planned = {sc \<in> fst ` set rs. map_of (bs_budgets s) (t, sc) \<noteq> None}"
    by (rule reserve_atomicE[OF assms]) (rule that)
  have imgs: "(\<lambda>u. bucket t (fst u)) ` set planned = bucket t ` set refs" using p(1) by (auto simp: image_image)
  show "distinct (map wr_scope_id refs)" using p(1,3) by simp
  show "wr_scope_id ` set refs = {sc \<in> fst ` set rs. map_of (bs_budgets s) (t, sc) \<noteq> None}"
    using p(1,5) by (simp add: image_image)
  have planned: "map_of (bs_usage s') (bucket t ref) = Some (ref, tk, mc) \<and>
      (tk, mc) = add2 (spent s (bucket t ref)) (demand rs (wr_scope_id ref))" if "(ref, tk, mc) \<in> set planned" for ref tk mc
    using apply_plan_planned[OF p(3) that] p(4)[OF that] p(2) by (auto simp: plans_bucket_def add2_def split: prod.splits)
  show "spent s' kk = (if kk \<in> bucket t ` set refs then add2 (spent s kk) (demand rs (fst (snd kk))) else spent s kk)"
  proof (cases "kk \<in> bucket t ` set refs")
    case True
    then obtain ref tk mc where u: "(ref, tk, mc) \<in> set planned" "kk = bucket t ref" using p(1) by force
    then show ?thesis using planned[OF u(1)] True by (simp add: spent_def)
  next
    case False
    then show ?thesis using apply_plan_other[of kk t planned s] p(2) imgs by (simp add: spent_def)
  qed
  show "ref \<in> set refs \<Longrightarrow> \<exists>u. map_of (bs_usage s') (bucket t ref) = Some (ref, u)" using planned p(1) by force
qed

lemma apply_plan_ledger:
  assumes "ledger_ok s" "\<And>ref tk mc. (ref, tk, mc) \<in> set us \<Longrightarrow> 0 \<le> tk \<and> 0 \<le> mc"
  shows "ledger_ok (apply_plan t s us)"
  using assms(2)
proof (induction us rule: rev_induct)
  case (snoc u us)
  then show ?case by (cases u) (auto intro!: ledger_put)
qed (simp add: assms(1))

lemma spent_nonneg: "ledger_ok s \<Longrightarrow> 0 \<le> fst (spent s kk) \<and> 0 \<le> snd (spent s kk)"
  by (cases kk) (auto simp: spent_def split: option.split dest: ledger_okD)

lemma reserve_keeps_ledger:
  assumes "ledger_ok s" "reserve_budgets_atomic sha s t rs run_id observed = (r, s')"
  shows "ledger_ok s' \<and> bs_budgets s' = bs_budgets s"
proof (cases "\<exists>refs. r = Inr (Some refs)")
  case True
  then obtain refs where "r = Inr (Some refs)" by blast
  note rs = assms(2)[unfolded this]
  obtain planned where p: "refs = map fst planned" "s' = apply_plan t s planned" "distinct (map (wr_scope_id \<circ> fst) planned)"
    "\<And>u. u \<in> set planned \<Longrightarrow> plans_bucket sha s t run_id observed (wr_scope_id (fst u), demand rs (wr_scope_id (fst u))) u"
    "(wr_scope_id \<circ> fst) ` set planned = {sc \<in> fst ` set rs. map_of (bs_budgets s) (t, sc) \<noteq> None}"
    by (rule reserve_atomicE[OF assms(1) rs]) (rule that)
  have "0 \<le> tk \<and> 0 \<le> mc" if "(ref, tk, mc) \<in> set planned" for ref tk mc
    using p(4)[OF that] spent_nonneg[OF assms(1)] demand_nonneg[of rs "wr_scope_id ref"]
    by (auto simp: plans_bucket_def split: prod.splits)
  then show ?thesis using apply_plan_ledger[OF assms(1)] p(2) by auto
next
  case False
  then have "s' = s" using assms(2) by (auto simp: reserve_budgets_atomic_def split: sum.splits option.splits)
  then show ?thesis using assms(1) by simp
qed

text \<open>Property C34. Reserving is all or nothing, whatever other calls did between the accountant's reads and its commit. A refused
  reservation leaves the ledger as it was. A granted one selects one window for each requested scope that has a
  policy, charges each of those buckets with the estimate once per mention of the scope, and no other bucket.\<close>

theorem reservation_charges_all_or_nothing:
  assumes "ledger_ok s" and "cost_reserve sha seen s t scope_ids tokens micros run_id observed = (r, alerts, s')"
  shows "case r of
      Inl _ \<Rightarrow> s' = s
    | Inr res \<Rightarrow> distinct (map wr_scope_id (br_windows res)) \<and>
        wr_scope_id ` set (br_windows res) = {sc \<in> set scope_ids. map_of (bs_budgets s) (t, sc) \<noteq> None} \<and>
        spent s' = (\<lambda>kk. if kk \<in> bucket t ` set (br_windows res)
           then add2 (spent s kk) (int (count_list scope_ids (fst (snd kk))) * max 0 tokens,
                                   int (count_list scope_ids (fst (snd kk))) * max 0 micros)
           else spent s kk)"
proof (cases r)
  case (Inl e)
  then show ?thesis using reserve_fails_unchanged assms(2) by fastforce
next
  case (Inr res)
  note rs = reserve_spent[OF assms(1) cost_reserveE(2)[OF assms(2)[unfolded Inr]]]
  show ?thesis using rs(1-3) Inr by (simp add: demand_uniform image_image fun_eq_iff)
qed

text \<open>Operations on a ledger whose policies stay as they are.\<close>

datatype cost_op =
    CReserve budget_store string "string list" int int "string option" stamp
  | CReconcile budget_reservation int int
  | CReset string string bool bool stamp

fun cost_step :: "(string \<Rightarrow> string) \<Rightarrow> budget_store \<Rightarrow> cost_op \<Rightarrow> budget_store" where
  "cost_step sha s (CReserve seen t scs tk mc run_id observed) = snd (snd (cost_reserve sha seen s t scs tk mc run_id observed))"
| "cost_step sha s (CReconcile r dt dm) = cost_reconcile s r dt dm"
| "cost_step sha s (CReset t sc rt rc observed) = snd (reset_budget_usage sha s t sc rt rc observed)"

fun refunds :: "cost_op \<Rightarrow> bool" where
  "refunds (CReconcile r dt dm) \<longleftrightarrow> dt \<le> 0 \<and> dm \<le> 0"
| "refunds _ \<longleftrightarrow> True"

definition limits_nonneg :: "budget_store \<Rightarrow> bool" where
  "limits_nonneg s \<longleftrightarrow> (\<forall>k p. map_of (bs_budgets s) k = Some p \<longrightarrow> \<not> over_limit p 0 0)"

definition within_limits :: "budget_store \<Rightarrow> bool" where
  "within_limits s \<longleftrightarrow> (\<forall>t sc k p. map_of (bs_budgets s) (t, sc) = Some p \<longrightarrow> bu_hard_stop p \<longrightarrow>
     \<not> over_limit p (fst (spent s (t, sc, k))) (snd (spent s (t, sc, k))))"

definition cost_inv :: "budget_store \<Rightarrow> bool" where
  "cost_inv s \<longleftrightarrow> ledger_ok s \<and> limits_nonneg s \<and> within_limits s"

lemma over_mono: "over l a \<Longrightarrow> a \<le> b \<Longrightarrow> over l b"
  by (auto simp: over_def split: option.splits)

lemma over_limit_mono: "over_limit p a b \<Longrightarrow> a \<le> a' \<Longrightarrow> b \<le> b' \<Longrightarrow> over_limit p a' b'"
  unfolding over_limit_def using over_mono by blast

lemma cost_inv_put:
  assumes "cost_inv s" "wr_scope_id ref = sc" "wr_window_key ref = k" "0 \<le> tk" "0 \<le> mc"
    and "\<And>p. map_of (bs_budgets s) (t, sc) = Some p \<Longrightarrow> bu_hard_stop p \<Longrightarrow> \<not> over_limit p tk mc"
  shows "cost_inv (put_usage s (t, sc, k) (ref, tk, mc))"
  using assms ledger_put[of s ref sc k tk mc t] by (auto simp: cost_inv_def limits_nonneg_def within_limits_def)

lemma cost_inv_reserve:
  assumes "cost_inv s" "reserve_budgets_atomic sha s t rs run_id observed = (r, s')"
  shows "cost_inv s'"
proof (cases "\<exists>refs. r = Inr (Some refs)")
  case True
  then obtain refs where "r = Inr (Some refs)" by blast
  note rs = assms(2)[unfolded this]
  have l: "ledger_ok s" using assms(1) by (simp add: cost_inv_def)
  obtain planned where p: "refs = map fst planned" "s' = apply_plan t s planned" "distinct (map (wr_scope_id \<circ> fst) planned)"
    "\<And>u. u \<in> set planned \<Longrightarrow> plans_bucket sha s t run_id observed (wr_scope_id (fst u), demand rs (wr_scope_id (fst u))) u"
    "(wr_scope_id \<circ> fst) ` set planned = {sc \<in> fst ` set rs. map_of (bs_budgets s) (t, sc) \<noteq> None}"
    by (rule reserve_atomicE[OF l rs]) (rule that)
  have ok: "0 \<le> tk \<and> 0 \<le> mc \<and> (\<forall>p. map_of (bs_budgets s) (t, wr_scope_id ref) = Some p \<longrightarrow> bu_hard_stop p \<longrightarrow> \<not> over_limit p tk mc)"
    if "(ref, tk, mc) \<in> set planned" for ref tk mc
    using p(4)[OF that] spent_nonneg[OF l] demand_nonneg[of rs "wr_scope_id ref"]
    by (auto simp: plans_bucket_def split: prod.splits)
  have "cost_inv (apply_plan t s us)" if "set us \<subseteq> set planned" for us
    using that
  proof (induction us rule: rev_induct)
    case (snoc u us)
    then show ?case by (cases u) (auto intro!: cost_inv_put dest!: ok)
  qed (simp add: assms(1))
  then show ?thesis using p(2) by blast
next
  case False
  then have "s' = s" using assms(2) by (auto simp: reserve_budgets_atomic_def split: sum.splits option.splits)
  then show ?thesis using assms(1) by simp
qed

lemma cost_inv_usage:
  assumes "cost_inv s" "map_of (bs_usage s) (t, sc, k) = Some (ref, tk, mc)"
  shows "wr_scope_id ref = sc" "wr_window_key ref = k" "0 \<le> tk" "0 \<le> mc"
    and "map_of (bs_budgets s) (t, sc) = Some p \<Longrightarrow> bu_hard_stop p \<Longrightarrow> \<not> over_limit p tk mc"
proof -
  have l: "ledger_ok s" and w: "within_limits s" using assms(1) by (auto simp: cost_inv_def)
  show "wr_scope_id ref = sc" "wr_window_key ref = k" "0 \<le> tk" "0 \<le> mc" using ledger_okD[OF l assms(2)] by auto
  show "map_of (bs_budgets s) (t, sc) = Some p \<Longrightarrow> bu_hard_stop p \<Longrightarrow> \<not> over_limit p tk mc"
    using w[unfolded within_limits_def, rule_format, of t sc p k] assms(2) by (simp add: spent_def)
qed

lemma cost_inv_reconcile_one:
  assumes "cost_inv s" "dt \<le> 0" "dm \<le> 0"
  shows "cost_inv (reconcile_budget s t w dt dm)"
proof (cases "map_of (bs_usage s) (bucket t w)")
  case None
  then show ?thesis using assms(1) by (simp add: reconcile_budget_def)
next
  case (Some u)
  obtain ref tk mc where u: "u = (ref, tk, mc)" by (cases u)
  note U = cost_inv_usage[OF assms(1) Some[unfolded u]]
  have "\<not> over_limit p (max 0 (tk + dt)) (max 0 (mc + dm))" if "\<not> over_limit p tk mc" for p
    using that over_limit_mono[of p "max 0 (tk + dt)" "max 0 (mc + dm)" tk mc] U(3,4) assms(2,3) by auto
  then show ?thesis using Some u U assms(1) by (auto simp: reconcile_budget_def intro!: cost_inv_put)
qed

lemma cost_inv_reconcile: "cost_inv s \<Longrightarrow> dt \<le> 0 \<Longrightarrow> dm \<le> 0 \<Longrightarrow> cost_inv (cost_reconcile s r dt dm)"
proof -
  assume "cost_inv s" "dt \<le> 0" "dm \<le> 0"
  then have "cost_inv (foldl (\<lambda>s w. reconcile_budget s (br_tenant_id r) w dt dm) s ws)" for ws
    by (induction ws rule: rev_induct) (simp_all add: cost_inv_reconcile_one)
  then show ?thesis using \<open>cost_inv s\<close> by (simp add: cost_reconcile_def)
qed

lemma bucket_or_fresh:
  assumes "cost_inv s" "window_ref sha sc w r st = Inr cand"
    and u: "(case map_of (bs_usage s) (t, sc, wr_window_key cand) of None \<Rightarrow> (cand, 0, 0) | Some u \<Rightarrow> u) = (ref, tk, mc)"
    and p: "map_of (bs_budgets s) (t, sc) = Some policy" "\<not> over_limit policy 0 0"
  shows "wr_scope_id ref = sc \<and> wr_window_key ref = wr_window_key cand \<and> 0 \<le> tk \<and> 0 \<le> mc \<and>
    (bu_hard_stop policy \<longrightarrow> \<not> over_limit policy tk mc)"
proof (cases "map_of (bs_usage s) (t, sc, wr_window_key cand)")
  case None
  then show ?thesis using u p window_ref_scope[OF assms(2)] by auto
next
  case (Some v)
  then show ?thesis using u cost_inv_usage[OF assms(1), of t sc "wr_window_key cand" ref tk mc] p by simp
qed

lemma cost_inv_reset:
  assumes "cost_inv s"
  shows "cost_inv (snd (reset_budget_usage sha s t sc rt rc observed))"
proof (cases "map_of (bs_budgets s) (t, sc)")
  case None
  then show ?thesis using assms by (simp add: reset_budget_usage_def)
next
  case (Some policy)
  show ?thesis
  proof (cases "bu_window policy = ''run''")
    case True
    then show ?thesis using assms Some by (simp add: reset_budget_usage_def)
  next
    case run: False
    show ?thesis
    proof (cases "window_ref sha sc (bu_window policy) None observed")
      case (Inl e)
      then show ?thesis using assms Some run by (simp add: reset_budget_usage_def)
    next
      case (Inr cand)
      obtain ref tk mc where u: "(case map_of (bs_usage s) (t, sc, wr_window_key cand) of None \<Rightarrow> (cand, 0, 0) | Some u \<Rightarrow> u) = (ref, tk, mc)"
        by (metis prod_cases3)
      have z: "\<not> over_limit policy 0 0" using assms Some unfolding cost_inv_def limits_nonneg_def by blast
      have ref: "wr_scope_id ref = sc" "wr_window_key ref = wr_window_key cand" "0 \<le> tk" "0 \<le> mc"
        "bu_hard_stop policy \<Longrightarrow> \<not> over_limit policy tk mc"
        using bucket_or_fresh[OF assms Inr u Some z] by auto
      have "snd (reset_budget_usage sha s t sc rt rc observed) = put_usage s (t, sc, wr_window_key cand)
          (ref\<lparr>wr_reset_generation := wr_reset_generation ref + 1\<rparr>, if rt then 0 else tk, if rc then 0 else mc)"
        using Some run Inr u by (simp add: reset_budget_usage_def Let_def)
      moreover have "\<not> over_limit policy (if rt then 0 else tk) (if rc then 0 else mc)" if "bu_hard_stop policy"
        using z ref(5)[OF that] by (auto simp: over_limit_def)
      ultimately show ?thesis using ref(1-4) Some by (simp only:) (rule cost_inv_put[OF assms], auto)
    qed
  qed
qed

lemma cost_inv_step: "cost_inv s \<Longrightarrow> refunds c \<Longrightarrow> cost_inv (cost_step sha s c)"
proof (cases c)
  case (CReserve seen t scs tk mc run_id observed)
  assume "cost_inv s"
  then show ?thesis using CReserve cost_inv_reserve[of s sha t "map (\<lambda>sc. (sc, tk, mc)) scs" run_id observed]
    by (auto simp: cost_reserve_def split: sum.split option.split prod.split)
qed (auto simp: cost_inv_reconcile cost_inv_reset)


definition demo_day :: civil where
  "demo_day = \<lparr>dt_year = 2026, dt_month = 12, dt_day = 31, dt_micros = 5\<rparr>"

definition demo_budget :: "string \<Rightarrow> budget" where
  "demo_budget sc = \<lparr>bu_id = sc, bu_tenant_id = ''acme'', bu_scope_type = ''tenant'', bu_token_limit = Some 100,
     bu_cost_limit = Some 1000, bu_hard_stop = True, bu_window = ''daily'', bu_spent_tokens = 0, bu_spent_micros = 0,
     bu_usage_state = ''current'', bu_window_key = None, bu_window_started_at = None, bu_window_ends_at = None,
     bu_reset_generation = 0\<rparr>"

definition demo_ledger :: budget_store where
  "demo_ledger = \<lparr>bs_budgets = [((''acme'', ''acme''), demo_budget ''acme''), ((''acme'', ''sales''), demo_budget ''sales'')], bs_usage = []\<rparr>"

lemmas ledger_run = cost_reserve_def read_budgets_def get_budget_def demo_ledger_def demo_budget_def window_ref_def
  usage_view_def reserve_budgets_atomic_def aggregate_def over_limit_def over_def apply_plan_def put_usage_def spent_def
  demo_day_def WINDOWS_def plus_one_day_def next_month_start_def days_in_month_def leap_year_def date_text_def month_text_def
  zero_pad_def show_nat.simps budget_scope_ids_def cost_reconcile_def reconcile_budget_def Let_def

lemma demo_ledger_ok: "ledger_ok demo_ledger" "limits_nonneg demo_ledger"
  by (auto simp: ledger_ok_def limits_nonneg_def demo_ledger_def demo_budget_def over_limit_def over_def split: if_splits)

theorem reservation_charges_all_or_nothing_witness:
  "\<exists>r al s'. cost_reserve id demo_ledger demo_ledger ''acme'' [''acme'', ''sales'', ''hr''] 60 300 None (Utc demo_day) = (Inr r, al, s') \<and>
     wr_scope_id ` set (br_windows r) = {sc \<in> set [''acme'', ''sales'', ''hr'']. map_of (bs_budgets demo_ledger) (''acme'', sc) \<noteq> None} \<and>
     spent s' (''acme'', ''sales'', ''day:2026-12-31'') = (60, 300)"
proof -
  let ?c = "cost_reserve id demo_ledger demo_ledger ''acme'' [''acme'', ''sales'', ''hr''] 60 300 None (Utc demo_day)"
  have b: "is_ok (fst ?c)" by (simp add: ledger_run)
  have c: "spent (snd (snd ?c)) (''acme'', ''sales'', ''day:2026-12-31'') = (60, 300)" by (simp add: ledger_run, code_simp)
  obtain r al s' where e: "?c = (Inr r, al, s')" using b by (cases ?c) (auto simp: is_ok_conv)
  from reservation_charges_all_or_nothing[OF demo_ledger_ok(1) e] c e show ?thesis by auto
qed


lemma reconcile_spent:
  assumes "map_of (bs_usage s) (bucket t w) = Some (w, tk, mc)"
  shows "reconcile_budget s t w dt dm = put_usage s (bucket t w) (w, max 0 (tk + dt), max 0 (mc + dm))"
  using assms by (simp add: reconcile_budget_def)

lemma reconcile_all:
  assumes "distinct (map wr_scope_id ws)" "\<And>w. w \<in> set ws \<Longrightarrow> \<exists>u. map_of (bs_usage s) (bucket t w) = Some (w, u)"
  shows "spent (foldl (\<lambda>s w. reconcile_budget s t w dt dm) s ws) kk =
     (if kk \<in> bucket t ` set ws then (max 0 (fst (spent s kk) + dt), max 0 (snd (spent s kk) + dm)) else spent s kk)"
  using assms
proof (induction ws arbitrary: s)
  case (Cons w ws)
  obtain tk mc where w: "map_of (bs_usage s) (bucket t w) = Some (w, tk, mc)" using Cons.prems(2)[of w] by auto
  have ne: "bucket t v \<noteq> bucket t w" if "v \<in> set ws" for v using Cons.prems(1) imageI[OF that, of wr_scope_id] by auto
  have "\<exists>u. map_of (bs_usage (reconcile_budget s t w dt dm)) (bucket t v) = Some (v, u)" if "v \<in> set ws" for v
    using Cons.prems(2)[of v] ne[OF that] that unfolding reconcile_spent[OF w] by auto
  from Cons.IH[OF _ this] Cons.prems(1) show ?case using ne w unfolding foldl_Cons reconcile_spent[OF w]
    by (auto simp: spent_def)
qed simp

text \<open>True-up: after a granted reservation of distinct scopes, reconciling with the difference between actual and
  estimated usage leaves every reserved bucket charged with exactly the actual usage, and every other bucket as it was.
  In particular a full refund restores what each bucket had spent.\<close>

lemma true_up_charges_actual_usage:
  assumes "ledger_ok s" and "distinct scope_ids" and "0 \<le> tokens" "0 \<le> micros" "0 \<le> actual_tokens" "0 \<le> actual_micros"
    and "cost_reserve sha seen s t scope_ids tokens micros run_id observed = (Inr res, alerts, s')"
  shows "spent (cost_reconcile s' res (actual_tokens - tokens) (actual_micros - micros)) =
     (\<lambda>kk. if kk \<in> bucket t ` set (br_windows res) then add2 (spent s kk) (actual_tokens, actual_micros) else spent s kk)"
proof
  fix kk
  note res = cost_reserveE[OF assms(7)]
  note rs = reserve_spent[OF assms(1) res(2)]
  have one: "count_list scope_ids (wr_scope_id w) = 1" if "w \<in> set (br_windows res)" for w
    using rs(3) imageI[OF that, of wr_scope_id] assms(2) by (intro distinct_count_one) (auto simp: image_image)
  have spent': "spent s' kk = (if kk \<in> bucket t ` set (br_windows res) then add2 (spent s kk) (tokens, micros) else spent s kk)"
    using rs(1)[of kk] one assms(3,4) by (auto simp: demand_uniform)
  have "spent (cost_reconcile s' res (actual_tokens - tokens) (actual_micros - micros)) kk =
      (if kk \<in> bucket t ` set (br_windows res)
       then (max 0 (fst (spent s' kk) + (actual_tokens - tokens)), max 0 (snd (spent s' kk) + (actual_micros - micros)))
       else spent s' kk)"
    using reconcile_all[OF rs(2), of s' t "actual_tokens - tokens" "actual_micros - micros" kk] rs(4) res(1)
      spent_nonneg[OF conjunct1[OF reserve_keeps_ledger[OF assms(1) res(2)]], of kk]
    by (auto simp: cost_reconcile_def max_def)
  then show "spent (cost_reconcile s' res (actual_tokens - tokens) (actual_micros - micros)) kk =
     (if kk \<in> bucket t ` set (br_windows res) then add2 (spent s kk) (actual_tokens, actual_micros) else spent s kk)"
    using spent' spent_nonneg[OF assms(1), of kk] assms(5,6) by (simp add: add2_def)
qed

text \<open>A department named like its tenant makes the two budget scopes of a spawn one scope mentioned twice. The
  reservation charges it twice, the refund is applied once, so a run that used nothing keeps its estimate charged.\<close>

lemma tenant_named_department_is_refunded_once:
  "case cost_reserve id demo_ledger demo_ledger ''acme'' (budget_scope_ids ''acme'' (Some ''acme'')) 30 100 None (Utc demo_day) of
     (Inr r, _, s') \<Rightarrow> spent s' (''acme'', ''acme'', ''day:2026-12-31'') = (60, 200) \<and>
        spent (cost_reconcile s' r (0 - 30) (0 - 100)) (''acme'', ''acme'', ''day:2026-12-31'') = (30, 100)
   | _ \<Rightarrow> False"
  by (simp add: ledger_run, code_simp)

text \<open>A reset moves the bucket to a new generation, so a true-up of an earlier reservation does not touch it.\<close>

lemma reset_fences_earlier_reservations:
  assumes "ledger_ok s" "map_of (bs_usage s) (bucket t w) = Some (w, u)"
    and "map_of (bs_budgets s) (t, wr_scope_id w) = Some policy" "bu_window policy \<noteq> ''run''"
    and "window_ref sha (wr_scope_id w) (bu_window policy) None observed = Inr cand" "wr_window_key cand = wr_window_key w"
  shows "reconcile_budget (snd (reset_budget_usage sha s t (wr_scope_id w) rt rc observed)) t w dt dm
       = snd (reset_budget_usage sha s t (wr_scope_id w) rt rc observed)"
  using assms by (cases u) (auto simp: reset_budget_usage_def reconcile_budget_def Let_def)

subsection \<open>Prices\<close>

lemma int_times_mono:
  assumes "0 \<le> n" "n \<le> n'" "0 \<le> r" "int_times n' (FFin r) = Inr (FFin y')"
  shows "\<exists>y. int_times n (FFin r) = Inr (FFin y) \<and> 0 \<le> y \<and> y \<le> y'"
proof -
  obtain g where g: "round_float (of_int n') = FFin g" "round_float (g * r) = FFin y'"
    using assms(4) by (cases "round_float (of_int n')") (auto simp: int_times_def float_of_int_def)
  obtain f where f: "round_float (of_int n) = FFin f" "0 \<le> f" "f \<le> g"
    using round_float_mono[of "of_int n" "of_int n'" g] g(1) assms(1,2) by auto
  then have "f * r \<le> g * r" "0 \<le> f * r" using assms(3) by (simp_all add: mult_right_mono)
  from round_float_mono[OF this(2,1) g(2)] f(1) show ?thesis by (auto simp: int_times_def float_of_int_def)
qed

lemma float_round_Inr: "float_round f = Inr m \<longleftrightarrow> (\<exists>x. f = FFin x \<and> m = round_half_even x)"
  by (cases f) auto

lemma float_add_Fin: "float_add f g = FFin z \<longleftrightarrow> (\<exists>a b. f = FFin a \<and> g = FFin b \<and> round_float (a + b) = FFin z)"
  by (cases f; cases g) auto

text \<open>Prices are monotone and never credits, rounding included: with rates that are not negative, a run that reports no less
  input, no less output and no less unattributed usage than another costs no less, what the other costs is not negative,
  and it can be priced whenever the larger one can.\<close>

lemma price_is_monotone:
  assumes "0 \<le> a" and "0 \<le> b" and "i \<le> i'" and "out \<le> out'"
    and "max 0 tk - max 0 i - max 0 out \<le> max 0 tk' - max 0 i' - max 0 out'"
    and "priced_micros (FFin a, FFin b) tk' i' out' = Inr m'"
  shows "\<exists>m. priced_micros (FFin a, FFin b) tk i out = Inr m \<and> 0 \<le> m \<and> m \<le> m'"
proof -
  let ?u = "max 0 (max 0 tk - max 0 i - max 0 out)" and ?u' = "max 0 (max 0 tk' - max 0 i' - max 0 out')"
  obtain x' y' z' s' t' where l: "int_times (max 0 i') (FFin a) = Inr (FFin x')" "int_times (max 0 out') (FFin b) = Inr (FFin y')"
      "int_times ?u' (FFin a) = Inr (FFin z')" "round_float (x' + y') = FFin s'" "round_float (s' + z') = FFin t'"
      "m' = max 0 (round_half_even t')"
    using assms(6) by (auto simp: priced_micros_def Let_def rbind_Inr_iff float_round_Inr float_add_Fin)
  have le: "max 0 i \<le> max 0 i'" "max 0 out \<le> max 0 out'" "?u \<le> ?u'"
    by (intro max.mono order.refl assms(3-5))+
  obtain x where x: "int_times (max 0 i) (FFin a) = Inr (FFin x)" "0 \<le> x" "x \<le> x'"
    using int_times_mono[OF _ le(1) assms(1) l(1)] by auto
  obtain y where y: "int_times (max 0 out) (FFin b) = Inr (FFin y)" "0 \<le> y" "y \<le> y'"
    using int_times_mono[OF _ le(2) assms(2) l(2)] by auto
  obtain z where z: "int_times ?u (FFin a) = Inr (FFin z)" "0 \<le> z" "z \<le> z'"
    using int_times_mono[OF _ le(3) assms(1) l(3)] by auto
  obtain s where s: "round_float (x + y) = FFin s" "0 \<le> s" "s \<le> s'"
    using round_float_mono[of "x + y" "x' + y'" s'] x y l(4) by auto
  obtain t where t: "round_float (s + z) = FFin t" "t \<le> t'"
    using round_float_mono[of "s + z" "s' + z'" t'] s z l(5) by auto
  have "priced_micros (FFin a, FFin b) tk i out = Inr (max 0 (round_half_even t))"
    using x y z s t by (simp add: priced_micros_def Let_def)
  then show ?thesis using round_mono[OF t(2)] l(6) by auto
qed

text \<open>One rate for both legs does not price every split alike: at 0.35 micros per token, ten tokens cost four micros as a
  total and three when reported as three and seven, because the two products are rounded on their own.\<close>

definition rate_035 :: rat where "rate_035 = 6305039478318694 / 2 ^ 54"

lemma rate_035_float: "round_float (35 / 100) = FFin rate_035"
  using round_float_eval[of "35 / 100" 54 6305039478318694] by (simp add: round_near rate_035_def)

lemma scalar_rate_depends_on_the_split:
  "priced_micros (FFin rate_035, FFin rate_035) 10 0 0 = Inr 4 \<and> priced_micros (FFin rate_035, FFin rate_035) 10 3 7 = Inr 3"
proof -
  note small = round_float_int[of 0] round_float_int[of 3] round_float_int[of 7] round_float_int[of 10]
  have ten: "round_float (10 * rate_035) = FFin (7 / 2)"
    using round_float_eval[of "10 * rate_035" 51 7881299347898368] by (simp add: round_tie rate_035_def)
  have three: "round_float (3 * rate_035) = FFin (4728779608739020 / 2 ^ 52)"
    using round_float_eval[of "3 * rate_035" 52 4728779608739020] by (simp add: round_tie rate_035_def)
  have seven: "round_float (7 * rate_035) = FFin (5516909543528857 / 2 ^ 51)"
    using round_float_eval[of "7 * rate_035" 51 5516909543528857] by (simp add: round_near rate_035_def)
  have both: "round_float (4728779608739020 / 2 ^ 52 + 5516909543528857 / 2 ^ 51) = FFin (7881299347898367 / 2 ^ 51)"
    using round_float_eval[of "4728779608739020 / 2 ^ 52 + 5516909543528857 / 2 ^ 51" 51 7881299347898367] by (simp add: round_near)
  have sum: "round_float (7881299347898367 / 2 ^ 51) = FFin (7881299347898367 / 2 ^ 51)"
    using round_float_eval[of "7881299347898367 / 2 ^ 51" 51 7881299347898367] by (simp add: round_near)
  have half: "round_float (7 / 2) = FFin (7 / 2)"
    using round_float_eval[of "7 / 2" 51 7881299347898368] by (simp add: round_near)
  have "round_half_even (7 / 2) = 4" by (rule round_tie) simp_all
  moreover have "round_half_even (7881299347898367 / 2 ^ 51) = 3" by (rule round_near) simp_all
  ultimately show ?thesis using small ten three seven both sum half
    by (simp add: priced_micros_def int_times_def float_of_int_def)
qed

text \<open>Usage reported as a bare total is billed at the input rate, whichever leg is dearer.\<close>

lemma unsplit_usage_bills_at_the_input_rate:
  "priced_micros (FFin 3, FFin 15) 1000000 0 0 = Inr 3000000"
  using round_float_int[of 1000000] round_float_int[of 0] round_float_int[of 3000000]
  by (simp add: priced_micros_def int_times_def float_of_int_def round_half_even_def)

subsection \<open>Window identities\<close>

lemma zero_pad_digits: "list_all is_digit (zero_pad w n)"
  using show_nat_digits[of n] by (auto simp: zero_pad_def list_all_iff is_digit_def)

lemma zero_pad_inject: "zero_pad w m = zero_pad w n \<Longrightarrow> m = n"
proof -
  have z: "foldl (\<lambda>n c. 10 * n + digit_value c) 0 (replicate k CHR ''0'') = 0" for k
    by (induction k) (simp_all add: digit_value_def)
  have v: "foldl (\<lambda>n c. 10 * n + digit_value c) 0 (zero_pad w k) = int k" for k
  proof -
    have "foldl (\<lambda>n c. 10 * n + digit_value c) 0 (show_nat k) = int k"
      using py_int_of_show_nat[of k] show_nat_digits[of k] unfolding py_int_of_digits_def by (simp split: if_splits)
    then show ?thesis unfolding zero_pad_def foldl_append z .
  qed
  assume "zero_pad w m = zero_pad w n"
  then have "int m = int n" using v[of m] v[of n] by metis
  then show ?thesis by simp
qed

lemma no_dash: "CHR ''-'' \<notin> set (zero_pad w n)"
  using zero_pad_digits[of w n] by (auto simp: list_all_iff is_digit_def)

lemma month_text_inject:
  assumes "month_text c @ r = month_text c' @ r'" "r = [] \<or> hd r = CHR ''-''" "r' = [] \<or> hd r' = CHR ''-''"
  shows "dt_year c = dt_year c' \<and> dt_month c = dt_month c' \<and> r = r'"
proof -
  have e: "zero_pad 4 (dt_year c) @ CHR ''-'' # (zero_pad 2 (dt_month c) @ r) = zero_pad 4 (dt_year c') @ CHR ''-'' # (zero_pad 2 (dt_month c') @ r')"
    using assms(1) by (simp add: month_text_def)
  have y: "zero_pad 4 (dt_year c) = zero_pad 4 (dt_year c')" using sep_unique[OF no_dash no_dash e] .
  with e have m: "zero_pad 2 (dt_month c) @ r = zero_pad 2 (dt_month c') @ r'" by simp
  have t: "takeWhile (\<lambda>x. x \<noteq> CHR ''-'') (zero_pad 2 k @ q) = zero_pad 2 k" if "q = [] \<or> hd q = CHR ''-''" for k q
    using that no_dash[of 2 k] by (cases q) (auto simp: takeWhile_append takeWhile_eq_all_conv)
  have "zero_pad 2 (dt_month c) = zero_pad 2 (dt_month c')" using t[OF assms(2), of "dt_month c"] t[OF assms(3), of "dt_month c'"] m by simp
  with m show ?thesis using zero_pad_inject[OF y] zero_pad_inject by simp
qed

lemma date_text_inject:
  "date_text c = date_text c' \<longleftrightarrow> dt_year c = dt_year c' \<and> dt_month c = dt_month c' \<and> dt_day c = dt_day c'"
proof
  assume "date_text c = date_text c'"
  then have "month_text c @ (''-'' @ zero_pad 2 (dt_day c)) = month_text c' @ (''-'' @ zero_pad 2 (dt_day c'))" by (simp add: date_text_def)
  from month_text_inject[OF this] show "dt_year c = dt_year c' \<and> dt_month c = dt_month c' \<and> dt_day c = dt_day c'"
    using zero_pad_inject by auto
qed (simp add: date_text_def month_text_def)

lemma month_text_eq: "month_text c = month_text c' \<longleftrightarrow> dt_year c = dt_year c' \<and> dt_month c = dt_month c'"
  using month_text_inject[of c "[]" c' "[]"] by (auto simp: month_text_def)

definition clock :: "civil \<Rightarrow> nat \<times> nat \<times> nat \<times> nat" where
  "clock c = (dt_year c, dt_month c, dt_day c, dt_micros c)"

text \<open>The period a window covers.\<close>

definition same_period :: "string \<Rightarrow> civil \<Rightarrow> civil \<Rightarrow> bool" where
  "same_period window c c' \<longleftrightarrow> dt_year c = dt_year c' \<and> dt_month c = dt_month c' \<and> (window = ''daily'' \<longrightarrow> dt_day c = dt_day c')"

text \<open>Daily and monthly windows partition time: the window selected for an instant contains that instant, its bounds
  included below and excluded above, and two instants select the same bucket exactly when they lie on the same day, or in the
  same month.\<close>

lemma calendar_windows_partition_time:
  assumes "window \<in> {''daily'', ''monthly''}" and "valid_civil c" and "valid_civil c'"
    and "window_ref sha scope_id window run_id (Utc c) = Inr w" and "window_ref sha scope_id window run_id' (Utc c') = Inr w'"
  shows "clock (wr_started_at w) \<le> clock c \<and> clock c < clock (the (wr_ends_at w)) \<and>
         (wr_window_key w = wr_window_key w' \<longleftrightarrow> same_period window c c')"
proof (cases "window = ''daily''")
  case True
  have w: "wr_started_at w = c\<lparr>dt_micros := 0\<rparr>" "\<exists>e. plus_one_day (c\<lparr>dt_micros := 0\<rparr>) = Inr e \<and> wr_ends_at w = Some e"
    "wr_window_key w = ''day:'' @ date_text (c\<lparr>dt_micros := 0\<rparr>)" "wr_window_key w' = ''day:'' @ date_text (c'\<lparr>dt_micros := 0\<rparr>)"
    using assms(4,5) True by (auto simp: window_ref_def WINDOWS_def Let_def rbind_Inr_iff)
  have "clock c < clock (the (wr_ends_at w))" using w(2) by (auto simp: plus_one_day_def clock_def split: if_splits)
  then show ?thesis using w True by (simp add: clock_def date_text_inject same_period_def)
next
  case False
  then have w: "wr_started_at w = c\<lparr>dt_day := 1, dt_micros := 0\<rparr>" "\<exists>e. next_month_start (c\<lparr>dt_day := 1, dt_micros := 0\<rparr>) = Inr e \<and> wr_ends_at w = Some e"
    "wr_window_key w = ''month:'' @ month_text (c\<lparr>dt_day := 1, dt_micros := 0\<rparr>)"
    "wr_window_key w' = ''month:'' @ month_text (c'\<lparr>dt_day := 1, dt_micros := 0\<rparr>)"
    using assms(1,4,5) by (auto simp: window_ref_def WINDOWS_def Let_def rbind_Inr_iff)
  have "clock c < clock (the (wr_ends_at w))" using w(2) by (auto simp: next_month_start_def clock_def split: if_splits)
  moreover have "clock (wr_started_at w) \<le> clock c" using assms(2) w(1) by (auto simp: clock_def valid_civil_def)
  ultimately show ?thesis using w False by (simp add: month_text_eq same_period_def)
qed

end
