(* ===== verification/LedgerPayload.thy ===== *)
theory LedgerPayload
  imports Grants Values
begin

text \<open>
  The canonical payloads of the execution ledger: the bounded JSON documents of \<^verbatim>\<open>boltrig/models/execution_scope.py\<close>
  (\<^verbatim>\<open>_is_sensitive_key\<close>, \<^verbatim>\<open>_validate_json\<close>, \<^verbatim>\<open>CanonicalPayload\<close>) and the restrictions of \<^verbatim>\<open>execution_commands.py\<close> and
  \<^verbatim>\<open>execution_events.py\<close>.

  A payload is held as canonical bytes and read with \<^verbatim>\<open>json.loads\<close>; here it is the document read, whose dictionaries have their keys
  sorted. NFKC is the parameter \<open>nfkc\<close>, the rendering of floats the parameter \<open>frepr\<close>. Case folding differs from lower case on Latin-1 only
  at the sharp s (and at the micro sign, which is a separator either way).
\<close>

subsection \<open>Bounded values\<close>

definition MAX_IDENTIFIER_CHARS :: nat where "MAX_IDENTIFIER_CHARS = 160"
definition MAX_COLLECTION_ITEMS :: nat where "MAX_COLLECTION_ITEMS = 128"
definition MAX_SIGNED_BIGINT :: int where "MAX_SIGNED_BIGINT = 2 ^ 63 - 1"
definition MAX_CANONICAL_BYTES :: nat where "MAX_CANONICAL_BYTES = 32768"
definition MAX_JSON_DEPTH :: nat where "MAX_JSON_DEPTH = 8"
definition MAX_TOTAL_JSON_NODES :: nat where "MAX_TOTAL_JSON_NODES = 512"
definition MAX_JSON_KEY_CHARS :: nat where "MAX_JSON_KEY_CHARS = 80"
definition MAX_JSON_STRING_CHARS :: nat where "MAX_JSON_STRING_CHARS = 4096"

text \<open>The control and format characters below code point 256.\<close>

definition control_char :: "char \<Rightarrow> bool" where
  "control_char c = (let n = of_char c :: nat in n < 32 \<or> (127 \<le> n \<and> n \<le> 159) \<or> n = 173)"

definition bounded_text :: "nat \<Rightarrow> string \<Rightarrow> bool" where
  "bounded_text maximum s \<longleftrightarrow> s \<noteq> [] \<and> strip s = s \<and> length s \<le> maximum \<and> \<not> list_ex control_char s"

definition ident_ok :: "string \<Rightarrow> bool" where
  "ident_ok s \<longleftrightarrow> bounded_text MAX_IDENTIFIER_CHARS s"

definition hex_lower :: "char \<Rightarrow> bool" where
  "hex_lower c \<longleftrightarrow> is_digit c \<or> c \<in> set ''abcdef''"

definition sha256_digest :: "string \<Rightarrow> bool" where
  "sha256_digest s \<longleftrightarrow> ident_ok s \<and> startswith s ''sha256:'' \<and> length s = 71 \<and> list_all hex_lower (drop 7 s)"

definition positive :: "int \<Rightarrow> bool" where
  "positive n \<longleftrightarrow> 1 \<le> n \<and> n \<le> MAX_SIGNED_BIGINT"

definition non_negative :: "int \<Rightarrow> bool" where
  "non_negative n \<longleftrightarrow> 0 \<le> n \<and> n \<le> MAX_SIGNED_BIGINT"

subsection \<open>Sensitive keys\<close>

definition LEDGER_SENSITIVE_KEYS :: "string list" where
  "LEDGER_SENSITIVE_KEYS = [''api_key'', ''apikey'', ''access_token'', ''auth_token'', ''authorization'', ''bearer'', ''client_secret'', ''cookie'',
     ''credential'', ''credentials'', ''password'', ''passwd'', ''private_key'', ''refresh_token'', ''jwt'', ''oauth_token'', ''oauthtoken'',
     ''secret'', ''session_token'', ''sessiontoken'', ''set_cookie'', ''token'']"

definition without_underscores :: "string \<Rightarrow> string" where
  "without_underscores s = filter (\<lambda>c. c \<noteq> CHR ''_'') s"

definition casefold :: "string \<Rightarrow> string" where
  "casefold s = concat (map (\<lambda>c. if (of_char c :: nat) = 223 then ''ss'' else [lower_char c]) s)"

text \<open>\<^verbatim>\<open>re.sub(r"[^a-z0-9]+", "_", s)\<close>; the flag says that the last character belonged to such a run.\<close>

fun squash :: "bool \<Rightarrow> string \<Rightarrow> string" where
  "squash in_run [] = []"
| "squash in_run (c # s) =
     (if is_lower c \<or> is_digit c then c # squash False s else if in_run then squash True s else CHR ''_'' # squash True s)"

definition strip_underscores :: "string \<Rightarrow> string" where
  "strip_underscores s = rstrip ''_'' (dropWhile (\<lambda>c. c = CHR ''_'') s)"

definition normalized_key :: "(string \<Rightarrow> string) \<Rightarrow> string \<Rightarrow> string" where
  "normalized_key nfkc key = strip_underscores (squash False (casefold (split_acronym (split_camel (nfkc key)))))"

text \<open>\<^verbatim>\<open>needle in s\<close>.\<close>

fun contains :: "string \<Rightarrow> string \<Rightarrow> bool" where
  "contains needle [] = (needle = [])"
| "contains needle (c # s) = (startswith (c # s) needle \<or> contains needle s)"

definition is_sensitive_key :: "(string \<Rightarrow> string) \<Rightarrow> string \<Rightarrow> bool" where
  "is_sensitive_key nfkc key =
     (let normalized = normalized_key nfkc key
      in list_ex (\<lambda>sensitive. contains (''_'' @ sensitive @ ''_'') (''_'' @ normalized @ ''_'')) LEDGER_SENSITIVE_KEYS \<or>
         without_underscores normalized \<in> set (map without_underscores LEDGER_SENSITIVE_KEYS))"

subsection \<open>Validation\<close>

definition json_key_ok :: "(string \<Rightarrow> string) \<Rightarrow> string \<Rightarrow> bool" where
  "json_key_ok nfkc key \<longleftrightarrow> key \<noteq> [] \<and> length key \<le> MAX_JSON_KEY_CHARS \<and> \<not> list_ex control_char key \<and> \<not> is_sensitive_key nfkc key"

text \<open>\<^verbatim>\<open>_validate_json\<close>: the budget is the number of values met so far, returned with those of the value added.\<close>

function (sequential) validate_json :: "(string \<Rightarrow> string) \<Rightarrow> nat \<Rightarrow> nat \<Rightarrow> pyval \<Rightarrow> py_error + nat"
  and validate_items :: "(string \<Rightarrow> string) \<Rightarrow> nat \<Rightarrow> nat \<Rightarrow> pyval list \<Rightarrow> py_error + nat"
  and validate_entries :: "(string \<Rightarrow> string) \<Rightarrow> nat \<Rightarrow> nat \<Rightarrow> pydict \<Rightarrow> py_error + nat" where
  "validate_json nfkc depth budget value =
     (if MAX_TOTAL_JSON_NODES < budget + 1 then Inl ValueError
      else if MAX_JSON_DEPTH < depth then Inl ValueError
      else (case value of
              PNone \<Rightarrow> Inr (budget + 1)
            | PBool _ \<Rightarrow> Inr (budget + 1)
            | PInt _ \<Rightarrow> Inr (budget + 1)
            | PFloat f \<Rightarrow> if f = FNonFinite then Inl ValueError else Inr (budget + 1)
            | PStr s \<Rightarrow> if MAX_JSON_STRING_CHARS < length s then Inl ValueError else Inr (budget + 1)
            | PList xs \<Rightarrow> if MAX_COLLECTION_ITEMS < length xs then Inl ValueError else validate_items nfkc (depth + 1) (budget + 1) xs
            | PDict d \<Rightarrow> if MAX_COLLECTION_ITEMS < length d then Inl ValueError else validate_entries nfkc (depth + 1) (budget + 1) d
            | PTuple _ \<Rightarrow> Inl TypeError
            | POther _ \<Rightarrow> Inl TypeError))"
| "validate_items nfkc depth budget [] = Inr budget"
| "validate_items nfkc depth budget (x # xs) = rbind (validate_json nfkc depth budget x) (\<lambda>b. validate_items nfkc depth b xs)"
| "validate_entries nfkc depth budget [] = Inr budget"
| "validate_entries nfkc depth budget ((k, x) # d) =
     (case k of
        KOther _ \<Rightarrow> Inl TypeError
      | KStr key \<Rightarrow>
          if \<not> json_key_ok nfkc key then Inl ValueError
          else rbind (validate_json nfkc depth budget x) (\<lambda>b. validate_entries nfkc depth b d))"
  by pat_completeness auto
termination
proof (relation "measure (\<lambda>x. case x of Inl (nfkc, dep, b, v) \<Rightarrow> 2 * size v
         | Inr (Inl (nfkc, dep, b, xs)) \<Rightarrow> 1 + 2 * size_list size xs
         | Inr (Inr (nfkc, dep, b, d)) \<Rightarrow> 1 + 2 * size_list (\<lambda>(k, v). size v) d)", goal_cases)
  case 1
  show ?case by simp
next
  case (3 nfkc depth budget v d)
  have "size_list (\<lambda>(k, v). size v) d \<le> size_list (size_prod (\<lambda>_. 0) size) d" by (induction d) auto
  then show ?case using 3 by simp
qed auto

declare validate_json.simps [simp del]

subsection \<open>Payloads\<close>

text \<open>What \<^verbatim>\<open>json.loads\<close> reads back from the canonical bytes: the document with sorted keys.\<close>

fun sort_document :: "pyval \<Rightarrow> pyval" where
  "sort_document (PDict d) = PDict (sort_key (\<lambda>(k, v). key_str k) (map (\<lambda>(k, v). (k, sort_document v)) d))"
| "sort_document (PList xs) = PList (map sort_document xs)"
| "sort_document v = v"

text \<open>\<^verbatim>\<open>CanonicalPayload._from_mapping\<close>.\<close>

definition payload_of_mapping :: "(rat \<Rightarrow> string) \<Rightarrow> (string \<Rightarrow> string) \<Rightarrow> pydict \<Rightarrow> py_error + pydict" where
  "payload_of_mapping frepr nfkc d =
     rbind (validate_json nfkc 0 0 (PDict d)) (\<lambda>_.
     rbind (json_dumps frepr (PDict d)) (\<lambda>encoded.
       if MAX_CANONICAL_BYTES < utf8_len encoded then Inl ValueError
       else (case sort_document (PDict d) of PDict e \<Rightarrow> Inr e | _ \<Rightarrow> Inl ValueError)))"

text \<open>What the constructor accepts.\<close>

definition payload_ok :: "(rat \<Rightarrow> string) \<Rightarrow> (string \<Rightarrow> string) \<Rightarrow> pydict \<Rightarrow> bool" where
  "payload_ok frepr nfkc d \<longleftrightarrow> payload_of_mapping frepr nfkc d = Inr d \<and> distinct (map fst d)"

fun json_scalar :: "pyval \<Rightarrow> bool" where
  "json_scalar PNone = True"
| "json_scalar (PBool _) = True"
| "json_scalar (PInt _) = True"
| "json_scalar (PFloat _) = True"
| "json_scalar (PStr _) = True"
| "json_scalar _ = False"

definition command_payload_ok :: "(rat \<Rightarrow> string) \<Rightarrow> (string \<Rightarrow> string) \<Rightarrow> pydict \<Rightarrow> bool" where
  "command_payload_ok frepr nfkc d \<longleftrightarrow> payload_ok frepr nfkc d \<and> list_all (\<lambda>(k, v). json_scalar v) d"

definition EVENT_FIELDS :: "string list" where
  "EVENT_FIELDS = [''counts'', ''detail_digest'', ''item_type'', ''message_code'', ''references'', ''runtime_event'', ''status'']"

fun identifier_value :: "pyval \<Rightarrow> bool" where
  "identifier_value (PStr s) = ident_ok s"
| "identifier_value _ = False"

fun str_of :: "pyval \<Rightarrow> string" where
  "str_of (PStr s) = s"
| "str_of _ = []"

fun references_ok :: "pyval \<Rightarrow> bool" where
  "references_ok PNone = True"
| "references_ok (PList xs) = (list_all identifier_value xs \<and> distinct (map str_of xs))"
| "references_ok _ = False"

fun count_ok :: "pyval \<Rightarrow> bool" where
  "count_ok (PDict d) =
     (set (map fst d) = {KStr ''name'', KStr ''value''} \<and> identifier_value (dict_get d ''name'') \<and>
      (case dict_get d ''value'' of PInt n \<Rightarrow> non_negative n | _ \<Rightarrow> False))"
| "count_ok _ = False"

fun count_name :: "pyval \<Rightarrow> string" where
  "count_name (PDict d) = str_of (dict_get d ''name'')"
| "count_name _ = []"

fun counts_ok :: "pyval \<Rightarrow> bool" where
  "counts_ok PNone = True"
| "counts_ok (PList xs) = (list_all count_ok xs \<and> distinct (map count_name xs))"
| "counts_ok _ = False"

text \<open>\<^verbatim>\<open>_validate_event_document\<close>; a missing list is the empty one, an explicit \<^verbatim>\<open>null\<close> one is refused.\<close>

definition event_document_ok :: "pydict \<Rightarrow> bool" where
  "event_document_ok d \<longleftrightarrow>
     list_all (\<lambda>key. dict_get d key = PNone \<or> identifier_value (dict_get d key)) [''runtime_event'', ''status'', ''item_type'', ''message_code''] \<and>
     (case dict_get d ''detail_digest'' of PNone \<Rightarrow> True | PStr s \<Rightarrow> sha256_digest s | _ \<Rightarrow> False) \<and>
     map_of d (KStr ''references'') \<noteq> Some PNone \<and> references_ok (dict_get d ''references'') \<and>
     map_of d (KStr ''counts'') \<noteq> Some PNone \<and> counts_ok (dict_get d ''counts'')"

definition event_payload_ok :: "(rat \<Rightarrow> string) \<Rightarrow> (string \<Rightarrow> string) \<Rightarrow> pydict \<Rightarrow> bool" where
  "event_payload_ok frepr nfkc d \<longleftrightarrow> payload_ok frepr nfkc d \<and> set (map (key_str \<circ> fst) d) \<subseteq> set EVENT_FIELDS \<and> event_document_ok d"

record event_count_rec =
  ec_name :: string
  ec_value :: int

record event_metadata =
  em_runtime_event :: "string option"
  em_status :: "string option"
  em_item_type :: "string option"
  em_message_code :: "string option"
  em_detail_digest :: "string option"
  em_references :: "string list"
  em_counts :: "event_count_rec list"

fun opt_ok :: "('a \<Rightarrow> bool) \<Rightarrow> 'a option \<Rightarrow> bool" where
  "opt_ok P None = True"
| "opt_ok P (Some x) = P x"

definition metadata_ok :: "event_metadata \<Rightarrow> bool" where
  "metadata_ok m \<longleftrightarrow> opt_ok ident_ok (em_runtime_event m) \<and> opt_ok ident_ok (em_status m) \<and> opt_ok ident_ok (em_item_type m) \<and>
     opt_ok ident_ok (em_message_code m) \<and> opt_ok sha256_digest (em_detail_digest m) \<and>
     list_all ident_ok (em_references m) \<and> distinct (em_references m) \<and> length (em_references m) \<le> MAX_COLLECTION_ITEMS \<and>
     list_all (\<lambda>c. ident_ok (ec_name c) \<and> non_negative (ec_value c)) (em_counts m) \<and> length (em_counts m) \<le> MAX_COLLECTION_ITEMS \<and>
     distinct (map ec_name (em_counts m))"

definition metadata_field :: "string \<Rightarrow> string option \<Rightarrow> pydict" where
  "metadata_field key x = (case x of None \<Rightarrow> [] | Some s \<Rightarrow> [(KStr key, PStr s)])"

definition document_of_metadata :: "event_metadata \<Rightarrow> pydict" where
  "document_of_metadata m =
     metadata_field ''runtime_event'' (em_runtime_event m) @ metadata_field ''status'' (em_status m) @ metadata_field ''item_type'' (em_item_type m) @
     metadata_field ''message_code'' (em_message_code m) @ metadata_field ''detail_digest'' (em_detail_digest m) @
     (if em_references m \<noteq> [] then [(KStr ''references'', PList (map PStr (em_references m)))] else []) @
     (if em_counts m \<noteq> []
      then [(KStr ''counts'', PList (map (\<lambda>c. PDict [(KStr ''name'', PStr (ec_name c)), (KStr ''value'', PInt (ec_value c))]) (em_counts m)))] else [])"

text \<open>\<^verbatim>\<open>CanonicalEventPayload.from_metadata\<close>.\<close>

definition payload_of_metadata :: "(rat \<Rightarrow> string) \<Rightarrow> (string \<Rightarrow> string) \<Rightarrow> event_metadata \<Rightarrow> py_error + pydict" where
  "payload_of_metadata frepr nfkc m =
     rbind (payload_of_mapping frepr nfkc (document_of_metadata m)) (\<lambda>d. if event_payload_ok frepr nfkc d then Inr d else Inl ValueError)"

subsection \<open>The walk accepts exactly the bounded documents\<close>

text \<open>The reference: how many values a document holds, how deep they nest, and what each of them has to be.\<close>

fun json_nodes :: "pyval \<Rightarrow> nat" where
  "json_nodes (PList xs) = 1 + sum_list (map json_nodes xs)"
| "json_nodes (PDict d) = 1 + sum_list (map (\<lambda>(k, v). json_nodes v) d)"
| "json_nodes _ = 1"

fun json_within :: "nat \<Rightarrow> pyval \<Rightarrow> bool" where
  "json_within n (PList xs) = (case n of 0 \<Rightarrow> xs = [] | Suc m \<Rightarrow> list_all (json_within m) xs)"
| "json_within n (PDict d) = (case n of 0 \<Rightarrow> d = [] | Suc m \<Rightarrow> list_all (\<lambda>(k, v). json_within m v) d)"
| "json_within n _ = True"

fun json_values_ok :: "(string \<Rightarrow> string) \<Rightarrow> pyval \<Rightarrow> bool" where
  "json_values_ok nfkc PNone = True"
| "json_values_ok nfkc (PBool _) = True"
| "json_values_ok nfkc (PInt _) = True"
| "json_values_ok nfkc (PFloat f) = (f \<noteq> FNonFinite)"
| "json_values_ok nfkc (PStr s) = (length s \<le> MAX_JSON_STRING_CHARS)"
| "json_values_ok nfkc (PList xs) = (length xs \<le> MAX_COLLECTION_ITEMS \<and> list_all (json_values_ok nfkc) xs)"
| "json_values_ok nfkc (PDict d) =
     (length d \<le> MAX_COLLECTION_ITEMS \<and> list_all (\<lambda>(k, v). (case k of KStr key \<Rightarrow> json_key_ok nfkc key | KOther _ \<Rightarrow> False) \<and> json_values_ok nfkc v) d)"
| "json_values_ok nfkc _ = False"

lemma json_within_list: "json_within n (PList xs) \<longleftrightarrow> xs = [] \<or> (0 < n \<and> list_all (json_within (n - 1)) xs)"
  and json_within_dict: "json_within n (PDict d) \<longleftrightarrow> d = [] \<or> (0 < n \<and> list_all (\<lambda>(k, v). json_within (n - 1) v) d)"
  by (cases n; auto)+

lemma json_nodes_pos: "1 \<le> json_nodes v"
  by (cases v) auto

lemma validate_walk:
  "validate_json nfkc depth budget v = Inr n \<longleftrightarrow>
     depth \<le> MAX_JSON_DEPTH \<and> json_within (MAX_JSON_DEPTH - depth) v \<and> json_values_ok nfkc v \<and> n = budget + json_nodes v \<and> n \<le> MAX_TOTAL_JSON_NODES"
  "validate_items nfkc depth budget xs = Inr n \<longleftrightarrow>
     (xs \<noteq> [] \<longrightarrow> depth \<le> MAX_JSON_DEPTH) \<and> list_all (json_within (MAX_JSON_DEPTH - depth)) xs \<and> list_all (json_values_ok nfkc) xs \<and>
     n = budget + sum_list (map json_nodes xs) \<and> (xs \<noteq> [] \<longrightarrow> n \<le> MAX_TOTAL_JSON_NODES)"
  "validate_entries nfkc depth budget d = Inr n \<longleftrightarrow>
     (d \<noteq> [] \<longrightarrow> depth \<le> MAX_JSON_DEPTH) \<and> list_all (\<lambda>(k, v). json_within (MAX_JSON_DEPTH - depth) v) d \<and>
     list_all (\<lambda>(k, v). (case k of KStr key \<Rightarrow> json_key_ok nfkc key | KOther _ \<Rightarrow> False) \<and> json_values_ok nfkc v) d \<and>
     n = budget + sum_list (map (\<lambda>(k, v). json_nodes v) d) \<and> (d \<noteq> [] \<longrightarrow> n \<le> MAX_TOTAL_JSON_NODES)"
proof (induction nfkc depth budget v and nfkc depth budget xs and nfkc depth budget d arbitrary: n and n and n
    rule: validate_json_validate_items_validate_entries.induct)
  case (1 nfkc depth budget v)
  show ?case
  proof (cases "MAX_TOTAL_JSON_NODES < budget + 1 \<or> MAX_JSON_DEPTH < depth")
    case True
    then show ?thesis using json_nodes_pos[of v] by (auto simp: validate_json.simps)
  next
    case False
    then show ?thesis
    proof (cases v)
      case (PList xs)
      then show ?thesis using False 1(1)[of xs n]
        by (auto simp: validate_json.simps not_less Suc_le_eq json_within_list json_within_dict simp del: json_within.simps)
    next
      case (PDict d)
      then show ?thesis using False 1(2)[of d n]
        by (auto simp: validate_json.simps not_less Suc_le_eq json_within_list json_within_dict simp del: json_within.simps)
    qed (auto simp: validate_json.simps)
  qed
next
  case (3 nfkc depth budget x xs)
  show ?case
    by (auto simp: rbind_Inr_iff 3)
next
  case (5 nfkc depth budget k x d)
  show ?case
    by (cases k) (auto simp: rbind_Inr_iff 5)
qed auto

text \<open>
  Property C33. The budgeted walk over a payload accepts exactly the bounded documents: at most 512 values nested at most eight deep, finite
  numbers, strings of at most 4096 characters, collections of at most 128 items, and under every key, at every depth, a key of 1 to
  80 printable characters that does not name a credential.
\<close>

theorem payload_walk_accepts_the_bounded_documents:
  "validate_json nfkc 0 0 v = Inr n \<longleftrightarrow>
     json_within MAX_JSON_DEPTH v \<and> json_values_ok nfkc v \<and> json_nodes v \<le> MAX_TOTAL_JSON_NODES \<and> n = json_nodes v"
  by (auto simp: validate_walk)

subsection \<open>Payloads are canonical\<close>

lemma insort_map: "(\<And>x. f (h x) = f x) \<Longrightarrow> insort_key f (h x) (map h xs) = map h (insort_key f x xs)"
  by (induction xs) auto

lemma sort_key_map: "(\<And>x. f (h x) = f x) \<Longrightarrow> sort_key f (map h xs) = map h (sort_key f xs)"
  by (induction xs) (simp_all add: insort_map)

lemma sort_key_twice: "sort_key f (sort_key f xs) = sort_key f xs"
  by (rule sort_key_id_if_sorted) simp

lemma rmap_map: "rmap g (map h xs) = rmap (\<lambda>x. g (h x)) xs"
  by (induction xs) simp_all

lemma sort_document_dict: "sort_document (PDict d) = PDict (map (\<lambda>(k, v). (k, sort_document v)) (sort_key (\<lambda>(k, v). key_str k) d))"
  by (simp add: sort_key_map[where h = "\<lambda>(k, v). (k, sort_document v)"] split_beta)

lemma sort_document_dumps: "json_dumps_with esc nf frepr (sort_document v) = json_dumps_with esc nf frepr v"
proof (induction v rule: sort_document.induct)
  case (1 d)
  let ?f = "\<lambda>(k, v). key_str k" and ?h = "\<lambda>(k, v). (k, sort_document v)"
  let ?g = "\<lambda>(k, v). rbind (json_dumps_with esc nf frepr v) (\<lambda>s. Inr (json_string esc (key_str k) @ '':'' @ s))"
  have s: "sort_key ?f (map ?h (sort_key ?f d)) = map ?h (sort_key ?f d)"
    by (simp add: sort_key_map[where h = ?h] sort_key_twice split_beta)
  have "rmap (\<lambda>x. ?g (?h x)) (sort_key ?f d) = rmap ?g (sort_key ?f d)"
    by (rule rmap_cong) (use 1 in auto)
  moreover have "list_ex (\<lambda>(k, v). case k of KOther _ \<Rightarrow> True | KStr _ \<Rightarrow> False) (map ?h (sort_key ?f d)) \<longleftrightarrow>
      list_ex (\<lambda>(k, v). case k of KOther _ \<Rightarrow> True | KStr _ \<Rightarrow> False) d"
    by (auto simp: list_ex_iff split_beta)
  ultimately show ?case unfolding sort_document_dict json_dumps_with.simps s rmap_map by simp
next
  case (2 xs)
  have "rmap (\<lambda>x. json_dumps_with esc nf frepr (sort_document x)) xs = rmap (json_dumps_with esc nf frepr) xs"
    by (rule rmap_cong) (use 2 in auto)
  then show ?case by (simp add: rmap_map)
qed simp_all

lemma sort_document_idem: "sort_document (sort_document v) = sort_document v"
proof (induction v rule: sort_document.induct)
  case (1 d)
  let ?f = "\<lambda>(k, v). key_str k" and ?h = "\<lambda>(k, v). (k, sort_document v)"
  have s: "sort_key ?f (map ?h (sort_key ?f d)) = map ?h (sort_key ?f d)"
    by (simp add: sort_key_map[where h = ?h] sort_key_twice split_beta)
  have "map ?h (map ?h (sort_key ?f d)) = map ?h (sort_key ?f d)" using 1 by auto
  then show ?case unfolding sort_document_dict s by simp
qed simp_all

lemma sum_list_sort_key: "sum_list (map g (sort_key f xs)) = (sum_list (map g xs) :: nat)"
proof -
  have "sum_list (map g (insort_key f x ys)) = g x + sum_list (map g ys)" for x ys by (induction ys) auto
  then show ?thesis by (induction xs) simp_all
qed

lemma sort_document_nodes: "json_nodes (sort_document v) = json_nodes v"
proof (induction v rule: sort_document.induct)
  case (1 d)
  have m: "map ((\<lambda>(k, v). json_nodes v) \<circ> (\<lambda>(k, v). (k, sort_document v))) d = map (\<lambda>(k, v). json_nodes v) d" using 1 by auto
  show ?case by (simp only: sort_document.simps json_nodes.simps sum_list_sort_key map_map m)
next
  case (2 xs)
  then have m: "map (json_nodes \<circ> sort_document) xs = map json_nodes xs" by simp
  show ?case by (simp only: sort_document.simps json_nodes.simps map_map m)
qed simp_all

lemma sort_document_values: "json_values_ok nfkc (sort_document v) = json_values_ok nfkc v"
  by (induction v rule: sort_document.induct) (auto simp: list_all_iff)

lemma sort_document_within: "json_within n (sort_document v) = json_within n v"
proof (induction v arbitrary: n rule: sort_document.induct)
  case (1 d)
  have "map (\<lambda>(k, v). (k, sort_document v)) d = [] \<longleftrightarrow> d = []" by simp
  then have "sort_key (\<lambda>(k, v). key_str k) (map (\<lambda>(k, v). (k, sort_document v)) d) = [] \<longleftrightarrow> d = []" by (metis set_empty set_sort)
  then show ?case using 1 by (cases n) (auto simp: list_all_iff)
next
  case (2 xs)
  then show ?case by (cases n) (auto simp: list_all_iff)
qed simp_all

text \<open>
  What is stored as a payload is canonical: the document read back from the bytes of an accepted payload passes the same
  checks and encodes to the same bytes, so storing it again gives the same payload.
\<close>

lemma payload_reads_back_canonically:
  assumes "payload_of_mapping frepr nfkc d = Inr e"
  shows "payload_of_mapping frepr nfkc e = Inr e \<and> json_dumps frepr (PDict e) = json_dumps frepr (PDict d)"
proof -
  obtain n t where v: "validate_json nfkc 0 0 (PDict d) = Inr n" and t: "json_dumps frepr (PDict d) = Inr t" "utf8_len t \<le> MAX_CANONICAL_BYTES"
    and e: "sort_document (PDict d) = PDict e"
    using assms by (auto simp: payload_of_mapping_def rbind_Inr_iff not_less simp del: sort_document.simps split: if_splits pyval.splits)
  have "validate_json nfkc 0 0 (PDict e) = Inr n"
    using v unfolding validate_walk e[symmetric] sort_document_nodes sort_document_values sort_document_within .
  moreover have j: "json_dumps frepr (PDict e) = json_dumps frepr (PDict d)" unfolding e[symmetric] by (rule sort_document_dumps)
  moreover have "sort_document (PDict e) = PDict e" unfolding e[symmetric] by (rule sort_document_idem)
  ultimately show ?thesis using t unfolding payload_of_mapping_def by (simp del: sort_document.simps json_dumps_with.simps)
qed

text \<open>
  Metadata within its own bounds need not fit a payload: 128 references and 128 counts are allowed, but they are 515 values of the
  document, over the 512 of a payload.
\<close>

definition full_metadata :: "string list \<Rightarrow> event_metadata" where
  "full_metadata names = \<lparr>em_runtime_event = None, em_status = None, em_item_type = None, em_message_code = None, em_detail_digest = None,
     em_references = names, em_counts = map (\<lambda>n. \<lparr>ec_name = n, ec_value = 0\<rparr>) names\<rparr>"

lemma full_metadata_has_no_payload:
  assumes "length names = MAX_COLLECTION_ITEMS" and "distinct names" and "list_all ident_ok names"
  shows "metadata_ok (full_metadata names) \<and> \<not> is_ok (payload_of_metadata frepr nfkc (full_metadata names))"
proof
  show "metadata_ok (full_metadata names)"
    using assms by (simp add: metadata_ok_def full_metadata_def list_all_iff comp_def non_negative_def MAX_SIGNED_BIGINT_def)
  have "names \<noteq> []" using assms(1) by (auto simp: MAX_COLLECTION_ITEMS_def)
  then have "json_nodes (PDict (document_of_metadata (full_metadata names))) = 3 + length names + 3 * length names"
    by (simp add: document_of_metadata_def full_metadata_def metadata_field_def comp_def sum_list_triv)
  then have "MAX_TOTAL_JSON_NODES < json_nodes (PDict (document_of_metadata (full_metadata names)))"
    using assms(1) by (simp add: MAX_TOTAL_JSON_NODES_def MAX_COLLECTION_ITEMS_def)
  then have "\<not> is_ok (validate_json nfkc 0 0 (PDict (document_of_metadata (full_metadata names))))"
    unfolding is_ok_conv validate_walk by simp
  then show "\<not> is_ok (payload_of_metadata frepr nfkc (full_metadata names))"
    by (auto simp: payload_of_metadata_def payload_of_mapping_def is_ok_conv rbind_Inr_iff)
qed

end
