(* ===== verification/LedgerRecords.thy ===== *)
theory LedgerRecords
  imports LedgerPayload
begin

text \<open>
  The records of the canonical execution ledger: the scopes and pinned values of \<^verbatim>\<open>boltrig/models/execution_scope.py\<close> and
  \<^verbatim>\<open>execution_work_values.py\<close>, the lifecycles of \<^verbatim>\<open>execution_transitions.py\<close>, the aggregates of
  \<^verbatim>\<open>execution_ledger.py\<close> and \<^verbatim>\<open>execution_results.py\<close>, the commands of \<^verbatim>\<open>execution_commands.py\<close>, the events of
  \<^verbatim>\<open>execution_events.py\<close>, and the runtime identities and bindings of \<^verbatim>\<open>runtime_identity.py\<close> and \<^verbatim>\<open>runtime_bindings.py\<close>.

  A dataclass is a record, and what its \<^verbatim>\<open>__post_init__\<close> accepts is a predicate ending in \<open>_ok\<close>: the constructor raises
  exactly where it is false. Checks of exact types and of aware timestamps hold by typing (a timestamp is an instant). The
  constant owner fields are left out. Payloads are those of \<^verbatim>\<open>LedgerPayload\<close>.
\<close>

subsection \<open>Collections of identifiers\<close>

definition unique_identifiers :: "string list \<Rightarrow> bool" where
  "unique_identifiers xs \<longleftrightarrow> list_all ident_ok xs \<and> length xs \<le> MAX_COLLECTION_ITEMS \<and> distinct xs"

definition identifier_tuple :: "string list \<Rightarrow> string \<Rightarrow> bool" where
  "identifier_tuple xs own_id \<longleftrightarrow> length xs \<le> MAX_COLLECTION_ITEMS \<and> list_all ident_ok xs \<and> own_id \<notin> set xs \<and> distinct xs"

subsection \<open>Scopes\<close>

record workspace_ref =
  wk_tenant_id :: string
  wk_workspace_id :: string

record user_ref =
  ur_tenant_id :: string
  ur_user_id :: string

record scope_ref =
  sc_workspace :: workspace_ref
  sc_root_run_id :: string

definition sc_tenant_id :: "scope_ref \<Rightarrow> string" where
  "sc_tenant_id s = wk_tenant_id (sc_workspace s)"

definition sc_workspace_id :: "scope_ref \<Rightarrow> string" where
  "sc_workspace_id s = wk_workspace_id (sc_workspace s)"

definition workspace_ok :: "workspace_ref \<Rightarrow> bool" where
  "workspace_ok w \<longleftrightarrow> ident_ok (wk_tenant_id w) \<and> ident_ok (wk_workspace_id w)"

definition user_ok :: "user_ref \<Rightarrow> bool" where
  "user_ok u \<longleftrightarrow> ident_ok (ur_tenant_id u) \<and> ident_ok (ur_user_id u)"

definition scope_ok :: "scope_ref \<Rightarrow> bool" where
  "scope_ok s \<longleftrightarrow> workspace_ok (sc_workspace s) \<and> ident_ok (sc_root_run_id s)"

subsection \<open>Lifecycles\<close>

datatype root_run_status = R_PENDING | R_RUNNING | R_CANCELLING | R_SUCCEEDED | R_FAILED | R_CANCELLED

datatype phase_status =
  P_PENDING | P_STARTING | P_RUNNING | P_AWAITING_APPROVAL | P_INTERRUPTING | P_VERIFYING | P_SUCCEEDED | P_FAILED | P_INTERRUPTED

datatype work_status = W_PENDING | W_BLOCKED | W_IN_FLIGHT | W_AWAITING_HUMAN | W_VERIFYING | W_DONE | W_FAILED | W_CANCELLED

datatype assignment_status = A_OFFERED | A_CLAIMED | A_RUNNING | A_RELEASED | A_COMPLETED | A_FAILED | A_CANCELLED | A_EXPIRED

datatype result_status = S_SUCCEEDED | S_FAILED | S_INTERRUPTED

datatype verification_status = V_PENDING | V_PASSED | V_FAILED | V_NEEDS_REVISION

fun ROOT_RUN_TRANSITIONS :: "root_run_status \<Rightarrow> root_run_status list" where
  "ROOT_RUN_TRANSITIONS R_PENDING = [R_RUNNING, R_CANCELLED]"
| "ROOT_RUN_TRANSITIONS R_RUNNING = [R_CANCELLING, R_SUCCEEDED, R_FAILED]"
| "ROOT_RUN_TRANSITIONS R_CANCELLING = [R_CANCELLED, R_FAILED]"
| "ROOT_RUN_TRANSITIONS _ = []"

fun PHASE_TRANSITIONS :: "phase_status \<Rightarrow> phase_status list" where
  "PHASE_TRANSITIONS P_PENDING = [P_STARTING, P_INTERRUPTED]"
| "PHASE_TRANSITIONS P_STARTING = [P_RUNNING, P_FAILED, P_INTERRUPTING]"
| "PHASE_TRANSITIONS P_RUNNING = [P_AWAITING_APPROVAL, P_INTERRUPTING, P_VERIFYING, P_SUCCEEDED, P_FAILED]"
| "PHASE_TRANSITIONS P_AWAITING_APPROVAL = [P_RUNNING, P_INTERRUPTING, P_FAILED]"
| "PHASE_TRANSITIONS P_INTERRUPTING = [P_INTERRUPTED, P_FAILED]"
| "PHASE_TRANSITIONS P_VERIFYING = [P_RUNNING, P_SUCCEEDED, P_FAILED]"
| "PHASE_TRANSITIONS _ = []"

fun WORK_ITEM_TRANSITIONS :: "work_status \<Rightarrow> work_status list" where
  "WORK_ITEM_TRANSITIONS W_PENDING = [W_BLOCKED, W_IN_FLIGHT, W_CANCELLED]"
| "WORK_ITEM_TRANSITIONS W_BLOCKED = [W_PENDING, W_CANCELLED]"
| "WORK_ITEM_TRANSITIONS W_IN_FLIGHT = [W_PENDING, W_AWAITING_HUMAN, W_VERIFYING, W_FAILED, W_CANCELLED]"
| "WORK_ITEM_TRANSITIONS W_AWAITING_HUMAN = [W_IN_FLIGHT, W_FAILED, W_CANCELLED]"
| "WORK_ITEM_TRANSITIONS W_VERIFYING = [W_IN_FLIGHT, W_DONE, W_FAILED]"
| "WORK_ITEM_TRANSITIONS _ = []"

fun ASSIGNMENT_TRANSITIONS :: "assignment_status \<Rightarrow> assignment_status list" where
  "ASSIGNMENT_TRANSITIONS A_OFFERED = [A_CLAIMED, A_EXPIRED, A_CANCELLED]"
| "ASSIGNMENT_TRANSITIONS A_CLAIMED = [A_RUNNING, A_RELEASED, A_EXPIRED, A_CANCELLED]"
| "ASSIGNMENT_TRANSITIONS A_RUNNING = [A_RELEASED, A_COMPLETED, A_FAILED, A_CANCELLED]"
| "ASSIGNMENT_TRANSITIONS _ = []"

fun VERIFICATION_TRANSITIONS :: "verification_status \<Rightarrow> verification_status list" where
  "VERIFICATION_TRANSITIONS V_PENDING = [V_PASSED, V_FAILED, V_NEEDS_REVISION]"
| "VERIFICATION_TRANSITIONS _ = []"

fun runtime_phase_status_value :: "phase_status \<Rightarrow> string" where
  "runtime_phase_status_value P_PENDING = ''pending''"
| "runtime_phase_status_value P_STARTING = ''starting''"
| "runtime_phase_status_value P_RUNNING = ''running''"
| "runtime_phase_status_value P_AWAITING_APPROVAL = ''awaiting_approval''"
| "runtime_phase_status_value P_INTERRUPTING = ''interrupting''"
| "runtime_phase_status_value P_VERIFYING = ''running''"
| "runtime_phase_status_value P_SUCCEEDED = ''succeeded''"
| "runtime_phase_status_value P_FAILED = ''failed''"
| "runtime_phase_status_value P_INTERRUPTED = ''interrupted''"

subsection \<open>Pinned values\<close>

record version_pin =
  vp_name :: string
  vp_version :: string
  vp_digest :: string

definition pin_ok :: "version_pin \<Rightarrow> bool" where
  "pin_ok p \<longleftrightarrow> ident_ok (vp_name p) \<and> ident_ok (vp_version p) \<and> sha256_digest (vp_digest p)"

definition skill_pins_ok :: "version_pin list \<Rightarrow> bool" where
  "skill_pins_ok skills \<longleftrightarrow> length skills \<le> MAX_COLLECTION_ITEMS \<and> list_all pin_ok skills \<and> distinct (map vp_name skills)"

record retry_policy =
  rp_max_attempts :: int
  rp_initial_backoff_seconds :: int
  rp_max_backoff_seconds :: int

definition retry_ok :: "retry_policy \<Rightarrow> bool" where
  "retry_ok r \<longleftrightarrow> positive (rp_max_attempts r) \<and> non_negative (rp_initial_backoff_seconds r) \<and> non_negative (rp_max_backoff_seconds r) \<and>
     rp_max_attempts r \<le> 10 \<and> rp_initial_backoff_seconds r \<le> rp_max_backoff_seconds r"

record assignment_lease =
  al_id :: string
  al_owner :: string
  al_claimed_at :: instant
  al_expires_at :: instant

definition lease_ok :: "assignment_lease \<Rightarrow> bool" where
  "lease_ok l \<longleftrightarrow> ident_ok (al_id l) \<and> ident_ok (al_owner l) \<and> al_claimed_at l < al_expires_at l"

record authority_ref =
  ar_id :: string
  ar_digest :: string
  ar_policy_generation :: int
  ar_permitted_verbs :: "string list"
  ar_evaluated_at :: instant

definition authority_ok :: "(string \<Rightarrow> string) \<Rightarrow> authority_ref \<Rightarrow> bool" where
  "authority_ok nfkc a \<longleftrightarrow> ident_ok (ar_id a) \<and> sha256_digest (ar_digest a) \<and> positive (ar_policy_generation a) \<and>
     canonical_concrete_verbs nfkc (ar_permitted_verbs a) = Inr (ar_permitted_verbs a)"

record attestation_ref =
  at_catalog_generation :: int
  at_catalog_digest :: string
  at_attestation_set_digest :: string

definition attestation_ok :: "attestation_ref \<Rightarrow> bool" where
  "attestation_ok a \<longleftrightarrow> positive (at_catalog_generation a) \<and> sha256_digest (at_catalog_digest a) \<and>
     sha256_digest (at_attestation_set_digest a)"

record cancellation =
  cn_requested_by :: user_ref
  cn_reason_code :: string
  cn_requested_at :: instant
  cn_detail_digest :: "string option"

definition cancellation_ok :: "cancellation \<Rightarrow> bool" where
  "cancellation_ok c \<longleftrightarrow> user_ok (cn_requested_by c) \<and> ident_ok (cn_reason_code c) \<and> opt_ok sha256_digest (cn_detail_digest c)"

record phase_outcome =
  po_code :: string
  po_digest :: string
  po_completed_at :: instant

definition phase_outcome_ok :: "phase_outcome \<Rightarrow> bool" where
  "phase_outcome_ok p \<longleftrightarrow> ident_ok (po_code p) \<and> sha256_digest (po_digest p)"

subsection \<open>Aggregates\<close>

datatype aggregate_kind = ROOT_RUN | PHASE | WORK_ITEM | ASSIGNMENT | RESULT | VERIFICATION

record root_run =
  rr_scope :: scope_ref
  rr_requested_by :: user_ref
  rr_objective_digest :: string
  rr_profile :: version_pin
  rr_policy_generation :: int
  rr_status :: root_run_status
  rr_cancellation :: "cancellation option"
  rr_final_synthesis_digest :: "string option"
  rr_version :: int
  rr_created_at :: instant

definition root_run_ok :: "root_run \<Rightarrow> bool" where
  "root_run_ok r \<longleftrightarrow> scope_ok (rr_scope r) \<and> user_ok (rr_requested_by r) \<and> ur_tenant_id (rr_requested_by r) = sc_tenant_id (rr_scope r) \<and>
     sha256_digest (rr_objective_digest r) \<and> pin_ok (rr_profile r) \<and> positive (rr_policy_generation r) \<and>
     opt_ok (\<lambda>c. cancellation_ok c \<and> ur_tenant_id (cn_requested_by c) = sc_tenant_id (rr_scope r)) (rr_cancellation r) \<and>
     (rr_status r \<in> {R_CANCELLING, R_CANCELLED} \<longrightarrow> rr_cancellation r \<noteq> None) \<and>
     opt_ok sha256_digest (rr_final_synthesis_digest r) \<and>
     (rr_status r = R_SUCCEEDED \<longrightarrow> rr_final_synthesis_digest r \<noteq> None) \<and> positive (rr_version r)"

datatype phase_mode = READ_ONLY | APPROVAL_GATED_WRITE

record exec_phase =
  ph_scope :: scope_ref
  ph_id :: string
  ph_ordinal :: int
  ph_name :: string
  ph_objective_digest :: string
  ph_mode :: phase_mode
  ph_profile :: version_pin
  ph_skills :: "version_pin list"
  ph_policy_generation :: int
  ph_dependencies :: "string list"
  ph_retry :: retry_policy
  ph_status :: phase_status
  ph_terminal_outcome :: "phase_outcome option"
  ph_version :: int
  ph_created_at :: instant

definition phase_ok :: "exec_phase \<Rightarrow> bool" where
  "phase_ok p \<longleftrightarrow> scope_ok (ph_scope p) \<and> ident_ok (ph_id p) \<and> positive (ph_ordinal p) \<and> bounded_text 512 (ph_name p) \<and>
     sha256_digest (ph_objective_digest p) \<and> pin_ok (ph_profile p) \<and> skill_pins_ok (ph_skills p) \<and> positive (ph_policy_generation p) \<and>
     identifier_tuple (ph_dependencies p) (ph_id p) \<and> retry_ok (ph_retry p) \<and> opt_ok phase_outcome_ok (ph_terminal_outcome p) \<and>
     (ph_status p \<in> {P_SUCCEEDED, P_FAILED, P_INTERRUPTED}) = (ph_terminal_outcome p \<noteq> None) \<and> positive (ph_version p)"

record exec_work =
  wi_scope :: scope_ref
  wi_id :: string
  wi_phase_id :: string
  wi_ordinal :: int
  wi_intent_digest :: string
  wi_dependencies :: "string list"
  wi_parent_id :: "string option"
  wi_requires_verification :: bool
  wi_status :: work_status
  wi_version :: int
  wi_created_at :: instant

definition work_ok :: "exec_work \<Rightarrow> bool" where
  "work_ok w \<longleftrightarrow> scope_ok (wi_scope w) \<and> ident_ok (wi_id w) \<and> ident_ok (wi_phase_id w) \<and> positive (wi_ordinal w) \<and>
     sha256_digest (wi_intent_digest w) \<and> identifier_tuple (wi_dependencies w) (wi_id w) \<and>
     opt_ok (\<lambda>p. ident_ok p \<and> p \<noteq> wi_id w) (wi_parent_id w) \<and> positive (wi_version w)"

record exec_assignment =
  as_scope :: scope_ref
  as_id :: string
  as_phase_id :: string
  as_work_item_id :: string
  as_runtime_identity_id :: string
  as_attempt :: int
  as_profile :: version_pin
  as_skills :: "version_pin list"
  as_authority :: authority_ref
  as_lease :: "assignment_lease option"
  as_attestation_set :: "attestation_ref option"
  as_replaces :: "string option"
  as_status :: assignment_status
  as_version :: int
  as_created_at :: instant

definition assignment_ok :: "(string \<Rightarrow> string) \<Rightarrow> exec_assignment \<Rightarrow> bool" where
  "assignment_ok nfkc a \<longleftrightarrow> scope_ok (as_scope a) \<and> ident_ok (as_id a) \<and> ident_ok (as_phase_id a) \<and> ident_ok (as_work_item_id a) \<and>
     ident_ok (as_runtime_identity_id a) \<and> positive (as_attempt a) \<and> pin_ok (as_profile a) \<and> skill_pins_ok (as_skills a) \<and>
     authority_ok nfkc (as_authority a) \<and> opt_ok lease_ok (as_lease a) \<and> opt_ok attestation_ok (as_attestation_set a) \<and>
     opt_ok (\<lambda>r. ident_ok r \<and> r \<noteq> as_id a) (as_replaces a) \<and>
     (as_status a = A_OFFERED \<longrightarrow> as_lease a = None) \<and>
     (as_status a \<in> {A_CLAIMED, A_RUNNING} \<longrightarrow> as_lease a \<noteq> None) \<and> positive (as_version a)"

subsection \<open>Results and verifications\<close>

datatype evidence_kind = ARTIFACT | AUDIT_EVENT | DOMAIN_OBJECT | TEST_RESULT

datatype finding_severity = SEV_INFO | SEV_LOW | SEV_MEDIUM | SEV_HIGH | SEV_CRITICAL

datatype verifier_kind = ORGANISATION_USER | SYSTEM

record evidence_ref =
  ev_id :: string
  ev_kind :: evidence_kind
  ev_digest :: string

record result_finding =
  rf_code :: string
  rf_severity :: finding_severity
  rf_summary_digest :: string
  rf_evidence_ids :: "string list"

record verification_check =
  vc_code :: string
  vc_passed :: bool
  vc_evidence_ids :: "string list"

record result_blocker =
  rb_code :: string
  rb_detail_digest :: string
  rb_evidence_ids :: "string list"

record result_handoff =
  rh_target_profile :: version_pin
  rh_summary_digest :: string
  rh_evidence_ids :: "string list"

record execution_usage =
  eu_input_tokens :: int
  eu_output_tokens :: int
  eu_tool_calls :: int
  eu_cost_micros :: int

record verifier_ref =
  vr_kind :: verifier_kind
  vr_organisation_user :: "user_ref option"
  vr_system_id :: "string option"

definition evidence_ok :: "evidence_ref \<Rightarrow> bool" where
  "evidence_ok e \<longleftrightarrow> ident_ok (ev_id e) \<and> sha256_digest (ev_digest e)"

definition finding_ok :: "result_finding \<Rightarrow> bool" where
  "finding_ok f \<longleftrightarrow> ident_ok (rf_code f) \<and> sha256_digest (rf_summary_digest f) \<and> unique_identifiers (rf_evidence_ids f)"

definition check_ok :: "verification_check \<Rightarrow> bool" where
  "check_ok c \<longleftrightarrow> ident_ok (vc_code c) \<and> unique_identifiers (vc_evidence_ids c)"

definition blocker_ok :: "result_blocker \<Rightarrow> bool" where
  "blocker_ok b \<longleftrightarrow> ident_ok (rb_code b) \<and> sha256_digest (rb_detail_digest b) \<and> unique_identifiers (rb_evidence_ids b)"

definition handoff_ok :: "result_handoff \<Rightarrow> bool" where
  "handoff_ok h \<longleftrightarrow> pin_ok (rh_target_profile h) \<and> sha256_digest (rh_summary_digest h) \<and> unique_identifiers (rh_evidence_ids h)"

definition usage_ok :: "execution_usage \<Rightarrow> bool" where
  "usage_ok u \<longleftrightarrow> non_negative (eu_input_tokens u) \<and> non_negative (eu_output_tokens u) \<and> non_negative (eu_tool_calls u) \<and>
     non_negative (eu_cost_micros u)"

definition verifier_ok :: "verifier_ref \<Rightarrow> bool" where
  "verifier_ok v \<longleftrightarrow> opt_ok user_ok (vr_organisation_user v) \<and> opt_ok ident_ok (vr_system_id v) \<and>
     (vr_kind v = ORGANISATION_USER) = (vr_organisation_user v \<noteq> None \<and> vr_system_id v = None) \<and>
     (vr_kind v \<noteq> ORGANISATION_USER \<longrightarrow> vr_system_id v \<noteq> None \<and> vr_organisation_user v = None)"

record exec_result =
  xr_scope :: scope_ref
  xr_id :: string
  xr_phase_id :: string
  xr_work_item_id :: string
  xr_assignment_id :: string
  xr_output_digest :: string
  xr_status :: result_status
  xr_evidence :: "evidence_ref list"
  xr_findings :: "result_finding list"
  xr_blockers :: "result_blocker list"
  xr_handoffs :: "result_handoff list"
  xr_usage :: execution_usage
  xr_completed_at :: instant

definition result_ok :: "exec_result \<Rightarrow> bool" where
  "result_ok r \<longleftrightarrow>
     (let known = map ev_id (xr_evidence r);
          referenced = map rf_evidence_ids (xr_findings r) @ map rb_evidence_ids (xr_blockers r) @ map rh_evidence_ids (xr_handoffs r)
      in scope_ok (xr_scope r) \<and> ident_ok (xr_id r) \<and> ident_ok (xr_phase_id r) \<and> ident_ok (xr_work_item_id r) \<and>
         ident_ok (xr_assignment_id r) \<and> sha256_digest (xr_output_digest r) \<and>
         length (xr_evidence r) \<le> MAX_COLLECTION_ITEMS \<and> list_all evidence_ok (xr_evidence r) \<and>
         length (xr_findings r) \<le> MAX_COLLECTION_ITEMS \<and> list_all finding_ok (xr_findings r) \<and>
         length (xr_blockers r) \<le> MAX_COLLECTION_ITEMS \<and> list_all blocker_ok (xr_blockers r) \<and>
         length (xr_handoffs r) \<le> MAX_COLLECTION_ITEMS \<and> list_all handoff_ok (xr_handoffs r) \<and>
         usage_ok (xr_usage r) \<and> distinct known \<and> list_all (\<lambda>ids. set ids \<subseteq> set known) referenced)"

record exec_verification =
  xv_scope :: scope_ref
  xv_id :: string
  xv_phase_id :: string
  xv_work_item_id :: string
  xv_result_id :: string
  xv_status :: verification_status
  xv_evidence_digest :: string
  xv_checks :: "verification_check list"
  xv_verified_by :: "verifier_ref option"
  xv_created_at :: instant

definition verification_ok :: "exec_verification \<Rightarrow> bool" where
  "verification_ok v \<longleftrightarrow> scope_ok (xv_scope v) \<and> ident_ok (xv_id v) \<and> ident_ok (xv_phase_id v) \<and> ident_ok (xv_work_item_id v) \<and>
     ident_ok (xv_result_id v) \<and> sha256_digest (xv_evidence_digest v) \<and>
     length (xv_checks v) \<le> MAX_COLLECTION_ITEMS \<and> list_all check_ok (xv_checks v) \<and>
     opt_ok (\<lambda>r. verifier_ok r \<and> opt_ok (\<lambda>u. ur_tenant_id u = sc_tenant_id (xv_scope v)) (vr_organisation_user r)) (xv_verified_by v) \<and>
     (xv_status v \<noteq> V_PENDING \<longrightarrow> xv_checks v \<noteq> [] \<and> xv_verified_by v \<noteq> None) \<and>
     (xv_status v = V_PASSED \<longrightarrow> list_all vc_passed (xv_checks v)) \<and>
     (xv_status v = V_FAILED \<longrightarrow> \<not> list_all vc_passed (xv_checks v))"

datatype ledger_record =
    RootRec root_run
  | PhaseRec exec_phase
  | WorkRec exec_work
  | AssignmentRec exec_assignment
  | ResultRec exec_result
  | VerificationRec exec_verification

fun record_ok :: "(string \<Rightarrow> string) \<Rightarrow> ledger_record \<Rightarrow> bool" where
  "record_ok nfkc (RootRec r) = root_run_ok r"
| "record_ok nfkc (PhaseRec p) = phase_ok p"
| "record_ok nfkc (WorkRec w) = work_ok w"
| "record_ok nfkc (AssignmentRec a) = assignment_ok nfkc a"
| "record_ok nfkc (ResultRec r) = result_ok r"
| "record_ok nfkc (VerificationRec v) = verification_ok v"

fun record_scope :: "ledger_record \<Rightarrow> scope_ref" where
  "record_scope (RootRec r) = rr_scope r"
| "record_scope (PhaseRec p) = ph_scope p"
| "record_scope (WorkRec w) = wi_scope w"
| "record_scope (AssignmentRec a) = as_scope a"
| "record_scope (ResultRec r) = xr_scope r"
| "record_scope (VerificationRec v) = xv_scope v"

fun record_kind :: "ledger_record \<Rightarrow> aggregate_kind" where
  "record_kind (RootRec _) = ROOT_RUN"
| "record_kind (PhaseRec _) = PHASE"
| "record_kind (WorkRec _) = WORK_ITEM"
| "record_kind (AssignmentRec _) = ASSIGNMENT"
| "record_kind (ResultRec _) = RESULT"
| "record_kind (VerificationRec _) = VERIFICATION"

fun record_id :: "ledger_record \<Rightarrow> string" where
  "record_id (RootRec r) = sc_root_run_id (rr_scope r)"
| "record_id (PhaseRec p) = ph_id p"
| "record_id (WorkRec w) = wi_id w"
| "record_id (AssignmentRec a) = as_id a"
| "record_id (ResultRec r) = xr_id r"
| "record_id (VerificationRec v) = xv_id v"

subsection \<open>Commands\<close>

datatype command_kind =
    CREATE_ROOT | CREATE_PHASE | ENQUEUE_WORK | ASSIGN_WORK | REPLACE_ASSIGNMENT | RECORD_RESULT | RECORD_VERIFICATION
  | TRANSITION_STATUS | CANCEL

fun command_kind_value :: "command_kind \<Rightarrow> string" where
  "command_kind_value CREATE_ROOT = ''create_root''"
| "command_kind_value CREATE_PHASE = ''create_phase''"
| "command_kind_value ENQUEUE_WORK = ''enqueue_work''"
| "command_kind_value ASSIGN_WORK = ''assign_work''"
| "command_kind_value REPLACE_ASSIGNMENT = ''replace_assignment''"
| "command_kind_value RECORD_RESULT = ''record_result''"
| "command_kind_value RECORD_VERIFICATION = ''record_verification''"
| "command_kind_value TRANSITION_STATUS = ''transition_status''"
| "command_kind_value CANCEL = ''cancel''"

fun aggregate_kind_value :: "aggregate_kind \<Rightarrow> string" where
  "aggregate_kind_value ROOT_RUN = ''root_run''"
| "aggregate_kind_value PHASE = ''phase''"
| "aggregate_kind_value WORK_ITEM = ''work_item''"
| "aggregate_kind_value ASSIGNMENT = ''assignment''"
| "aggregate_kind_value RESULT = ''result''"
| "aggregate_kind_value VERIFICATION = ''verification''"

record ledger_command =
  lc_id :: string
  lc_kind :: command_kind
  lc_scope :: scope_ref
  lc_aggregate_kind :: aggregate_kind
  lc_aggregate_id :: string
  lc_expected_version :: int
  lc_payload :: pydict
  lc_issued_by :: user_ref
  lc_issued_at :: instant
  lc_request_digest :: string

text \<open>\<^verbatim>\<open>request_digest\<close>, which the constructor computes.\<close>

definition request_digest :: "(rat \<Rightarrow> string) \<Rightarrow> (string \<Rightarrow> string) \<Rightarrow> ledger_command \<Rightarrow> py_error + string" where
  "request_digest frepr sha256 c =
     rbind (json_dumps_default frepr (PDict
       [(KStr ''aggregate_id'', PStr (lc_aggregate_id c)),
        (KStr ''aggregate_kind'', PStr (aggregate_kind_value (lc_aggregate_kind c))),
        (KStr ''command_kind'', PStr (command_kind_value (lc_kind c))),
        (KStr ''expected_version'', PInt (lc_expected_version c)),
        (KStr ''issued_by_user_id'', PStr (ur_user_id (lc_issued_by c))),
        (KStr ''payload'', PDict (lc_payload c)),
        (KStr ''root_run_id'', PStr (sc_root_run_id (lc_scope c))),
        (KStr ''tenant_id'', PStr (sc_tenant_id (lc_scope c))),
        (KStr ''workspace_id'', PStr (sc_workspace_id (lc_scope c)))])) (\<lambda>encoded. Inr (''sha256:'' @ sha256 encoded))"

definition command_ok :: "(rat \<Rightarrow> string) \<Rightarrow> (string \<Rightarrow> string) \<Rightarrow> (string \<Rightarrow> string) \<Rightarrow> ledger_command \<Rightarrow> bool" where
  "command_ok frepr sha256 nfkc c \<longleftrightarrow> ident_ok (lc_id c) \<and> scope_ok (lc_scope c) \<and> ident_ok (lc_aggregate_id c) \<and>
     non_negative (lc_expected_version c) \<and> user_ok (lc_issued_by c) \<and> ur_tenant_id (lc_issued_by c) = sc_tenant_id (lc_scope c) \<and>
     command_payload_ok frepr nfkc (lc_payload c) \<and> request_digest frepr sha256 c = Inr (lc_request_digest c)"

datatype replay_decision = NEW | REPLAY | CONFLICTING

text \<open>Under one command identity, as both callers have it.\<close>

definition classify_command_replay :: "ledger_command \<Rightarrow> ledger_command option \<Rightarrow> replay_decision" where
  "classify_command_replay incoming stored =
     (case stored of
        None \<Rightarrow> NEW
      | Some c \<Rightarrow> if lc_request_digest incoming = lc_request_digest c then REPLAY else CONFLICTING)"

subsection \<open>Events and outbox\<close>

datatype engine_owner = BOLTRIG | CODEX | OPBOX

datatype event_kind =
    CREATED | STATUS_CHANGED | EV_CLAIMED | EV_RELEASED | RESULT_RECORDED | VERIFICATION_RECORDED | APPROVAL_REQUESTED
  | RUNTIME_OBSERVED | EV_INTERRUPTED

record pending_event_rec =
  pe_id :: string
  pe_scope :: scope_ref
  pe_aggregate_kind :: aggregate_kind
  pe_aggregate_id :: string
  pe_kind :: event_kind
  pe_ingestion_key :: string
  pe_correlation_id :: string
  pe_payload :: pydict
  pe_source_owner :: engine_owner
  pe_causation_command_id :: "string option"
  pe_source_sequence :: "int option"
  pe_occurred_at :: instant

definition event_ok :: "(rat \<Rightarrow> string) \<Rightarrow> (string \<Rightarrow> string) \<Rightarrow> pending_event_rec \<Rightarrow> bool" where
  "event_ok frepr nfkc e \<longleftrightarrow> ident_ok (pe_id e) \<and> scope_ok (pe_scope e) \<and> ident_ok (pe_aggregate_id e) \<and> ident_ok (pe_ingestion_key e) \<and>
     ident_ok (pe_correlation_id e) \<and> event_payload_ok frepr nfkc (pe_payload e) \<and>
     opt_ok ident_ok (pe_causation_command_id e) \<and> opt_ok non_negative (pe_source_sequence e)"

record recorded_event =
  re_scope :: scope_ref
  re_pending :: pending_event_rec
  re_sequence :: int
  re_recorded_at :: instant

definition recorded_ok :: "recorded_event \<Rightarrow> bool" where
  "recorded_ok e \<longleftrightarrow> re_scope e = pe_scope (re_pending e) \<and> positive (re_sequence e) \<and> pe_occurred_at (re_pending e) \<le> re_recorded_at e"

datatype outbox_status = OB_PENDING | OB_IN_FLIGHT | OB_DELIVERED | OB_DEAD_LETTER

definition MAX_OUTBOX_ATTEMPTS :: int where "MAX_OUTBOX_ATTEMPTS = 25"

record outbox_record =
  ox_scope :: scope_ref
  ox_id :: string
  ox_event :: recorded_event
  ox_destination :: string
  ox_delivery_key :: string
  ox_status :: outbox_status
  ox_attempts :: int
  ox_created_at :: instant
  ox_available_at :: instant
  ox_claim_owner :: "string option"
  ox_claimed_at :: "instant option"
  ox_claim_expires_at :: "instant option"
  ox_delivered_at :: "instant option"

definition outbox_times_ok :: "outbox_record \<Rightarrow> bool" where
  "outbox_times_ok x \<longleftrightarrow>
     re_recorded_at (ox_event x) \<le> ox_created_at x \<and> ox_created_at x \<le> ox_available_at x \<and>
     (case (ox_claim_owner x, ox_claimed_at x, ox_claim_expires_at x) of
        (None, None, None) \<Rightarrow> ox_status x = OB_PENDING \<and> ox_delivered_at x = None
      | (Some owner, Some claimed, Some expires) \<Rightarrow>
          ident_ok owner \<and> ox_available_at x \<le> claimed \<and> claimed < expires \<and> ox_status x \<noteq> OB_PENDING \<and> 1 \<le> ox_attempts x \<and>
          opt_ok (\<lambda>d. claimed \<le> d \<and> d \<le> expires) (ox_delivered_at x)
      | _ \<Rightarrow> False) \<and>
     (ox_status x = OB_DELIVERED) = (ox_delivered_at x \<noteq> None)"

definition outbox_ok :: "outbox_record \<Rightarrow> bool" where
  "outbox_ok x \<longleftrightarrow> ox_scope x = re_scope (ox_event x) \<and> ident_ok (ox_id x) \<and> ident_ok (ox_destination x) \<and>
     ident_ok (ox_delivery_key x) \<and> ox_delivery_key x \<noteq> pe_ingestion_key (re_pending (ox_event x)) \<and>
     non_negative (ox_attempts x) \<and> ox_attempts x \<le> MAX_OUTBOX_ATTEMPTS \<and> outbox_times_ok x"

subsection \<open>Runtime identities and bindings\<close>

datatype identity_status = ACTIVE | REVOKED

record runtime_identity =
  ri_id :: string
  ri_principal :: user_ref
  ri_workspace :: workspace_ref
  ri_generation :: int
  ri_status :: identity_status
  ri_created_at :: instant
  ri_revoked_at :: "instant option"

definition identity_ok :: "runtime_identity \<Rightarrow> bool" where
  "identity_ok i \<longleftrightarrow> ident_ok (ri_id i) \<and> user_ok (ri_principal i) \<and> workspace_ok (ri_workspace i) \<and>
     ur_tenant_id (ri_principal i) = wk_tenant_id (ri_workspace i) \<and> positive (ri_generation i) \<and>
     opt_ok (\<lambda>r. ri_created_at i \<le> r) (ri_revoked_at i) \<and> (ri_status i = REVOKED) = (ri_revoked_at i \<noteq> None)"

datatype binding_kind = PHASE_BINDING | NATIVE_OBSERVATION

record thread_binding =
  tb_scope :: scope_ref
  tb_phase_id :: string
  tb_assignment_id :: string
  tb_runtime_identity_id :: string
  tb_kind :: binding_kind
  tb_thread_id :: string
  tb_native_parent :: "string option"
  tb_bound_at :: instant

record turn_binding =
  ub_scope :: scope_ref
  ub_thread :: thread_binding
  ub_kind :: binding_kind
  ub_turn_id :: string
  ub_native_parent :: "string option"
  ub_bound_at :: instant

record item_binding =
  ib_scope :: scope_ref
  ib_turn :: turn_binding
  ib_kind :: binding_kind
  ib_item_id :: string
  ib_native_parent :: "string option"
  ib_bound_at :: instant

datatype codex_binding = ThreadBinding thread_binding | TurnBinding turn_binding | ItemBinding item_binding

definition binding_shape :: "binding_kind \<Rightarrow> string option \<Rightarrow> bool" where
  "binding_shape kind parent \<longleftrightarrow> (case kind of PHASE_BINDING \<Rightarrow> parent = None | NATIVE_OBSERVATION \<Rightarrow> parent \<noteq> None)"

definition descendant_kind :: "binding_kind \<Rightarrow> binding_kind \<Rightarrow> bool" where
  "descendant_kind parent child \<longleftrightarrow> (parent = NATIVE_OBSERVATION \<longrightarrow> child = NATIVE_OBSERVATION)"

definition thread_ok :: "thread_binding \<Rightarrow> bool" where
  "thread_ok b \<longleftrightarrow> scope_ok (tb_scope b) \<and> ident_ok (tb_phase_id b) \<and> ident_ok (tb_assignment_id b) \<and>
     ident_ok (tb_runtime_identity_id b) \<and> ident_ok (tb_thread_id b) \<and>
     opt_ok (\<lambda>p. ident_ok p \<and> p \<noteq> tb_thread_id b) (tb_native_parent b) \<and> binding_shape (tb_kind b) (tb_native_parent b)"

definition turn_ok :: "turn_binding \<Rightarrow> bool" where
  "turn_ok b \<longleftrightarrow> thread_ok (ub_thread b) \<and> ub_scope b = tb_scope (ub_thread b) \<and> ident_ok (ub_turn_id b) \<and>
     opt_ok (\<lambda>p. ident_ok p \<and> p \<noteq> ub_turn_id b) (ub_native_parent b) \<and> descendant_kind (tb_kind (ub_thread b)) (ub_kind b) \<and>
     (if tb_kind (ub_thread b) = PHASE_BINDING then binding_shape (ub_kind b) (ub_native_parent b) else ub_native_parent b = None)"

definition item_ok :: "item_binding \<Rightarrow> bool" where
  "item_ok b \<longleftrightarrow> turn_ok (ib_turn b) \<and> ib_scope b = ub_scope (ib_turn b) \<and> ident_ok (ib_item_id b) \<and>
     opt_ok (\<lambda>p. ident_ok p \<and> p \<noteq> ib_item_id b) (ib_native_parent b) \<and> descendant_kind (ub_kind (ib_turn b)) (ib_kind b) \<and>
     (if ub_kind (ib_turn b) = PHASE_BINDING then binding_shape (ib_kind b) (ib_native_parent b) else ib_native_parent b = None)"

subsection \<open>Writes\<close>

definition MAX_OUTBOX_DESTINATIONS :: nat where "MAX_OUTBOX_DESTINATIONS = 8"

record outbox_intent =
  oi_id :: string
  oi_destination :: string
  oi_delivery_key :: string
  oi_available_at :: instant

text \<open>The port's own identifier check: control characters only.\<close>

definition port_identifier :: "string \<Rightarrow> bool" where
  "port_identifier s \<longleftrightarrow> s \<noteq> [] \<and> strip s = s \<and> length s \<le> 160 \<and>
     \<not> list_ex (\<lambda>c. let n = of_char c :: nat in n < 32 \<or> (127 \<le> n \<and> n \<le> 159)) s"

definition intent_ok :: "outbox_intent \<Rightarrow> bool" where
  "intent_ok i \<longleftrightarrow> port_identifier (oi_id i) \<and> port_identifier (oi_destination i) \<and> port_identifier (oi_delivery_key i)"

definition intents_ok :: "outbox_intent list \<Rightarrow> bool" where
  "intents_ok xs \<longleftrightarrow> xs \<noteq> [] \<and> length xs \<le> MAX_OUTBOX_DESTINATIONS \<and> list_all intent_ok xs \<and>
     distinct (map oi_id xs) \<and> distinct (map oi_delivery_key xs)"

record ledger_write =
  lw_command :: ledger_command
  lw_record :: ledger_record
  lw_event :: pending_event_rec
  lw_outbox :: "outbox_intent list"

definition write_ok :: "(rat \<Rightarrow> string) \<Rightarrow> (string \<Rightarrow> string) \<Rightarrow> (string \<Rightarrow> string) \<Rightarrow> ledger_write \<Rightarrow> bool" where
  "write_ok frepr sha256 nfkc w \<longleftrightarrow> command_ok frepr sha256 nfkc (lw_command w) \<and> record_ok nfkc (lw_record w) \<and> event_ok frepr nfkc (lw_event w) \<and> intents_ok (lw_outbox w) \<and>
     lc_scope (lw_command w) = record_scope (lw_record w) \<and> record_scope (lw_record w) = pe_scope (lw_event w)"

record event_append =
  ea_event :: pending_event_rec
  ea_outbox :: "outbox_intent list"

definition append_ok :: "(rat \<Rightarrow> string) \<Rightarrow> (string \<Rightarrow> string) \<Rightarrow> event_append \<Rightarrow> bool" where
  "append_ok frepr nfkc a \<longleftrightarrow> event_ok frepr nfkc (ea_event a) \<and> intents_ok (ea_outbox a)"

end
