(* ===== verification/LedgerStore.thy ===== *)
theory LedgerStore
  imports LedgerRecords "HOL-Library.AList" "HOL-Library.Product_Lexorder"
begin

text \<open>
  The in-memory execution ledger (\<^verbatim>\<open>boltrig/fleet/infrastructure/memory_ledger_*.py\<close> and \<^verbatim>\<open>memory_execution_ledger.py\<close>).
  A dictionary is an association list with one entry per key, in insertion order. The asyncio lock makes every operation one
  step: an operation takes the reading of its clock and the state, and returns its outcome and the next state; an exception
  is \<open>Inl\<close>.
\<close>

subsection \<open>State\<close>

type_synonym scope_key = "string \<times> string \<times> string"
type_synonym workspace_key = "string \<times> string"
type_synonym aggregate_key = "scope_key \<times> string"
type_synonym ingestion_key = "scope_key \<times> engine_owner \<times> string"

datatype mutation_status = M_APPLIED | M_REPLAYED | M_CONFLICT | M_REJECTED | M_NOT_FOUND

datatype append_status = AP_INSERTED | AP_REPLAYED | AP_CONFLICT | AP_REJECTED | AP_NOT_FOUND

datatype ledger_error = LedgerOverflowError | LedgerValueError

record mutation_outcome =
  mo_scope :: scope_ref
  mo_command_id :: string
  mo_request_digest :: string
  mo_status :: mutation_status
  mo_aggregate_kind :: aggregate_kind
  mo_aggregate_id :: string
  mo_previous_version :: "int option"
  mo_resulting_version :: "int option"

record stored_command =
  st_command :: ledger_command
  st_submitted :: ledger_write
  st_outcome :: mutation_outcome

record stored_append =
  sa_submitted :: event_append
  sa_event :: recorded_event
  sa_outbox :: "outbox_record list"

record ledger_limits =
  ll_roots :: nat
  ll_records :: nat
  ll_commands :: nat
  ll_events :: nat
  ll_outbox :: nat
  ll_identities :: nat
  ll_bindings :: nat

definition default_limits :: ledger_limits where
  "default_limits = \<lparr>ll_roots = 256, ll_records = 16384, ll_commands = 32768, ll_events = 65536, ll_outbox = 131072,
     ll_identities = 4096, ll_bindings = 65536\<rparr>"

record ledger_state =
  ls_roots :: "(scope_key \<times> root_run) list"
  ls_phases :: "(aggregate_key \<times> exec_phase) list"
  ls_work_items :: "(aggregate_key \<times> exec_work) list"
  ls_assignments :: "(aggregate_key \<times> exec_assignment) list"
  ls_results :: "(aggregate_key \<times> exec_result) list"
  ls_verifications :: "(aggregate_key \<times> exec_verification) list"
  ls_versions :: "((aggregate_kind \<times> aggregate_key) \<times> int) list"
  ls_commands :: "((scope_key \<times> string) \<times> stored_command) list"
  ls_events :: "(scope_key \<times> recorded_event list) list"
  ls_root_sequences :: "(scope_key \<times> int) list"
  ls_events_by_id :: "((scope_key \<times> string) \<times> recorded_event) list"
  ls_events_by_ingestion :: "(ingestion_key \<times> recorded_event) list"
  ls_event_appends :: "(ingestion_key \<times> stored_append) list"
  ls_source_sequences :: "((scope_key \<times> engine_owner) \<times> int) list"
  ls_outbox :: "((scope_key \<times> string) \<times> outbox_record) list"
  ls_outbox_delivery_keys :: "((scope_key \<times> string) \<times> string) list"
  ls_identities :: "((workspace_key \<times> string) \<times> runtime_identity) list"
  ls_threads :: "(aggregate_key \<times> thread_binding) list"
  ls_turns :: "((scope_key \<times> string \<times> string) \<times> turn_binding) list"
  ls_items :: "((scope_key \<times> string \<times> string \<times> string) \<times> item_binding) list"

definition empty_ledger :: ledger_state where
  "empty_ledger = \<lparr>ls_roots = [], ls_phases = [], ls_work_items = [], ls_assignments = [], ls_results = [], ls_verifications = [],
     ls_versions = [], ls_commands = [], ls_events = [], ls_root_sequences = [], ls_events_by_id = [], ls_events_by_ingestion = [],
     ls_event_appends = [], ls_source_sequences = [], ls_outbox = [], ls_outbox_delivery_keys = [], ls_identities = [],
     ls_threads = [], ls_turns = [], ls_items = []\<rparr>"

definition scope_key :: "scope_ref \<Rightarrow> scope_key" where
  "scope_key s = (sc_tenant_id s, sc_workspace_id s, sc_root_run_id s)"

definition workspace_key :: "workspace_ref \<Rightarrow> workspace_key" where
  "workspace_key w = (wk_tenant_id w, wk_workspace_id w)"

definition aggregate_key :: "scope_ref \<Rightarrow> string \<Rightarrow> aggregate_key" where
  "aggregate_key s i = (scope_key s, i)"

text \<open>The values stored under one scope: \<^verbatim>\<open>value for (scope, _), value in items() if scope == key\<close>.\<close>

definition in_scope :: "scope_key \<Rightarrow> (aggregate_key \<times> 'a) list \<Rightarrow> 'a list" where
  "in_scope key d = map snd (filter (\<lambda>((sc, _), _). sc = key) d)"

definition get_record :: "ledger_state \<Rightarrow> aggregate_kind \<Rightarrow> scope_ref \<Rightarrow> string \<Rightarrow> ledger_record option" where
  "get_record s kind scope item_id =
     (let key = aggregate_key scope item_id
      in case kind of
           ROOT_RUN \<Rightarrow> map_option RootRec (map_of (ls_roots s) (scope_key scope))
         | PHASE \<Rightarrow> map_option PhaseRec (map_of (ls_phases s) key)
         | WORK_ITEM \<Rightarrow> map_option WorkRec (map_of (ls_work_items s) key)
         | ASSIGNMENT \<Rightarrow> map_option AssignmentRec (map_of (ls_assignments s) key)
         | RESULT \<Rightarrow> map_option ResultRec (map_of (ls_results s) key)
         | VERIFICATION \<Rightarrow> map_option VerificationRec (map_of (ls_verifications s) key))"

text \<open>\<^verbatim>\<open>getattr(record, "version", None)\<close>.\<close>

fun version_attribute :: "ledger_record \<Rightarrow> int option" where
  "version_attribute (RootRec r) = Some (rr_version r)"
| "version_attribute (PhaseRec p) = Some (ph_version p)"
| "version_attribute (WorkRec w) = Some (wi_version w)"
| "version_attribute (AssignmentRec a) = Some (as_version a)"
| "version_attribute _ = None"

definition get_version :: "ledger_state \<Rightarrow> aggregate_kind \<Rightarrow> scope_ref \<Rightarrow> string \<Rightarrow> int" where
  "get_version s kind scope item_id =
     (case get_record s kind scope item_id of
        None \<Rightarrow> 0
      | Some r \<Rightarrow> (case version_attribute r of
            Some v \<Rightarrow> v
          | None \<Rightarrow> (case map_of (ls_versions s) (kind, aggregate_key scope item_id) of None \<Rightarrow> 1 | Some v \<Rightarrow> v)))"

definition put_record :: "ledger_state \<Rightarrow> ledger_record \<Rightarrow> int \<Rightarrow> ledger_state" where
  "put_record s r version =
     (let key = aggregate_key (record_scope r) (record_id r);
          s1 = (case r of
             RootRec x \<Rightarrow> s\<lparr>ls_roots := AList.update (scope_key (record_scope r)) x (ls_roots s)\<rparr>
           | PhaseRec x \<Rightarrow> s\<lparr>ls_phases := AList.update key x (ls_phases s)\<rparr>
           | WorkRec x \<Rightarrow> s\<lparr>ls_work_items := AList.update key x (ls_work_items s)\<rparr>
           | AssignmentRec x \<Rightarrow> s\<lparr>ls_assignments := AList.update key x (ls_assignments s)\<rparr>
           | ResultRec x \<Rightarrow> s\<lparr>ls_results := AList.update key x (ls_results s)\<rparr>
           | VerificationRec x \<Rightarrow> s\<lparr>ls_verifications := AList.update key x (ls_verifications s)\<rparr>)
      in s1\<lparr>ls_versions := AList.update (record_kind r, key) version (ls_versions s)\<rparr>)"

definition root_for :: "ledger_state \<Rightarrow> scope_ref \<Rightarrow> root_run option" where
  "root_for s scope = map_of (ls_roots s) (scope_key scope)"

subsection \<open>Capacity\<close>

definition record_count :: "ledger_state \<Rightarrow> nat" where
  "record_count s = length (ls_roots s) + length (ls_phases s) + length (ls_work_items s) + length (ls_assignments s) +
     length (ls_results s) + length (ls_verifications s)"

definition event_count :: "ledger_state \<Rightarrow> nat" where
  "event_count s = sum_list (map (length \<circ> snd) (ls_events s))"

definition binding_count :: "ledger_state \<Rightarrow> nat" where
  "binding_count s = length (ls_threads s) + length (ls_turns s) + length (ls_items s)"

definition event_append_fits :: "ledger_limits \<Rightarrow> ledger_state \<Rightarrow> event_append \<Rightarrow> bool" where
  "event_append_fits l s a \<longleftrightarrow> event_count s < ll_events l \<and> length (ls_outbox s) + length (ea_outbox a) \<le> ll_outbox l"

definition ledger_write_fits :: "ledger_limits \<Rightarrow> ledger_state \<Rightarrow> ledger_write \<Rightarrow> bool" where
  "ledger_write_fits l s w \<longleftrightarrow>
     (let r = lw_record w
      in length (ls_commands s) < ll_commands l \<and>
         (get_record s (record_kind r) (record_scope r) (record_id r) = None \<longrightarrow>
            (record_kind r = ROOT_RUN \<longrightarrow> length (ls_roots s) < ll_roots l) \<and> record_count s < ll_records l) \<and>
         event_append_fits l s \<lparr>ea_event = lw_event w, ea_outbox = lw_outbox w\<rparr>)"

definition identity_fits :: "ledger_limits \<Rightarrow> ledger_state \<Rightarrow> bool" where
  "identity_fits l s \<longleftrightarrow> length (ls_identities s) < ll_identities l"

definition binding_fits :: "ledger_limits \<Rightarrow> ledger_state \<Rightarrow> bool" where
  "binding_fits l s \<longleftrightarrow> binding_count s < ll_bindings l"

subsection \<open>Transitions\<close>

definition live_assignments :: "assignment_status list" where
  "live_assignments = [A_OFFERED, A_CLAIMED, A_RUNNING]"

definition terminal_work :: "work_status list" where
  "terminal_work = [W_DONE, W_FAILED, W_CANCELLED]"

definition terminal_phases :: "phase_status list" where
  "terminal_phases = [P_SUCCEEDED, P_FAILED, P_INTERRUPTED]"

text \<open>\<^verbatim>\<open>replace(current, ...) == target\<close>, for two records of one type.\<close>

fun transition_shape :: "ledger_record \<Rightarrow> ledger_record \<Rightarrow> bool" where
  "transition_shape (RootRec c) (RootRec t) =
     (c\<lparr>rr_status := rr_status t, rr_cancellation := rr_cancellation t, rr_final_synthesis_digest := rr_final_synthesis_digest t,
        rr_version := rr_version c + 1\<rparr> = t)"
| "transition_shape (PhaseRec c) (PhaseRec t) =
     (c\<lparr>ph_status := ph_status t, ph_terminal_outcome := ph_terminal_outcome t, ph_version := ph_version c + 1\<rparr> = t)"
| "transition_shape (WorkRec c) (WorkRec t) = (c\<lparr>wi_status := wi_status t, wi_version := wi_version c + 1\<rparr> = t)"
| "transition_shape (AssignmentRec c) (AssignmentRec t) =
     (c\<lparr>as_status := as_status t, as_lease := as_lease t, as_version := as_version c + 1\<rparr> = t)"
| "transition_shape (VerificationRec c) (VerificationRec t) =
     (c\<lparr>xv_status := xv_status t, xv_checks := xv_checks t, xv_verified_by := xv_verified_by t\<rparr> = t)"
| "transition_shape _ _ = False"

fun transition_is_legal :: "ledger_record \<Rightarrow> ledger_record \<Rightarrow> bool" where
  "transition_is_legal (RootRec c) (RootRec t) = (rr_status t \<in> set (ROOT_RUN_TRANSITIONS (rr_status c)))"
| "transition_is_legal (PhaseRec c) (PhaseRec t) = (ph_status t \<in> set (PHASE_TRANSITIONS (ph_status c)))"
| "transition_is_legal (WorkRec c) (WorkRec t) = (wi_status t \<in> set (WORK_ITEM_TRANSITIONS (wi_status c)))"
| "transition_is_legal (AssignmentRec c) (AssignmentRec t) = (as_status t \<in> set (ASSIGNMENT_TRANSITIONS (as_status c)))"
| "transition_is_legal (VerificationRec c) (VerificationRec t) = (xv_status t \<in> set (VERIFICATION_TRANSITIONS (xv_status c)))"
| "transition_is_legal _ _ = False"

fun is_cancel_target :: "ledger_record \<Rightarrow> bool" where
  "is_cancel_target (RootRec r) = (rr_status r \<in> {R_CANCELLING, R_CANCELLED})"
| "is_cancel_target (PhaseRec p) = (ph_status p \<in> {P_INTERRUPTING, P_INTERRUPTED})"
| "is_cancel_target (WorkRec w) = (wi_status w = W_CANCELLED)"
| "is_cancel_target (AssignmentRec a) = (as_status a = A_CANCELLED)"
| "is_cancel_target _ = False"

definition validate_root_terminal :: "ledger_state \<Rightarrow> root_run \<Rightarrow> mutation_status option" where
  "validate_root_terminal s target =
     (let phases = in_scope (scope_key (rr_scope target)) (ls_phases s)
      in if rr_status target = R_SUCCEEDED \<and> (phases = [] \<or> list_ex (\<lambda>p. ph_status p \<noteq> P_SUCCEEDED) phases) then Some M_REJECTED
         else if rr_status target \<in> {R_CANCELLED, R_FAILED} \<and>
           (list_ex (\<lambda>p. ph_status p \<notin> set terminal_phases) phases \<or>
            list_ex (\<lambda>w. wi_scope w = rr_scope target \<and> wi_status w \<notin> set terminal_work) (map snd (ls_work_items s)) \<or>
            list_ex (\<lambda>a. as_scope a = rr_scope target \<and> as_status a \<in> set live_assignments) (map snd (ls_assignments s)))
           then Some M_REJECTED
         else None)"

fun root_allows_transition :: "root_run \<Rightarrow> ledger_record \<Rightarrow> bool" where
  "root_allows_transition root_rec r =
     (if rr_status root_rec = R_RUNNING then True
      else if rr_status root_rec \<noteq> R_CANCELLING then False
      else (case r of
              PhaseRec p \<Rightarrow> ph_status p \<in> {P_INTERRUPTING, P_INTERRUPTED, P_FAILED}
            | WorkRec w \<Rightarrow> wi_status w \<in> {W_CANCELLED, W_FAILED}
            | AssignmentRec a \<Rightarrow> as_status a \<in> {A_CANCELLED, A_FAILED, A_RELEASED}
            | _ \<Rightarrow> False))"

definition dependencies_done :: "ledger_state \<Rightarrow> exec_work \<Rightarrow> bool" where
  "dependencies_done s w \<longleftrightarrow>
     list_all (\<lambda>item. case map_of (ls_work_items s) (scope_key (wi_scope w), item) of
        None \<Rightarrow> False
      | Some d \<Rightarrow> wi_phase_id d = wi_phase_id w \<and> wi_status d = W_DONE) (wi_dependencies w)"

definition validate_phase_transition :: "ledger_state \<Rightarrow> exec_phase \<Rightarrow> mutation_status option" where
  "validate_phase_transition s target =
     (let key = scope_key (ph_scope target);
          works = filter (\<lambda>w. wi_scope w = ph_scope target \<and> wi_phase_id w = ph_id target) (map snd (ls_work_items s));
          assignments = filter (\<lambda>a. as_scope a = ph_scope target \<and> as_phase_id a = ph_id target) (map snd (ls_assignments s))
      in if ph_status target = P_STARTING \<and>
           list_ex (\<lambda>d. case map_of (ls_phases s) (key, d) of None \<Rightarrow> True | Some p \<Rightarrow> ph_status p \<noteq> P_SUCCEEDED) (ph_dependencies target)
           then Some M_REJECTED
         else if ph_status target = P_SUCCEEDED \<and> list_ex (\<lambda>w. wi_status w \<noteq> W_DONE) works then Some M_REJECTED
         else if ph_status target \<in> {P_INTERRUPTED, P_FAILED} \<and>
           (list_ex (\<lambda>w. wi_status w \<notin> set terminal_work) works \<or> list_ex (\<lambda>a. as_status a \<in> set live_assignments) assignments)
           then Some M_REJECTED
         else None)"

definition work_has_verified_result :: "ledger_state \<Rightarrow> exec_work \<Rightarrow> exec_assignment list \<Rightarrow> bool" where
  "work_has_verified_result s w assignments \<longleftrightarrow>
     (let completed = map as_id (filter (\<lambda>a. as_status a = A_COMPLETED) assignments);
          results = filter (\<lambda>r. xr_scope r = wi_scope w \<and> xr_work_item_id r = wi_id w \<and> xr_assignment_id r \<in> set completed \<and>
             xr_status r = S_SUCCEEDED) (map snd (ls_results s))
      in results \<noteq> [] \<and>
         (wi_requires_verification w \<longrightarrow>
            list_ex (\<lambda>v. xv_scope v = wi_scope w \<and> xv_work_item_id v = wi_id w \<and> xv_result_id v \<in> set (map xr_id results) \<and>
              xv_status v = V_PASSED) (map snd (ls_verifications s))))"

definition validate_work_transition :: "ledger_state \<Rightarrow> exec_work \<Rightarrow> mutation_status option" where
  "validate_work_transition s target =
     (let assignments = filter (\<lambda>a. as_scope a = wi_scope target \<and> as_work_item_id a = wi_id target) (map snd (ls_assignments s))
      in if wi_status target = W_IN_FLIGHT \<and>
           ((case map_of (ls_phases s) (aggregate_key (wi_scope target) (wi_phase_id target)) of
               None \<Rightarrow> True | Some p \<Rightarrow> ph_status p \<noteq> P_RUNNING) \<or> \<not> dependencies_done s target) then Some M_REJECTED
         else if wi_status target \<in> set terminal_work \<and> list_ex (\<lambda>a. as_status a \<in> set live_assignments) assignments then Some M_REJECTED
         else if wi_status target = W_DONE \<and> \<not> work_has_verified_result s target assignments then Some M_REJECTED
         else None)"

definition validate_assignment_transition :: "exec_assignment \<Rightarrow> exec_assignment \<Rightarrow> instant \<Rightarrow> mutation_status option" where
  "validate_assignment_transition current target now =
     (if as_status target \<in> {A_CLAIMED, A_RUNNING} \<and>
         (case as_lease target of None \<Rightarrow> True | Some l \<Rightarrow> al_expires_at l \<le> now) then Some M_REJECTED
      else if as_lease current \<noteq> None \<and> as_lease target \<noteq> as_lease current then Some M_REJECTED
      else if as_status current = A_OFFERED \<and> as_status target = A_CLAIMED then (if as_lease target \<noteq> None then None else Some M_REJECTED)
      else if as_status current = A_CLAIMED \<and> as_status target = A_RUNNING
        then (if as_lease target = as_lease current then None else Some M_REJECTED)
      else None)"

fun validate_transition_context :: "ledger_state \<Rightarrow> ledger_record \<Rightarrow> ledger_record \<Rightarrow> instant \<Rightarrow> mutation_status option" where
  "validate_transition_context s _ (PhaseRec t) now = validate_phase_transition s t"
| "validate_transition_context s _ (WorkRec t) now = validate_work_transition s t"
| "validate_transition_context s (AssignmentRec c) (AssignmentRec t) now = validate_assignment_transition c t now"
| "validate_transition_context s _ _ now = None"

definition validate_transition :: "ledger_state \<Rightarrow> ledger_write \<Rightarrow> instant \<Rightarrow> mutation_status option" where
  "validate_transition s w now =
     (let r = lw_record w
      in case get_record s (record_kind r) (record_scope r) (record_id r) of
           None \<Rightarrow> Some M_NOT_FOUND
         | Some current \<Rightarrow>
             if \<not> transition_shape current r \<or> \<not> transition_is_legal current r then Some M_REJECTED
             else if is_cancel_target r \<noteq> (lc_kind (lw_command w) = CANCEL) then Some M_REJECTED
             else (case r of
                     RootRec t \<Rightarrow> validate_root_terminal s t
                   | _ \<Rightarrow> (case root_for s (record_scope r) of
                        None \<Rightarrow> Some M_REJECTED
                      | Some root_rec \<Rightarrow> if \<not> root_allows_transition root_rec r then Some M_REJECTED
                                     else validate_transition_context s current r now)))"

subsection \<open>Creations\<close>

definition validate_new_phase :: "ledger_state \<Rightarrow> exec_phase \<Rightarrow> root_run \<Rightarrow> mutation_status option" where
  "validate_new_phase s p root_rec =
     (let key = scope_key (ph_scope p);
          siblings = in_scope key (ls_phases s);
          dependencies = map (\<lambda>d. map_of (ls_phases s) (key, d)) (ph_dependencies p)
      in if ph_version p \<noteq> 1 \<or> ph_status p \<noteq> P_PENDING then Some M_REJECTED
         else if ph_policy_generation p \<noteq> rr_policy_generation root_rec then Some M_REJECTED
         else if list_ex (\<lambda>i. ph_ordinal i = ph_ordinal p) siblings then Some M_CONFLICT
         else if list_ex (\<lambda>d. d = None) dependencies then Some M_NOT_FOUND
         else if list_ex (\<lambda>d. case d of None \<Rightarrow> False | Some q \<Rightarrow> ph_ordinal p \<le> ph_ordinal q) dependencies then Some M_REJECTED
         else None)"

definition validate_new_work :: "ledger_state \<Rightarrow> exec_work \<Rightarrow> mutation_status option" where
  "validate_new_work s w =
     (let key = scope_key (wi_scope w);
          siblings = filter (\<lambda>v. wi_phase_id v = wi_phase_id w) (in_scope key (ls_work_items s));
          dependencies = map (\<lambda>d. map_of (ls_work_items s) (key, d)) (wi_dependencies w)
      in if wi_version w \<noteq> 1 \<or> wi_status w \<noteq> W_PENDING then Some M_REJECTED
         else if map_of (ls_phases s) (aggregate_key (wi_scope w) (wi_phase_id w)) = None then Some M_NOT_FOUND
         else if list_ex (\<lambda>i. wi_ordinal i = wi_ordinal w) siblings then Some M_CONFLICT
         else if list_ex (\<lambda>d. d = None) dependencies then Some M_NOT_FOUND
         else if list_ex (\<lambda>d. case d of None \<Rightarrow> False | Some v \<Rightarrow> wi_phase_id v \<noteq> wi_phase_id w) dependencies then Some M_REJECTED
         else (case wi_parent_id w of
                 None \<Rightarrow> None
               | Some parent_id \<Rightarrow> (case map_of (ls_work_items s) (key, parent_id) of
                     None \<Rightarrow> Some M_NOT_FOUND
                   | Some parent \<Rightarrow> if wi_phase_id parent \<noteq> wi_phase_id w then Some M_REJECTED else None)))"

text \<open>\<^verbatim>\<open>max\<close> of a non-empty sequence.\<close>

definition py_max :: "int list \<Rightarrow> int" where
  "py_max xs = fold max (tl xs) (hd xs)"

definition validate_attempt :: "ledger_state \<Rightarrow> exec_assignment \<Rightarrow> exec_phase \<Rightarrow> mutation_status option" where
  "validate_attempt s a p =
     (let key = scope_key (as_scope a);
          siblings = filter (\<lambda>i. as_work_item_id i = as_work_item_id a) (in_scope key (ls_assignments s))
      in if list_ex (\<lambda>i. as_status i \<in> set live_assignments) siblings then Some M_CONFLICT
         else (case as_replaces a of
                 None \<Rightarrow> if as_attempt a = 1 \<and> siblings = [] then None else Some M_REJECTED
               | Some replaced \<Rightarrow> (case map_of (ls_assignments s) (key, replaced) of
                     None \<Rightarrow> Some M_NOT_FOUND
                   | Some previous \<Rightarrow>
                       if as_work_item_id previous \<noteq> as_work_item_id a \<or> as_phase_id previous \<noteq> as_phase_id a then Some M_REJECTED
                       else if as_status previous \<in> set live_assignments \<or> as_attempt a \<noteq> as_attempt previous + 1 then Some M_REJECTED
                       else if list_ex (\<lambda>i. as_replaces i = Some (as_id previous)) siblings then Some M_CONFLICT
                       else if as_attempt previous \<noteq> py_max (map as_attempt siblings) then Some M_REJECTED
                       else if rp_max_attempts (ph_retry p) < as_attempt a then Some M_REJECTED
                       else None)))"

definition validate_new_assignment :: "ledger_state \<Rightarrow> exec_assignment \<Rightarrow> root_run \<Rightarrow> mutation_status option" where
  "validate_new_assignment s a root_rec =
     (if as_version a \<noteq> 1 \<or> as_status a \<noteq> A_OFFERED then Some M_REJECTED
      else if rr_status root_rec \<noteq> R_RUNNING then Some M_REJECTED
      else (case (map_of (ls_phases s) (aggregate_key (as_scope a) (as_phase_id a)),
                  map_of (ls_work_items s) (aggregate_key (as_scope a) (as_work_item_id a)),
                  map_of (ls_identities s) (workspace_key (sc_workspace (as_scope a)), as_runtime_identity_id a)) of
              (Some p, Some w, Some i) \<Rightarrow>
                if wi_phase_id w \<noteq> ph_id p \<or> ph_status p \<notin> {P_STARTING, P_RUNNING} then Some M_REJECTED
                else if ar_policy_generation (as_authority a) \<noteq> ph_policy_generation p then Some M_REJECTED
                else if ri_status i \<noteq> ACTIVE then Some M_REJECTED
                else if ri_workspace i \<noteq> sc_workspace (as_scope a) then Some M_REJECTED
                else if wi_status w \<notin> {W_PENDING, W_IN_FLIGHT} then Some M_REJECTED
                else if \<not> dependencies_done s w then Some M_REJECTED
                else validate_attempt s a p
            | _ \<Rightarrow> Some M_NOT_FOUND))"

fun compatible_assignment :: "result_status \<Rightarrow> assignment_status list" where
  "compatible_assignment S_SUCCEEDED = [A_RUNNING, A_COMPLETED]"
| "compatible_assignment S_FAILED = [A_RUNNING, A_FAILED]"
| "compatible_assignment S_INTERRUPTED = [A_RUNNING, A_CANCELLED, A_RELEASED]"

definition validate_new_result :: "ledger_state \<Rightarrow> exec_result \<Rightarrow> mutation_status option" where
  "validate_new_result s r =
     (case map_of (ls_assignments s) (aggregate_key (xr_scope r) (xr_assignment_id r)) of
        None \<Rightarrow> Some M_NOT_FOUND
      | Some a \<Rightarrow>
          if (as_phase_id a, as_work_item_id a) \<noteq> (xr_phase_id r, xr_work_item_id r) then Some M_REJECTED
          else if list_ex (\<lambda>i. xr_scope i = xr_scope r \<and> xr_assignment_id i = xr_assignment_id r) (map snd (ls_results s)) then Some M_CONFLICT
          else if as_status a \<in> set (compatible_assignment (xr_status r)) then None else Some M_REJECTED)"

definition validate_new_verification :: "ledger_state \<Rightarrow> exec_verification \<Rightarrow> mutation_status option" where
  "validate_new_verification s v =
     (case map_of (ls_results s) (aggregate_key (xv_scope v) (xv_result_id v)) of
        None \<Rightarrow> Some M_NOT_FOUND
      | Some r \<Rightarrow>
          if (xr_phase_id r, xr_work_item_id r) \<noteq> (xv_phase_id v, xv_work_item_id v) then Some M_REJECTED
          else if list_ex (\<lambda>i. xv_scope i = xv_scope v \<and> xv_result_id i = xv_result_id v) (map snd (ls_verifications s)) then Some M_CONFLICT
          else None)"

definition validate_create :: "ledger_state \<Rightarrow> ledger_record \<Rightarrow> mutation_status option" where
  "validate_create s r =
     (case r of
        RootRec x \<Rightarrow> if rr_status x = R_PENDING \<and> rr_version x = 1 then None else Some M_REJECTED
      | _ \<Rightarrow> (case root_for s (record_scope r) of
           None \<Rightarrow> Some M_NOT_FOUND
         | Some root_rec \<Rightarrow>
             if rr_status root_rec \<notin> {R_PENDING, R_RUNNING} then Some M_REJECTED
             else (case r of
                     PhaseRec p \<Rightarrow> validate_new_phase s p root_rec
                   | WorkRec w \<Rightarrow> validate_new_work s w
                   | AssignmentRec a \<Rightarrow> validate_new_assignment s a root_rec
                   | ResultRec x \<Rightarrow> validate_new_result s x
                   | VerificationRec v \<Rightarrow> validate_new_verification s v
                   | RootRec _ \<Rightarrow> None)))"

subsection \<open>Validation of a write\<close>

fun accepted_records :: "command_kind \<Rightarrow> aggregate_kind list" where
  "accepted_records CREATE_ROOT = [ROOT_RUN]"
| "accepted_records CREATE_PHASE = [PHASE]"
| "accepted_records ENQUEUE_WORK = [WORK_ITEM]"
| "accepted_records ASSIGN_WORK = [ASSIGNMENT]"
| "accepted_records REPLACE_ASSIGNMENT = [ASSIGNMENT]"
| "accepted_records RECORD_RESULT = [RESULT]"
| "accepted_records RECORD_VERIFICATION = [VERIFICATION]"
| "accepted_records TRANSITION_STATUS = [ROOT_RUN, PHASE, WORK_ITEM, ASSIGNMENT, VERIFICATION]"
| "accepted_records CANCEL = [ROOT_RUN, PHASE, WORK_ITEM, ASSIGNMENT]"

definition command_accepts_record :: "ledger_write \<Rightarrow> bool" where
  "command_accepts_record w \<longleftrightarrow>
     (let kind = lc_kind (lw_command w)
      in record_kind (lw_record w) \<in> set (accepted_records kind) \<and>
         (case lw_record w of
            AssignmentRec a \<Rightarrow> \<not> (kind = ASSIGN_WORK \<and> as_replaces a \<noteq> None) \<and> \<not> (kind = REPLACE_ASSIGNMENT \<and> as_replaces a = None)
          | _ \<Rightarrow> True))"

fun expected_events :: "command_kind \<Rightarrow> event_kind list" where
  "expected_events RECORD_RESULT = [RESULT_RECORDED]"
| "expected_events RECORD_VERIFICATION = [VERIFICATION_RECORDED]"
| "expected_events TRANSITION_STATUS = [STATUS_CHANGED, EV_INTERRUPTED]"
| "expected_events CANCEL = [STATUS_CHANGED, EV_INTERRUPTED]"
| "expected_events _ = [CREATED]"

definition event_matches_write :: "ledger_write \<Rightarrow> instant \<Rightarrow> bool" where
  "event_matches_write w now \<longleftrightarrow>
     (let c = lw_command w; e = lw_event w
      in pe_aggregate_kind e = lc_aggregate_kind c \<and> pe_aggregate_id e = lc_aggregate_id c \<and>
         pe_causation_command_id e = Some (lc_id c) \<and> pe_source_owner e = BOLTRIG \<and>
         lc_issued_at c \<le> now \<and> lc_issued_at c \<le> pe_occurred_at e \<and> pe_occurred_at e \<le> now \<and>
         pe_kind e \<in> set (expected_events (lc_kind c)) \<and>
         list_all (\<lambda>i. pe_occurred_at e \<le> oi_available_at i \<and> oi_delivery_key i \<noteq> pe_ingestion_key e) (lw_outbox w))"

definition is_create :: "command_kind \<Rightarrow> bool" where
  "is_create kind \<longleftrightarrow> kind \<notin> {TRANSITION_STATUS, CANCEL}"

text \<open>The decision: the refusal, if any, and the version found.\<close>

definition validate_write :: "ledger_state \<Rightarrow> ledger_write \<Rightarrow> instant \<Rightarrow> mutation_status option \<times> int" where
  "validate_write s w now =
     (let c = lw_command w; kind = record_kind (lw_record w); item_id = record_id (lw_record w);
          previous = get_version s kind (lc_scope c) item_id
      in (if lc_aggregate_kind c \<noteq> kind \<or> lc_aggregate_id c \<noteq> item_id then Some M_REJECTED
          else if \<not> command_accepts_record w then Some M_REJECTED
          else if \<not> event_matches_write w now then Some M_REJECTED
          else if lc_expected_version c \<noteq> previous then Some M_CONFLICT
          else if is_create (lc_kind c) then (if previous \<noteq> 0 then Some M_CONFLICT else validate_create s (lw_record w))
          else if previous = 0 then Some M_NOT_FOUND
          else validate_transition s w now, previous))"

subsection \<open>Events and the outbox\<close>

definition ingestion_of :: "pending_event_rec \<Rightarrow> ingestion_key" where
  "ingestion_of e = (scope_key (pe_scope e), pe_source_owner e, pe_ingestion_key e)"

definition event_preflight :: "ledger_state \<Rightarrow> event_append \<Rightarrow> mutation_status option" where
  "event_preflight s a =
     (let e = ea_event a; key = scope_key (pe_scope e)
      in if map_of (ls_events_by_id s) (key, pe_id e) \<noteq> None \<or> map_of (ls_events_by_ingestion s) (ingestion_of e) \<noteq> None then Some M_CONFLICT
         else if (case pe_source_sequence e of
                    None \<Rightarrow> False
                  | Some n \<Rightarrow> n \<le> (case map_of (ls_source_sequences s) (key, pe_source_owner e) of None \<Rightarrow> -1 | Some m \<Rightarrow> m)) then Some M_REJECTED
         else if list_ex (\<lambda>i. map_of (ls_outbox s) (key, oi_id i) \<noteq> None) (ea_outbox a) then Some M_CONFLICT
         else if list_ex (\<lambda>i. map_of (ls_outbox_delivery_keys s) (key, oi_delivery_key i) \<noteq> None) (ea_outbox a) then Some M_CONFLICT
         else None)"

definition outbox_of_intent :: "recorded_event \<Rightarrow> instant \<Rightarrow> outbox_intent \<Rightarrow> outbox_record" where
  "outbox_of_intent recorded now i =
     \<lparr>ox_scope = re_scope recorded, ox_id = oi_id i, ox_event = recorded, ox_destination = oi_destination i,
      ox_delivery_key = oi_delivery_key i, ox_status = OB_PENDING, ox_attempts = 0, ox_created_at = now,
      ox_available_at = max (oi_available_at i) now, ox_claim_owner = None, ox_claimed_at = None, ox_claim_expires_at = None,
      ox_delivered_at = None\<rparr>"

definition last_sequence :: "ledger_state \<Rightarrow> scope_key \<Rightarrow> int" where
  "last_sequence s key = (case map_of (ls_root_sequences s) key of None \<Rightarrow> 0 | Some n \<Rightarrow> n)"

definition materialize_event :: "ledger_state \<Rightarrow> event_append \<Rightarrow> instant \<Rightarrow> ledger_error + recorded_event \<times> outbox_record list" where
  "materialize_event s a now =
     (let pending = ea_event a; sequence = last_sequence s (scope_key (pe_scope pending)) + 1;
          recorded = \<lparr>re_scope = pe_scope pending, re_pending = pending, re_sequence = sequence, re_recorded_at = now\<rparr>;
          outbox = map (outbox_of_intent recorded now) (ea_outbox a)
      in if MAX_SIGNED_BIGINT < sequence then Inl LedgerOverflowError
         else if \<not> recorded_ok recorded then Inl LedgerValueError
         else if \<not> list_all outbox_ok outbox then Inl LedgerValueError
         else Inr (recorded, outbox))"

definition events_of :: "ledger_state \<Rightarrow> scope_key \<Rightarrow> recorded_event list" where
  "events_of s key = (case map_of (ls_events s) key of None \<Rightarrow> [] | Some es \<Rightarrow> es)"

definition record_event :: "ledger_state \<Rightarrow> event_append \<Rightarrow> recorded_event \<Rightarrow> outbox_record list \<Rightarrow> ledger_state" where
  "record_event s a event outbox =
     (let key = scope_key (re_scope event); pending = re_pending event; ingestion = (key, pe_source_owner pending, pe_ingestion_key pending)
      in s\<lparr>ls_events := AList.update key (events_of s key @ [event]) (ls_events s),
           ls_root_sequences := AList.update key (re_sequence event) (ls_root_sequences s),
           ls_events_by_id := AList.update (key, pe_id pending) event (ls_events_by_id s),
           ls_events_by_ingestion := AList.update ingestion event (ls_events_by_ingestion s),
           ls_event_appends := AList.update ingestion \<lparr>sa_submitted = a, sa_event = event, sa_outbox = outbox\<rparr> (ls_event_appends s),
           ls_source_sequences := (case pe_source_sequence pending of
               None \<Rightarrow> ls_source_sequences s
             | Some n \<Rightarrow> AList.update (key, pe_source_owner pending) n (ls_source_sequences s)),
           ls_outbox := fold (\<lambda>i. AList.update (key, ox_id i) i) outbox (ls_outbox s),
           ls_outbox_delivery_keys := fold (\<lambda>i. AList.update (key, ox_delivery_key i) (ox_id i)) outbox (ls_outbox_delivery_keys s)\<rparr>)"

record append_outcome =
  ao_status :: append_status
  ao_event :: "recorded_event option"
  ao_outbox :: "outbox_record list"

definition refused_append :: "append_status \<Rightarrow> append_outcome" where
  "refused_append status = \<lparr>ao_status = status, ao_event = None, ao_outbox = []\<rparr>"

definition event_replay :: "ledger_state \<Rightarrow> event_append \<Rightarrow> append_outcome option" where
  "event_replay s a =
     (case map_of (ls_event_appends s) (ingestion_of (ea_event a)) of
        None \<Rightarrow> None
      | Some stored \<Rightarrow>
          if sa_submitted stored \<noteq> a then Some (refused_append AP_CONFLICT)
          else Some \<lparr>ao_status = AP_REPLAYED, ao_event = Some (sa_event stored), ao_outbox = sa_outbox stored\<rparr>)"

definition standalone_event_hierarchy :: "ledger_state \<Rightarrow> event_append \<Rightarrow> bool" where
  "standalone_event_hierarchy s a \<longleftrightarrow>
     (let e = ea_event a
      in pe_source_owner e = CODEX \<and> pe_causation_command_id e = None \<and> pe_kind e = RUNTIME_OBSERVED \<and>
         get_record s (pe_aggregate_kind e) (pe_scope e) (pe_aggregate_id e) \<noteq> None)"

fun append_status_of :: "mutation_status \<Rightarrow> append_status" where
  "append_status_of M_CONFLICT = AP_CONFLICT"
| "append_status_of M_REJECTED = AP_REJECTED"
| "append_status_of M_NOT_FOUND = AP_NOT_FOUND"
| "append_status_of M_APPLIED = AP_INSERTED"
| "append_status_of M_REPLAYED = AP_REPLAYED"

definition append_event :: "ledger_limits \<Rightarrow> instant \<Rightarrow> event_append \<Rightarrow> ledger_state \<Rightarrow> (ledger_error + append_outcome) \<times> ledger_state" where
  "append_event l now a s =
     (case event_replay s a of
        Some replay \<Rightarrow> (Inr replay, s)
      | None \<Rightarrow>
          if \<not> standalone_event_hierarchy s a then (Inr (refused_append AP_NOT_FOUND), s)
          else (case event_preflight s a of
                  Some status \<Rightarrow> (Inr (refused_append (append_status_of status)), s)
                | None \<Rightarrow>
                    if now < pe_occurred_at (ea_event a) \<or>
                       list_ex (\<lambda>i. oi_available_at i < pe_occurred_at (ea_event a)) (ea_outbox a) \<or>
                       list_ex (\<lambda>i. oi_delivery_key i = pe_ingestion_key (ea_event a)) (ea_outbox a) \<or>
                       \<not> event_append_fits l s a then (Inr (refused_append AP_REJECTED), s)
                    else (case materialize_event s a now of
                            Inl e \<Rightarrow> (Inl e, s)
                          | Inr (recorded, outbox) \<Rightarrow>
                              (Inr \<lparr>ao_status = AP_INSERTED, ao_event = Some recorded, ao_outbox = outbox\<rparr>, record_event s a recorded outbox))))"

subsection \<open>Commit\<close>

definition command_key :: "ledger_write \<Rightarrow> scope_key \<times> string" where
  "command_key w = (scope_key (lc_scope (lw_command w)), lc_id (lw_command w))"

text \<open>\<^verbatim>\<open>_outcome\<close>. The checks of the outcome's constructor are on values that have passed them before.\<close>

definition mutation_outcome_of :: "ledger_write \<Rightarrow> mutation_status \<Rightarrow> int option \<Rightarrow> int option \<Rightarrow> mutation_outcome" where
  "mutation_outcome_of w status previous resulting =
     (let c = lw_command w
      in \<lparr>mo_scope = lc_scope c, mo_command_id = lc_id c, mo_request_digest = lc_request_digest c, mo_status = status,
          mo_aggregate_kind = lc_aggregate_kind c, mo_aggregate_id = lc_aggregate_id c, mo_previous_version = previous,
          mo_resulting_version = resulting\<rparr>)"

definition replay_outcome :: "ledger_state \<Rightarrow> ledger_write \<Rightarrow> mutation_outcome option" where
  "replay_outcome s w =
     (case map_of (ls_commands s) (command_key w) of
        None \<Rightarrow> None
      | Some stored \<Rightarrow>
          if classify_command_replay (lw_command w) (Some (st_command stored)) = REPLAY \<and> st_submitted stored = w
          then Some ((st_outcome stored)\<lparr>mo_status := M_REPLAYED\<rparr>)
          else Some (mutation_outcome_of w M_CONFLICT None None))"

definition put_command :: "ledger_write \<Rightarrow> mutation_outcome \<Rightarrow> ledger_state \<Rightarrow> ledger_state" where
  "put_command w outcome s =
     s\<lparr>ls_commands := AList.update (command_key w) \<lparr>st_command = lw_command w, st_submitted = w, st_outcome = outcome\<rparr> (ls_commands s)\<rparr>"

definition store_terminal_command ::
  "ledger_limits \<Rightarrow> ledger_write \<Rightarrow> mutation_status \<Rightarrow> int \<Rightarrow> ledger_state \<Rightarrow> mutation_outcome \<times> ledger_state" where
  "store_terminal_command l w status previous s =
     (let outcome = mutation_outcome_of w status (Some previous) None
      in (outcome, if length (ls_commands s) < ll_commands l then put_command w outcome s else s))"

definition append_of :: "ledger_write \<Rightarrow> event_append" where
  "append_of w = \<lparr>ea_event = lw_event w, ea_outbox = lw_outbox w\<rparr>"

text \<open>\<^verbatim>\<open>decision.status or event_preflight(...)\<close>, then the capacity.\<close>

definition commit_refusal :: "ledger_limits \<Rightarrow> instant \<Rightarrow> ledger_write \<Rightarrow> ledger_state \<Rightarrow> mutation_status option" where
  "commit_refusal l now w s =
     (case fst (validate_write s w now) of
        Some status \<Rightarrow> Some status
      | None \<Rightarrow> (case event_preflight s (append_of w) of
          Some status \<Rightarrow> Some status
        | None \<Rightarrow> if ledger_write_fits l s w then None else Some M_REJECTED))"

definition commit ::
  "ledger_limits \<Rightarrow> instant \<Rightarrow> ledger_write \<Rightarrow> ledger_state \<Rightarrow> (ledger_error + mutation_outcome) \<times> ledger_state" where
  "commit l now w s =
     (case replay_outcome s w of
        Some outcome \<Rightarrow> (Inr outcome, s)
      | None \<Rightarrow>
          let previous = snd (validate_write s w now)
          in (case commit_refusal l now w s of
               Some status \<Rightarrow> (let (outcome, s1) = store_terminal_command l w status previous s in (Inr outcome, s1))
             | None \<Rightarrow>
                 (case materialize_event s (append_of w) now of
                    Inl e \<Rightarrow> (Inl e, s)
                  | Inr (recorded, outbox) \<Rightarrow>
                      let outcome = mutation_outcome_of w M_APPLIED (Some previous) (Some (previous + 1))
                      in (Inr outcome,
                          put_command w outcome (record_event (put_record s (lw_record w) (previous + 1)) (append_of w) recorded outbox)))))"

subsection \<open>Runtime identities\<close>

definition valid_new_identity :: "runtime_identity \<Rightarrow> int \<Rightarrow> bool" where
  "valid_new_identity i expected \<longleftrightarrow> expected = 0 \<and> ri_generation i = 1 \<and> ri_status i = ACTIVE"

definition valid_identity_revision :: "runtime_identity \<Rightarrow> runtime_identity \<Rightarrow> int \<Rightarrow> bool" where
  "valid_identity_revision current target expected \<longleftrightarrow>
     ri_generation current = expected \<and> ri_generation target = ri_generation current + 1 \<and> ri_status current = ACTIVE \<and>
     ri_status target = REVOKED \<and> ri_id current = ri_id target \<and> ri_principal current = ri_principal target \<and>
     ri_workspace current = ri_workspace target \<and> ri_created_at current = ri_created_at target"

definition identity_key :: "runtime_identity \<Rightarrow> workspace_key \<times> string" where
  "identity_key i = (workspace_key (ri_workspace i), ri_id i)"

definition write_runtime_identity_locked ::
  "ledger_limits \<Rightarrow> runtime_identity \<Rightarrow> int \<Rightarrow> instant \<Rightarrow> ledger_state \<Rightarrow> (append_status \<times> runtime_identity option) \<times> ledger_state" where
  "write_runtime_identity_locked l i expected now s =
     (let key = identity_key i; current = map_of (ls_identities s) key
      in if current = Some i
         then ((if expected = (if ri_generation i = 1 then 0 else ri_generation i - 1) then AP_REPLAYED else AP_CONFLICT, current), s)
         else if now < ri_created_at i \<or> (case ri_revoked_at i of None \<Rightarrow> False | Some r \<Rightarrow> now < r) then ((AP_REJECTED, current), s)
         else (case current of
                 None \<Rightarrow>
                   if \<not> identity_fits l s then ((AP_REJECTED, None), s)
                   else if \<not> valid_new_identity i expected then ((AP_REJECTED, None), s)
                   else ((AP_INSERTED, Some i), s\<lparr>ls_identities := AList.update key i (ls_identities s)\<rparr>)
               | Some c \<Rightarrow>
                   if \<not> valid_identity_revision c i expected
                   then ((if ri_generation c \<noteq> expected then AP_CONFLICT else AP_REJECTED, current), s)
                   else ((AP_INSERTED, Some i), s\<lparr>ls_identities := AList.update key i (ls_identities s)\<rparr>)))"

definition write_runtime_identity ::
  "ledger_limits \<Rightarrow> instant \<Rightarrow> runtime_identity \<Rightarrow> int \<Rightarrow> ledger_state \<Rightarrow> (ledger_error + append_status \<times> runtime_identity option) \<times> ledger_state" where
  "write_runtime_identity l now i expected s =
     (if \<not> non_negative expected then (Inl LedgerValueError, s)
      else (let (outcome, s1) = write_runtime_identity_locked l i expected now s in (Inr outcome, s1)))"

subsection \<open>Bindings\<close>

fun binding_scope :: "codex_binding \<Rightarrow> scope_ref" where
  "binding_scope (ThreadBinding b) = tb_scope b"
| "binding_scope (TurnBinding b) = ub_scope b"
| "binding_scope (ItemBinding b) = ib_scope b"

fun binding_thread :: "codex_binding \<Rightarrow> thread_binding" where
  "binding_thread (ThreadBinding b) = b"
| "binding_thread (TurnBinding b) = ub_thread b"
| "binding_thread (ItemBinding b) = ub_thread (ib_turn b)"

fun binding_bound_at :: "codex_binding \<Rightarrow> instant" where
  "binding_bound_at (ThreadBinding b) = tb_bound_at b"
| "binding_bound_at (TurnBinding b) = ub_bound_at b"
| "binding_bound_at (ItemBinding b) = ib_bound_at b"

definition thread_key :: "thread_binding \<Rightarrow> aggregate_key" where
  "thread_key b = (scope_key (tb_scope b), tb_thread_id b)"

definition turn_key :: "turn_binding \<Rightarrow> scope_key \<times> string \<times> string" where
  "turn_key b = (scope_key (ub_scope b), tb_thread_id (ub_thread b), ub_turn_id b)"

definition item_key :: "item_binding \<Rightarrow> scope_key \<times> string \<times> string \<times> string" where
  "item_key b = (scope_key (ib_scope b), tb_thread_id (ub_thread (ib_turn b)), ub_turn_id (ib_turn b), ib_item_id b)"

fun binding_current :: "ledger_state \<Rightarrow> codex_binding \<Rightarrow> codex_binding option" where
  "binding_current s (ThreadBinding b) = map_option ThreadBinding (map_of (ls_threads s) (thread_key b))"
| "binding_current s (TurnBinding b) = map_option TurnBinding (map_of (ls_turns s) (turn_key b))"
| "binding_current s (ItemBinding b) = map_option ItemBinding (map_of (ls_items s) (item_key b))"

definition validate_thread_parent :: "ledger_state \<Rightarrow> thread_binding \<Rightarrow> append_status" where
  "validate_thread_parent s b =
     (if tb_kind b = PHASE_BINDING
      then (if list_ex (\<lambda>i. tb_scope i = tb_scope b \<and> tb_assignment_id i = tb_assignment_id b \<and> tb_kind i = PHASE_BINDING) (map snd (ls_threads s))
            then AP_CONFLICT else AP_INSERTED)
      else (case map_of (ls_threads s) (scope_key (tb_scope b), (case tb_native_parent b of None \<Rightarrow> [] | Some p \<Rightarrow> p)) of
              None \<Rightarrow> AP_NOT_FOUND
            | Some parent \<Rightarrow>
                if tb_kind parent \<noteq> PHASE_BINDING \<or>
                   (tb_phase_id parent, tb_assignment_id parent, tb_runtime_identity_id parent) \<noteq>
                   (tb_phase_id b, tb_assignment_id b, tb_runtime_identity_id b) \<or> tb_bound_at b < tb_bound_at parent
                then AP_REJECTED else AP_INSERTED))"

definition validate_turn_parent :: "ledger_state \<Rightarrow> turn_binding \<Rightarrow> append_status" where
  "validate_turn_parent s b =
     (case ub_native_parent b of
        None \<Rightarrow> AP_INSERTED
      | Some p \<Rightarrow> (case map_of (ls_turns s) (scope_key (ub_scope b), tb_thread_id (ub_thread b), p) of
            None \<Rightarrow> AP_NOT_FOUND
          | Some parent \<Rightarrow> if ub_kind parent \<noteq> PHASE_BINDING \<or> ub_bound_at b < ub_bound_at parent then AP_REJECTED else AP_INSERTED))"

definition validate_item_parent :: "ledger_state \<Rightarrow> item_binding \<Rightarrow> append_status" where
  "validate_item_parent s b =
     (case ib_native_parent b of
        None \<Rightarrow> AP_INSERTED
      | Some p \<Rightarrow> (case map_of (ls_items s) (scope_key (ib_scope b), tb_thread_id (ub_thread (ib_turn b)), ub_turn_id (ib_turn b), p) of
            None \<Rightarrow> AP_NOT_FOUND
          | Some parent \<Rightarrow> if ib_kind parent \<noteq> PHASE_BINDING \<or> ib_bound_at b < ib_bound_at parent then AP_REJECTED else AP_INSERTED))"

definition bindable :: "root_run \<Rightarrow> exec_phase \<Rightarrow> exec_assignment \<Rightarrow> runtime_identity \<Rightarrow> bool" where
  "bindable r p a i \<longleftrightarrow> rr_status r = R_RUNNING \<and> ph_status p \<in> {P_STARTING, P_RUNNING, P_AWAITING_APPROVAL, P_VERIFYING} \<and>
     as_status a \<in> {A_CLAIMED, A_RUNNING} \<and> ri_status i = ACTIVE"

definition validate_binding :: "ledger_state \<Rightarrow> codex_binding \<Rightarrow> instant \<Rightarrow> append_status" where
  "validate_binding s b now =
     (let scope = binding_scope b; th = binding_thread b
      in case (map_of (ls_assignments s) (aggregate_key scope (tb_assignment_id th)),
               map_of (ls_phases s) (aggregate_key scope (tb_phase_id th)),
               map_of (ls_identities s) (workspace_key (sc_workspace scope), tb_runtime_identity_id th),
               root_for s scope) of
           (Some a, Some p, Some i, Some r) \<Rightarrow>
             if \<not> bindable r p a i then AP_REJECTED
             else if (as_phase_id a, as_runtime_identity_id a) \<noteq> (ph_id p, tb_runtime_identity_id th) then AP_REJECTED
             else if now < binding_bound_at b \<or> binding_bound_at b < max (max (as_created_at a) (ph_created_at p)) (ri_created_at i)
               then AP_REJECTED
             else (case b of
                     ThreadBinding t \<Rightarrow> validate_thread_parent s t
                   | TurnBinding t \<Rightarrow>
                       if map_of (ls_threads s) (scope_key scope, tb_thread_id th) \<noteq> Some th \<or> ub_bound_at t < tb_bound_at th then AP_NOT_FOUND
                       else validate_turn_parent s t
                   | ItemBinding t \<Rightarrow>
                       if map_of (ls_threads s) (scope_key scope, tb_thread_id th) \<noteq> Some th \<or> ib_bound_at t < tb_bound_at th then AP_NOT_FOUND
                       else if map_of (ls_turns s) (scope_key scope, tb_thread_id th, ub_turn_id (ib_turn t)) \<noteq> Some (ib_turn t) \<or>
                               ib_bound_at t < ub_bound_at (ib_turn t) then AP_NOT_FOUND
                       else validate_item_parent s t)
         | _ \<Rightarrow> AP_NOT_FOUND)"

fun put_binding :: "ledger_state \<Rightarrow> codex_binding \<Rightarrow> ledger_state" where
  "put_binding s (ThreadBinding b) = s\<lparr>ls_threads := AList.update (thread_key b) b (ls_threads s)\<rparr>"
| "put_binding s (TurnBinding b) = s\<lparr>ls_turns := AList.update (turn_key b) b (ls_turns s)\<rparr>"
| "put_binding s (ItemBinding b) = s\<lparr>ls_items := AList.update (item_key b) b (ls_items s)\<rparr>"

definition append_binding ::
  "ledger_limits \<Rightarrow> instant \<Rightarrow> codex_binding \<Rightarrow> ledger_state \<Rightarrow> (append_status \<times> codex_binding option) \<times> ledger_state" where
  "append_binding l now b s =
     (let current = binding_current s b
      in if current = Some b then ((AP_REPLAYED, current), s)
         else if current \<noteq> None then ((AP_CONFLICT, current), s)
         else let status = validate_binding s b now
              in if status \<noteq> AP_INSERTED \<or> \<not> binding_fits l s
                 then ((if status \<noteq> AP_INSERTED then status else AP_REJECTED, None), s)
                 else ((AP_INSERTED, Some b), put_binding s b))"

subsection \<open>Queries\<close>

definition MAX_LEDGER_PAGE_SIZE :: int where "MAX_LEDGER_PAGE_SIZE = 256"

definition page_ok :: "int \<Rightarrow> int \<Rightarrow> bool" where
  "page_ok after limit \<longleftrightarrow> non_negative after \<and> 1 \<le> limit \<and> limit \<le> MAX_LEDGER_PAGE_SIZE"

definition list_events :: "ledger_state \<Rightarrow> scope_ref \<Rightarrow> int \<Rightarrow> int \<Rightarrow> ledger_error + recorded_event list" where
  "list_events s scope after limit =
     (if \<not> page_ok after limit then Inl LedgerValueError
      else Inr (take (nat limit) (filter (\<lambda>e. after < re_sequence e) (events_of s (scope_key scope)))))"

definition list_outbox :: "ledger_state \<Rightarrow> scope_ref \<Rightarrow> int \<Rightarrow> ledger_error + outbox_record list" where
  "list_outbox s scope limit =
     (if \<not> page_ok 0 limit then Inl LedgerValueError
      else Inr (take (nat limit) (sort_key (\<lambda>x. (re_sequence (ox_event x), ox_id x)) (in_scope (scope_key scope) (ls_outbox s)))))"

text \<open>The lookups \<^verbatim>\<open>get_phase\<close>, \<^verbatim>\<open>get_work_item\<close>, \<^verbatim>\<open>get_assignment\<close>, \<^verbatim>\<open>get_result\<close> and \<^verbatim>\<open>get_verification\<close> share \<^verbatim>\<open>_get\<close>.\<close>

definition query_ident :: "string \<Rightarrow> bool" where
  "query_ident i \<longleftrightarrow> i \<noteq> [] \<and> strip i = i \<and> length i \<le> 160"

definition get_item :: "ledger_state \<Rightarrow> aggregate_kind \<Rightarrow> scope_ref \<Rightarrow> string \<Rightarrow> ledger_error + ledger_record option" where
  "get_item s kind scope item_id = (if \<not> query_ident item_id then Inl LedgerValueError else Inr (get_record s kind scope item_id))"

definition get_command_outcome :: "ledger_state \<Rightarrow> scope_ref \<Rightarrow> string \<Rightarrow> ledger_error + mutation_outcome option" where
  "get_command_outcome s scope command_id =
     (if \<not> query_ident command_id then Inl LedgerValueError
      else Inr (map_option st_outcome (map_of (ls_commands s) (scope_key scope, command_id))))"

definition get_runtime_identity :: "ledger_state \<Rightarrow> workspace_ref \<Rightarrow> string \<Rightarrow> ledger_error + runtime_identity option" where
  "get_runtime_identity s workspace identity_id =
     (if \<not> query_ident identity_id then Inl LedgerValueError
      else Inr (map_of (ls_identities s) (workspace_key workspace, identity_id)))"

end
