(* ===== verification/LedgerInvariants.thy ===== *)
theory LedgerInvariants
  imports LedgerStore
begin

text \<open>
  Runs of the execution ledger and the invariants they keep. A run is a sequence of calls of the four operations that change
  the state, each with the reading of its clock and with arguments whose constructors accepted them.
\<close>

datatype ledger_op =
    CommitOp instant ledger_write
  | EventOp instant event_append
  | IdentityOp instant runtime_identity int
  | BindingOp instant codex_binding

fun ledger_apply :: "ledger_limits \<Rightarrow> ledger_op \<Rightarrow> ledger_state \<Rightarrow> ledger_state" where
  "ledger_apply l (CommitOp now w) s = snd (commit l now w s)"
| "ledger_apply l (EventOp now a) s = snd (append_event l now a s)"
| "ledger_apply l (IdentityOp now i expected) s = snd (write_runtime_identity l now i expected s)"
| "ledger_apply l (BindingOp now b) s = snd (append_binding l now b s)"

definition ledger_steps :: "ledger_limits \<Rightarrow> ledger_op list \<Rightarrow> ledger_state \<Rightarrow> ledger_state" where
  "ledger_steps l ops s = fold (ledger_apply l) ops s"

definition ledger_run :: "ledger_limits \<Rightarrow> ledger_op list \<Rightarrow> ledger_state" where
  "ledger_run l ops = ledger_steps l ops empty_ledger"

fun binding_ok :: "codex_binding \<Rightarrow> bool" where
  "binding_ok (ThreadBinding b) = thread_ok b"
| "binding_ok (TurnBinding b) = turn_ok b"
| "binding_ok (ItemBinding b) = item_ok b"

fun op_ok :: "(rat \<Rightarrow> string) \<Rightarrow> (string \<Rightarrow> string) \<Rightarrow> (string \<Rightarrow> string) \<Rightarrow> ledger_op \<Rightarrow> bool" where
  "op_ok frepr sha256 nfkc (CommitOp _ w) = write_ok frepr sha256 nfkc w"
| "op_ok frepr sha256 nfkc (EventOp _ a) = append_ok frepr nfkc a"
| "op_ok frepr sha256 nfkc (IdentityOp _ i _) = identity_ok i"
| "op_ok frepr sha256 nfkc (BindingOp _ b) = binding_ok b"

lemma ledger_steps_simps [simp]:
  "ledger_steps l [] s = s" "ledger_steps l (x # ops) s = ledger_steps l ops (ledger_apply l x s)"
  "ledger_steps l (xs @ ys) s = ledger_steps l ys (ledger_steps l xs s)"
  by (simp_all add: ledger_steps_def)

lemma ledger_run_append: "ledger_run l (xs @ ys) = ledger_steps l ys (ledger_run l xs)"
  by (simp add: ledger_run_def)

text \<open>What every operation keeps, every run keeps.\<close>

lemma ledger_steps_induct:
  assumes "list_all (op_ok frepr sha256 nfkc) ops" and "P s"
    and "\<And>x s. op_ok frepr sha256 nfkc x \<Longrightarrow> P s \<Longrightarrow> P (ledger_apply l x s)"
  shows "P (ledger_steps l ops s)"
  using assms(1,2) by (induction ops arbitrary: s) (auto intro: assms(3))

subsection \<open>Tables\<close>

text \<open>A table keyed by its own values: one entry per key, each under the key of its value.\<close>

definition vals :: "('k \<times> 'v) list \<Rightarrow> 'v set" where
  "vals d = snd ` set d"

definition keyed :: "('v \<Rightarrow> 'k) \<Rightarrow> ('k \<times> 'v) list \<Rightarrow> bool" where
  "keyed f d \<longleftrightarrow> distinct (map fst d) \<and> (\<forall>(k, v) \<in> set d. k = f v)"

lemma vals_Nil [simp]: "vals [] = {}"
  by (simp add: vals_def)

lemma set_map_snd [simp]: "set (map snd d) = vals d" "snd ` set d = vals d"
  by (simp_all add: vals_def)

lemma keyed_Nil [simp]: "keyed f []"
  by (simp add: keyed_def)

lemma keyed_lookup:
  assumes "keyed f d"
  shows "map_of d k = Some v \<longleftrightarrow> v \<in> vals d \<and> k = f v"
proof -
  have d: "distinct (map fst d)" and k: "\<And>k v. (k, v) \<in> set d \<Longrightarrow> k = f v" using assms by (auto simp: keyed_def)
  have "map_of d k = Some v \<longleftrightarrow> (k, v) \<in> set d" by (rule map_of_eq_Some_iff[OF d])
  also have "\<dots> \<longleftrightarrow> v \<in> vals d \<and> k = f v"
  proof
    assume "(k, v) \<in> set d"
    then show "v \<in> vals d \<and> k = f v" using k unfolding vals_def by (metis imageI snd_conv)
  next
    assume a: "v \<in> vals d \<and> k = f v"
    then obtain k' where "(k', v) \<in> set d" by (auto simp: vals_def simp del: set_map_snd)
    with k a show "(k, v) \<in> set d" by metis
  qed
  finally show ?thesis .
qed

lemma keyed_find: "keyed f d \<Longrightarrow> v \<in> vals d \<Longrightarrow> map_of d (f v) = Some v"
  by (simp add: keyed_lookup)

lemma keyed_inj: "keyed f d \<Longrightarrow> v \<in> vals d \<Longrightarrow> w \<in> vals d \<Longrightarrow> f v = f w \<Longrightarrow> v = w"
  by (metis keyed_find option.inject)

lemma keyed_update:
  assumes "keyed f d" and "k = f v"
  shows "keyed f (AList.update k v d)"
proof -
  have d: "distinct (map fst (AList.update k v d))" using assms by (simp add: keyed_def distinct_update)
  have "k' = f v'" if "(k', v') \<in> set (AList.update k v d)" for k' v'
    using that assms(2) keyed_lookup[OF assms(1), of k' v'] map_of_eq_Some_iff[OF d, of k' v']
    by (simp add: update_conv' split: if_splits)
  with d show ?thesis by (auto simp: keyed_def)
qed

lemma vals_update:
  assumes "keyed f d" and "k = f v"
  shows "vals (AList.update k v d) = insert v {x \<in> vals d. f x \<noteq> f v}"
proof -
  have "x \<in> vals (AList.update k v d) \<longleftrightarrow> map_of (AList.update k v d) (f x) = Some x" for x
    using keyed_lookup[OF keyed_update[OF assms], of "f x" x] by simp
  moreover have "map_of (AList.update k v d) (f x) = Some x \<longleftrightarrow> x \<in> insert v {x \<in> vals d. f x \<noteq> f v}" for x
    using keyed_lookup[OF assms(1), of "f x" x] assms(2) by (cases "f x = f v") (auto simp: update_conv')
  ultimately show ?thesis by blast
qed

lemma in_scope_keyed: "keyed f d \<Longrightarrow> set (in_scope key d) = {v \<in> vals d. fst (f v) = key}"
proof -
  assume k: "keyed f d"
  have "v \<in> set (in_scope key d) \<longleftrightarrow> (\<exists>i. ((key, i), v) \<in> set d)" for v
    unfolding in_scope_def by (auto simp del: set_map_snd intro: rev_image_eqI)
  moreover have "(\<exists>i. ((key, i), v) \<in> set d) \<longleftrightarrow> v \<in> vals d \<and> fst (f v) = key" for v
  proof -
    have "((key, i), v) \<in> set d \<longleftrightarrow> v \<in> vals d \<and> (key, i) = f v" for i
      using keyed_lookup[OF k, of "(key, i)" v] map_of_eq_Some_iff[of d "(key, i)" v] k by (simp add: keyed_def)
    then show ?thesis by (metis fst_conv prod.collapse)
  qed
  ultimately show ?thesis by auto
qed

lemma scope_key_inject [simp]: "scope_key a = scope_key b \<longleftrightarrow> a = b"
  by (cases a; cases b) (auto simp: scope_key_def sc_tenant_id_def sc_workspace_id_def workspace_ref.equality)

lemma aggregate_key_inject [simp]: "aggregate_key a i = aggregate_key b j \<longleftrightarrow> a = b \<and> i = j"
  by (simp add: aggregate_key_def)

lemma fst_aggregate_key [simp]: "fst (aggregate_key a i) = scope_key a"
  by (simp add: aggregate_key_def)

subsection \<open>The cases of a commit\<close>

lemma commit_cases:
  obtains
    (replayed) out where "replay_outcome s w = Some out" "commit l now w s = (Inr out, s)"
  | (refused) status where "replay_outcome s w = None" "commit_refusal l now w s = Some status"
      "commit l now w s = (let (out, s1) = store_terminal_command l w status (snd (validate_write s w now)) s in (Inr out, s1))"
  | (raised) e where "replay_outcome s w = None" "commit_refusal l now w s = None" "materialize_event s (append_of w) now = Inl e"
      "commit l now w s = (Inl e, s)"
  | (applied) recorded outbox previous where "replay_outcome s w = None" "commit_refusal l now w s = None"
      "materialize_event s (append_of w) now = Inr (recorded, outbox)" "validate_write s w now = (None, previous)"
      "commit l now w s =
         (Inr (mutation_outcome_of w M_APPLIED (Some previous) (Some (previous + 1))),
          put_command w (mutation_outcome_of w M_APPLIED (Some previous) (Some (previous + 1)))
            (record_event (put_record s (lw_record w) (previous + 1)) (append_of w) recorded outbox))"
proof (cases "replay_outcome s w")
  case (Some out)
  then show ?thesis by (intro replayed) (simp_all add: commit_def)
next
  case None
  note r = this
  show ?thesis
  proof (cases "commit_refusal l now w s")
    case (Some status)
    with r show ?thesis by (intro refused) (simp_all add: commit_def)
  next
    case None
    note c = this
    then have v: "fst (validate_write s w now) = None"
      by (auto simp: commit_refusal_def split: option.splits)
    show ?thesis
    proof (cases "materialize_event s (append_of w) now")
      case (Inl e)
      with r c show ?thesis by (intro raised) (simp_all add: commit_def)
    next
      case (Inr p)
      obtain recorded outbox where p: "p = (recorded, outbox)" by (cases p)
      with r c v Inr show ?thesis
        by (intro applied[of recorded outbox "snd (validate_write s w now)"]) (simp_all add: commit_def Let_def prod_eq_iff)
    qed
  qed
qed

text \<open>The parts of the state an operation leaves alone.\<close>

lemma record_event_tables [simp]:
  "ls_roots (record_event s a e ob) = ls_roots s" "ls_phases (record_event s a e ob) = ls_phases s"
  "ls_work_items (record_event s a e ob) = ls_work_items s" "ls_assignments (record_event s a e ob) = ls_assignments s"
  "ls_results (record_event s a e ob) = ls_results s" "ls_verifications (record_event s a e ob) = ls_verifications s"
  "ls_versions (record_event s a e ob) = ls_versions s" "ls_commands (record_event s a e ob) = ls_commands s"
  "ls_identities (record_event s a e ob) = ls_identities s" "ls_threads (record_event s a e ob) = ls_threads s"
  "ls_turns (record_event s a e ob) = ls_turns s" "ls_items (record_event s a e ob) = ls_items s"
  by (simp_all add: record_event_def Let_def)

lemma put_command_tables [simp]:
  "ls_roots (put_command w out s) = ls_roots s" "ls_phases (put_command w out s) = ls_phases s"
  "ls_work_items (put_command w out s) = ls_work_items s" "ls_assignments (put_command w out s) = ls_assignments s"
  "ls_results (put_command w out s) = ls_results s" "ls_verifications (put_command w out s) = ls_verifications s"
  "ls_versions (put_command w out s) = ls_versions s" "ls_identities (put_command w out s) = ls_identities s"
  "ls_threads (put_command w out s) = ls_threads s" "ls_turns (put_command w out s) = ls_turns s" "ls_items (put_command w out s) = ls_items s"
  "ls_events (put_command w out s) = ls_events s" "ls_root_sequences (put_command w out s) = ls_root_sequences s"
  "ls_events_by_id (put_command w out s) = ls_events_by_id s" "ls_events_by_ingestion (put_command w out s) = ls_events_by_ingestion s"
  "ls_event_appends (put_command w out s) = ls_event_appends s" "ls_source_sequences (put_command w out s) = ls_source_sequences s"
  "ls_outbox (put_command w out s) = ls_outbox s" "ls_outbox_delivery_keys (put_command w out s) = ls_outbox_delivery_keys s"
  by (simp_all add: put_command_def)

lemma put_record_rest [simp]:
  "ls_commands (put_record s r v) = ls_commands s" "ls_identities (put_record s r v) = ls_identities s"
  "ls_threads (put_record s r v) = ls_threads s" "ls_turns (put_record s r v) = ls_turns s" "ls_items (put_record s r v) = ls_items s"
  "ls_events (put_record s r v) = ls_events s" "ls_root_sequences (put_record s r v) = ls_root_sequences s"
  "ls_events_by_id (put_record s r v) = ls_events_by_id s" "ls_events_by_ingestion (put_record s r v) = ls_events_by_ingestion s"
  "ls_event_appends (put_record s r v) = ls_event_appends s" "ls_source_sequences (put_record s r v) = ls_source_sequences s"
  "ls_outbox (put_record s r v) = ls_outbox s" "ls_outbox_delivery_keys (put_record s r v) = ls_outbox_delivery_keys s"
  by (simp_all add: put_record_def Let_def split: ledger_record.splits)

lemma put_record_tables [simp]:
  "ls_roots (put_record s r v) = (case r of RootRec x \<Rightarrow> AList.update (scope_key (rr_scope x)) x (ls_roots s) | _ \<Rightarrow> ls_roots s)"
  "ls_phases (put_record s r v) = (case r of PhaseRec x \<Rightarrow> AList.update (aggregate_key (ph_scope x) (ph_id x)) x (ls_phases s) | _ \<Rightarrow> ls_phases s)"
  "ls_work_items (put_record s r v) = (case r of WorkRec x \<Rightarrow> AList.update (aggregate_key (wi_scope x) (wi_id x)) x (ls_work_items s) | _ \<Rightarrow> ls_work_items s)"
  "ls_assignments (put_record s r v) =
     (case r of AssignmentRec x \<Rightarrow> AList.update (aggregate_key (as_scope x) (as_id x)) x (ls_assignments s) | _ \<Rightarrow> ls_assignments s)"
  "ls_results (put_record s r v) = (case r of ResultRec x \<Rightarrow> AList.update (aggregate_key (xr_scope x) (xr_id x)) x (ls_results s) | _ \<Rightarrow> ls_results s)"
  "ls_verifications (put_record s r v) =
     (case r of VerificationRec x \<Rightarrow> AList.update (aggregate_key (xv_scope x) (xv_id x)) x (ls_verifications s) | _ \<Rightarrow> ls_verifications s)"
  "ls_versions (put_record s r v) = AList.update (record_kind r, aggregate_key (record_scope r) (record_id r)) v (ls_versions s)"
  by (simp_all add: put_record_def Let_def split: ledger_record.splits)

definition tables :: "ledger_state \<Rightarrow> _" where
  "tables s = (ls_roots s, ls_phases s, ls_work_items s, ls_assignments s, ls_results s, ls_verifications s, ls_versions s)"

lemma store_terminal_keeps: "snd (store_terminal_command l w status v s) = s \<or>
    (\<exists>out. length (ls_commands s) < ll_commands l \<and> snd (store_terminal_command l w status v s) = put_command w out s)"
  by (auto simp: store_terminal_command_def Let_def)

lemma tables_put_command [simp]: "tables (put_command w out s) = tables s"
  and tables_record_event [simp]: "tables (record_event s a e ob) = tables s"
  by (simp_all add: tables_def)

lemma tables_store_terminal [simp]: "tables (snd (store_terminal_command l w status v s)) = tables s"
  using store_terminal_keeps[of l w status v s] by auto

text \<open>An operation either keeps the tables, or is a commit that was applied.\<close>

lemma tables_change:
  assumes "tables (ledger_apply l x s) \<noteq> tables s"
  obtains now w recorded outbox previous where "x = CommitOp now w" "commit_refusal l now w s = None"
    "validate_write s w now = (None, previous)" "tables (ledger_apply l x s) = tables (put_record s (lw_record w) (previous + 1))"
proof (cases x)
  case (CommitOp now w)
  show ?thesis
  proof (cases rule: commit_cases[of s w l now])
    case (applied recorded outbox previous)
    then show ?thesis using CommitOp that by simp
  qed (use assms CommitOp in \<open>auto simp: split_beta Let_def\<close>)
next
  case (EventOp now a)
  then show ?thesis using assms by (auto simp: append_event_def split: option.splits if_splits sum.splits prod.splits)
next
  case (IdentityOp now i e)
  then show ?thesis using assms
    by (auto simp: write_runtime_identity_def write_runtime_identity_locked_def Let_def tables_def split: option.splits if_splits prod.splits)
next
  case (BindingOp now b)
  then show ?thesis using assms by (cases b) (auto simp: append_binding_def Let_def tables_def split: if_splits)
qed

subsection \<open>Well-formed states\<close>

definition well_keyed :: "ledger_state \<Rightarrow> bool" where
  "well_keyed s \<longleftrightarrow>
     keyed (\<lambda>x. scope_key (rr_scope x)) (ls_roots s) \<and> keyed (\<lambda>x. aggregate_key (ph_scope x) (ph_id x)) (ls_phases s) \<and>
     keyed (\<lambda>x. aggregate_key (wi_scope x) (wi_id x)) (ls_work_items s) \<and>
     keyed (\<lambda>x. aggregate_key (as_scope x) (as_id x)) (ls_assignments s) \<and>
     keyed (\<lambda>x. aggregate_key (xr_scope x) (xr_id x)) (ls_results s) \<and>
     keyed (\<lambda>x. aggregate_key (xv_scope x) (xv_id x)) (ls_verifications s)"

definition stored :: "ledger_state \<Rightarrow> ledger_record set" where
  "stored s = RootRec ` vals (ls_roots s) \<union> PhaseRec ` vals (ls_phases s) \<union> WorkRec ` vals (ls_work_items s) \<union>
     AssignmentRec ` vals (ls_assignments s) \<union> ResultRec ` vals (ls_results s) \<union> VerificationRec ` vals (ls_verifications s)"

definition well_formed :: "(string \<Rightarrow> string) \<Rightarrow> ledger_state \<Rightarrow> bool" where
  "well_formed nfkc s \<longleftrightarrow> well_keyed s \<and> (\<forall>r \<in> stored s. record_ok nfkc r) \<and> (\<forall>(k, v) \<in> set (ls_versions s). 1 \<le> v)"

lemmas keyed_tables = well_keyed_def keyed_update

lemma stored_iff:
  "RootRec x0 \<in> stored s \<longleftrightarrow> x0 \<in> vals (ls_roots s)" "PhaseRec x1 \<in> stored s \<longleftrightarrow> x1 \<in> vals (ls_phases s)"
  "WorkRec x2 \<in> stored s \<longleftrightarrow> x2 \<in> vals (ls_work_items s)" "AssignmentRec x3 \<in> stored s \<longleftrightarrow> x3 \<in> vals (ls_assignments s)"
  "ResultRec x4 \<in> stored s \<longleftrightarrow> x4 \<in> vals (ls_results s)" "VerificationRec x5 \<in> stored s \<longleftrightarrow> x5 \<in> vals (ls_verifications s)"
  by (auto simp: stored_def)

lemma well_keyed_put: "well_keyed s \<Longrightarrow> well_keyed (put_record s r v)"
  by (cases r) (simp_all add: keyed_tables)

text \<open>The name of a record: its kind, scope and id.\<close>

definition record_name :: "ledger_record \<Rightarrow> aggregate_kind \<times> aggregate_key" where
  "record_name r = (record_kind r, aggregate_key (record_scope r) (record_id r))"

lemma get_record_iff:
  assumes "well_keyed s"
  shows "get_record s kind scope i = Some r \<longleftrightarrow> r \<in> stored s \<and> record_name r = (kind, aggregate_key scope (if kind = ROOT_RUN then record_id r else i))"
proof (cases kind)
  case ROOT_RUN
  then show ?thesis using assms
    by (cases r) (auto simp: get_record_def Let_def well_keyed_def stored_iff record_name_def keyed_lookup)
next
  case PHASE
  then show ?thesis using assms
    by (cases r) (auto simp: get_record_def Let_def well_keyed_def stored_iff record_name_def keyed_lookup)
next
  case WORK_ITEM
  then show ?thesis using assms
    by (cases r) (auto simp: get_record_def Let_def well_keyed_def stored_iff record_name_def keyed_lookup)
next
  case ASSIGNMENT
  then show ?thesis using assms
    by (cases r) (auto simp: get_record_def Let_def well_keyed_def stored_iff record_name_def keyed_lookup)
next
  case RESULT
  then show ?thesis using assms
    by (cases r) (auto simp: get_record_def Let_def well_keyed_def stored_iff record_name_def keyed_lookup)
next
  case VERIFICATION
  then show ?thesis using assms
    by (cases r) (auto simp: get_record_def Let_def well_keyed_def stored_iff record_name_def keyed_lookup)
qed

lemma stored_put:
  assumes "well_keyed s"
  shows "stored (put_record s r v) = insert r {x \<in> stored s. record_name x \<noteq> record_name r}"
proof -
  have "x \<in> stored (put_record s r v) \<longleftrightarrow> x \<in> insert r {x \<in> stored s. record_name x \<noteq> record_name r}" for x
    using assms by (cases x; cases r) (auto simp: well_keyed_def stored_iff record_name_def vals_update aggregate_key_def)
  then show ?thesis by blast
qed

text \<open>A record that is created, and one that revises the record stored under its name.\<close>

definition created :: "ledger_state \<Rightarrow> ledger_record \<Rightarrow> bool" where
  "created s r \<longleftrightarrow> get_record s (record_kind r) (record_scope r) (record_id r) = None \<and> validate_create s r = None"

definition revised :: "ledger_state \<Rightarrow> ledger_record \<Rightarrow> ledger_record \<Rightarrow> instant \<Rightarrow> bool" where
  "revised s c r now \<longleftrightarrow> get_record s (record_kind r) (record_scope r) (record_id r) = Some c \<and> transition_shape c r \<and> transition_is_legal c r \<and>
     (case r of
        RootRec t \<Rightarrow> validate_root_terminal s t = None
      | _ \<Rightarrow> (\<exists>root_rec. root_for s (record_scope r) = Some root_rec \<and> root_allows_transition root_rec r) \<and>
            validate_transition_context s c r now = None)"

lemma get_version_pos:
  assumes "well_formed nfkc s" and "get_record s kind scope i = Some r"
  shows "1 \<le> get_version s kind scope i"
proof -
  have r: "record_ok nfkc r" using assms by (auto simp: well_formed_def get_record_iff)
  show ?thesis
  proof (cases "version_attribute r")
    case None
    then show ?thesis using assms by (auto simp: get_version_def well_formed_def split: option.splits dest: map_of_SomeD)
  next
    case (Some v)
    then have "1 \<le> v" using r
      by (cases r) (auto simp: root_run_ok_def phase_ok_def work_ok_def assignment_ok_def positive_def)
    with Some assms(2) show ?thesis by (simp add: get_version_def)
  qed
qed

lemma validated_cases:
  assumes "well_formed nfkc s" and "write_ok frepr sha256 nfkc w" and "validate_write s w now = (None, previous)"
  obtains (create) "previous = 0" "is_create (lc_kind (lw_command w))" "created s (lw_record w)"
    | (revise) c where "1 \<le> previous" "\<not> is_create (lc_kind (lw_command w))" "revised s c (lw_record w) now"
proof -
  let ?r = "lw_record w"
  have sc: "lc_scope (lw_command w) = record_scope ?r" using assms(2) by (simp add: write_ok_def)
  have p: "previous = get_version s (record_kind ?r) (record_scope ?r) (record_id ?r)"
    and nr: "is_create (lc_kind (lw_command w)) \<longrightarrow> previous = 0 \<and> validate_create s ?r = None"
      "\<not> is_create (lc_kind (lw_command w)) \<longrightarrow> previous \<noteq> 0 \<and> validate_transition s w now = None"
    using assms(3) sc by (auto simp: validate_write_def Let_def split: if_splits)
  show ?thesis
  proof (cases "is_create (lc_kind (lw_command w))")
    case True
    moreover have "get_record s (record_kind ?r) (record_scope ?r) (record_id ?r) = None"
      using get_version_pos[OF assms(1)] nr(1) True p by fastforce
    ultimately show ?thesis using create nr by (simp add: created_def)
  next
    case False
    then obtain c where c: "get_record s (record_kind ?r) (record_scope ?r) (record_id ?r) = Some c"
      using nr(2) by (auto simp: validate_transition_def Let_def split: option.splits)
    then have "1 \<le> previous" using get_version_pos[OF assms(1) c] p by simp
    moreover have "revised s c ?r now"
    proof -
      have v: "validate_transition s w now = None" using nr(2) False by simp
      then show ?thesis unfolding revised_def using c
        by (cases "lw_record w"; cases "root_for s (record_scope ?r)")
          (simp_all add: validate_transition_def Let_def split: if_split_asm del: root_allows_transition.simps)
    qed
    ultimately show ?thesis using revise False by blast
  qed
qed

lemma well_formed_tables: "tables s = tables s' \<Longrightarrow> well_formed nfkc s = well_formed nfkc s'"
  by (simp add: tables_def well_formed_def well_keyed_def stored_def)

lemma well_formed_put:
  assumes "well_formed nfkc s" and "record_ok nfkc r" and "1 \<le> v"
  shows "well_formed nfkc (put_record s r v)"
proof -
  have "(k, n) \<in> set (AList.update k' v' d) \<Longrightarrow> (k, n) \<in> set d \<or> n = v'" for k n k' v' and d :: "('a \<times> 'b) list"
    by (induction d) (auto split: if_splits)
  then have "\<forall>(k, n) \<in> set (ls_versions (put_record s r v)). 1 \<le> n"
    using assms by (fastforce simp: well_formed_def)
  then show ?thesis using assms by (auto simp: well_formed_def stored_put well_keyed_put)
qed

lemma well_formed_step:
  assumes "op_ok frepr sha256 nfkc x" and "well_formed nfkc s"
  shows "well_formed nfkc (ledger_apply l x s)"
proof (cases "tables (ledger_apply l x s) = tables s")
  case True
  then show ?thesis using assms(2) well_formed_tables by metis
next
  case False
  then obtain now w previous where x: "x = CommitOp now w" and v: "validate_write s w now = (None, previous)"
    and t: "tables (ledger_apply l x s) = tables (put_record s (lw_record w) (previous + 1))"
    by (rule tables_change)
  have w: "write_ok frepr sha256 nfkc w" using assms(1) x by simp
  have "0 \<le> previous" using validated_cases[OF assms(2) w v] by fastforce
  then have "well_formed nfkc (put_record s (lw_record w) (previous + 1))"
    using assms(2) w by (intro well_formed_put) (simp_all add: write_ok_def)
  then show ?thesis using t well_formed_tables by metis
qed

lemma well_formed_empty [simp]: "well_formed nfkc empty_ledger"
  by (simp add: well_formed_def well_keyed_def stored_def empty_ledger_def)

lemma well_formed_run: "list_all (op_ok frepr sha256 nfkc) ops \<Longrightarrow> well_formed nfkc (ledger_run l ops)"
  unfolding ledger_run_def by (rule ledger_steps_induct[where P = "well_formed nfkc"]) (auto intro: well_formed_step)

text \<open>
  The contract of an invariant of the stored records: it reads the tables only, holds of the empty ledger, and survives a
  creation and a revision. Then every run keeps it.
\<close>

locale record_invariant =
  fixes nfkc :: "string \<Rightarrow> string" and P :: "ledger_state \<Rightarrow> bool"
  assumes same: "tables s = tables s' \<Longrightarrow> P s \<Longrightarrow> P s'"
    and empty: "P empty_ledger"
    and create: "well_formed nfkc s \<Longrightarrow> P s \<Longrightarrow> record_ok nfkc r \<Longrightarrow> created s r \<Longrightarrow> P (put_record s r 1)"
    and revise: "well_formed nfkc s \<Longrightarrow> P s \<Longrightarrow> record_ok nfkc r \<Longrightarrow> revised s c r now \<Longrightarrow> P (put_record s r v)"
begin

lemma step:
  assumes x: "op_ok frepr sha256 nfkc x" and wf: "well_formed nfkc s" and p: "P s"
  shows "P (ledger_apply l x s)"
proof (cases "tables (ledger_apply l x s) = tables s")
  case True
  then show ?thesis using p same[of s "ledger_apply l x s"] by simp
next
  case False
  then obtain now w previous where xw: "x = CommitOp now w" and v: "validate_write s w now = (None, previous)"
    and t: "tables (ledger_apply l x s) = tables (put_record s (lw_record w) (previous + 1))"
    by (rule tables_change)
  have w: "write_ok frepr sha256 nfkc w" and r: "record_ok nfkc (lw_record w)" using x xw by (simp_all add: write_ok_def)
  have "P (put_record s (lw_record w) (previous + 1))"
  proof (cases rule: validated_cases[OF wf w v])
    case 1
    then show ?thesis using create[OF wf p r] by simp
  next
    case (2 c)
    then show ?thesis using revise[OF wf p r] by simp
  qed
  then show ?thesis using same[OF t[symmetric]] by simp
qed

lemma steps:
  assumes "list_all (op_ok frepr sha256 nfkc) ops" and "well_formed nfkc s" and "P s"
  shows "P (ledger_steps l ops s)"
proof -
  have "well_formed nfkc (ledger_steps l ops s) \<and> P (ledger_steps l ops s)"
    using assms step well_formed_step by (intro ledger_steps_induct[where P = "\<lambda>s. well_formed nfkc s \<and> P s"]) auto
  then show ?thesis by simp
qed

lemma run: "list_all (op_ok frepr sha256 nfkc) ops \<Longrightarrow> P (ledger_run l ops)"
  unfolding ledger_run_def by (rule steps) (simp_all add: empty)

end

subsection \<open>What creations and revisions of each kind give\<close>

definition same_work :: "exec_assignment \<Rightarrow> exec_assignment \<Rightarrow> bool" where
  "same_work a b \<longleftrightarrow> as_scope a = as_scope b \<and> as_work_item_id a = as_work_item_id b"

lemma py_max_ge: "x \<in> set xs \<Longrightarrow> x \<le> py_max xs"
  by (cases xs) (auto simp: py_max_def Max.set_eq_fold[symmetric])

lemma phase_in: "well_formed nfkc s \<Longrightarrow> map_of (ls_phases s) (aggregate_key sc i) = Some p \<Longrightarrow> p \<in> vals (ls_phases s) \<and> ph_scope p = sc \<and> ph_id p = i"
  and work_in: "well_formed nfkc s \<Longrightarrow> map_of (ls_work_items s) (aggregate_key sc i) = Some w \<Longrightarrow> w \<in> vals (ls_work_items s) \<and> wi_scope w = sc \<and> wi_id w = i"
  and assignment_in: "well_formed nfkc s \<Longrightarrow> map_of (ls_assignments s) (aggregate_key sc i) = Some a \<Longrightarrow> a \<in> vals (ls_assignments s) \<and> as_scope a = sc \<and> as_id a = i"
  and result_in: "well_formed nfkc s \<Longrightarrow> map_of (ls_results s) (aggregate_key sc i) = Some x \<Longrightarrow> x \<in> vals (ls_results s) \<and> xr_scope x = sc \<and> xr_id x = i"
  by (auto simp: well_formed_def well_keyed_def keyed_lookup)

lemma siblings_iff:
  assumes "well_formed nfkc s"
  shows "set (filter (\<lambda>i. as_work_item_id i = as_work_item_id a) (in_scope (scope_key (as_scope a)) (ls_assignments s))) =
    {b \<in> vals (ls_assignments s). same_work b a}"
proof -
  have "keyed (\<lambda>x. aggregate_key (as_scope x) (as_id x)) (ls_assignments s)" using assms by (simp add: well_formed_def well_keyed_def)
  then show ?thesis by (auto simp: in_scope_keyed same_work_def)
qed

lemma created_assignment:
  assumes wf: "well_formed nfkc s" and c: "created s (AssignmentRec a)"
  obtains p w where "p \<in> vals (ls_phases s)" "ph_scope p = as_scope a" "ph_id p = as_phase_id a"
    "w \<in> vals (ls_work_items s)" "wi_scope w = as_scope a" "wi_id w = as_work_item_id a" "wi_phase_id w = as_phase_id a"
    "wi_status w \<in> {W_PENDING, W_IN_FLIGHT}" "as_status a = A_OFFERED" "validate_attempt s a p = None"
proof -
  obtain root_rec where "validate_new_assignment s a root_rec = None"
    using c by (auto simp: created_def validate_create_def split: option.splits if_splits)
  then show ?thesis using that phase_in[OF wf] work_in[OF wf]
    by (cases "map_of (ls_phases s) (aggregate_key (as_scope a) (as_phase_id a))";
        cases "map_of (ls_work_items s) (aggregate_key (as_scope a) (as_work_item_id a))";
        cases "map_of (ls_identities s) (workspace_key (sc_workspace (as_scope a)), as_runtime_identity_id a)")
      (fastforce simp: validate_new_assignment_def split: if_splits)+
qed

lemma attempt_facts:
  assumes wf: "well_formed nfkc s" and v: "validate_attempt s a p = None"
  shows "b \<in> vals (ls_assignments s) \<Longrightarrow> same_work b a \<Longrightarrow> as_status b \<notin> set live_assignments \<and> as_attempt b < as_attempt a"
    and "as_attempt a = 1 \<or> (as_attempt a \<le> rp_max_attempts (ph_retry p) \<and>
           (\<exists>b \<in> vals (ls_assignments s). same_work b a \<and> as_attempt a = as_attempt b + 1))"
proof -
  let ?sib = "filter (\<lambda>i. as_work_item_id i = as_work_item_id a) (in_scope (scope_key (as_scope a)) (ls_assignments s))"
  have live: "\<not> list_ex (\<lambda>i. as_status i \<in> set live_assignments) ?sib"
    using v by (auto simp: validate_attempt_def Let_def split: if_splits)
  consider "as_replaces a = None" "as_attempt a = 1" "?sib = []"
    | b where "b \<in> set ?sib" "as_attempt a = as_attempt b + 1" "as_attempt b = py_max (map as_attempt ?sib)"
        "as_attempt a \<le> rp_max_attempts (ph_retry p)"
  proof (cases "as_replaces a")
    case None
    then show ?thesis using v that(1) by (auto simp: validate_attempt_def Let_def split: if_splits)
  next
    case (Some replaced)
    then obtain b where b: "map_of (ls_assignments s) (scope_key (as_scope a), replaced) = Some b"
      "as_work_item_id b = as_work_item_id a" "as_attempt a = as_attempt b + 1" "as_attempt b = py_max (map as_attempt ?sib)"
        "as_attempt a \<le> rp_max_attempts (ph_retry p)"
      using v by (auto simp: validate_attempt_def Let_def not_less split: if_splits option.splits)
    then have "b \<in> set ?sib" using assignment_in[OF wf, of "as_scope a" replaced b] unfolding siblings_iff[OF wf]
      by (simp add: same_work_def aggregate_key_def)
    with b show ?thesis using that(2) by blast
  qed
  note attempt = this
  show "as_status b \<notin> set live_assignments \<and> as_attempt b < as_attempt a" if "b \<in> vals (ls_assignments s)" "same_work b a" for b
  proof -
    have b: "b \<in> set ?sib" using that siblings_iff[OF wf] by simp
    from attempt have "as_attempt b < as_attempt a"
    proof cases
      case 1
      then show ?thesis using b by simp
    next
      case (2 prev)
      have "as_attempt b \<le> py_max (map as_attempt ?sib)" by (rule py_max_ge) (use b in simp)
      then show ?thesis using 2 by simp
    qed
    then show ?thesis using live b by (auto simp: list_ex_iff)
  qed
  from attempt show "as_attempt a = 1 \<or> (as_attempt a \<le> rp_max_attempts (ph_retry p) \<and>
           (\<exists>b \<in> vals (ls_assignments s). same_work b a \<and> as_attempt a = as_attempt b + 1))"
    by cases (use siblings_iff[OF wf, of a] in auto)
qed

text \<open>A revision keeps what the shape fixes.\<close>

lemma revised_current: "well_formed nfkc s \<Longrightarrow> revised s c r now \<Longrightarrow> c \<in> stored s \<and> record_name c = record_name r"
  by (cases r; cases c) (auto simp: revised_def well_formed_def get_record_iff record_name_def split: if_splits)

lemma revised_assignment:
  assumes "well_formed nfkc s" and "revised s c (AssignmentRec t) now"
  obtains b where "c = AssignmentRec b" "b \<in> vals (ls_assignments s)" "as_scope t = as_scope b" "as_id t = as_id b"
    "as_work_item_id t = as_work_item_id b" "as_phase_id t = as_phase_id b" "as_attempt t = as_attempt b"
    "as_status t \<in> set (ASSIGNMENT_TRANSITIONS (as_status b))"
proof -
  obtain b where c: "c = AssignmentRec b" and e: "b\<lparr>as_status := as_status t, as_lease := as_lease t, as_version := as_version b + 1\<rparr> = t"
    and l: "as_status t \<in> set (ASSIGNMENT_TRANSITIONS (as_status b))"
    using assms(2) by (cases c) (auto simp: revised_def)
  have "b \<in> vals (ls_assignments s)" using revised_current[OF assms] c by (simp add: stored_iff)
  then show ?thesis
    by (rule that[OF c]) (use l in \<open>simp_all add: arg_cong[OF e, of as_scope, symmetric] arg_cong[OF e, of as_id, symmetric]
      arg_cong[OF e, of as_work_item_id, symmetric] arg_cong[OF e, of as_phase_id, symmetric] arg_cong[OF e, of as_attempt, symmetric]\<close>)
qed

lemma revised_phase:
  assumes "well_formed nfkc s" and "revised s c (PhaseRec t) now"
  obtains b where "c = PhaseRec b" "b \<in> vals (ls_phases s)" "ph_scope t = ph_scope b" "ph_id t = ph_id b" "ph_retry t = ph_retry b"
    "ph_status t \<in> set (PHASE_TRANSITIONS (ph_status b))"
proof -
  obtain b where c: "c = PhaseRec b" and e: "b\<lparr>ph_status := ph_status t, ph_terminal_outcome := ph_terminal_outcome t, ph_version := ph_version b + 1\<rparr> = t"
    and l: "ph_status t \<in> set (PHASE_TRANSITIONS (ph_status b))"
    using assms(2) by (cases c) (auto simp: revised_def)
  have "b \<in> vals (ls_phases s)" using revised_current[OF assms] c by (simp add: stored_iff)
  then show ?thesis
    by (rule that[OF c]) (use l in \<open>simp_all add: arg_cong[OF e, of ph_scope, symmetric] arg_cong[OF e, of ph_id, symmetric]
      arg_cong[OF e, of ph_retry, symmetric]\<close>)
qed

lemma revised_work:
  assumes "well_formed nfkc s" and "revised s c (WorkRec t) now"
  obtains b where "c = WorkRec b" "b \<in> vals (ls_work_items s)" "wi_scope t = wi_scope b" "wi_id t = wi_id b" "wi_phase_id t = wi_phase_id b"
    "wi_requires_verification t = wi_requires_verification b" "wi_status t \<in> set (WORK_ITEM_TRANSITIONS (wi_status b))"
    "validate_work_transition s t = None"
proof -
  obtain b where c: "c = WorkRec b" and e: "b\<lparr>wi_status := wi_status t, wi_version := wi_version b + 1\<rparr> = t"
    and l: "wi_status t \<in> set (WORK_ITEM_TRANSITIONS (wi_status b))" and v: "validate_work_transition s t = None"
    using assms(2) by (cases c) (auto simp: revised_def)
  have "b \<in> vals (ls_work_items s)" using revised_current[OF assms] c by (simp add: stored_iff)
  then show ?thesis
    by (rule that[OF c]) (use l v in \<open>simp_all add: arg_cong[OF e, of wi_scope, symmetric] arg_cong[OF e, of wi_id, symmetric]
      arg_cong[OF e, of wi_phase_id, symmetric] arg_cong[OF e, of wi_requires_verification, symmetric]\<close>)
qed

lemma revised_verification:
  assumes "well_formed nfkc s" and "revised s c (VerificationRec t) now"
  obtains b where "c = VerificationRec b" "b \<in> vals (ls_verifications s)" "xv_scope t = xv_scope b" "xv_id t = xv_id b" "xv_status b = V_PENDING"
proof -
  obtain b where c: "c = VerificationRec b" and e: "b\<lparr>xv_status := xv_status t, xv_checks := xv_checks t, xv_verified_by := xv_verified_by t\<rparr> = t"
    and l: "xv_status t \<in> set (VERIFICATION_TRANSITIONS (xv_status b))"
    using assms(2) by (cases c) (auto simp: revised_def)
  have "b \<in> vals (ls_verifications s)" using revised_current[OF assms] c by (simp add: stored_iff)
  moreover have "xv_status b = V_PENDING" using l by (cases "xv_status b") auto
  ultimately show ?thesis
    by (intro that[OF c]) (simp_all add: arg_cong[OF e, of xv_scope, symmetric] arg_cong[OF e, of xv_id, symmetric])
qed

lemma no_revised_result: "\<not> revised s c (ResultRec x) now"
  by (cases c) (simp_all add: revised_def)

end
