(* ===== verification/LedgerProps.thy ===== *)
theory LedgerProps
  imports LedgerInvariants
begin

text \<open>
  What the execution ledger guarantees on every run: one live assignment per work item, bounded attempts, finished work backed
  by a completed assignment and an accepted result, versions used once, commands replayed, events numbered without gaps.
\<close>

subsection \<open>Assignments\<close>

definition live :: "exec_assignment \<Rightarrow> bool" where
  "live a \<longleftrightarrow> as_status a \<in> set live_assignments"

definition one_live :: "ledger_state \<Rightarrow> bool" where
  "one_live s \<longleftrightarrow> (\<forall>a \<in> vals (ls_assignments s). \<forall>b \<in> vals (ls_assignments s). same_work a b \<and> live a \<and> live b \<longrightarrow> a = b)"

text \<open>Every assignment is for stored work in a stored phase, within the phase's attempts, and no two attempts of one item share a number.\<close>

definition attempts_counted :: "ledger_state \<Rightarrow> bool" where
  "attempts_counted s \<longleftrightarrow>
     (\<forall>a \<in> vals (ls_assignments s).
        (\<exists>w \<in> vals (ls_work_items s). wi_scope w = as_scope a \<and> wi_id w = as_work_item_id a \<and> wi_phase_id w = as_phase_id a) \<and>
        (\<exists>p \<in> vals (ls_phases s). ph_scope p = as_scope a \<and> ph_id p = as_phase_id a \<and> 1 \<le> as_attempt a \<and> as_attempt a \<le> rp_max_attempts (ph_retry p))) \<and>
     (\<forall>a \<in> vals (ls_assignments s). \<forall>b \<in> vals (ls_assignments s). same_work a b \<and> as_attempt a = as_attempt b \<longrightarrow> a = b)"

lemma vals_put:
  assumes "well_formed nfkc s"
  shows "vals (ls_assignments (put_record s (AssignmentRec a) v)) =
      insert a {b \<in> vals (ls_assignments s). \<not> (as_scope b = as_scope a \<and> as_id b = as_id a)}"
    and "vals (ls_phases (put_record s (PhaseRec p) v)) = insert p {b \<in> vals (ls_phases s). \<not> (ph_scope b = ph_scope p \<and> ph_id b = ph_id p)}"
    and "vals (ls_work_items (put_record s (WorkRec w) v)) = insert w {b \<in> vals (ls_work_items s). \<not> (wi_scope b = wi_scope w \<and> wi_id b = wi_id w)}"
    and "vals (ls_results (put_record s (ResultRec x) v)) = insert x {b \<in> vals (ls_results s). \<not> (xr_scope b = xr_scope x \<and> xr_id b = xr_id x)}"
    and "vals (ls_verifications (put_record s (VerificationRec y) v)) =
      insert y {b \<in> vals (ls_verifications s). \<not> (xv_scope b = xv_scope y \<and> xv_id b = xv_id y)}"
proof -
  have k: "keyed (\<lambda>x. aggregate_key (as_scope x) (as_id x)) (ls_assignments s)" "keyed (\<lambda>x. aggregate_key (ph_scope x) (ph_id x)) (ls_phases s)"
    "keyed (\<lambda>x. aggregate_key (wi_scope x) (wi_id x)) (ls_work_items s)" "keyed (\<lambda>x. aggregate_key (xr_scope x) (xr_id x)) (ls_results s)"
    "keyed (\<lambda>x. aggregate_key (xv_scope x) (xv_id x)) (ls_verifications s)"
    using assms by (simp_all add: well_formed_def well_keyed_def)
  show "vals (ls_assignments (put_record s (AssignmentRec a) v)) =
      insert a {b \<in> vals (ls_assignments s). \<not> (as_scope b = as_scope a \<and> as_id b = as_id a)}" by (simp add: vals_update[OF k(1) refl])
  show "vals (ls_phases (put_record s (PhaseRec p) v)) = insert p {b \<in> vals (ls_phases s). \<not> (ph_scope b = ph_scope p \<and> ph_id b = ph_id p)}"
    by (simp add: vals_update[OF k(2) refl])
  show "vals (ls_work_items (put_record s (WorkRec w) v)) = insert w {b \<in> vals (ls_work_items s). \<not> (wi_scope b = wi_scope w \<and> wi_id b = wi_id w)}"
    by (simp add: vals_update[OF k(3) refl])
  show "vals (ls_results (put_record s (ResultRec x) v)) = insert x {b \<in> vals (ls_results s). \<not> (xr_scope b = xr_scope x \<and> xr_id b = xr_id x)}"
    by (simp add: vals_update[OF k(4) refl])
  show "vals (ls_verifications (put_record s (VerificationRec y) v)) =
      insert y {b \<in> vals (ls_verifications s). \<not> (xv_scope b = xv_scope y \<and> xv_id b = xv_id y)}" by (simp add: vals_update[OF k(5) refl])
qed

lemma created_new:
  assumes "well_formed nfkc s" and "created s r" and "x \<in> stored s"
  shows "record_name x \<noteq> record_name r"
proof
  assume n: "record_name x = record_name r"
  have "get_record s (record_kind r) (record_scope r) (record_id r) = Some x"
    using assms n by (auto simp: well_formed_def get_record_iff record_name_def)
  with assms(2) show False by (simp add: created_def)
qed

lemma not_created: "well_formed nfkc s \<Longrightarrow> x \<in> stored s \<Longrightarrow> record_name x = record_name r \<Longrightarrow> \<not> created s r"
  using created_new by metis

lemma stored_phase_unique: "well_formed nfkc s \<Longrightarrow> x \<in> vals (ls_phases s) \<Longrightarrow> y \<in> vals (ls_phases s) \<Longrightarrow> ph_scope x = ph_scope y \<Longrightarrow> ph_id x = ph_id y \<Longrightarrow> x = y"
  by (rule keyed_inj[of "\<lambda>x. aggregate_key (ph_scope x) (ph_id x)" "ls_phases s"]) (simp_all add: well_formed_def well_keyed_def)

lemma stored_work_unique: "well_formed nfkc s \<Longrightarrow> x \<in> vals (ls_work_items s) \<Longrightarrow> y \<in> vals (ls_work_items s) \<Longrightarrow> wi_scope x = wi_scope y \<Longrightarrow> wi_id x = wi_id y \<Longrightarrow> x = y"
  by (rule keyed_inj[of "\<lambda>x. aggregate_key (wi_scope x) (wi_id x)" "ls_work_items s"]) (simp_all add: well_formed_def well_keyed_def)

lemma stored_assignment_unique: "well_formed nfkc s \<Longrightarrow> x \<in> vals (ls_assignments s) \<Longrightarrow> y \<in> vals (ls_assignments s) \<Longrightarrow> as_scope x = as_scope y \<Longrightarrow> as_id x = as_id y \<Longrightarrow> x = y"
  by (rule keyed_inj[of "\<lambda>x. aggregate_key (as_scope x) (as_id x)" "ls_assignments s"]) (simp_all add: well_formed_def well_keyed_def)

lemma stored_verification_unique: "well_formed nfkc s \<Longrightarrow> x \<in> vals (ls_verifications s) \<Longrightarrow> y \<in> vals (ls_verifications s) \<Longrightarrow> xv_scope x = xv_scope y \<Longrightarrow> xv_id x = xv_id y \<Longrightarrow> x = y"
  by (rule keyed_inj[of "\<lambda>x. aggregate_key (xv_scope x) (xv_id x)" "ls_verifications s"]) (simp_all add: well_formed_def well_keyed_def)

lemma insert_unique:
  assumes "\<And>x y. x \<in> S \<Longrightarrow> y \<in> S \<Longrightarrow> R x y \<Longrightarrow> x = y" and "\<And>x. x \<in> S \<Longrightarrow> \<not> R x a" and "\<And>x y. R x y \<Longrightarrow> R y x"
  shows "\<forall>x \<in> insert a S. \<forall>y \<in> insert a S. R x y \<longrightarrow> x = y"
  using assms by blast

lemma vals_created:
  assumes "well_formed nfkc s"
  shows "created s (AssignmentRec a) \<Longrightarrow> vals (ls_assignments (put_record s (AssignmentRec a) v)) = insert a (vals (ls_assignments s))"
    and "created s (PhaseRec p) \<Longrightarrow> vals (ls_phases (put_record s (PhaseRec p) v)) = insert p (vals (ls_phases s))"
    and "created s (WorkRec w) \<Longrightarrow> vals (ls_work_items (put_record s (WorkRec w) v)) = insert w (vals (ls_work_items s))"
    and "created s (ResultRec x) \<Longrightarrow> vals (ls_results (put_record s (ResultRec x) v)) = insert x (vals (ls_results s))"
    and "created s (VerificationRec y) \<Longrightarrow> vals (ls_verifications (put_record s (VerificationRec y) v)) = insert y (vals (ls_verifications s))"
proof -
  show "created s (AssignmentRec a) \<Longrightarrow> vals (ls_assignments (put_record s (AssignmentRec a) v)) = insert a (vals (ls_assignments s))"
    unfolding vals_put[OF assms] using created_new[OF assms, of "AssignmentRec a" "AssignmentRec b" for b] by (auto simp: stored_iff record_name_def)
  show "created s (PhaseRec p) \<Longrightarrow> vals (ls_phases (put_record s (PhaseRec p) v)) = insert p (vals (ls_phases s))"
    unfolding vals_put[OF assms] using created_new[OF assms, of "PhaseRec p" "PhaseRec b" for b] by (auto simp: stored_iff record_name_def)
  show "created s (WorkRec w) \<Longrightarrow> vals (ls_work_items (put_record s (WorkRec w) v)) = insert w (vals (ls_work_items s))"
    unfolding vals_put[OF assms] using created_new[OF assms, of "WorkRec w" "WorkRec b" for b] by (auto simp: stored_iff record_name_def)
  show "created s (ResultRec x) \<Longrightarrow> vals (ls_results (put_record s (ResultRec x) v)) = insert x (vals (ls_results s))"
    unfolding vals_put[OF assms] using created_new[OF assms, of "ResultRec x" "ResultRec b" for b] by (auto simp: stored_iff record_name_def)
  show "created s (VerificationRec y) \<Longrightarrow> vals (ls_verifications (put_record s (VerificationRec y) v)) = insert y (vals (ls_verifications s))"
    unfolding vals_put[OF assms] using created_new[OF assms, of "VerificationRec y" "VerificationRec b" for b] by (auto simp: stored_iff record_name_def)
qed

text \<open>A legal transition ends live only if it starts live.\<close>

lemma live_transition: "as_status t \<in> set (ASSIGNMENT_TRANSITIONS (as_status b)) \<Longrightarrow> live b"
  by (cases "as_status b") (simp_all add: live_def live_assignments_def)

interpretation live_assignment: record_invariant nfkc one_live for nfkc
proof unfold_locales
  fix s s' :: ledger_state
  assume "tables s = tables s'" and "one_live s"
  then show "one_live s'" by (simp add: tables_def one_live_def)
next
  show "one_live empty_ledger" by (simp add: one_live_def empty_ledger_def)
next
  fix s r
  assume wf: "well_formed nfkc s" and p: "one_live s" and c: "created s r"
  show "one_live (put_record s r 1)"
  proof (cases r)
    case (AssignmentRec a)
    then obtain p where "validate_attempt s a p = None" using created_assignment[OF wf] c by metis
    from attempt_facts(1)[OF wf this] have "\<not> live b" if "b \<in> vals (ls_assignments s)" "same_work b a" for b
      using that by (simp add: live_def)
    moreover have "same_work a b \<Longrightarrow> same_work b a" for b by (simp add: same_work_def)
    ultimately show ?thesis using p AssignmentRec c vals_created(1)[OF wf, of a 1]
      unfolding one_live_def by auto
  qed (use p in \<open>simp_all add: one_live_def\<close>)
next
  fix s c r now v
  assume wf: "well_formed nfkc s" and p: "one_live s" and c: "revised s c r now"
  show "one_live (put_record s r v)"
  proof (cases r)
    case (AssignmentRec a)
    then obtain b where b: "b \<in> vals (ls_assignments s)" "as_scope a = as_scope b" "as_id a = as_id b"
      "as_work_item_id a = as_work_item_id b" "live b"
      using revised_assignment[OF wf] c live_transition by metis
    have "x = a" if "x \<in> vals (ls_assignments (put_record s r v))" "same_work x a" "live x" for x
    proof (rule ccontr)
      assume "x \<noteq> a"
      then have x: "x \<in> vals (ls_assignments s)" "\<not> (as_scope x = as_scope a \<and> as_id x = as_id a)"
        using that(1) AssignmentRec vals_put(1)[OF wf] by auto
      then have "x = b" using p b that unfolding one_live_def same_work_def by (metis (no_types))
      with x b show False by simp
    qed
    then show ?thesis using p AssignmentRec vals_put(1)[OF wf, of a v] unfolding one_live_def same_work_def
      by simp (metis (no_types, lifting))
  qed (use p in \<open>simp_all add: one_live_def\<close>)
qed

text \<open>
  Property C30. In every run of the ledger a work item has at most one live assignment: two assignments of one work item that are
  offered, claimed or running are the same.
\<close>

theorem one_live_assignment_per_work_item:
  assumes "list_all (op_ok frepr sha256 nfkc) ops"
    and "a \<in> vals (ls_assignments (ledger_run l ops))" and "b \<in> vals (ls_assignments (ledger_run l ops))"
    and "same_work a b" and "live a" and "live b"
  shows "a = b"
  using live_assignment.run[OF assms(1)] assms(2-) unfolding one_live_def by blast

text \<open>What a creation or revision keeps of the other records.\<close>

definition changed :: "ledger_state \<Rightarrow> ledger_record \<Rightarrow> bool" where
  "changed s r \<longleftrightarrow> created s r \<or> (\<exists>c now. revised s c r now)"

lemma phase_persists:
  assumes wf: "well_formed nfkc s" and c: "changed s r" and p: "p \<in> vals (ls_phases s)"
  shows "\<exists>q \<in> vals (ls_phases (put_record s r v)). ph_scope q = ph_scope p \<and> ph_id q = ph_id p \<and> ph_retry q = ph_retry p"
proof (cases r)
  case (PhaseRec t)
  show ?thesis
  proof (cases "ph_scope p = ph_scope t \<and> ph_id p = ph_id t")
    case True
    then have "\<not> created s r" using p PhaseRec by (intro not_created[OF wf, of "PhaseRec p"]) (simp_all add: stored_iff record_name_def)
    then obtain c now where "revised s c (PhaseRec t) now" using c PhaseRec by (auto simp: changed_def)
    then obtain b where b: "b \<in> vals (ls_phases s)" "ph_scope t = ph_scope b" "ph_id t = ph_id b" "ph_retry t = ph_retry b"
      by (rule revised_phase[OF wf])
    then have "b = p" using True p by (intro stored_phase_unique[OF wf]) simp_all
    then show ?thesis using b PhaseRec vals_put(2)[OF wf, of t v] by (intro bexI[of _ t]) simp_all
  next
    case False
    then show ?thesis using p PhaseRec vals_put(2)[OF wf, of t v] by (intro bexI[of _ p]) auto
  qed
qed (use p in auto)

lemma work_persists:
  assumes wf: "well_formed nfkc s" and c: "changed s r" and w: "w \<in> vals (ls_work_items s)"
  shows "\<exists>q \<in> vals (ls_work_items (put_record s r v)). wi_scope q = wi_scope w \<and> wi_id q = wi_id w \<and> wi_phase_id q = wi_phase_id w"
proof (cases r)
  case (WorkRec t)
  show ?thesis
  proof (cases "wi_scope w = wi_scope t \<and> wi_id w = wi_id t")
    case True
    then have "\<not> created s r" using w WorkRec by (intro not_created[OF wf, of "WorkRec w"]) (simp_all add: stored_iff record_name_def)
    then obtain c now where "revised s c (WorkRec t) now" using c WorkRec by (auto simp: changed_def)
    then obtain b where b: "b \<in> vals (ls_work_items s)" "wi_scope t = wi_scope b" "wi_id t = wi_id b" "wi_phase_id t = wi_phase_id b"
      by (rule revised_work[OF wf])
    then have "b = w" using True w by (intro stored_work_unique[OF wf]) simp_all
    then show ?thesis using b WorkRec vals_put(3)[OF wf, of t v] by (intro bexI[of _ t]) simp_all
  next
    case False
    then show ?thesis using w WorkRec vals_put(3)[OF wf, of t v] by (intro bexI[of _ w]) auto
  qed
qed (use w in auto)

lemma ended_assignment_persists:
  assumes wf: "well_formed nfkc s" and c: "changed s r" and a: "a \<in> vals (ls_assignments s)" "\<not> live a"
  shows "a \<in> vals (ls_assignments (put_record s r v))"
proof (cases r)
  case (AssignmentRec t)
  have "\<not> (as_scope a = as_scope t \<and> as_id a = as_id t)"
  proof
    assume n: "as_scope a = as_scope t \<and> as_id a = as_id t"
    then have "\<not> created s r" using a AssignmentRec by (intro not_created[OF wf, of "AssignmentRec a"]) (simp_all add: stored_iff record_name_def)
    then obtain c now where "revised s c (AssignmentRec t) now" using c AssignmentRec by (auto simp: changed_def)
    then obtain b where b: "b \<in> vals (ls_assignments s)" "as_scope t = as_scope b" "as_id t = as_id b" "live b"
      by (rule revised_assignment[OF wf]) (blast intro: live_transition)
    then have "b = a" using n a by (intro stored_assignment_unique[OF wf]) simp_all
    with b a show False by simp
  qed
  then show ?thesis using a AssignmentRec vals_put(1)[OF wf, of t v] by simp
qed (use a in auto)

lemma result_persists:
  assumes wf: "well_formed nfkc s" and c: "changed s r" and x: "x \<in> vals (ls_results s)"
  shows "x \<in> vals (ls_results (put_record s r v))"
proof (cases r)
  case (ResultRec t)
  then have "created s (ResultRec t)" using c no_revised_result by (auto simp: changed_def)
  then show ?thesis using x ResultRec vals_created(4)[OF wf, of t v] by simp
qed (use x in auto)

lemma decided_verification_persists:
  assumes wf: "well_formed nfkc s" and c: "changed s r" and y: "y \<in> vals (ls_verifications s)" "xv_status y \<noteq> V_PENDING"
  shows "y \<in> vals (ls_verifications (put_record s r v))"
proof (cases r)
  case (VerificationRec t)
  have "\<not> (xv_scope y = xv_scope t \<and> xv_id y = xv_id t)"
  proof
    assume n: "xv_scope y = xv_scope t \<and> xv_id y = xv_id t"
    then have "\<not> created s r" using y VerificationRec by (intro not_created[OF wf, of "VerificationRec y"]) (simp_all add: stored_iff record_name_def)
    then obtain c now where "revised s c (VerificationRec t) now" using c VerificationRec by (auto simp: changed_def)
    then obtain b where b: "b \<in> vals (ls_verifications s)" "xv_scope t = xv_scope b" "xv_id t = xv_id b" "xv_status b = V_PENDING"
      by (rule revised_verification[OF wf])
    then have "b = y" using n y by (intro stored_verification_unique[OF wf]) simp_all
    with b y show False by simp
  qed
  then show ?thesis using y VerificationRec vals_put(5)[OF wf, of t v] by simp
qed (use y in auto)

subsection \<open>Attempts\<close>

definition housed :: "ledger_state \<Rightarrow> exec_assignment \<Rightarrow> bool" where
  "housed s a \<longleftrightarrow>
     (\<exists>w \<in> vals (ls_work_items s). wi_scope w = as_scope a \<and> wi_id w = as_work_item_id a \<and> wi_phase_id w = as_phase_id a) \<and>
     (\<exists>p \<in> vals (ls_phases s). ph_scope p = as_scope a \<and> ph_id p = as_phase_id a \<and> 1 \<le> as_attempt a \<and> as_attempt a \<le> rp_max_attempts (ph_retry p))"

lemma housed_persists:
  assumes wf: "well_formed nfkc s" and c: "changed s r" and "housed s a"
  shows "housed (put_record s r v) a"
proof -
  obtain w p where w: "w \<in> vals (ls_work_items s)" "wi_scope w = as_scope a" "wi_id w = as_work_item_id a" "wi_phase_id w = as_phase_id a"
    and p: "p \<in> vals (ls_phases s)" "ph_scope p = as_scope a" "ph_id p = as_phase_id a" "1 \<le> as_attempt a" "as_attempt a \<le> rp_max_attempts (ph_retry p)"
    using assms(3) by (auto simp: housed_def)
  show ?thesis unfolding housed_def
    using work_persists[OF wf c w(1), of v] phase_persists[OF wf c p(1), of v] w p by metis
qed

lemma housed_cong:
  "housed s b \<Longrightarrow> as_scope a = as_scope b \<Longrightarrow> as_work_item_id a = as_work_item_id b \<Longrightarrow> as_phase_id a = as_phase_id b \<Longrightarrow>
   as_attempt a = as_attempt b \<Longrightarrow> housed s a"
  by (simp add: housed_def)

lemma attempts_counted_alt: "attempts_counted s \<longleftrightarrow> (\<forall>a \<in> vals (ls_assignments s). housed s a) \<and>
    (\<forall>a \<in> vals (ls_assignments s). \<forall>b \<in> vals (ls_assignments s). same_work a b \<and> as_attempt a = as_attempt b \<longrightarrow> a = b)"
  by (simp add: attempts_counted_def housed_def)

lemma same_work_sym: "same_work a b \<Longrightarrow> same_work b a"
  by (simp add: same_work_def)

lemma created_housed:
  assumes wf: "well_formed nfkc s" and p: "attempts_counted s" and c: "created s (AssignmentRec a)"
  shows "housed s a"
proof -
  obtain p w where w: "p \<in> vals (ls_phases s)" "ph_scope p = as_scope a" "ph_id p = as_phase_id a"
    "w \<in> vals (ls_work_items s)" "wi_scope w = as_scope a" "wi_id w = as_work_item_id a" "wi_phase_id w = as_phase_id a"
    and v: "validate_attempt s a p = None"
    by (rule created_assignment[OF wf c])
  have "\<forall>r \<in> stored s. record_ok nfkc r" using wf by (simp add: well_formed_def)
  then have "record_ok nfkc (PhaseRec p)" using w(1) stored_iff(2) by blast
  then have max: "1 \<le> rp_max_attempts (ph_retry p)" by (simp add: phase_ok_def retry_ok_def positive_def)
  have "1 \<le> as_attempt a \<and> as_attempt a \<le> rp_max_attempts (ph_retry p)"
    using attempt_facts(2)[OF wf v] max assms(2) by (fastforce simp: attempts_counted_def)
  with w show ?thesis unfolding housed_def by blast
qed

interpretation attempt_count: record_invariant nfkc attempts_counted for nfkc
proof unfold_locales
  fix s s' :: ledger_state
  assume "tables s = tables s'" and "attempts_counted s"
  then show "attempts_counted s'" by (simp add: tables_def attempts_counted_def)
next
  show "attempts_counted empty_ledger" by (simp add: attempts_counted_def empty_ledger_def)
next
  fix s r
  assume wf: "well_formed nfkc s" and p: "attempts_counted s" and c: "created s r"
  have h: "housed (put_record s r 1) a" if "housed s a" for a using housed_persists[OF wf _ that, of r 1] c by (simp add: changed_def)
  show "attempts_counted (put_record s r 1)"
  proof (cases r)
    case (AssignmentRec a)
    then obtain p' where "validate_attempt s a p' = None" using created_assignment[OF wf] c by metis
    note new = attempt_facts(1)[OF wf this]
    have ins: "vals (ls_assignments (put_record s r 1)) = insert a (vals (ls_assignments s))" using vals_created(1)[OF wf, of a 1] c AssignmentRec by simp
    have "housed s b" if "b \<in> insert a (vals (ls_assignments s))" for b
      using that created_housed[OF wf p] c AssignmentRec p by (auto simp: attempts_counted_alt)
    moreover have "\<forall>x \<in> insert a (vals (ls_assignments s)). \<forall>y \<in> insert a (vals (ls_assignments s)).
        same_work x y \<and> as_attempt x = as_attempt y \<longrightarrow> x = y"
      using p new same_work_sym by (intro insert_unique) (fastforce simp: attempts_counted_alt)+
    ultimately show ?thesis using h unfolding attempts_counted_alt ins by blast
  qed (use p h in \<open>simp_all add: attempts_counted_alt\<close>)
next
  fix s c r now v
  assume wf: "well_formed nfkc s" and p: "attempts_counted s" and c: "revised s c r now"
  have h: "housed (put_record s r v) a" if "housed s a" for a using housed_persists[OF wf _ that, of r v] c by (auto simp: changed_def)
  show "attempts_counted (put_record s r v)"
  proof (cases r)
    case (AssignmentRec a)
    then obtain b where b: "b \<in> vals (ls_assignments s)" "as_scope a = as_scope b" "as_id a = as_id b"
      "as_work_item_id a = as_work_item_id b" "as_phase_id a = as_phase_id b" "as_attempt a = as_attempt b"
      using revised_assignment[OF wf] c by metis
    have ins: "vals (ls_assignments (put_record s r v)) = insert a {x \<in> vals (ls_assignments s). \<not> (as_scope x = as_scope a \<and> as_id x = as_id a)}"
      using vals_put(1)[OF wf, of a v] AssignmentRec by simp
    have hs: "housed s x" if "x \<in> vals (ls_assignments s)" for x using that p by (simp add: attempts_counted_alt)
    have eq: "x = y" if "x \<in> vals (ls_assignments s)" "y \<in> vals (ls_assignments s)" "same_work x y" "as_attempt x = as_attempt y" for x y
      using p that unfolding attempts_counted_alt by blast
    have other: "\<not> (same_work x a \<and> as_attempt x = as_attempt a)"
      if "x \<in> vals (ls_assignments s)" "\<not> (as_scope x = as_scope a \<and> as_id x = as_id a)" for x
      using eq[OF that(1) b(1)] that(2) b by (auto simp: same_work_def)
    have "housed s a" using housed_cong[OF hs[OF b(1)]] b by simp
    moreover have "\<forall>x \<in> insert a {x \<in> vals (ls_assignments s). \<not> (as_scope x = as_scope a \<and> as_id x = as_id a)}.
        \<forall>y \<in> insert a {x \<in> vals (ls_assignments s). \<not> (as_scope x = as_scope a \<and> as_id x = as_id a)}.
        same_work x y \<and> as_attempt x = as_attempt y \<longrightarrow> x = y"
      using eq other same_work_sym by (intro insert_unique) auto
    ultimately show ?thesis using h hs unfolding attempts_counted_alt ins by blast
  qed (use p h in \<open>simp_all add: attempts_counted_alt\<close>)
qed

text \<open>
  Property C31. A work item is attempted at most as often as its phase's retry policy allows: in every run the number of stored
  assignments of a work item is at most \<^verbatim>\<open>max_attempts\<close> of its phase, which is at most ten.
\<close>

theorem attempts_stay_within_the_retry_policy:
  assumes "list_all (op_ok frepr sha256 nfkc) ops" and "w \<in> vals (ls_work_items (ledger_run l ops))"
    and "p \<in> vals (ls_phases (ledger_run l ops))" and "ph_scope p = wi_scope w" and "ph_id p = wi_phase_id w"
  shows "int (card {a \<in> vals (ls_assignments (ledger_run l ops)). as_scope a = wi_scope w \<and> as_work_item_id a = wi_id w}) \<le> rp_max_attempts (ph_retry p) \<and>
    rp_max_attempts (ph_retry p) \<le> 10"
proof -
  let ?s = "ledger_run l ops"
  let ?A = "{a \<in> vals (ls_assignments ?s). as_scope a = wi_scope w \<and> as_work_item_id a = wi_id w}"
  have wf: "well_formed nfkc ?s" by (rule well_formed_run[OF assms(1)])
  have cnt: "attempts_counted ?s" by (rule attempt_count.run[OF assms(1)])
  have range: "as_attempt a \<in> {1..rp_max_attempts (ph_retry p)}" if "a \<in> ?A" for a
  proof -
    have "housed ?s a" using cnt that by (simp add: attempts_counted_alt)
    then obtain v q where v: "v \<in> vals (ls_work_items ?s)" "wi_scope v = as_scope a" "wi_id v = as_work_item_id a" "wi_phase_id v = as_phase_id a"
      and q: "q \<in> vals (ls_phases ?s)" "ph_scope q = as_scope a" "ph_id q = as_phase_id a" "1 \<le> as_attempt a" "as_attempt a \<le> rp_max_attempts (ph_retry q)"
      by (auto simp: housed_def)
    have "v = w" by (rule stored_work_unique[OF wf v(1) assms(2)]) (use v that in simp_all)
    then have "q = p" using q v that assms(4,5) by (intro stored_phase_unique[OF wf q(1) assms(3)]) simp_all
    with q show ?thesis by simp
  qed
  have inj: "inj_on as_attempt ?A"
    using cnt unfolding inj_on_def attempts_counted_def same_work_def by (metis (mono_tags, lifting) mem_Collect_eq)
  have "card ?A = card (as_attempt ` ?A)" by (simp add: card_image[OF inj])
  also have "\<dots> \<le> card {1..rp_max_attempts (ph_retry p)}" by (rule card_mono) (use range in auto)
  finally have c: "card ?A \<le> nat (rp_max_attempts (ph_retry p))" by simp
  have "\<forall>r \<in> stored ?s. record_ok nfkc r" using wf by (simp add: well_formed_def)
  then have "record_ok nfkc (PhaseRec p)" using assms(3) stored_iff(2) by blast
  then have "1 \<le> rp_max_attempts (ph_retry p)" "rp_max_attempts (ph_retry p) \<le> 10" by (simp_all add: phase_ok_def retry_ok_def positive_def)
  with c show ?thesis by linarith
qed

subsection \<open>Finished work\<close>

definition backed :: "ledger_state \<Rightarrow> exec_work \<Rightarrow> bool" where
  "backed s w \<longleftrightarrow>
     (\<exists>a \<in> vals (ls_assignments s). \<exists>x \<in> vals (ls_results s).
        as_scope a = wi_scope w \<and> as_work_item_id a = wi_id w \<and> as_status a = A_COMPLETED \<and>
        xr_scope x = wi_scope w \<and> xr_work_item_id x = wi_id w \<and> xr_assignment_id x = as_id a \<and> xr_status x = S_SUCCEEDED \<and>
        (wi_requires_verification w \<longrightarrow>
           (\<exists>y \<in> vals (ls_verifications s). xv_scope y = wi_scope w \<and> xv_work_item_id y = wi_id w \<and> xv_result_id y = xr_id x \<and> xv_status y = V_PASSED)))"

definition done_backed :: "ledger_state \<Rightarrow> bool" where
  "done_backed s \<longleftrightarrow> (\<forall>w \<in> vals (ls_work_items s). wi_status w = W_DONE \<longrightarrow> backed s w)"

lemma backed_persists:
  assumes wf: "well_formed nfkc s" and c: "changed s r" and b: "backed s w"
  shows "backed (put_record s r v) w"
proof -
  obtain a x where a: "a \<in> vals (ls_assignments s)" and x: "x \<in> vals (ls_results s)"
    and ax: "as_scope a = wi_scope w" "as_work_item_id a = wi_id w" "as_status a = A_COMPLETED" "xr_scope x = wi_scope w"
      "xr_work_item_id x = wi_id w" "xr_assignment_id x = as_id a" "xr_status x = S_SUCCEEDED"
    and y: "wi_requires_verification w \<longrightarrow>
      (\<exists>y \<in> vals (ls_verifications s). xv_scope y = wi_scope w \<and> xv_work_item_id y = wi_id w \<and> xv_result_id y = xr_id x \<and> xv_status y = V_PASSED)"
    using b unfolding backed_def by blast
  have "a \<in> vals (ls_assignments (put_record s r v))"
    by (rule ended_assignment_persists[OF wf c a]) (simp add: live_def live_assignments_def ax)
  moreover have "x \<in> vals (ls_results (put_record s r v))" by (rule result_persists[OF wf c x])
  moreover have "y \<in> vals (ls_verifications (put_record s r v))" if "y \<in> vals (ls_verifications s)" "xv_status y = V_PASSED" for y
    using that by (intro decided_verification_persists[OF wf c]) simp_all
  ultimately show ?thesis unfolding backed_def using ax y by blast
qed

lemma validated_done_is_backed:
  assumes "validate_work_transition s t = None" and "wi_status t = W_DONE"
  shows "backed s t"
proof -
  let ?as = "filter (\<lambda>a. as_scope a = wi_scope t \<and> as_work_item_id a = wi_id t) (map snd (ls_assignments s))"
  have "work_has_verified_result s t ?as"
    using assms by (auto simp: validate_work_transition_def Let_def split: if_splits)
  then obtain rs where rs: "rs = filter (\<lambda>r. xr_scope r = wi_scope t \<and> xr_work_item_id r = wi_id t \<and>
        xr_assignment_id r \<in> set (map as_id (filter (\<lambda>a. as_status a = A_COMPLETED) ?as)) \<and> xr_status r = S_SUCCEEDED) (map snd (ls_results s))"
    and ne: "rs \<noteq> []" and v: "wi_requires_verification t \<longrightarrow>
      list_ex (\<lambda>v. xv_scope v = wi_scope t \<and> xv_work_item_id v = wi_id t \<and> xv_result_id v \<in> set (map xr_id rs) \<and> xv_status v = V_PASSED)
        (map snd (ls_verifications s))"
    unfolding work_has_verified_result_def Let_def by blast
  have "\<exists>x \<in> set rs. wi_requires_verification t \<longrightarrow>
      (\<exists>y \<in> vals (ls_verifications s). xv_scope y = wi_scope t \<and> xv_work_item_id y = wi_id t \<and> xv_result_id y = xr_id x \<and> xv_status y = V_PASSED)"
  proof (cases "wi_requires_verification t")
    case True
    with v show ?thesis by (fastforce simp: list_ex_iff)
  next
    case False
    with ne show ?thesis by (cases rs) auto
  qed
  moreover have "x \<in> vals (ls_results s) \<and> xr_scope x = wi_scope t \<and> xr_work_item_id x = wi_id t \<and> xr_status x = S_SUCCEEDED \<and>
      (\<exists>a \<in> vals (ls_assignments s). as_scope a = wi_scope t \<and> as_work_item_id a = wi_id t \<and> as_status a = A_COMPLETED \<and> xr_assignment_id x = as_id a)"
    if "x \<in> set rs" for x using that by (auto simp: rs)
  ultimately show ?thesis unfolding backed_def by blast
qed

lemma backed_cong:
  "backed s b \<Longrightarrow> wi_scope t = wi_scope b \<Longrightarrow> wi_id t = wi_id b \<Longrightarrow> wi_requires_verification t = wi_requires_verification b \<Longrightarrow> backed s t"
  by (simp add: backed_def)

interpretation finished_work: record_invariant nfkc done_backed for nfkc
proof unfold_locales
  fix s s' :: ledger_state
  assume "tables s = tables s'" and "done_backed s"
  then show "done_backed s'" by (simp add: tables_def done_backed_def backed_def)
next
  show "done_backed empty_ledger" by (simp add: done_backed_def empty_ledger_def)
next
  fix s r
  assume wf: "well_formed nfkc s" and p: "done_backed s" and c: "created s r"
  have h: "backed (put_record s r 1) w" if "backed s w" for w using backed_persists[OF wf _ that, of r 1] c by (simp add: changed_def)
  show "done_backed (put_record s r 1)"
  proof (cases r)
    case (WorkRec t)
    have "wi_status t = W_PENDING" using c WorkRec
      by (auto simp: created_def validate_create_def validate_new_work_def Let_def split: option.splits if_splits)
    then show ?thesis using p h c WorkRec vals_created(3)[OF wf, of t 1] by (auto simp: done_backed_def)
  qed (use p h in \<open>simp_all add: done_backed_def\<close>)
next
  fix s c r now v
  assume wf: "well_formed nfkc s" and p: "done_backed s" and c: "revised s c r now"
  have h: "backed (put_record s r v) w" if "backed s w" for w using backed_persists[OF wf _ that, of r v] c by (auto simp: changed_def)
  show "done_backed (put_record s r v)"
  proof (cases r)
    case (WorkRec t)
    then have "validate_work_transition s t = None" using revised_work[OF wf] c by metis
    then have "wi_status t = W_DONE \<longrightarrow> backed s t" using validated_done_is_backed by blast
    then show ?thesis using p h WorkRec vals_put(3)[OF wf, of t v] by (auto simp: done_backed_def)
  qed (use p h in \<open>simp_all add: done_backed_def\<close>)
qed

text \<open>
  Property C27. Work is done only when it was done: in every run of the ledger, a work item whose status is done has a completed
  assignment of its own with a succeeded result, and, when the item requires verification, a passed verification of that result.
\<close>

theorem done_work_is_backed_by_a_result:
  assumes "list_all (op_ok frepr sha256 nfkc) ops" and "w \<in> vals (ls_work_items (ledger_run l ops))" and "wi_status w = W_DONE"
  shows "backed (ledger_run l ops) w"
  using finished_work.run[OF assms(1)] assms(2,3) by (simp add: done_backed_def)

subsection \<open>Events\<close>

definition event_tables :: "ledger_state \<Rightarrow> _" where
  "event_tables s = (ls_events s, ls_root_sequences s, ls_events_by_id s, ls_events_by_ingestion s, ls_event_appends s, ls_source_sequences s,
     ls_outbox s, ls_outbox_delivery_keys s)"

lemma event_tables_put [simp]: "event_tables (put_record s r v) = event_tables s" "event_tables (put_command w out s) = event_tables s"
  "event_tables (snd (store_terminal_command l w status n s)) = event_tables s"
  using store_terminal_keeps[of l w status n s] by (auto simp: event_tables_def)

lemma event_tables_record:
  assumes "event_tables s = event_tables s'"
  shows "event_tables (record_event s a e ob) = event_tables (record_event s' a e ob)"
  using assms by (cases "pe_source_sequence (re_pending e)") (simp_all add: event_tables_def record_event_def events_of_def Let_def)

text \<open>An operation records one event or none.\<close>

lemma event_change:
  assumes "event_tables (ledger_apply l x s) \<noteq> event_tables s"
  obtains a now recorded outbox where "materialize_event s a now = Inr (recorded, outbox)" "event_preflight s a = None" "event_append_fits l s a"
    "op_ok frepr sha256 nfkc x \<longrightarrow> intents_ok (ea_outbox a)" "event_tables (ledger_apply l x s) = event_tables (record_event s a recorded outbox)"
proof (cases x)
  case (CommitOp now w)
  show ?thesis
  proof (cases rule: commit_cases[of s w l now])
    case (applied recorded outbox previous)
    have "event_preflight s (append_of w) = None" "event_append_fits l s (append_of w)"
      using applied(2) by (auto simp: commit_refusal_def ledger_write_fits_def append_of_def Let_def split: option.splits if_splits)
    moreover have "op_ok frepr sha256 nfkc x \<longrightarrow> intents_ok (ea_outbox (append_of w))" using CommitOp by (simp add: write_ok_def append_of_def)
    moreover have "event_tables (ledger_apply l x s) = event_tables (record_event s (append_of w) recorded outbox)"
      using applied(5) CommitOp event_tables_record[of "put_record s (lw_record w) (previous + 1)" s] by simp
    ultimately show ?thesis using that applied(3) by blast
  qed (use assms CommitOp in \<open>auto simp: split_beta Let_def\<close>)
next
  case (EventOp now a)
  show ?thesis
  proof (cases "materialize_event s a now")
    case (Inl e)
    then show ?thesis using assms EventOp by (auto simp: append_event_def split: option.splits if_splits)
  next
    case (Inr p)
    obtain recorded outbox where p: "p = (recorded, outbox)" by (cases p)
    have "event_preflight s a = None" "event_append_fits l s a" "ledger_apply l x s = record_event s a recorded outbox"
      using assms EventOp Inr p by (auto simp: append_event_def split: option.splits if_splits)
    moreover have "op_ok frepr sha256 nfkc x \<longrightarrow> intents_ok (ea_outbox a)" using EventOp by (simp add: append_ok_def)
    ultimately show ?thesis using that Inr p by simp
  qed
next
  case (IdentityOp now i e)
  then show ?thesis using assms
    by (auto simp: write_runtime_identity_def write_runtime_identity_locked_def Let_def event_tables_def split: option.splits if_splits prod.splits)
next
  case (BindingOp now b)
  then show ?thesis using assms by (cases b) (auto simp: append_binding_def Let_def event_tables_def split: if_splits)
qed

lemma materialized:
  assumes "materialize_event s a now = Inr (recorded, outbox)"
  shows "re_scope recorded = pe_scope (ea_event a)" "re_pending recorded = ea_event a" "re_recorded_at recorded = now"
    "re_sequence recorded = last_sequence s (scope_key (pe_scope (ea_event a))) + 1" "re_sequence recorded \<le> MAX_SIGNED_BIGINT"
    "outbox = map (outbox_of_intent recorded now) (ea_outbox a)"
  using assms by (auto simp: materialize_event_def Let_def split: if_splits)

lemma events_of_record:
  "events_of (record_event s a e ob) key = (if key = scope_key (re_scope e) then events_of s key @ [e] else events_of s key)"
  by (simp add: events_of_def record_event_def Let_def update_conv')

lemma last_sequence_record:
  "last_sequence (record_event s a e ob) key = (if key = scope_key (re_scope e) then re_sequence e else last_sequence s key)"
  by (simp add: last_sequence_def record_event_def Let_def update_conv')

definition numbered :: "ledger_state \<Rightarrow> bool" where
  "numbered s \<longleftrightarrow> (\<forall>key. map re_sequence (events_of s key) = [1..int (length (events_of s key))] \<and> last_sequence s key = int (length (events_of s key)))"

lemma numbered_step: "numbered s \<Longrightarrow> numbered (ledger_apply l x s)"
proof (cases "event_tables (ledger_apply l x s) = event_tables s")
  case True
  moreover assume "numbered s"
  ultimately show ?thesis by (simp add: numbered_def event_tables_def events_of_def last_sequence_def)
next
  case False
  assume n: "numbered s"
  obtain a now e ob where m: "materialize_event s a now = Inr (e, ob)" and t: "event_tables (ledger_apply l x s) = event_tables (record_event s a e ob)"
    using event_change[OF False] by metis
  have "numbered (record_event s a e ob)" unfolding numbered_def
  proof
    fix key
    have "map re_sequence (events_of s key) = [1..int (length (events_of s key))]" "last_sequence s key = int (length (events_of s key))"
      using n unfolding numbered_def by blast+
    moreover have "[1..int k + 1] = [1..int k] @ [int k + 1]" for k by (simp add: upto_rec2)
    ultimately show "map re_sequence (events_of (record_event s a e ob) key) = [1..int (length (events_of (record_event s a e ob) key))] \<and>
        last_sequence (record_event s a e ob) key = int (length (events_of (record_event s a e ob) key))"
      using materialized[OF m] by (auto simp: events_of_record last_sequence_record add.commute)
  qed
  then show ?thesis using t by (simp add: numbered_def event_tables_def events_of_def last_sequence_def)
qed

lemma numbered_run: "numbered (ledger_run l ops)"
proof -
  have "numbered (ledger_steps l ops s)" if "numbered s" for s
    using that by (induction ops arbitrary: s) (simp_all add: numbered_step)
  moreover have "numbered empty_ledger" by (simp add: numbered_def empty_ledger_def events_of_def last_sequence_def)
  ultimately show ?thesis by (simp add: ledger_run_def)
qed

text \<open>
  The events of a root run are numbered from one without gaps, in the order they were recorded, and a page of
  \<^verbatim>\<open>list_events\<close> is the next events after the given sequence number: on every run, a page after \<open>n\<close> drops the first \<open>n\<close> events
  and takes at most \<open>limit\<close> of the rest.
\<close>

lemma event_pages_have_no_gaps:
  "map re_sequence (events_of (ledger_run l ops) (scope_key scope)) = [1..int (length (events_of (ledger_run l ops) (scope_key scope)))] \<and>
   list_events (ledger_run l ops) scope n limit =
     (if page_ok n limit then Inr (take (nat limit) (drop (nat n) (events_of (ledger_run l ops) (scope_key scope)))) else Inl LedgerValueError)"
proof -
  let ?es = "events_of (ledger_run l ops) (scope_key scope)"
  have m: "map re_sequence ?es = [1..int (length ?es)]" using numbered_run[of l ops] unfolding numbered_def by blast
  have "filter (\<lambda>e. n < re_sequence e) ?es = drop (nat n) ?es" if "0 \<le> n"
  proof -
    have nth: "re_sequence (?es ! i) = int i + 1" if "i < length ?es" for i
      using that arg_cong[OF m, of "\<lambda>xs. xs ! i"] nth_upto[of 1 i "int (length ?es)"] by simp
    have "filter (\<lambda>e. n < re_sequence e) xs = drop (nat n - k) xs"
      if "\<And>i. i < length xs \<Longrightarrow> re_sequence (xs ! i) = int (i + k) + 1" for xs k
      using that
    proof (induction xs arbitrary: k)
      case (Cons e xs)
      have "filter (\<lambda>e. n < re_sequence e) xs = drop (nat n - Suc k) xs"
        by (rule Cons.IH) (use Cons.prems[of "Suc _"] in simp)
      moreover have "re_sequence e = int k + 1" using Cons.prems[of 0] by simp
      moreover have "k < nat n \<Longrightarrow> nat n - k = Suc (nat n - Suc k)" by simp
      ultimately show ?case using \<open>0 \<le> n\<close> by (cases "k < nat n") auto
    qed simp
    from this[of ?es 0] nth show ?thesis by simp
  qed
  then show ?thesis using m by (simp add: list_events_def page_ok_def non_negative_def)
qed

subsection \<open>Versions\<close>

lemma get_version_tables: "tables s = tables s' \<Longrightarrow> get_version s k sc i = get_version s' k sc i"
proof -
  assume t: "tables s = tables s'"
  then have g: "get_record s k sc i = get_record s' k sc i" by (cases k) (simp_all add: tables_def get_record_def Let_def)
  have v: "ls_versions s = ls_versions s'" using t by (simp add: tables_def)
  show ?thesis unfolding get_version_def g v ..
qed

lemma get_version_root: "get_version s ROOT_RUN scope i = (case map_of (ls_roots s) (scope_key scope) of None \<Rightarrow> 0 | Some r \<Rightarrow> rr_version r)"
  by (cases "map_of (ls_roots s) (scope_key scope)") (simp_all add: get_version_def get_record_def Let_def)

lemma get_record_put:
  "get_record (put_record s r v) kind scope i =
     (if (kind, scope) = (record_kind r, record_scope r) \<and> (kind = ROOT_RUN \<or> i = record_id r) then Some r else get_record s kind scope i)"
  by (cases r; cases kind) (auto simp: get_record_def Let_def update_conv')

lemma shape_version: "transition_shape c r \<Longrightarrow> version_attribute r = map_option (\<lambda>v. v + 1) (version_attribute c)"
  by (cases "(c, r)" rule: transition_shape.cases)
    (auto dest: arg_cong[where f = rr_version] arg_cong[where f = ph_version] arg_cong[where f = wi_version] arg_cong[where f = as_version])

lemma validate_previous:
  assumes "write_ok frepr sha256 nfkc w" and "validate_write s w now = (status, previous)"
  shows "previous = get_version s (record_kind (lw_record w)) (record_scope (lw_record w)) (record_id (lw_record w))"
proof -
  have "snd (validate_write s w now) = get_version s (record_kind (lw_record w)) (lc_scope (lw_command w)) (record_id (lw_record w))"
    by (simp add: validate_write_def Let_def)
  then show ?thesis using assms by (simp add: write_ok_def)
qed

lemma validated_version:
  assumes "well_formed nfkc s" and "write_ok frepr sha256 nfkc w" and "validate_write s w now = (None, previous)" and "version_attribute (lw_record w) = Some v"
  shows "v = previous + 1"
proof (cases rule: validated_cases[OF assms(1-3)])
  case 1
  then show ?thesis using assms(4)
    by (cases "lw_record w") (auto simp: created_def validate_create_def validate_new_phase_def validate_new_work_def validate_new_assignment_def Let_def
      split: option.splits if_splits)
next
  case (2 c)
  have p: "previous = get_version s (record_kind (lw_record w)) (record_scope (lw_record w)) (record_id (lw_record w))"
    by (rule validate_previous[OF assms(2,3)])
  have "get_record s (record_kind (lw_record w)) (record_scope (lw_record w)) (record_id (lw_record w)) = Some c" "transition_shape c (lw_record w)"
    using 2 by (simp_all add: revised_def)
  then show ?thesis using p assms(4) shape_version[of c "lw_record w"] by (auto simp: get_version_def)
qed

lemma get_version_put:
  assumes "well_formed nfkc s" and "write_ok frepr sha256 nfkc w" and "validate_write s w now = (None, previous)"
  shows "get_version (put_record s (lw_record w) (previous + 1)) kind scope i =
    (if (kind, scope) = (record_kind (lw_record w), record_scope (lw_record w)) \<and> (kind = ROOT_RUN \<or> i = record_id (lw_record w))
     then previous + 1 else get_version s kind scope i)"
proof (cases "(kind, scope) = (record_kind (lw_record w), record_scope (lw_record w)) \<and> (kind = ROOT_RUN \<or> i = record_id (lw_record w))")
  case True
  then have g: "get_record (put_record s (lw_record w) (previous + 1)) kind scope i = Some (lw_record w)" by (auto simp: get_record_put)
  show ?thesis
  proof (cases "version_attribute (lw_record w)")
    case None
    then have "i = record_id (lw_record w)" using True by (cases "lw_record w") auto
    then show ?thesis using g None True by (simp add: get_version_def update_conv')
  next
    case (Some v)
    then have "get_version (put_record s (lw_record w) (previous + 1)) kind scope i = previous + 1"
      using validated_version[OF assms Some] by (simp add: get_version_def g)
    then show ?thesis by (simp only: if_P[OF True])
  qed
next
  case False
  then have g: "get_record (put_record s (lw_record w) (previous + 1)) kind scope i = get_record s kind scope i" by (auto simp: get_record_put)
  have "(kind, aggregate_key scope i) \<noteq> (record_kind (lw_record w), aggregate_key (record_scope (lw_record w)) (record_id (lw_record w)))"
    using False by auto
  then have m: "map_of (ls_versions (put_record s (lw_record w) (previous + 1))) (kind, aggregate_key scope i) = map_of (ls_versions s) (kind, aggregate_key scope i)"
    by (auto simp: update_conv')
  show ?thesis unfolding if_not_P[OF False] get_version_def g m ..
qed

lemma version_mono_step:
  assumes "op_ok frepr sha256 nfkc x" and "well_formed nfkc s"
  shows "get_version s kind scope i \<le> get_version (ledger_apply l x s) kind scope i"
proof (cases "tables (ledger_apply l x s) = tables s")
  case True
  show ?thesis by (simp add: get_version_tables[OF True])
next
  case False
  then obtain now w previous where x: "x = CommitOp now w" and v: "validate_write s w now = (None, previous)"
    and t: "tables (ledger_apply l x s) = tables (put_record s (lw_record w) (previous + 1))"
    by (rule tables_change)
  have w: "write_ok frepr sha256 nfkc w" using assms(1) x by simp
  have p: "previous = get_version s (record_kind (lw_record w)) (record_scope (lw_record w)) (record_id (lw_record w))"
    by (rule validate_previous[OF w v])
  have "get_version s kind scope i \<le> get_version (put_record s (lw_record w) (previous + 1)) kind scope i"
  proof (cases "(kind, scope) = (record_kind (lw_record w), record_scope (lw_record w)) \<and> (kind = ROOT_RUN \<or> i = record_id (lw_record w))")
    case True
    have "get_version s kind scope i = previous"
    proof (cases "kind = ROOT_RUN")
      case root_kind: True
      show ?thesis using True root_kind p get_version_root[of s scope] by simp
    qed (use True p in simp)
    then show ?thesis unfolding get_version_put[OF assms(2) w v] if_P[OF True] by simp
  next
    case False
    show ?thesis unfolding get_version_put[OF assms(2) w v] if_not_P[OF False] by simp
  qed
  then show ?thesis using get_version_tables[OF t] by simp
qed

lemma version_mono:
  assumes "list_all (op_ok frepr sha256 nfkc) ops" and "well_formed nfkc s"
  shows "get_version s kind scope i \<le> get_version (ledger_steps l ops s) kind scope i"
  using assms
proof (induction ops arbitrary: s)
  case (Cons x ops)
  have "get_version s kind scope i \<le> get_version (ledger_apply l x s) kind scope i"
    by (rule version_mono_step[of frepr sha256 nfkc]) (use Cons.prems in simp_all)
  also have "\<dots> \<le> get_version (ledger_steps l ops (ledger_apply l x s)) kind scope i"
    by (rule Cons.IH) (use Cons.prems in \<open>auto intro: well_formed_step\<close>)
  finally show ?case by simp
qed simp

definition refusal :: "mutation_status option \<Rightarrow> bool" where
  "refusal st \<longleftrightarrow> st \<notin> {Some M_APPLIED, Some M_REPLAYED}"

lemma refusal_simps [simp]: "refusal None" "refusal (Some M_REJECTED)" "refusal (Some M_CONFLICT)" "refusal (Some M_NOT_FOUND)"
  by (simp_all add: refusal_def)

lemma refusal_create: "refusal (validate_create s r)"
proof -
  have "refusal (validate_new_phase s p x)" for p x by (simp add: validate_new_phase_def Let_def)
  moreover have "refusal (validate_new_work s w)" for w by (simp add: validate_new_work_def Let_def split: option.splits)
  moreover have "refusal (validate_attempt s a p)" for a p by (simp add: validate_attempt_def Let_def split: option.splits)
  then have "refusal (validate_new_assignment s a x)" for a x by (simp add: validate_new_assignment_def split: option.splits)
  moreover have "refusal (validate_new_result s x)" for x by (simp add: validate_new_result_def split: option.splits)
  moreover have "refusal (validate_new_verification s v)" for v by (simp add: validate_new_verification_def split: option.splits)
  ultimately show ?thesis by (simp add: validate_create_def split: option.splits ledger_record.splits)
qed

lemma refusal_transition: "refusal (validate_transition s w now)"
proof -
  have p: "refusal (validate_phase_transition s p)" for p by (simp add: validate_phase_transition_def Let_def)
  have v: "refusal (validate_work_transition s w)" for w by (simp add: validate_work_transition_def Let_def)
  have a: "refusal (validate_assignment_transition a b now)" for a b by (simp add: validate_assignment_transition_def)
  have c: "refusal (validate_transition_context s c r now)" for c r
    by (cases "(s, c, r, now)" rule: validate_transition_context.cases) (simp_all add: p v a)
  have t: "refusal (validate_root_terminal s t)" for t by (simp add: validate_root_terminal_def Let_def)
  show ?thesis
    by (simp add: p v a c t validate_transition_def Let_def split: option.splits ledger_record.splits del: root_allows_transition.simps)
qed

lemma refusal_commit: "refusal (commit_refusal l now w s)"
proof -
  have "refusal (fst (validate_write s w now))"
    by (simp add: validate_write_def Let_def refusal_create refusal_transition)
  moreover have "refusal (event_preflight s (append_of w))" by (simp add: event_preflight_def Let_def)
  ultimately show ?thesis by (auto simp: commit_refusal_def split: option.splits)
qed

lemma applied_commit:
  assumes "fst (commit l now w s) = Inr out" and "mo_status out = M_APPLIED"
  obtains recorded outbox previous where "validate_write s w now = (None, previous)" "commit_refusal l now w s = None"
    "materialize_event s (append_of w) now = Inr (recorded, outbox)" "out = mutation_outcome_of w M_APPLIED (Some previous) (Some (previous + 1))"
    "snd (commit l now w s) = put_command w out (record_event (put_record s (lw_record w) (previous + 1)) (append_of w) recorded outbox)"
    "replay_outcome s w = None"
proof (cases rule: commit_cases[of s w l now])
  case (replayed o1)
  then show ?thesis using assms by (auto simp: replay_outcome_def mutation_outcome_of_def Let_def split: option.splits if_splits)
next
  case (refused status)
  have "status \<noteq> M_APPLIED" using refused(2) refusal_commit[of l now w s] by (auto simp: refusal_def)
  then show ?thesis using assms refused(3) by (auto simp: store_terminal_command_def mutation_outcome_of_def Let_def split: if_splits)
next
  case (raised e)
  then show ?thesis using assms by simp
next
  case (applied recorded outbox previous)
  then show ?thesis using assms by (intro that) auto
qed

lemma applied_version:
  assumes "fst (commit l now w s) = Inr out" and "mo_status out = M_APPLIED"
  shows "lc_expected_version (lw_command w) = get_version s (lc_aggregate_kind (lw_command w)) (lc_scope (lw_command w)) (lc_aggregate_id (lw_command w))"
    and "lc_aggregate_kind (lw_command w) = record_kind (lw_record w)" "lc_aggregate_id (lw_command w) = record_id (lw_record w)"
    and "mo_resulting_version out = Some (lc_expected_version (lw_command w) + 1)"
proof -
  obtain recorded outbox previous where v: "validate_write s w now = (None, previous)"
    and out: "out = mutation_outcome_of w M_APPLIED (Some previous) (Some (previous + 1))"
    by (rule applied_commit[OF assms])
  have k: "lc_aggregate_kind (lw_command w) = record_kind (lw_record w)" "lc_aggregate_id (lw_command w) = record_id (lw_record w)"
    and e: "lc_expected_version (lw_command w) = previous" and p: "previous = get_version s (record_kind (lw_record w)) (lc_scope (lw_command w)) (record_id (lw_record w))"
    using v by (auto simp: validate_write_def Let_def split: if_splits)
  show "lc_expected_version (lw_command w) = get_version s (lc_aggregate_kind (lw_command w)) (lc_scope (lw_command w)) (lc_aggregate_id (lw_command w))"
    using e p k by simp
  show "lc_aggregate_kind (lw_command w) = record_kind (lw_record w)" "lc_aggregate_id (lw_command w) = record_id (lw_record w)" by (rule k)+
  show "mo_resulting_version out = Some (lc_expected_version (lw_command w) + 1)" by (simp add: out e mutation_outcome_of_def Let_def)
qed

lemma applied_advances:
  assumes "well_formed nfkc s" and "write_ok frepr sha256 nfkc w" and "fst (commit l now w s) = Inr out" and "mo_status out = M_APPLIED"
  shows "get_version (snd (commit l now w s)) (lc_aggregate_kind (lw_command w)) (lc_scope (lw_command w)) (lc_aggregate_id (lw_command w)) =
    lc_expected_version (lw_command w) + 1"
proof -
  obtain recorded outbox previous where v: "validate_write s w now = (None, previous)"
    and s': "snd (commit l now w s) = put_command w out (record_event (put_record s (lw_record w) (previous + 1)) (append_of w) recorded outbox)"
    by (rule applied_commit[OF assms(3,4)])
  note a = applied_version[OF assms(3,4)]
  have sc: "lc_scope (lw_command w) = record_scope (lw_record w)" using assms(2) by (simp add: write_ok_def)
  have t: "tables (snd (commit l now w s)) = tables (put_record s (lw_record w) (previous + 1))" by (simp add: s')
  have "get_version (snd (commit l now w s)) (record_kind (lw_record w)) (record_scope (lw_record w)) (record_id (lw_record w)) = previous + 1"
    using get_version_put[OF assms(1,2) v, of "record_kind (lw_record w)" "record_scope (lw_record w)" "record_id (lw_record w)"]
    by (simp add: get_version_tables[OF t])
  moreover have "previous = lc_expected_version (lw_command w)" using validate_previous[OF assms(2) v] a(1-3) sc by simp
  ultimately show ?thesis using a(2,3) sc by simp
qed

text \<open>
  Property C28. No update is lost: after a command was applied against a version of an aggregate, no later command that expects the
  same version of that aggregate is applied, whatever other operations run between them. The version itself moves on by one.
\<close>

theorem expected_version_is_spent_once:
  assumes "list_all (op_ok frepr sha256 nfkc) ops" and "list_all (op_ok frepr sha256 nfkc) later" and "write_ok frepr sha256 nfkc w"
    and "fst (commit l now w (ledger_run l ops)) = Inr out" and "mo_status out = M_APPLIED"
    and "lc_scope (lw_command v) = lc_scope (lw_command w)" and "lc_aggregate_kind (lw_command v) = lc_aggregate_kind (lw_command w)"
    and "lc_aggregate_id (lw_command v) = lc_aggregate_id (lw_command w)" and "lc_expected_version (lw_command v) = lc_expected_version (lw_command w)"
    and "fst (commit l now' v (ledger_steps l later (snd (commit l now w (ledger_run l ops))))) = Inr out'"
  shows "mo_resulting_version out = Some (lc_expected_version (lw_command w) + 1) \<and> mo_status out' \<noteq> M_APPLIED"
proof -
  let ?s = "ledger_run l ops" and ?s1 = "snd (commit l now w (ledger_run l ops))"
  let ?ver = "\<lambda>s. get_version s (lc_aggregate_kind (lw_command w)) (lc_scope (lw_command w)) (lc_aggregate_id (lw_command w))"
  have wf: "well_formed nfkc ?s" by (rule well_formed_run[OF assms(1)])
  have wf1: "well_formed nfkc ?s1" using well_formed_step[of frepr sha256 nfkc "CommitOp now w", OF _ wf] assms(3) by simp
  have "lc_expected_version (lw_command w) + 1 = ?ver ?s1" using applied_advances[OF wf assms(3-5)] by simp
  also have "\<dots> \<le> ?ver (ledger_steps l later ?s1)" by (rule version_mono[OF assms(2) wf1])
  finally have "lc_expected_version (lw_command w) < ?ver (ledger_steps l later ?s1)" by simp
  then have "mo_status out' \<noteq> M_APPLIED" using applied_version(1)[OF assms(10)] assms(6-9) by auto
  then show ?thesis using applied_version(4)[OF assms(4,5)] by simp
qed

subsection \<open>Replays\<close>

lemma command_kept_step:
  assumes "map_of (ls_commands s) k = Some st"
  shows "map_of (ls_commands (ledger_apply l x s)) k = Some st"
proof (cases x)
  case (CommitOp now w)
  have new: "map_of (ls_commands (put_command w out s')) k = Some st"
    if "replay_outcome s w = None" "ls_commands s' = ls_commands s" for out s'
  proof -
    have "command_key w \<noteq> k" using that(1) assms by (auto simp: replay_outcome_def split: option.splits if_splits)
    then show ?thesis using assms that(2) by (simp add: put_command_def update_conv')
  qed
  show ?thesis
  proof (cases rule: commit_cases[of s w l now])
    case (refused status)
    then show ?thesis using CommitOp assms new[of s] store_terminal_keeps[of l w status "snd (validate_write s w now)" s]
      by (auto simp: split_beta Let_def)
  next
    case (applied recorded outbox previous)
    then show ?thesis using CommitOp new by simp
  qed (use CommitOp assms in simp_all)
next
  case (EventOp now a)
  then show ?thesis using assms by (auto simp: append_event_def split: option.splits if_splits sum.splits prod.splits)
next
  case (IdentityOp now i e)
  then show ?thesis using assms
    by (auto simp: write_runtime_identity_def write_runtime_identity_locked_def Let_def split: option.splits if_splits prod.splits)
next
  case (BindingOp now b)
  then show ?thesis using assms by (cases b) (auto simp: append_binding_def Let_def split: if_splits)
qed

lemma command_kept: "map_of (ls_commands s) k = Some st \<Longrightarrow> map_of (ls_commands (ledger_steps l ops s)) k = Some st"
  by (induction ops arbitrary: s) (simp_all add: command_kept_step)

text \<open>
  Property C29. A command runs once: when a command is new to the ledger and the ledger has room to remember it, submitting the same
  write again, after any other operations, returns the first outcome as replayed and leaves the ledger as it was.
\<close>

theorem committed_write_is_replayed:
  assumes "map_of (ls_commands s) (command_key w) = None" and "length (ls_commands s) < ll_commands l"
    and "commit l now w s = (Inr out, s1)"
  shows "commit l now' w (ledger_steps l later s1) = (Inr (out\<lparr>mo_status := M_REPLAYED\<rparr>), ledger_steps l later s1)"
proof -
  have "map_of (ls_commands s1) (command_key w) = Some \<lparr>st_command = lw_command w, st_submitted = w, st_outcome = out\<rparr>"
  proof (cases rule: commit_cases[of s w l now])
    case (replayed o1)
    then show ?thesis using assms(1) by (simp add: replay_outcome_def)
  next
    case (refused status)
    then show ?thesis using assms by (auto simp: store_terminal_command_def put_command_def Let_def update_conv')
  next
    case (raised e)
    then show ?thesis using assms(3) by simp
  next
    case (applied recorded outbox previous)
    then show ?thesis using assms(3) by (auto simp: put_command_def update_conv')
  qed
  from command_kept[OF this, of l later] show ?thesis
    by (simp add: commit_def replay_outcome_def classify_command_replay_def)
qed

subsection \<open>The outbox\<close>

lemma fold_update_new:
  assumes "distinct (map f xs)" and "\<And>x. x \<in> set xs \<Longrightarrow> map_of d (f x) = None"
  shows "fold (\<lambda>x. AList.update (f x) (g x)) xs d = d @ map (\<lambda>x. (f x, g x)) xs"
  using assms
proof (induction xs arbitrary: d)
  case (Cons x xs)
  have "AList.update (f x) (g x) d = d @ [(f x, g x)]"
    using Cons.prems(2)[of x] by (induction d) (auto split: if_splits)
  moreover have "map_of (d @ [(f x, g x)]) (f y) = None" if "y \<in> set xs" for y
  proof -
    have "f y \<noteq> f x" using Cons.prems(1) that by (auto simp: image_iff)
    then show ?thesis using Cons.prems(2)[of y] that by (simp add: map_add_def)
  qed
  ultimately show ?case using Cons.prems(1) Cons.IH[of "d @ [(f x, g x)]"] by simp
qed simp

lemma outbox_recorded:
  assumes m: "materialize_event s a now = Inr (e, ob)" and pre: "event_preflight s a = None" and ok: "intents_ok (ea_outbox a)"
  shows "ls_outbox (record_event s a e ob) = ls_outbox s @ map (\<lambda>x. ((scope_key (re_scope e), ox_id x), x)) ob"
    and "ob \<noteq> []" and "\<And>x. x \<in> set ob \<Longrightarrow> ox_event x = e \<and> ox_scope x = re_scope e" and "length ob = length (ea_outbox a)"
proof -
  note mat = materialized[OF m]
  have ids: "map ox_id ob = map oi_id (ea_outbox a)" by (simp add: mat(6) outbox_of_intent_def)
  show "ls_outbox (record_event s a e ob) = ls_outbox s @ map (\<lambda>x. ((scope_key (re_scope e), ox_id x), x)) ob"
    unfolding record_event_def Let_def
  proof (simp, rule fold_update_new)
    have "distinct (map ox_id ob)" using ok by (simp add: ids intents_ok_def)
    then show "distinct (map (\<lambda>x. (scope_key (re_scope e), ox_id x)) ob)" by (simp add: distinct_map inj_on_def)
    fix x
    assume "x \<in> set ob"
    then have "ox_id x \<in> set (map oi_id (ea_outbox a))" using ids by (metis in_set_conv_nth length_map nth_map nth_mem)
    then obtain i where "i \<in> set (ea_outbox a)" "ox_id x = oi_id i" by auto
    then show "map_of (ls_outbox s) (scope_key (re_scope e), ox_id x) = None"
      using pre mat(1) by (auto simp: event_preflight_def Let_def list_ex_iff split: if_splits)
  qed
  show "ob \<noteq> []" using ok by (simp add: mat(6) intents_ok_def)
  show "x \<in> set ob \<Longrightarrow> ox_event x = e \<and> ox_scope x = re_scope e" for x by (auto simp: mat(6) outbox_of_intent_def)
  show "length ob = length (ea_outbox a)" by (simp add: mat(6))
qed

definition announced :: "ledger_state \<Rightarrow> bool" where
  "announced s \<longleftrightarrow>
     (\<forall>scope e. e \<in> set (events_of s (scope_key scope)) \<longrightarrow> (\<exists>x \<in> vals (ls_outbox s). ox_event x = e)) \<and>
     (\<forall>x \<in> vals (ls_outbox s). ox_event x \<in> set (events_of s (scope_key (ox_scope x))))"

lemma announced_step:
  assumes "op_ok frepr sha256 nfkc x" and "announced s"
  shows "announced (ledger_apply l x s)"
proof (cases "event_tables (ledger_apply l x s) = event_tables s")
  case True
  then show ?thesis using assms(2) by (simp add: announced_def event_tables_def events_of_def)
next
  case False
  obtain a now e ob where m: "materialize_event s a now = Inr (e, ob)" and pre: "event_preflight s a = None" and ok: "intents_ok (ea_outbox a)"
    and t: "event_tables (ledger_apply l x s) = event_tables (record_event s a e ob)"
    using event_change[OF False] assms(1) by metis
  note ob = outbox_recorded[OF m pre ok]
  have v: "vals (ls_outbox (record_event s a e ob)) = vals (ls_outbox s) \<union> set ob" unfolding ob(1) by (force simp: vals_def simp del: set_map_snd)
  have "announced (record_event s a e ob)" unfolding announced_def v
  proof (intro conjI allI impI ballI)
    fix scope f
    assume "f \<in> set (events_of (record_event s a e ob) (scope_key scope))"
    then have "f = e \<or> f \<in> set (events_of s (scope_key scope))" by (auto simp: events_of_record split: if_splits)
    then show "\<exists>x \<in> vals (ls_outbox s) \<union> set ob. ox_event x = f"
    proof
      assume "f = e"
      then show ?thesis using ob(2,3) by (meson UnI2 last_in_set)
    qed (use assms(2) in \<open>auto simp: announced_def\<close>)
  next
    fix y
    assume "y \<in> vals (ls_outbox s) \<union> set ob"
    then show "ox_event y \<in> set (events_of (record_event s a e ob) (scope_key (ox_scope y)))"
      using assms(2) ob(3)[of y] by (auto simp: announced_def events_of_record)
  qed
  then show ?thesis using t by (simp add: announced_def event_tables_def events_of_def)
qed

text \<open>
  Property C32. Every event is queued for delivery with the change it reports: on every run, each recorded event has an outbox record,
  and each outbox record is of a recorded event of its own root run.
\<close>

theorem every_event_is_queued_for_delivery:
  assumes "list_all (op_ok frepr sha256 nfkc) ops"
  shows "announced (ledger_run l ops)"
  unfolding ledger_run_def using assms
proof (rule ledger_steps_induct[where P = announced])
  show "announced empty_ledger" by (simp add: announced_def empty_ledger_def events_of_def)
qed (rule announced_step)

subsection \<open>Capacity\<close>

definition within_limits :: "ledger_limits \<Rightarrow> ledger_state \<Rightarrow> bool" where
  "within_limits l s \<longleftrightarrow> length (ls_roots s) \<le> ll_roots l \<and> record_count s \<le> ll_records l \<and> length (ls_commands s) \<le> ll_commands l \<and>
     event_count s \<le> ll_events l \<and> length (ls_outbox s) \<le> ll_outbox l \<and> length (ls_identities s) \<le> ll_identities l \<and>
     binding_count s \<le> ll_bindings l"

lemma length_update: "length (AList.update k v d) = (if map_of d k = None then Suc (length d) else length d)"
  by (induction d) auto

lemma length_update_le: "length (AList.update k v d) \<le> Suc (length d)"
  by (simp add: length_update)

lemma length_update_known: "map_of d k \<noteq> None \<Longrightarrow> length (AList.update k v d) = length d"
  by (simp add: length_update)

lemma record_count_put: "record_count (put_record s r v) \<le> Suc (record_count s)"
  by (cases r) (simp_all add: record_count_def length_update)

lemma record_count_known:
  "get_record s (record_kind r) (record_scope r) (record_id r) \<noteq> None \<Longrightarrow>
     record_count (put_record s r v) = record_count s \<and> length (ls_roots (put_record s r v)) = length (ls_roots s)"
  by (cases r) (auto simp: record_count_def get_record_def Let_def length_update_known)

lemma roots_put: "record_kind r \<noteq> ROOT_RUN \<Longrightarrow> ls_roots (put_record s r v) = ls_roots s"
  by (cases r) simp_all

lemma tables_within:
  assumes "length (ls_roots s) \<le> ll_roots l" and "record_count s \<le> ll_records l"
  shows "length (ls_roots (ledger_apply l x s)) \<le> ll_roots l \<and> record_count (ledger_apply l x s) \<le> ll_records l"
proof (cases "tables (ledger_apply l x s) = tables s")
  case True
  then show ?thesis using assms by (simp add: tables_def record_count_def)
next
  case False
  then obtain now w previous where c: "commit_refusal l now w s = None"
    and t: "tables (ledger_apply l x s) = tables (put_record s (lw_record w) (previous + 1))"
    by (rule tables_change)
  let ?r = "lw_record w" and ?s' = "put_record s (lw_record w) (previous + 1)"
  have fits: "ledger_write_fits l s w" using c by (auto simp: commit_refusal_def split: option.splits if_splits)
  have "length (ls_roots ?s') \<le> ll_roots l \<and> record_count ?s' \<le> ll_records l"
  proof (cases "get_record s (record_kind ?r) (record_scope ?r) (record_id ?r) = None")
    case True
    then have "record_kind ?r = ROOT_RUN \<longrightarrow> length (ls_roots s) < ll_roots l" "record_count s < ll_records l"
      using fits by (simp_all add: ledger_write_fits_def Let_def)
    moreover have "length (ls_roots ?s') \<le> (if record_kind ?r = ROOT_RUN then Suc (length (ls_roots s)) else length (ls_roots s))"
      by (cases ?r) (simp_all add: length_update_le)
    ultimately show ?thesis using assms record_count_put[of s ?r "previous + 1"] by (auto split: if_splits)
  next
    case False
    then show ?thesis using assms record_count_known by simp
  qed
  then show ?thesis using t by (simp add: tables_def record_count_def)
qed

lemma event_count_record: "event_count (record_event s a e ob) = Suc (event_count s)"
proof -
  have "sum_list (map (length \<circ> snd) (AList.update k ((case map_of d k of None \<Rightarrow> [] | Some es \<Rightarrow> es) @ [e]) d)) = Suc (sum_list (map (length \<circ> snd) d))"
    for k and d :: "(scope_key \<times> recorded_event list) list"
    by (induction d) auto
  then show ?thesis by (simp add: event_count_def record_event_def Let_def events_of_def)
qed

lemma events_within:
  assumes "op_ok frepr sha256 nfkc x" and "event_count s \<le> ll_events l" and "length (ls_outbox s) \<le> ll_outbox l"
  shows "event_count (ledger_apply l x s) \<le> ll_events l \<and> length (ls_outbox (ledger_apply l x s)) \<le> ll_outbox l"
proof (cases "event_tables (ledger_apply l x s) = event_tables s")
  case True
  then show ?thesis using assms by (simp add: event_tables_def event_count_def)
next
  case False
  obtain a now e ob where m: "materialize_event s a now = Inr (e, ob)" and pre: "event_preflight s a = None" and fits: "event_append_fits l s a"
    and ok: "intents_ok (ea_outbox a)" and t: "event_tables (ledger_apply l x s) = event_tables (record_event s a e ob)"
    using event_change[OF False] assms(1) by metis
  have "event_count (record_event s a e ob) \<le> ll_events l \<and> length (ls_outbox (record_event s a e ob)) \<le> ll_outbox l"
    using fits outbox_recorded[OF m pre ok] by (simp add: event_count_record event_append_fits_def)
  then show ?thesis using t by (simp add: event_tables_def event_count_def)
qed

lemma commands_within: "length (ls_commands s) \<le> ll_commands l \<Longrightarrow> length (ls_commands (ledger_apply l x s)) \<le> ll_commands l"
proof (cases x)
  case (CommitOp now w)
  assume le: "length (ls_commands s) \<le> ll_commands l"
  have put: "length (ls_commands (put_command w out s')) \<le> ll_commands l" if "length (ls_commands s) < ll_commands l" "ls_commands s' = ls_commands s" for out s'
    using that length_update_le[of "command_key w" _ "ls_commands s"] by (simp add: put_command_def) (meson le_trans Suc_leI)
  show ?thesis
  proof (cases rule: commit_cases[of s w l now])
    case (refused status)
    then show ?thesis using CommitOp le put[of s] store_terminal_keeps[of l w status "snd (validate_write s w now)" s] by (auto simp: split_beta Let_def)
  next
    case (applied recorded outbox previous)
    have "length (ls_commands s) < ll_commands l" using applied(2) by (auto simp: commit_refusal_def ledger_write_fits_def Let_def split: option.splits if_splits)
    then show ?thesis using CommitOp applied(5) put by simp
  qed (use CommitOp le in simp_all)
next
  case (EventOp now a)
  then show "length (ls_commands s) \<le> ll_commands l \<Longrightarrow> ?thesis" by (auto simp: append_event_def split: option.splits if_splits sum.splits prod.splits)
next
  case (IdentityOp now i e)
  then show "length (ls_commands s) \<le> ll_commands l \<Longrightarrow> ?thesis"
    by (auto simp: write_runtime_identity_def write_runtime_identity_locked_def Let_def split: option.splits if_splits prod.splits)
next
  case (BindingOp now b)
  then show "length (ls_commands s) \<le> ll_commands l \<Longrightarrow> ?thesis" by (cases b) (auto simp: append_binding_def Let_def split: if_splits)
qed

lemma identities_within: "length (ls_identities s) \<le> ll_identities l \<Longrightarrow> length (ls_identities (ledger_apply l x s)) \<le> ll_identities l"
proof (cases x)
  case (CommitOp now w)
  assume "length (ls_identities s) \<le> ll_identities l"
  then show ?thesis using CommitOp store_terminal_keeps[of l w _ _ s]
    by (cases rule: commit_cases[of s w l now]) (auto simp: store_terminal_command_def Let_def split: if_splits)
next
  case (EventOp now a)
  then show "length (ls_identities s) \<le> ll_identities l \<Longrightarrow> ?thesis" by (auto simp: append_event_def split: option.splits if_splits sum.splits prod.splits)
next
  case (IdentityOp now i e)
  then show "length (ls_identities s) \<le> ll_identities l \<Longrightarrow> ?thesis"
    by (auto simp: write_runtime_identity_def write_runtime_identity_locked_def identity_fits_def length_update Let_def split: option.splits if_splits prod.splits)
next
  case (BindingOp now b)
  then show "length (ls_identities s) \<le> ll_identities l \<Longrightarrow> ?thesis" by (cases b) (auto simp: append_binding_def Let_def split: if_splits)
qed

lemma bindings_within: "binding_count s \<le> ll_bindings l \<Longrightarrow> binding_count (ledger_apply l x s) \<le> ll_bindings l"
proof (cases x)
  case (CommitOp now w)
  assume "binding_count s \<le> ll_bindings l"
  then show ?thesis using CommitOp store_terminal_keeps[of l w _ _ s]
    by (cases rule: commit_cases[of s w l now]) (auto simp: binding_count_def store_terminal_command_def Let_def split: if_splits)
next
  case (EventOp now a)
  then show "binding_count s \<le> ll_bindings l \<Longrightarrow> ?thesis" by (auto simp: binding_count_def append_event_def split: option.splits if_splits sum.splits prod.splits)
next
  case (IdentityOp now i e)
  then show "binding_count s \<le> ll_bindings l \<Longrightarrow> ?thesis"
    by (auto simp: binding_count_def write_runtime_identity_def write_runtime_identity_locked_def Let_def split: option.splits if_splits prod.splits)
next
  case (BindingOp now b)
  then show "binding_count s \<le> ll_bindings l \<Longrightarrow> ?thesis"
    by (cases b) (auto simp: binding_count_def append_binding_def binding_fits_def length_update Let_def split: if_splits)
qed

text \<open>
  The ledger never outgrows its limits: on every run the numbers of roots, records, commands, events, outbox records,
  identities and bindings stay within the configured bounds, whatever is submitted.
\<close>

lemma ledger_stays_within_its_limits:
  assumes "list_all (op_ok frepr sha256 nfkc) ops"
  shows "within_limits l (ledger_run l ops)"
  unfolding ledger_run_def using assms
proof (rule ledger_steps_induct[where P = "within_limits l"])
  show "within_limits l empty_ledger" by (simp add: within_limits_def empty_ledger_def record_count_def event_count_def binding_count_def)
next
  fix x s
  assume ok: "op_ok frepr sha256 nfkc x" and "within_limits l s"
  then show "within_limits l (ledger_apply l x s)"
    using tables_within[of s l x] events_within[OF ok, of s l] commands_within[of s l x] identities_within[of s l x] bindings_within[of s l x]
    by (simp add: within_limits_def)
qed

end
