(* ===== verification/LedgerExamples.thy ===== *)
theory LedgerExamples
  imports LedgerProps
begin

text \<open>
  A root run carried to its end on the ledger: an identity, a root, a phase, a work item, its assignment, the result and its
  verification. It shows that the properties of \<^verbatim>\<open>LedgerProps\<close> speak about runs that happen, and what the ledger lets through.
\<close>

definition ex_scope :: scope_ref where
  "ex_scope = \<lparr>sc_workspace = \<lparr>wk_tenant_id = ''t'', wk_workspace_id = ''w''\<rparr>, sc_root_run_id = ''r''\<rparr>"
definition ex_user :: user_ref where "ex_user = \<lparr>ur_tenant_id = ''t'', ur_user_id = ''u''\<rparr>"
definition ex_hash :: string where "ex_hash = replicate 64 CHR ''a''"
definition ex_digest :: string where "ex_digest = ''sha256:'' @ ex_hash"
definition ex_pin :: version_pin where "ex_pin = \<lparr>vp_name = ''p'', vp_version = ''1'', vp_digest = ex_digest\<rparr>"

definition ex_write :: "string \<Rightarrow> command_kind \<Rightarrow> event_kind \<Rightarrow> int \<Rightarrow> ledger_record \<Rightarrow> ledger_write" where
  "ex_write i kind ekind expected r =
     \<lparr>lw_command = \<lparr>lc_id = i, lc_kind = kind, lc_scope = ex_scope, lc_aggregate_kind = record_kind r, lc_aggregate_id = record_id r,
        lc_expected_version = expected, lc_payload = [], lc_issued_by = ex_user, lc_issued_at = 0, lc_request_digest = ex_digest\<rparr>,
      lw_record = r,
      lw_event = \<lparr>pe_id = i, pe_scope = ex_scope, pe_aggregate_kind = record_kind r, pe_aggregate_id = record_id r, pe_kind = ekind,
        pe_ingestion_key = i, pe_correlation_id = ''c'', pe_payload = [], pe_source_owner = BOLTRIG, pe_causation_command_id = Some i,
        pe_source_sequence = None, pe_occurred_at = 0\<rparr>,
      lw_outbox = [\<lparr>oi_id = i, oi_destination = ''bus'', oi_delivery_key = CHR ''k'' # i, oi_available_at = 0\<rparr>]\<rparr>"

definition ex_rt :: "root_run_status \<Rightarrow> int \<Rightarrow> root_run" where
  "ex_rt st v = \<lparr>rr_scope = ex_scope, rr_requested_by = ex_user, rr_objective_digest = ex_digest, rr_profile = ex_pin,
     rr_policy_generation = 1, rr_status = st, rr_cancellation = None, rr_final_synthesis_digest = (if st = R_SUCCEEDED then Some ex_digest else None), rr_version = v, rr_created_at = 0\<rparr>"

definition ex_root :: "root_run_status \<Rightarrow> int \<Rightarrow> ledger_record" where
  "ex_root st v = RootRec (ex_rt st v)"

definition ex_ph :: "phase_status \<Rightarrow> int \<Rightarrow> exec_phase" where
  "ex_ph st v = \<lparr>ph_scope = ex_scope, ph_id = ''p'', ph_ordinal = 1, ph_name = ''p'', ph_objective_digest = ex_digest,
     ph_mode = READ_ONLY, ph_profile = ex_pin, ph_skills = [], ph_policy_generation = 1, ph_dependencies = [],
     ph_retry = \<lparr>rp_max_attempts = 2, rp_initial_backoff_seconds = 0, rp_max_backoff_seconds = 0\<rparr>, ph_status = st,
     ph_terminal_outcome = (if st = P_SUCCEEDED then Some \<lparr>po_code = ''ok'', po_digest = ex_digest, po_completed_at = 0\<rparr> else None), ph_version = v, ph_created_at = 0\<rparr>"

definition ex_phase :: "phase_status \<Rightarrow> int \<Rightarrow> ledger_record" where
  "ex_phase st v = PhaseRec (ex_ph st v)"

definition ex_wrk :: "string \<Rightarrow> int \<Rightarrow> work_status \<Rightarrow> int \<Rightarrow> exec_work" where
  "ex_wrk i n st v = \<lparr>wi_scope = ex_scope, wi_id = i, wi_phase_id = ''p'', wi_ordinal = n, wi_intent_digest = ex_digest,
     wi_dependencies = [], wi_parent_id = None, wi_requires_verification = True, wi_status = st, wi_version = v, wi_created_at = 0\<rparr>"

definition ex_work :: "string \<Rightarrow> int \<Rightarrow> work_status \<Rightarrow> int \<Rightarrow> ledger_record" where
  "ex_work i n st v = WorkRec (ex_wrk i n st v)"

definition ex_asg :: "assignment_status \<Rightarrow> int \<Rightarrow> exec_assignment" where
  "ex_asg st v = \<lparr>as_scope = ex_scope, as_id = ''a'', as_phase_id = ''p'', as_work_item_id = ''w'',
     as_runtime_identity_id = ''i'', as_attempt = 1, as_profile = ex_pin, as_skills = [],
     as_authority = \<lparr>ar_id = ''g'', ar_digest = ex_digest, ar_policy_generation = 1, ar_permitted_verbs = [], ar_evaluated_at = 0\<rparr>,
     as_lease = (if st = A_OFFERED then None else Some \<lparr>al_id = ''l'', al_owner = ''o'', al_claimed_at = 0, al_expires_at = 99\<rparr>),
     as_attestation_set = None, as_replaces = None, as_status = st, as_version = v, as_created_at = 0\<rparr>"

definition ex_assignment :: "assignment_status \<Rightarrow> int \<Rightarrow> ledger_record" where
  "ex_assignment st v = AssignmentRec (ex_asg st v)"

definition ex_result :: ledger_record where
  "ex_result = ResultRec \<lparr>xr_scope = ex_scope, xr_id = ''x'', xr_phase_id = ''p'', xr_work_item_id = ''w'', xr_assignment_id = ''a'',
     xr_output_digest = ex_digest, xr_status = S_SUCCEEDED, xr_evidence = [], xr_findings = [], xr_blockers = [], xr_handoffs = [],
     xr_usage = \<lparr>eu_input_tokens = 0, eu_output_tokens = 0, eu_tool_calls = 0, eu_cost_micros = 0\<rparr>, xr_completed_at = 0\<rparr>"

definition ex_verification :: ledger_record where
  "ex_verification = VerificationRec \<lparr>xv_scope = ex_scope, xv_id = ''v'', xv_phase_id = ''p'', xv_work_item_id = ''w'', xv_result_id = ''x'',
     xv_status = V_PASSED, xv_evidence_digest = ex_digest, xv_checks = [\<lparr>vc_code = ''c'', vc_passed = True, vc_evidence_ids = []\<rparr>],
     xv_verified_by = Some \<lparr>vr_kind = SYSTEM, vr_organisation_user = None, vr_system_id = Some ''s''\<rparr>, xv_created_at = 0\<rparr>"

definition ex_identity :: runtime_identity where
  "ex_identity = \<lparr>ri_id = ''i'', ri_principal = ex_user, ri_workspace = sc_workspace ex_scope, ri_generation = 1, ri_status = ACTIVE,
     ri_created_at = 0, ri_revoked_at = None\<rparr>"

definition ex_limits :: ledger_limits where
  "ex_limits = \<lparr>ll_roots = 2, ll_records = 20, ll_commands = 20, ll_events = 20, ll_outbox = 20, ll_identities = 2, ll_bindings = 2\<rparr>"

definition ex_create :: "string \<Rightarrow> command_kind \<Rightarrow> ledger_record \<Rightarrow> ledger_write" where
  "ex_create i kind r = ex_write i kind CREATED 0 r"

definition ex_move :: "string \<Rightarrow> int \<Rightarrow> ledger_record \<Rightarrow> ledger_write" where
  "ex_move i expected r = ex_write i TRANSITION_STATUS STATUS_CHANGED expected r"

text \<open>The work done and verified, then the phase and, after more work was enqueued in it, the root.\<close>

definition ex_writes :: "ledger_write list" where
  "ex_writes =
     [ex_create ''1'' CREATE_ROOT (ex_root R_PENDING 1), ex_move ''2'' 1 (ex_root R_RUNNING 2),
      ex_create ''3'' CREATE_PHASE (ex_phase P_PENDING 1), ex_move ''4'' 1 (ex_phase P_STARTING 2), ex_move ''5'' 2 (ex_phase P_RUNNING 3),
      ex_create ''6'' ENQUEUE_WORK (ex_work ''w'' 1 W_PENDING 1), ex_move ''7'' 1 (ex_work ''w'' 1 W_IN_FLIGHT 2),
      ex_create ''8'' ASSIGN_WORK (ex_assignment A_OFFERED 1), ex_move ''9'' 1 (ex_assignment A_CLAIMED 2), ex_move ''10'' 2 (ex_assignment A_RUNNING 3),
      ex_write ''11'' RECORD_RESULT RESULT_RECORDED 0 ex_result, ex_move ''12'' 3 (ex_assignment A_COMPLETED 4),
      ex_write ''13'' RECORD_VERIFICATION VERIFICATION_RECORDED 0 ex_verification,
      ex_move ''14'' 2 (ex_work ''w'' 1 W_VERIFYING 3), ex_move ''15'' 3 (ex_work ''w'' 1 W_DONE 4)]"

definition ex_more :: "ledger_write list" where
  "ex_more = [ex_move ''16'' 3 (ex_phase P_SUCCEEDED 4), ex_create ''17'' ENQUEUE_WORK (ex_work ''late'' 2 W_PENDING 1), ex_move ''18'' 2 (ex_root R_SUCCEEDED 3)]"

definition ex_ops :: "ledger_write list \<Rightarrow> ledger_op list" where
  "ex_ops ws = IdentityOp 10 ex_identity 0 # map (CommitOp 10) ws"

subsection \<open>The arguments are well formed\<close>

lemma rmap_is_ok: "(\<And>x. x \<in> set xs \<Longrightarrow> is_ok (f x)) \<Longrightarrow> is_ok (rmap f xs)"
proof (induction xs)
  case (Cons x xs)
  have "is_ok (f x)" "is_ok (rmap f xs)" using Cons by simp_all
  then show ?case by (auto simp: is_ok_conv)
qed simp

lemma dict_serialises:
  assumes "\<And>k v. (k, v) \<in> set d \<Longrightarrow> (\<exists>s. k = KStr s) \<and> is_ok (json_dumps_with esc nf frepr v)"
  shows "is_ok (json_dumps_with esc nf frepr (PDict d))"
proof -
  have "is_ok (rmap (\<lambda>(k, v). rbind (json_dumps_with esc nf frepr v) (\<lambda>s. Inr (json_string esc (key_str k) @ '':'' @ s))) (sort_key (\<lambda>(k, v). key_str k) d))"
    by (rule rmap_is_ok) (use assms in \<open>fastforce simp: is_ok_conv\<close>)
  then obtain ss where ss: "rmap (\<lambda>(k, v). rbind (json_dumps_with esc nf frepr v) (\<lambda>s. Inr (json_string esc (key_str k) @ '':'' @ s))) (sort_key (\<lambda>(k, v). key_str k) d) = Inr ss"
    by (auto simp: is_ok_conv)
  have "\<not> list_ex (\<lambda>(k, v). case k of KOther _ \<Rightarrow> True | KStr _ \<Rightarrow> False) d" using assms by (fastforce simp: list_ex_iff)
  with ss show ?thesis by simp
qed

lemma request_digest_empty: "lc_payload c = [] \<Longrightarrow> request_digest frepr (\<lambda>_. h) c = Inr (''sha256:'' @ h)"
proof -
  assume p: "lc_payload c = []"
  have "is_ok (json_dumps_default frepr (PDict
       [(KStr ''aggregate_id'', PStr (lc_aggregate_id c)),
        (KStr ''aggregate_kind'', PStr (aggregate_kind_value (lc_aggregate_kind c))),
        (KStr ''command_kind'', PStr (command_kind_value (lc_kind c))),
        (KStr ''expected_version'', PInt (lc_expected_version c)),
        (KStr ''issued_by_user_id'', PStr (ur_user_id (lc_issued_by c))),
        (KStr ''payload'', PDict (lc_payload c)),
        (KStr ''root_run_id'', PStr (sc_root_run_id (lc_scope c))),
        (KStr ''tenant_id'', PStr (sc_tenant_id (lc_scope c))),
        (KStr ''workspace_id'', PStr (sc_workspace_id (lc_scope c)))]))"
    by (rule dict_serialises) (auto simp: p)
  then show ?thesis unfolding request_digest_def by (auto simp: is_ok_conv)
qed

lemma ex_names: "list_all ident_ok [''t'', ''w'', ''r'', ''u'', ''p'', ''1'', ''c'', ''bus'', ''ok'', ''a'', ''i'', ''g'', ''l'', ''o'', ''x'', ''v'', ''s'', ''late'']"
  by code_simp

lemmas ex_name [simp] = ex_names[simplified]

lemma ex_digest_ok [simp]: "sha256_digest ex_digest"
  by code_simp

lemma ex_bus [simp]: "port_identifier ''bus''"
  by code_simp

lemma ex_pname [simp]: "bounded_text 512 ''p''"
  by code_simp

lemma ex_verbs [simp]: "canonical_concrete_verbs (\<lambda>x. x) [] = Inr []"
  by code_simp

lemma ex_positive [simp]: "positive v \<longleftrightarrow> 1 \<le> v \<and> v \<le> 9223372036854775807" "non_negative v \<longleftrightarrow> 0 \<le> v \<and> v \<le> 9223372036854775807"
  by (simp_all add: positive_def non_negative_def MAX_SIGNED_BIGINT_def)

lemma ex_scope_ok [simp]: "scope_ok ex_scope" "user_ok ex_user" "ur_tenant_id ex_user = ''t''" "sc_tenant_id ex_scope = ''t''" "pin_ok ex_pin"
  "workspace_ok (sc_workspace ex_scope)" "wk_tenant_id (sc_workspace ex_scope) = ''t''"
  by (simp_all add: scope_ok_def workspace_ok_def ex_scope_def user_ok_def ex_user_def sc_tenant_id_def pin_ok_def ex_pin_def)

lemma ex_root_ok [simp]: "st \<in> {R_PENDING, R_RUNNING, R_SUCCEEDED} \<Longrightarrow> positive v \<Longrightarrow> record_ok (\<lambda>x. x) (ex_root st v)"
  by (auto simp: ex_root_def ex_rt_def root_run_ok_def)

lemma ex_phase_ok [simp]: "st \<in> {P_PENDING, P_STARTING, P_RUNNING, P_SUCCEEDED} \<Longrightarrow> positive v \<Longrightarrow> record_ok (\<lambda>x. x) (ex_phase st v)"
  by (auto simp: ex_phase_def ex_ph_def phase_ok_def skill_pins_ok_def identifier_tuple_def retry_ok_def phase_outcome_ok_def)

lemma ex_work_ok [simp]: "ident_ok i \<Longrightarrow> positive n \<Longrightarrow> positive v \<Longrightarrow> record_ok (\<lambda>x. x) (ex_work i n st v)"
  by (simp add: ex_work_def ex_wrk_def work_ok_def identifier_tuple_def)

lemma ex_assignment_ok [simp]: "positive v \<Longrightarrow> record_ok (\<lambda>x. x) (ex_assignment st v)"
  by (auto simp: ex_assignment_def ex_asg_def assignment_ok_def skill_pins_ok_def authority_ok_def lease_ok_def)

lemma ex_result_ok [simp]: "record_ok (\<lambda>x. x) ex_result" "record_ok (\<lambda>x. x) ex_verification"
  by (simp_all add: ex_result_def result_ok_def usage_ok_def ex_verification_def verification_ok_def check_ok_def verifier_ok_def unique_identifiers_def
    MAX_COLLECTION_ITEMS_def)

lemma ex_identity_ok [simp]: "identity_ok ex_identity"
  by (simp add: identity_ok_def ex_identity_def)

lemma ex_record_scope [simp]: "record_scope (ex_root st v) = ex_scope" "record_scope (ex_phase ps v) = ex_scope" "record_scope (ex_work i n ws v) = ex_scope"
  "record_scope (ex_assignment as v) = ex_scope" "record_scope ex_result = ex_scope" "record_scope ex_verification = ex_scope"
  by (simp_all add: ex_root_def ex_rt_def ex_phase_def ex_ph_def ex_work_def ex_wrk_def ex_assignment_def ex_asg_def ex_result_def ex_verification_def)

lemma ex_record_id [simp]: "record_id (ex_root st v) = ''r''" "record_id (ex_phase ps v) = ''p''" "record_id (ex_work i n ws v) = i"
  "record_id (ex_assignment as v) = ''a''" "record_id ex_result = ''x''" "record_id ex_verification = ''v''"
  by (simp_all add: ex_root_def ex_rt_def ex_phase_def ex_ph_def ex_work_def ex_wrk_def ex_assignment_def ex_asg_def ex_result_def ex_verification_def ex_scope_def)

definition ex_id :: "string \<Rightarrow> bool" where
  "ex_id i \<longleftrightarrow> ident_ok i \<and> port_identifier i \<and> ident_ok (CHR ''k'' # i) \<and> port_identifier (CHR ''k'' # i)"

lemma ex_ids: "list_all ex_id [''1'', ''2'', ''3'', ''4'', ''5'', ''6'', ''7'', ''8'', ''9'', ''10'', ''11'', ''12'', ''13'', ''14'', ''15'', ''16'', ''17'', ''18'']"
  by code_simp

lemmas ex_id [simp] = ex_ids[simplified]

lemma ex_payload [simp]: "command_payload_ok frepr (\<lambda>x. x) []" "event_payload_ok frepr (\<lambda>x. x) []"
proof -
  have "validate_json (\<lambda>x. x) 0 0 (PDict []) = Inr 1"
    by (simp add: validate_json.simps MAX_TOTAL_JSON_NODES_def MAX_JSON_DEPTH_def MAX_COLLECTION_ITEMS_def)
  then have "payload_ok frepr (\<lambda>x. x) []" by (simp add: payload_ok_def payload_of_mapping_def utf8_len_def MAX_CANONICAL_BYTES_def)
  then show "command_payload_ok frepr (\<lambda>x. x) []" "event_payload_ok frepr (\<lambda>x. x) []"
    by (simp_all add: command_payload_ok_def event_payload_ok_def event_document_ok_def dict_get_def)
qed

lemma ex_write_ok:
  assumes "ex_id i" and "non_negative expected" and "record_ok (\<lambda>x. x) r" and "record_scope r = ex_scope" and "ident_ok (record_id r)"
  shows "write_ok frepr (\<lambda>_. ex_hash) (\<lambda>x. x) (ex_write i kind ekind expected r)"
  using assms by (simp add: write_ok_def ex_write_def command_ok_def request_digest_empty ex_digest_def event_ok_def intents_ok_def intent_ok_def
    MAX_OUTBOX_DESTINATIONS_def ex_id_def)

lemma ex_ok: "list_all (op_ok frepr (\<lambda>_. ex_hash) (\<lambda>x. x)) (ex_ops (ex_writes @ ex_more))"
  by (simp add: ex_ops_def ex_writes_def ex_more_def ex_create_def ex_move_def ex_write_ok)

subsection \<open>Evaluating a run\<close>

text \<open>The part of the state that validation reads.\<close>

definition skeleton :: "ledger_state \<Rightarrow> ledger_state" where
  "skeleton s = empty_ledger\<lparr>ls_roots := ls_roots s, ls_phases := ls_phases s, ls_work_items := ls_work_items s, ls_assignments := ls_assignments s,
     ls_results := ls_results s, ls_verifications := ls_verifications s, ls_versions := ls_versions s, ls_identities := ls_identities s\<rparr>"

lemma skeleton_sel [simp]:
  "ls_roots (skeleton s) = ls_roots s" "ls_phases (skeleton s) = ls_phases s" "ls_work_items (skeleton s) = ls_work_items s"
  "ls_assignments (skeleton s) = ls_assignments s" "ls_results (skeleton s) = ls_results s" "ls_verifications (skeleton s) = ls_verifications s"
  "ls_versions (skeleton s) = ls_versions s" "ls_identities (skeleton s) = ls_identities s"
  by (simp_all add: skeleton_def)

lemma skeleton_eq: "skeleton s = skeleton s' \<longleftrightarrow> tables s = tables s' \<and> ls_identities s = ls_identities s'"
proof
  assume "skeleton s = skeleton s'"
  from arg_cong[OF this, of "\<lambda>x. (tables x, ls_identities x)"] show "tables s = tables s' \<and> ls_identities s = ls_identities s'"
    by (simp add: tables_def)
qed (simp add: skeleton_def tables_def)

lemma skeleton_put: "skeleton (put_record s r v) = put_record (skeleton s) r v"
  by (cases r) (simp_all add: skeleton_def put_record_def Let_def)

lemma skeleton_get: "get_record (skeleton s) kind scope i = get_record s kind scope i"
  by (cases kind) (simp_all add: get_record_def Let_def)

lemma skeleton_version: "get_version (skeleton s) kind scope i = get_version s kind scope i"
  unfolding get_version_def skeleton_get skeleton_sel ..

lemma skeleton_done: "dependencies_done (skeleton s) w = dependencies_done s w"
  unfolding dependencies_done_def skeleton_sel ..

lemma skeleton_create: "validate_create (skeleton s) r = validate_create s r"
  unfolding validate_create_def root_for_def validate_new_phase_def validate_new_work_def validate_new_assignment_def validate_attempt_def
    validate_new_result_def validate_new_verification_def skeleton_done skeleton_sel ..

lemma skeleton_context: "validate_transition_context (skeleton s) c r now = validate_transition_context s c r now"
proof -
  have p: "validate_phase_transition (skeleton s) t = validate_phase_transition s t" for t
    unfolding validate_phase_transition_def skeleton_sel ..
  have w: "validate_work_transition (skeleton s) t = validate_work_transition s t" for t
    unfolding validate_work_transition_def work_has_verified_result_def skeleton_done skeleton_sel ..
  show ?thesis by (cases "(s, c, r, now)" rule: validate_transition_context.cases) (simp_all add: p w)
qed

lemma skeleton_write: "validate_write (skeleton s) w now = validate_write s w now"
  unfolding validate_write_def validate_transition_def validate_root_terminal_def root_for_def skeleton_get skeleton_version skeleton_create skeleton_context
    skeleton_sel ..

definition ex_key :: scope_key where
  "ex_key = (''t'', ''w'', ''r'')"

lemma ex_scope_key [simp]: "scope_key ex_scope = ex_key"
  by (simp add: scope_key_def ex_scope_def ex_key_def sc_tenant_id_def sc_workspace_id_def)

text \<open>A state that knows of no other commands than \<open>ids\<close>.\<close>

definition used :: "ledger_state \<Rightarrow> string list \<Rightarrow> bool" where
  "used s ids \<longleftrightarrow>
     (\<forall>i. i \<notin> set ids \<longrightarrow> map_of (ls_commands s) (ex_key, i) = None \<and> map_of (ls_events_by_id s) (ex_key, i) = None \<and>
        map_of (ls_events_by_ingestion s) (ex_key, BOLTRIG, i) = None \<and> map_of (ls_outbox s) (ex_key, i) = None \<and>
        map_of (ls_outbox_delivery_keys s) (ex_key, CHR ''k'' # i) = None) \<and>
     length (ls_commands s) \<le> length ids \<and> event_count s \<le> length ids \<and> length (ls_outbox s) \<le> length ids \<and>
     0 \<le> last_sequence s ex_key \<and> last_sequence s ex_key \<le> int (length ids) \<and> record_count s \<le> length ids \<and> length (ls_roots s) \<le> 1 \<and>
     fst ` set (ls_roots s) \<subseteq> {ex_key}"

lemma ex_materialize:
  assumes "used s ids" and "length ids < 18" and "ex_id i"
  shows "\<exists>e. materialize_event s (append_of (ex_write i kind ekind expected r)) 10 = Inr (e, [outbox_of_intent e 10 (hd (lw_outbox (ex_write i kind ekind expected r)))]) \<and>
    re_scope e = ex_scope \<and> re_pending e = lw_event (ex_write i kind ekind expected r) \<and> re_sequence e = last_sequence s ex_key + 1"
proof -
  let ?e = "\<lparr>re_scope = ex_scope, re_pending = lw_event (ex_write i kind ekind expected r), re_sequence = last_sequence s ex_key + 1, re_recorded_at = 10\<rparr>"
  have ne: "CHR ''k'' # i \<noteq> i" by (metis impossible_Cons order.refl)
  have "recorded_ok ?e" using assms by (simp add: recorded_ok_def used_def ex_write_def)
  moreover have "outbox_ok (outbox_of_intent ?e 10 (hd (lw_outbox (ex_write i kind ekind expected r))))"
    using assms ne by (simp add: outbox_ok_def outbox_times_ok_def outbox_of_intent_def ex_write_def ex_id_def MAX_OUTBOX_ATTEMPTS_def)
  moreover have "last_sequence s ex_key + 1 \<le> MAX_SIGNED_BIGINT" using assms by (simp add: used_def MAX_SIGNED_BIGINT_def)
  ultimately have "materialize_event s (append_of (ex_write i kind ekind expected r)) 10 = Inr (?e, [outbox_of_intent ?e 10 (hd (lw_outbox (ex_write i kind ekind expected r)))])"
    by (simp add: materialize_event_def Let_def append_of_def ex_write_def)
  then show ?thesis by auto
qed

lemma ex_apply:
  assumes u: "used s ids" and n: "length ids < 18" and i: "ex_id i" "i \<notin> set ids"
    and v: "validate_write s (ex_write i kind ekind expected r) 10 = (None, previous)"
    and sc: "record_scope r = ex_scope"
  shows "used (ledger_apply ex_limits (CommitOp 10 (ex_write i kind ekind expected r)) s) (i # ids) \<and>
    skeleton (ledger_apply ex_limits (CommitOp 10 (ex_write i kind ekind expected r)) s) = put_record (skeleton s) r (previous + 1)"
proof -
  let ?w = "ex_write i kind ekind expected r"
  have root_kind: "get_record s ROOT_RUN (record_scope r) (record_id r) \<noteq> None \<or> ls_roots s = []"
    using u sc by (cases "ls_roots s") (auto simp: used_def get_record_def)
  obtain e where m: "materialize_event s (append_of ?w) 10 = Inr (e, [outbox_of_intent e 10 (hd (lw_outbox ?w))])"
    and e: "re_scope e = ex_scope" "re_pending e = lw_event ?w" "re_sequence e = last_sequence s ex_key + 1"
    using ex_materialize[OF u n i(1)] by blast
  have new: "replay_outcome s ?w = None" using u i(2) by (simp add: replay_outcome_def command_key_def ex_write_def used_def)
  have fits: "ledger_write_fits ex_limits s ?w" using u n root_kind sc
    by (auto simp: ledger_write_fits_def event_append_fits_def used_def ex_limits_def ex_write_def Let_def)
  have "event_preflight s (append_of ?w) = None" using u i(2)
    by (simp add: event_preflight_def Let_def append_of_def ex_write_def ingestion_of_def used_def)
  then have ref: "commit_refusal ex_limits 10 ?w s = None" using v fits by (simp add: commit_refusal_def)
  let ?s1 = "put_record s r (previous + 1)"
  define t where "t = ledger_apply ex_limits (CommitOp 10 ?w) s"
  obtain out where s': "t = put_command ?w out (record_event ?s1 (append_of ?w) e [outbox_of_intent e 10 (hd (lw_outbox ?w))])"
    using new ref m v by (simp add: t_def commit_def Let_def ex_write_def)
  have sk: "skeleton t = put_record (skeleton s) r (previous + 1)"
    unfolding skeleton_put[symmetric] skeleton_eq s' by simp
  have roots: "length (ls_roots ?s1) \<le> 1"
    using u root_kind sc by (cases r) (auto simp: used_def length_update get_record_def)
  have rk: "fst ` set (ls_roots ?s1) \<subseteq> {ex_key}"
    using u sc by (cases r) (auto simp: used_def dom_update)
  have cnt: "record_count t \<le> Suc (length ids)" "length (ls_roots t) \<le> 1" "fst ` set (ls_roots t) \<subseteq> {ex_key}"
    using rk record_count_put[of s r "previous + 1"] u roots by (simp_all add: s' record_count_def used_def)
  have "event_count (put_command w o1 x) = event_count x" "event_count (put_record x r p) = event_count x" for w o1 x p by (simp_all add: event_count_def)
  then have "event_count t = Suc (event_count s)" by (simp add: s' event_count_record)
  then have evs: "event_count t \<le> Suc (length ids)" using u by (simp add: used_def)
  have lens: "length (ls_commands t) \<le> Suc (length ids)" "length (ls_outbox t) \<le> Suc (length ids)"
    "0 \<le> last_sequence t ex_key" "last_sequence t ex_key \<le> int (Suc (length ids))"
    using u length_update_le le_trans
    by (auto simp: s' put_command_def used_def length_update record_event_def Let_def last_sequence_def update_conv' e)
  have keys: "map_of (ls_commands t) (ex_key, j) = None \<and> map_of (ls_events_by_id t) (ex_key, j) = None \<and>
        map_of (ls_events_by_ingestion t) (ex_key, BOLTRIG, j) = None \<and> map_of (ls_outbox t) (ex_key, j) = None \<and>
        map_of (ls_outbox_delivery_keys t) (ex_key, CHR ''k'' # j) = None" if "j \<notin> set (i # ids)" for j
    using u that by (simp add: s' put_command_def command_key_def record_event_def Let_def update_conv' e used_def ex_write_def outbox_of_intent_def)
  show ?thesis using sk cnt evs lens keys unfolding used_def t_def[symmetric] by simp
qed

text \<open>The same writes on the skeleton alone.\<close>

fun sk_run :: "ledger_state \<Rightarrow> ledger_write list \<Rightarrow> ledger_state option" where
  "sk_run s [] = Some s"
| "sk_run s (w # ws) =
     (case validate_write s w 10 of
        (None, previous) \<Rightarrow> sk_run (put_record s (lw_record w) (previous + 1)) ws
      | _ \<Rightarrow> None)"

definition ex_form :: "ledger_write \<Rightarrow> bool" where
  "ex_form w \<longleftrightarrow> ex_id (lc_id (lw_command w)) \<and> record_scope (lw_record w) = ex_scope \<and>
     w = ex_write (lc_id (lw_command w)) (lc_kind (lw_command w)) (pe_kind (lw_event w)) (lc_expected_version (lw_command w)) (lw_record w)"

lemma ex_form_write: "ex_id i \<Longrightarrow> record_scope r = ex_scope \<Longrightarrow> ex_form (ex_write i kind ekind expected r)"
  by (simp add: ex_form_def ex_write_def)

lemma ex_run:
  assumes "used s ids" and "length ids + length ws \<le> 18" and "list_all ex_form ws"
    and "distinct (map (lc_id \<circ> lw_command) ws @ ids)" and "sk_run (skeleton s) ws = Some sk"
  shows "skeleton (ledger_steps ex_limits (map (CommitOp 10) ws) s) = sk"
  using assms
proof (induction ws arbitrary: s ids)
  case (Cons w ws)
  let ?s = "ledger_apply ex_limits (CommitOp 10 w) s"
  obtain i kind ekind expected where w: "w = ex_write i kind ekind expected (lw_record w)" and i: "ex_id i" "i = lc_id (lw_command w)"
    and sc: "record_scope (lw_record w) = ex_scope"
    using Cons.prems(3) by (auto simp: ex_form_def)
  obtain p where v: "validate_write s w 10 = (None, p)" and r: "sk_run (put_record (skeleton s) (lw_record w) (p + 1)) ws = Some sk"
    using Cons.prems(5) by (auto simp: skeleton_write split: prod.splits option.splits)
  have "used ?s (i # ids) \<and> skeleton ?s = put_record (skeleton s) (lw_record w) (p + 1)"
    using ex_apply[OF Cons.prems(1) _ i(1), of kind ekind expected "lw_record w" p, folded w] Cons.prems(2,4) i(2) v sc by simp
  then have "skeleton (ledger_steps ex_limits (map (CommitOp 10) ws) ?s) = sk"
    using Cons.prems r i by (intro Cons.IH[of _ "i # ids"]) auto
  then show ?case by simp
qed simp

definition ex_start :: ledger_state where
  "ex_start = empty_ledger\<lparr>ls_identities := [((workspace_key (sc_workspace ex_scope), ''i''), ex_identity)]\<rparr>"

lemma ex_start: "ledger_run l (ex_ops ws) = ledger_steps l (map (CommitOp 10) ws) (ledger_apply l (IdentityOp 10 ex_identity 0) empty_ledger)"
  by (simp add: ledger_run_def ex_ops_def)

lemma ex_identity_step: "ledger_apply ex_limits (IdentityOp 10 ex_identity 0) empty_ledger = ex_start"
  by (simp add: write_runtime_identity_def write_runtime_identity_locked_def ex_identity_def identity_key_def empty_ledger_def ex_start_def
    identity_fits_def ex_limits_def valid_new_identity_def Let_def)

lemma ex_start_used: "used ex_start []" "skeleton ex_start = ex_start"
  by (simp_all add: used_def ex_start_def empty_ledger_def event_count_def last_sequence_def record_count_def skeleton_def)

lemma ex_runs:
  assumes "ws = take n (ex_writes @ ex_more)" and "sk_run ex_start ws = Some sk"
  shows "skeleton (ledger_run ex_limits (ex_ops ws)) = sk"
proof -
  let ?all = "ex_writes @ ex_more"
  have len: "length ?all = 18" by (simp add: ex_writes_def ex_more_def)
  have all: "list_all ex_form ?all" by (simp add: ex_writes_def ex_more_def ex_create_def ex_move_def ex_form_write)
  have dis: "distinct (map (lc_id \<circ> lw_command) ?all)" by (simp add: ex_writes_def ex_more_def ex_create_def ex_move_def ex_write_def)
  have "list_all ex_form ws" using all unfolding assms(1) list_all_iff by (meson in_set_takeD)
  moreover have "distinct (map (lc_id \<circ> lw_command) ws)" using dis unfolding assms(1) take_map[symmetric] by (rule distinct_take)
  ultimately show ?thesis unfolding ex_start ex_identity_step
    using ex_run[OF ex_start_used(1), of ws sk] assms(2) len by (simp add: ex_start_used assms(1))
qed

lemma ex_run_ok: "list_all (op_ok frepr (\<lambda>_. ex_hash) (\<lambda>x. x)) (ex_ops (take n (ex_writes @ ex_more)))"
  using ex_ok[of frepr] by (auto simp: ex_ops_def list_all_iff dest: in_set_takeD)

lemma ex_vals:
  assumes "ws = take n (ex_writes @ ex_more)" and "sk_run ex_start ws = Some sk"
  shows "vals (ls_work_items (ledger_run ex_limits (ex_ops ws))) = vals (ls_work_items sk)"
    and "vals (ls_assignments (ledger_run ex_limits (ex_ops ws))) = vals (ls_assignments sk)"
    and "vals (ls_phases (ledger_run ex_limits (ex_ops ws))) = vals (ls_phases sk)"
    and "vals (ls_roots (ledger_run ex_limits (ex_ops ws))) = vals (ls_roots sk)"
  using ex_runs[OF assms] by (metis skeleton_sel)+

lemma ex_run_15: "map_option (\<lambda>s. (map snd (ls_phases s), map snd (ls_work_items s), map snd (ls_assignments s))) (sk_run ex_start (take 15 (ex_writes @ ex_more))) =
    Some ([ex_ph P_RUNNING 3], [ex_wrk ''w'' 1 W_DONE 4], [ex_asg A_COMPLETED 4])"
  by code_simp

lemma ex_run_10: "map_option (\<lambda>s. map snd (ls_assignments s)) (sk_run ex_start (take 10 (ex_writes @ ex_more))) = Some [ex_asg A_RUNNING 3]"
  by code_simp

lemma ex_run_18: "map_option (\<lambda>s. (map snd (ls_roots s), map snd (ls_work_items s))) (sk_run ex_start (take 18 (ex_writes @ ex_more))) =
    Some ([ex_rt R_SUCCEEDED 3], [ex_wrk ''w'' 1 W_DONE 4, ex_wrk ''late'' 2 W_PENDING 1])"
  by code_simp

subsection \<open>The properties at this run\<close>

definition ex_done :: "ledger_op list" where
  "ex_done = ex_ops (take 15 (ex_writes @ ex_more))"

definition ex_running :: "ledger_op list" where
  "ex_running = ex_ops (take 10 (ex_writes @ ex_more))"

definition ex_frepr :: "rat \<Rightarrow> string" where
  "ex_frepr r = []"

lemma ex_done_ok: "list_all (op_ok ex_frepr (\<lambda>_. ex_hash) (\<lambda>x. x)) ex_done" "list_all (op_ok ex_frepr (\<lambda>_. ex_hash) (\<lambda>x. x)) ex_running"
  unfolding ex_done_def ex_running_def by (rule ex_run_ok)+

lemma vals_listed: "map snd d = xs \<Longrightarrow> vals d = set xs"
  by (simp add: vals_def flip: set_map del: set_map_snd)

lemma ex_done_state:
  "vals (ls_phases (ledger_run ex_limits ex_done)) = {ex_ph P_RUNNING 3}" "vals (ls_work_items (ledger_run ex_limits ex_done)) = {ex_wrk ''w'' 1 W_DONE 4}"
  "vals (ls_assignments (ledger_run ex_limits ex_done)) = {ex_asg A_COMPLETED 4}"
proof -
  obtain sk where sk: "sk_run ex_start (take 15 (ex_writes @ ex_more)) = Some sk" and t: "map snd (ls_phases sk) = [ex_ph P_RUNNING 3]"
    "map snd (ls_work_items sk) = [ex_wrk ''w'' 1 W_DONE 4]" "map snd (ls_assignments sk) = [ex_asg A_COMPLETED 4]"
    using ex_run_15 by auto
  note v = ex_vals[OF refl sk, folded ex_done_def]
  show "vals (ls_phases (ledger_run ex_limits ex_done)) = {ex_ph P_RUNNING 3}" "vals (ls_work_items (ledger_run ex_limits ex_done)) = {ex_wrk ''w'' 1 W_DONE 4}"
    "vals (ls_assignments (ledger_run ex_limits ex_done)) = {ex_asg A_COMPLETED 4}"
    by (simp_all add: v t[THEN vals_listed])
qed

lemma ex_running_state: "vals (ls_assignments (ledger_run ex_limits ex_running)) = {ex_asg A_RUNNING 3}"
proof -
  obtain sk where sk: "sk_run ex_start (take 10 (ex_writes @ ex_more)) = Some sk" and t: "map snd (ls_assignments sk) = [ex_asg A_RUNNING 3]"
    using ex_run_10 by auto
  show ?thesis by (simp add: ex_vals(2)[OF refl sk, folded ex_running_def] t[THEN vals_listed])
qed

theorem done_work_is_backed_by_a_result_witness:
  "list_all (op_ok ex_frepr (\<lambda>_. ex_hash) (\<lambda>x. x)) ex_done \<and> ex_wrk ''w'' 1 W_DONE 4 \<in> vals (ls_work_items (ledger_run ex_limits ex_done)) \<and>
   backed (ledger_run ex_limits ex_done) (ex_wrk ''w'' 1 W_DONE 4)"
  using done_work_is_backed_by_a_result[OF ex_done_ok(1), of "ex_wrk ''w'' 1 W_DONE 4" ex_limits] ex_done_ok(1) ex_done_state(2)
  by (simp add: ex_wrk_def)

theorem one_live_assignment_per_work_item_witness:
  "ex_asg A_RUNNING 3 \<in> vals (ls_assignments (ledger_run ex_limits ex_running)) \<and> live (ex_asg A_RUNNING 3) \<and>
   {a \<in> vals (ls_assignments (ledger_run ex_limits ex_running)). same_work a (ex_asg A_RUNNING 3) \<and> live a} = {ex_asg A_RUNNING 3}"
proof -
  have m: "ex_asg A_RUNNING 3 \<in> vals (ls_assignments (ledger_run ex_limits ex_running))" and l: "live (ex_asg A_RUNNING 3)"
    by (simp_all add: ex_running_state live_def live_assignments_def ex_asg_def)
  have "a = ex_asg A_RUNNING 3" if "a \<in> vals (ls_assignments (ledger_run ex_limits ex_running))" "same_work a (ex_asg A_RUNNING 3)" "live a" for a
    by (rule one_live_assignment_per_work_item[OF ex_done_ok(2) that(1) m that(2,3) l])
  moreover have "same_work (ex_asg A_RUNNING 3) (ex_asg A_RUNNING 3)" by (simp add: same_work_def)
  ultimately show ?thesis using m l by blast
qed

theorem attempts_stay_within_the_retry_policy_witness:
  "ex_ph P_RUNNING 3 \<in> vals (ls_phases (ledger_run ex_limits ex_done)) \<and>
   int (card {a \<in> vals (ls_assignments (ledger_run ex_limits ex_done)). as_scope a = ex_scope \<and> as_work_item_id a = ''w''}) \<le> 2"
  using attempts_stay_within_the_retry_policy[OF ex_done_ok(1), of "ex_wrk ''w'' 1 W_DONE 4" ex_limits "ex_ph P_RUNNING 3"] ex_done_state(1,2)
  by (simp add: ex_wrk_def ex_ph_def)

theorem every_event_is_queued_for_delivery_witness:
  "list_all (op_ok ex_frepr (\<lambda>_. ex_hash) (\<lambda>x. x)) ex_done \<and> announced (ledger_run ex_limits ex_done)"
  using every_event_is_queued_for_delivery[OF ex_done_ok(1)] ex_done_ok(1) by simp

lemma ledger_stays_within_its_limits_example:
  "list_all (op_ok ex_frepr (\<lambda>_. ex_hash) (\<lambda>x. x)) ex_done \<and> within_limits ex_limits (ledger_run ex_limits ex_done)"
  using ledger_stays_within_its_limits[OF ex_done_ok(1)] ex_done_ok(1) by simp

definition ex_first :: ledger_write where
  "ex_first = ex_create ''1'' CREATE_ROOT (ex_root R_PENDING 1)"

definition ex_rival :: ledger_write where
  "ex_rival = ex_create ''2'' CREATE_ROOT (ex_root R_PENDING 1)"

text \<open>The outcome of the first commit, and of a second one that expects the same version.\<close>

definition ex_outcome :: "ledger_write \<Rightarrow> mutation_status \<Rightarrow> int \<Rightarrow> int option \<Rightarrow> mutation_outcome" where
  "ex_outcome w status previous resulting = mutation_outcome_of w status (Some previous) resulting"

lemma ex_first_commit: "fst (commit ex_limits 10 ex_first empty_ledger) = Inr (ex_outcome ex_first M_APPLIED 0 (Some 1))"
  by code_simp

lemma ex_rival_commit: "fst (commit ex_limits 10 ex_rival (snd (commit ex_limits 10 ex_first empty_ledger))) = Inr (ex_outcome ex_rival M_CONFLICT 1 None)"
  by code_simp

lemma ex_first_ok: "write_ok ex_frepr (\<lambda>_. ex_hash) (\<lambda>x. x) ex_first"
  by (simp add: ex_first_def ex_create_def ex_write_ok)

theorem expected_version_is_spent_once_witness:
  "mo_resulting_version (ex_outcome ex_first M_APPLIED 0 (Some 1)) = Some 1 \<and> mo_status (ex_outcome ex_rival M_CONFLICT 1 None) \<noteq> M_APPLIED \<and>
   lc_expected_version (lw_command ex_rival) = lc_expected_version (lw_command ex_first)"
proof -
  have r: "ledger_run ex_limits [] = empty_ledger" "ledger_steps ex_limits [] s = s" for s by (simp_all add: ledger_run_def)
  have e: "lc_expected_version (lw_command ex_first) = 0" "lc_expected_version (lw_command ex_rival) = 0" "lc_scope (lw_command ex_rival) = lc_scope (lw_command ex_first)"
    "lc_aggregate_kind (lw_command ex_rival) = lc_aggregate_kind (lw_command ex_first)" "lc_aggregate_id (lw_command ex_rival) = lc_aggregate_id (lw_command ex_first)"
    by (simp_all add: ex_first_def ex_rival_def ex_create_def ex_write_def)
  have a: "mo_status (ex_outcome ex_first M_APPLIED 0 (Some 1)) = M_APPLIED" by (simp add: ex_outcome_def mutation_outcome_of_def Let_def)
  show ?thesis
    using expected_version_is_spent_once[of ex_frepr "\<lambda>_. ex_hash" "\<lambda>x. x" "[]" "[]" ex_first ex_limits 10 "ex_outcome ex_first M_APPLIED 0 (Some 1)"
      ex_rival 10 "ex_outcome ex_rival M_CONFLICT 1 None"] ex_first_ok ex_first_commit ex_rival_commit r e a
    by simp
qed

theorem committed_write_is_replayed_witness:
  "commit ex_limits 20 ex_first (ledger_steps ex_limits [IdentityOp 10 ex_identity 0] (snd (commit ex_limits 10 ex_first empty_ledger))) =
   (Inr ((ex_outcome ex_first M_APPLIED 0 (Some 1))\<lparr>mo_status := M_REPLAYED\<rparr>),
    ledger_steps ex_limits [IdentityOp 10 ex_identity 0] (snd (commit ex_limits 10 ex_first empty_ledger)))"
proof (rule committed_write_is_replayed)
  show "map_of (ls_commands empty_ledger) (command_key ex_first) = None" "length (ls_commands empty_ledger) < ll_commands ex_limits"
    by (simp_all add: empty_ledger_def ex_limits_def)
  show "commit ex_limits 10 ex_first empty_ledger = (Inr (ex_outcome ex_first M_APPLIED 0 (Some 1)), snd (commit ex_limits 10 ex_first empty_ledger))"
    using ex_first_commit by (simp add: prod_eq_iff)
qed

subsection \<open>What the ledger lets through\<close>

text \<open>
  A root run can succeed with work undone: \<^verbatim>\<open>_validate_new_work\<close> does not look at the status of the phase, so work can be
  enqueued in a phase that has succeeded, and \<^verbatim>\<open>_validate_root_terminal\<close> looks at the phases only.
\<close>

lemma root_succeeds_with_work_undone:
  "ex_rt R_SUCCEEDED 3 \<in> vals (ls_roots (ledger_run ex_limits (ex_ops (ex_writes @ ex_more)))) \<and>
   ex_wrk ''late'' 2 W_PENDING 1 \<in> vals (ls_work_items (ledger_run ex_limits (ex_ops (ex_writes @ ex_more))))"
proof -
  have all: "take 18 (ex_writes @ ex_more) = ex_writes @ ex_more" by (simp add: ex_writes_def ex_more_def)
  obtain sk where sk: "sk_run ex_start (ex_writes @ ex_more) = Some sk" and t: "map snd (ls_roots sk) = [ex_rt R_SUCCEEDED 3]"
    "map snd (ls_work_items sk) = [ex_wrk ''w'' 1 W_DONE 4, ex_wrk ''late'' 2 W_PENDING 1]"
    using ex_run_18 unfolding all by auto
  show ?thesis by (simp add: ex_vals(1,4)[OF all[symmetric] sk] t[THEN vals_listed])
qed

text \<open>
  The port accepts an outbox id with a soft hyphen (U+00AD); the record it becomes does not. The constructor of the outbox record
  then raises inside \<^verbatim>\<open>commit\<close>, where every other bad write is answered with a status.
\<close>

definition ex_soft :: ledger_write where
  "ex_soft = ex_first\<lparr>lw_outbox := [\<lparr>oi_id = [CHR ''a'', char_of (173 :: nat), CHR ''b''], oi_destination = ''bus'', oi_delivery_key = ''d'', oi_available_at = 0\<rparr>]\<rparr>"

lemma soft_hyphen_raises_in_commit:
  "intents_ok (lw_outbox ex_soft) \<and> commit ex_limits 10 ex_soft empty_ledger = (Inl LedgerValueError, empty_ledger)"
proof
  show "intents_ok (lw_outbox ex_soft)" by code_simp
  show "commit ex_limits 10 ex_soft empty_ledger = (Inl LedgerValueError, empty_ledger)" by code_simp
qed

end
