(* ===== verification/AgentStore.thy ===== *)
theory AgentStore
  imports Context "HOL-Library.AList" "HOL-Library.Product_Lexorder"
begin

text \<open>
  Durable named agents and their mailboxes: the records of \<^verbatim>\<open>boltrig/models/agent_comms.py\<close> and the in-memory store,
  \<^verbatim>\<open>boltrig/store/agent_turn_memory.py\<close> (the registry of agents and the scheduler that gives each agent one turn at a time)
  and \<^verbatim>\<open>agent_message_memory.py\<close> (messages, their deliveries, sessions and summaries), joined by \<^verbatim>\<open>agent_mailbox_memory.py\<close>.

  A dictionary is an association list with one entry per key, in insertion order. Every operation holds the lock of the
  mailbox and does not await, so it is one step: it takes the reading of its clock and the state and returns its outcome and
  the next state. An exception is \<open>Inl\<close>, with the state as the raise leaves it. Lease tokens are drawn by the caller of an
  operation (\<^verbatim>\<open>uuid4().hex\<close> in the source). Durations are whole seconds. A \<^verbatim>\<open>ValueError\<close> of a constructor carries the label of
  the field it names; no code reads the text.
\<close>

subsection \<open>Records\<close>

datatype agent_error = AgentValueError string | AgentKeyError | AgentRuntimeError string

datatype agent_message_kind = ASK | TELL | REPLY

datatype agent_delivery_status = DPENDING | DIN_FLIGHT | DDELIVERED | DFAILED

datatype agent_turn_lane = INTERACTIVE | PEER | BACKGROUND

definition MAX_AGENT_MESSAGE_BYTES :: nat where "MAX_AGENT_MESSAGE_BYTES = 32 * 1024"
definition MAX_AGENT_SUMMARY_BYTES :: nat where "MAX_AGENT_SUMMARY_BYTES = 16 * 1024"

text \<open>\<^verbatim>\<open>_required\<close> and \<^verbatim>\<open>_address\<close>: what they accept.\<close>

definition required_text :: "string \<Rightarrow> nat \<Rightarrow> bool" where
  "required_text value maximum \<longleftrightarrow> strip value \<noteq> [] \<and> length value \<le> maximum"

definition address_head :: "char \<Rightarrow> bool" where
  "address_head c \<longleftrightarrow> is_lower c \<or> is_digit c"

definition agent_address :: "string \<Rightarrow> bool" where
  "agent_address value \<longleftrightarrow> (case value of [] \<Rightarrow> False
     | c # rest \<Rightarrow> address_head c \<and> length rest \<le> 62 \<and> list_all (\<lambda>d. address_head d \<or> d = CHR ''_'' \<or> d = CHR ''-'') rest)"

record named_agent =
  na_tenant_id :: string
  na_address :: string
  na_name :: string
  na_runtime :: string
  na_model_endpoint :: "string option"
  na_supported_skills :: "string list"
  na_max_depth :: int
  na_cost_tier :: string
  na_purpose :: string
  na_brief :: string
  na_scope_id :: "string option"
  na_default_for_intake :: bool
  na_enabled :: bool
  na_created_at :: instant
  na_updated_at :: instant

definition named_agent_ok :: "named_agent \<Rightarrow> bool" where
  "named_agent_ok a \<longleftrightarrow>
     required_text (na_tenant_id a) 256 \<and> agent_address (na_address a) \<and> required_text (na_name a) 128
     \<and> (case na_scope_id a of None \<Rightarrow> True | Some s \<Rightarrow> agent_address s)
     \<and> na_runtime a \<in> {''codex'', ''script'', ''python-script''}
     \<and> 1 \<le> na_max_depth a \<and> na_max_depth a \<le> 5
     \<and> 1 \<le> length (na_supported_skills a) \<and> length (na_supported_skills a) \<le> 64
     \<and> list_all (\<lambda>item. required_text item 128) (na_supported_skills a)
     \<and> length (na_purpose a) \<le> 500 \<and> length (na_brief a) \<le> 8000"

record agent_message =
  am_id :: string
  am_tenant_id :: string
  am_conversation_id :: string
  am_sender :: string
  am_recipient :: string
  am_kind :: agent_message_kind
  am_content :: string
  am_reply_to :: "string option"
  am_correlation_id :: "string option"
  am_run_id :: "string option"
  am_authority :: pydict
  am_created_at :: instant

text \<open>\<^verbatim>\<open>AgentMessage.__post_init__\<close>: the message of the first check that fails.\<close>

definition agent_message_new :: "agent_message \<Rightarrow> agent_error + agent_message" where
  "agent_message_new m =
     (if \<not> required_text (am_id m) 128 then Inl (AgentValueError ''agent message id'')
      else if \<not> required_text (am_conversation_id m) 128 then Inl (AgentValueError ''agent conversation id'')
      else if \<not> agent_address (am_sender m) then Inl (AgentValueError ''sender'')
      else if \<not> agent_address (am_recipient m) then Inl (AgentValueError ''recipient'')
      else if am_sender m = am_recipient m then Inl (AgentValueError ''an agent message recipient must be a peer'')
      else if strip (am_content m) = [] then Inl (AgentValueError ''agent message content is required'')
      else if utf8_len (am_content m) > MAX_AGENT_MESSAGE_BYTES
        then Inl (AgentValueError ''agent message content exceeds the byte limit'')
      else Inr m)"

record agent_delivery =
  ad_tenant_id :: string
  ad_message_id :: string
  ad_recipient :: string
  ad_status :: agent_delivery_status
  ad_attempts :: nat
  ad_lease_owner :: "string option"
  ad_lease_expires_at :: "instant option"
  ad_available_at :: "instant option"
  ad_last_error :: "string option"
  ad_delivered_at :: "instant option"
  ad_updated_at :: instant

text \<open>\<^verbatim>\<open>AgentDelivery(tenant_id=\<dots>, message_id=\<dots>, recipient=\<dots>)\<close>: the other fields have their defaults.\<close>

definition agent_delivery_new :: "instant \<Rightarrow> agent_message \<Rightarrow> agent_error + agent_delivery" where
  "agent_delivery_new now m =
     (if \<not> agent_address (am_recipient m) then Inl (AgentValueError ''delivery recipient'')
      else Inr \<lparr>ad_tenant_id = am_tenant_id m, ad_message_id = am_id m, ad_recipient = am_recipient m,
                ad_status = DPENDING, ad_attempts = 0, ad_lease_owner = None, ad_lease_expires_at = None,
                ad_available_at = None, ad_last_error = None, ad_delivered_at = None, ad_updated_at = now\<rparr>)"

record agent_turn_lease =
  tl_tenant_id :: string
  tl_agent_address :: string
  tl_owner :: string
  tl_token :: string
  tl_lane :: agent_turn_lane
  tl_expires_at :: instant

definition agent_turn_lease_new :: "agent_turn_lease \<Rightarrow> agent_error + agent_turn_lease" where
  "agent_turn_lease_new l =
     (if \<not> required_text (tl_tenant_id l) 256 then Inl (AgentValueError ''tenant_id'')
      else if \<not> agent_address (tl_agent_address l) then Inl (AgentValueError ''agent address'')
      else if \<not> required_text (tl_owner l) 256 then Inl (AgentValueError ''agent turn owner'')
      else if \<not> required_text (tl_token l) 128 then Inl (AgentValueError ''agent turn lease token'')
      else Inr l)"

record claimed_agent_message =
  cm_message :: agent_message
  cm_delivery :: agent_delivery
  cm_turn_lease :: agent_turn_lease

record agent_session =
  ss_id :: string
  ss_tenant_id :: string
  ss_agent_address :: string
  ss_conversation_id :: string
  ss_created_at :: instant
  ss_updated_at :: instant

definition agent_session_ok :: "agent_session \<Rightarrow> bool" where
  "agent_session_ok s \<longleftrightarrow> required_text (ss_id s) 128 \<and> agent_address (ss_agent_address s)
     \<and> required_text (ss_conversation_id s) 128"

record agent_session_summary =
  su_id :: string
  su_tenant_id :: string
  su_session_id :: string
  su_up_to_message_id :: string
  su_covered_count :: nat
  su_summary :: string
  su_created_at :: instant

definition agent_session_summary_ok :: "agent_session_summary \<Rightarrow> bool" where
  "agent_session_summary_ok s \<longleftrightarrow> required_text (su_id s) 128 \<and> required_text (su_session_id s) 128
     \<and> required_text (su_up_to_message_id s) 128 \<and> 0 < su_covered_count s
     \<and> utf8_len (su_summary s) \<le> MAX_AGENT_SUMMARY_BYTES"

text \<open>The state of \<^verbatim>\<open>AgentMailboxStoreMem\<close>. A waiter is its lane, when it first asked and when its place lapses.\<close>

type_synonym agent_key = "string \<times> string"
type_synonym turn_waiter = "agent_turn_lane \<times> instant \<times> instant"

record agent_store =
  named_agents :: "(agent_key \<times> named_agent) list"
  agent_messages :: "(agent_key \<times> agent_message) list"
  agent_deliveries :: "(agent_key \<times> agent_delivery) list"
  agent_sessions :: "((string \<times> string \<times> string) \<times> agent_session) list"
  agent_summaries :: "(agent_key \<times> agent_session_summary list) list"
  agent_turn_leases :: "(agent_key \<times> agent_turn_lease option) list"
  agent_turn_waiters :: "((string \<times> string \<times> string) \<times> turn_waiter) list"

definition empty_agent_store :: agent_store where
  "empty_agent_store = \<lparr>named_agents = [], agent_messages = [], agent_deliveries = [], agent_sessions = [],
     agent_summaries = [], agent_turn_leases = [], agent_turn_waiters = []\<rparr>"

fun TURN_LANE_PRIORITY :: "agent_turn_lane \<Rightarrow> nat" where
  "TURN_LANE_PRIORITY INTERACTIVE = 0"
| "TURN_LANE_PRIORITY PEER = 10"
| "TURN_LANE_PRIORITY BACKGROUND = 20"

text \<open>\<^verbatim>\<open>d.get(key)\<close> on the table of leases, whose values may be \<^verbatim>\<open>None\<close>; \<^verbatim>\<open>min(rows, key=\<dots>)\<close>, the first row of least key.\<close>

definition current_lease :: "agent_store \<Rightarrow> agent_key \<Rightarrow> agent_turn_lease option" where
  "current_lease s key = (case map_of (agent_turn_leases s) key of None \<Rightarrow> None | Some l \<Rightarrow> l)"

fun min_by :: "('a \<Rightarrow> 'k :: linorder) \<Rightarrow> 'a \<Rightarrow> 'a list \<Rightarrow> 'a" where
  "min_by f best [] = best"
| "min_by f best (x # xs) = min_by f (if f x < f best then x else best) xs"

definition lease_until :: "instant \<Rightarrow> int \<Rightarrow> instant" where
  "lease_until now seconds = now + max 1 seconds"

subsection \<open>Named agents\<close>

definition upsert_named_agent :: "instant \<Rightarrow> named_agent \<Rightarrow> agent_store \<Rightarrow> agent_store" where
  "upsert_named_agent now agent s =
     (let key = (na_tenant_id agent, na_address agent);
          existing = map_of (named_agents s) key;
          others = (if na_default_for_intake agent
            then map (\<lambda>(k, other). (k, if fst k = na_tenant_id agent \<and> na_address other \<noteq> na_address agent
                                        then other\<lparr>na_default_for_intake := False, na_updated_at := now\<rparr> else other))
                   (named_agents s)
            else named_agents s);
          row = agent\<lparr>na_created_at := (case existing of Some e \<Rightarrow> na_created_at e | None \<Rightarrow> na_created_at agent),
                      na_updated_at := now\<rparr>
      in s\<lparr>named_agents := AList.update key row others,
           agent_turn_leases := (case map_of (agent_turn_leases s) key of
              None \<Rightarrow> AList.update key None (agent_turn_leases s) | Some _ \<Rightarrow> agent_turn_leases s)\<rparr>)"

definition get_named_agent :: "agent_store \<Rightarrow> string \<Rightarrow> string \<Rightarrow> named_agent option" where
  "get_named_agent s tenant_id address = map_of (named_agents s) (tenant_id, address)"

definition list_named_agents :: "agent_store \<Rightarrow> string \<Rightarrow> bool \<Rightarrow> named_agent list" where
  "list_named_agents s tenant_id include_disabled =
     sort_key na_address [row. (k, row) \<leftarrow> named_agents s, fst k = tenant_id \<and> (include_disabled \<or> na_enabled row)]"

definition absent_agent :: "string \<Rightarrow> string list \<Rightarrow> agent_key \<Rightarrow> named_agent \<Rightarrow> bool" where
  "absent_agent tenant_id declared key row \<longleftrightarrow>
     \<not> (fst key \<noteq> tenant_id \<or> na_address row \<in> set declared \<or> \<not> na_enabled row)"

definition deactivate_absent_named_agents :: "instant \<Rightarrow> string \<Rightarrow> string list \<Rightarrow> agent_store \<Rightarrow> string list \<times> agent_store" where
  "deactivate_absent_named_agents now tenant_id declared s =
     (sort [na_address row. (k, row) \<leftarrow> named_agents s, absent_agent tenant_id declared k row],
      s\<lparr>named_agents := map (\<lambda>(k, row). (k, if absent_agent tenant_id declared k row
           then row\<lparr>na_enabled := False, na_default_for_intake := False, na_updated_at := now\<rparr> else row)) (named_agents s)\<rparr>)"

definition enabled_agent :: "agent_store \<Rightarrow> agent_key \<Rightarrow> bool" where
  "enabled_agent s key \<longleftrightarrow> (case map_of (named_agents s) key of None \<Rightarrow> False | Some a \<Rightarrow> na_enabled a)"

subsection \<open>Turns\<close>

definition prune_agent_turn_state :: "instant \<Rightarrow> string option \<Rightarrow> string option \<Rightarrow> agent_store \<Rightarrow> agent_store" where
  "prune_agent_turn_state now tenant_id address s =
     (let skipped = (\<lambda>t a. (tenant_id \<noteq> None \<and> t \<noteq> the tenant_id) \<or> (address \<noteq> None \<and> a \<noteq> the address))
      in s\<lparr>agent_turn_waiters := filter (\<lambda>((t, a, w), lane, asked, lapses). skipped t a \<or> \<not> lapses \<le> now) (agent_turn_waiters s),
           agent_turn_leases := map (\<lambda>((t, a), lease). ((t, a), if \<not> skipped t a
               \<and> (case lease of None \<Rightarrow> False | Some l \<Rightarrow> tl_expires_at l \<le> now) then None else lease)) (agent_turn_leases s)\<rparr>)"

text \<open>A delivery is due when it waits and its back-off is over, or when the lease of its worker ran out.\<close>

definition delivery_lapsed :: "instant \<Rightarrow> agent_delivery \<Rightarrow> bool" where
  "delivery_lapsed now d \<longleftrightarrow> ad_status d = DIN_FLIGHT
     \<and> (case ad_lease_expires_at d of None \<Rightarrow> False | Some e \<Rightarrow> e \<le> now)"

definition delivery_due :: "instant \<Rightarrow> agent_delivery \<Rightarrow> bool" where
  "delivery_due now d \<longleftrightarrow>
     (ad_status d = DPENDING \<and> (case ad_available_at d of None \<Rightarrow> True | Some a \<Rightarrow> a \<le> now)) \<or> delivery_lapsed now d"

fun due_peer_loop :: "agent_store \<Rightarrow> string \<Rightarrow> string \<Rightarrow> instant \<Rightarrow> (agent_key \<times> agent_message) list \<Rightarrow> agent_error + bool" where
  "due_peer_loop s tenant_id address now [] = Inr False"
| "due_peer_loop s tenant_id address now ((key, m) # rest) =
     (if fst key \<noteq> tenant_id \<or> am_recipient m \<noteq> address then due_peer_loop s tenant_id address now rest
      else case map_of (agent_deliveries s) key of
             None \<Rightarrow> Inl AgentKeyError
           | Some d \<Rightarrow> if delivery_due now d then Inr True else due_peer_loop s tenant_id address now rest)"

definition due_peer_message :: "agent_store \<Rightarrow> string \<Rightarrow> string \<Rightarrow> instant \<Rightarrow> agent_error + bool" where
  "due_peer_message s tenant_id address now = due_peer_loop s tenant_id address now (agent_messages s)"

definition waiters_of :: "agent_store \<Rightarrow> agent_key \<Rightarrow> (string \<times> turn_waiter) list" where
  "waiters_of s key = [(w, value). ((t, a, w), value) \<leftarrow> agent_turn_waiters s, (t, a) = key]"

definition waiter_rank :: "string \<times> turn_waiter \<Rightarrow> nat \<times> instant \<times> string" where
  "waiter_rank row = (case row of (w, lane, asked, lapses) \<Rightarrow> (TURN_LANE_PRIORITY lane, asked, w))"

definition first_waiter :: "agent_store \<Rightarrow> agent_key \<Rightarrow> (string \<times> turn_waiter) option" where
  "first_waiter s key = (case waiters_of s key of [] \<Rightarrow> None | w # ws \<Rightarrow> Some (min_by waiter_rank w ws))"

definition put_lease :: "agent_key \<Rightarrow> agent_turn_lease option \<Rightarrow> agent_store \<Rightarrow> agent_store" where
  "put_lease key l s = s\<lparr>agent_turn_leases := AList.update key l (agent_turn_leases s)\<rparr>"

definition acquire_agent_turn ::
  "instant \<Rightarrow> string \<Rightarrow> string \<Rightarrow> string \<Rightarrow> string \<Rightarrow> agent_turn_lane \<Rightarrow> int \<Rightarrow> int \<Rightarrow> agent_store
     \<Rightarrow> (agent_error + agent_turn_lease option) \<times> agent_store" where
  "acquire_agent_turn now token tenant_id address owner lane lease_seconds waiter_ttl_seconds s0 =
     (let key = (tenant_id, address); waiter_key = (tenant_id, address, owner)
      in if \<not> enabled_agent s0 key then (Inl (AgentValueError ''agent turn requires an enabled named agent''), s0)
         else
           let s = prune_agent_turn_state now (Some tenant_id) (Some address) s0;
               current = current_lease s key
           in if current \<noteq> None \<and> tl_owner (the current) = owner then (Inr current, s)
              else
                let requested_at = (case map_of (agent_turn_waiters s) waiter_key of Some (_, asked, _) \<Rightarrow> asked | None \<Rightarrow> now);
                    s1 = s\<lparr>agent_turn_waiters := AList.update waiter_key
                              (lane, requested_at, lease_until now waiter_ttl_seconds) (agent_turn_waiters s)\<rparr>
                in if current \<noteq> None then (Inr None, s1)
                   else (case first_waiter s1 key of
                     None \<Rightarrow> (Inl (AgentValueError ''min() arg is an empty sequence''), s1)
                   | Some (selected_id, _) \<Rightarrow>
                       if selected_id \<noteq> owner then (Inr None, s1)
                       else (case (if lane = BACKGROUND then due_peer_message s1 tenant_id address now else Inr False) of
                           Inl e \<Rightarrow> (Inl e, s1)
                         | Inr True \<Rightarrow> (Inr None, s1)
                         | Inr False \<Rightarrow>
                             (case agent_turn_lease_new \<lparr>tl_tenant_id = tenant_id, tl_agent_address = address, tl_owner = owner,
                                     tl_token = ''atl_'' @ token, tl_lane = lane, tl_expires_at = lease_until now lease_seconds\<rparr> of
                                Inl e \<Rightarrow> (Inl e, s1)
                              | Inr lease \<Rightarrow> (Inr (Some lease), (put_lease key (Some lease) s1)
                                     \<lparr>agent_turn_waiters := AList.delete waiter_key (agent_turn_waiters s1)\<rparr>)))))"

definition renew_agent_turn :: "instant \<Rightarrow> agent_turn_lease \<Rightarrow> int \<Rightarrow> agent_store \<Rightarrow> agent_turn_lease option \<times> agent_store" where
  "renew_agent_turn now lease lease_seconds s =
     (let key = (tl_tenant_id lease, tl_agent_address lease)
      in case current_lease s key of
           None \<Rightarrow> (None, s)
         | Some current \<Rightarrow>
             if tl_owner current \<noteq> tl_owner lease \<or> tl_token current \<noteq> tl_token lease \<or> tl_expires_at current \<le> now
             then (None, s)
             else let renewed = current\<lparr>tl_expires_at := lease_until now lease_seconds\<rparr>
                  in (Some renewed, put_lease key (Some renewed) s))"

definition release_agent_turn :: "agent_turn_lease \<Rightarrow> agent_store \<Rightarrow> bool \<times> agent_store" where
  "release_agent_turn lease s =
     (let key = (tl_tenant_id lease, tl_agent_address lease)
      in case current_lease s key of
           None \<Rightarrow> (False, s)
         | Some current \<Rightarrow> if tl_owner current \<noteq> tl_owner lease \<or> tl_token current \<noteq> tl_token lease then (False, s)
                           else (True, put_lease key None s))"

definition cancel_agent_turn_waiter :: "string \<Rightarrow> string \<Rightarrow> string \<Rightarrow> agent_store \<Rightarrow> agent_store" where
  "cancel_agent_turn_waiter tenant_id address owner s =
     s\<lparr>agent_turn_waiters := AList.delete (tenant_id, address, owner) (agent_turn_waiters s)\<rparr>"

subsection \<open>Messages and deliveries\<close>

definition put_delivery :: "agent_key \<Rightarrow> agent_delivery \<Rightarrow> agent_store \<Rightarrow> agent_store" where
  "put_delivery key d s = s\<lparr>agent_deliveries := AList.update key d (agent_deliveries s)\<rparr>"

definition ensure_agent_session :: "agent_session \<Rightarrow> agent_store \<Rightarrow> agent_session \<times> agent_store" where
  "ensure_agent_session session s =
     (let key = (ss_tenant_id session, ss_agent_address session, ss_conversation_id session)
      in case map_of (agent_sessions s) key of
           Some existing \<Rightarrow> (existing, s)
         | None \<Rightarrow> (session, s\<lparr>agent_sessions := AList.update key session (agent_sessions s)\<rparr>))"

definition get_agent_session :: "agent_store \<Rightarrow> string \<Rightarrow> string \<Rightarrow> string \<Rightarrow> agent_session option" where
  "get_agent_session s tenant_id address conversation_id = map_of (agent_sessions s) (tenant_id, address, conversation_id)"

definition enqueue_agent_message :: "instant \<Rightarrow> agent_message \<Rightarrow> agent_store \<Rightarrow> (agent_error + bool) \<times> agent_store" where
  "enqueue_agent_message now m s =
     (let key = (am_tenant_id m, am_id m)
      in if map_of (agent_messages s) key \<noteq> None then (Inr False, s)
         else if map_of (named_agents s) (am_tenant_id m, am_sender m) = None
               \<or> map_of (named_agents s) (am_tenant_id m, am_recipient m) = None
           then (Inl (AgentValueError ''agent message endpoints must be registered named agents''), s)
         else let s1 = s\<lparr>agent_messages := AList.update key m (agent_messages s)\<rparr>
              in (case agent_delivery_new now m of
                    Inl e \<Rightarrow> (Inl e, s1)
                  | Inr d \<Rightarrow> (Inr True, put_delivery key d s1)))"

definition get_agent_message :: "agent_store \<Rightarrow> string \<Rightarrow> string \<Rightarrow> agent_message option" where
  "get_agent_message s tenant_id message_id = map_of (agent_messages s) (tenant_id, message_id)"

definition message_rank :: "agent_message \<Rightarrow> instant \<times> string" where
  "message_rank m = (am_created_at m, am_id m)"

definition list_agent_conversation_messages :: "agent_store \<Rightarrow> string \<Rightarrow> string \<Rightarrow> int option \<Rightarrow> agent_message list" where
  "list_agent_conversation_messages s tenant_id conversation_id limit =
     (let rows = sort_key message_rank
                   [row. (key, row) \<leftarrow> agent_messages s, fst key = tenant_id \<and> am_conversation_id row = conversation_id]
      in case limit of None \<Rightarrow> rows | Some n \<Rightarrow> take (nat (max 1 (min n 1000))) rows)"

text \<open>\<^verbatim>\<open>rows.sort(key=\<dots>, reverse=True)\<close> keeps the order of equal rows, so it sorts the reversed rows and reverses the result.\<close>

definition list_agent_inbox ::
  "agent_store \<Rightarrow> string \<Rightarrow> string \<Rightarrow> int \<Rightarrow> agent_error + (agent_message \<times> agent_delivery_status) list" where
  "list_agent_inbox s tenant_id recipient limit =
     rbind (rmap (\<lambda>(key, m). case map_of (agent_deliveries s) key of None \<Rightarrow> Inl AgentKeyError | Some d \<Rightarrow> Inr (m, ad_status d))
              (filter (\<lambda>(key, m). \<not> (fst key \<noteq> tenant_id \<or> am_recipient m \<noteq> recipient)) (agent_messages s)))
       (\<lambda>rows. Inr (take (nat (max 1 (min limit 500))) (rev (sort_key (\<lambda>(m, _). message_rank m) (rev rows)))))"

text \<open>\<^verbatim>\<open>_expire_undeliverable_locked\<close>: one delivery, then the loop over a snapshot of the table.\<close>

definition failed_delivery :: "instant \<Rightarrow> string \<Rightarrow> agent_delivery \<Rightarrow> agent_delivery" where
  "failed_delivery now code d = d\<lparr>ad_status := DFAILED, ad_lease_owner := None, ad_lease_expires_at := None,
     ad_last_error := Some code, ad_updated_at := now\<rparr>"

definition expire_delivery :: "agent_store \<Rightarrow> string \<Rightarrow> instant \<Rightarrow> nat \<Rightarrow> agent_key \<Rightarrow> agent_message \<Rightarrow> agent_delivery \<Rightarrow> agent_delivery" where
  "expire_delivery s tenant_id now max_attempts key m d =
     (let due = (ad_status d = DPENDING \<or> delivery_lapsed now d)
      in if fst key = tenant_id \<and> due \<and> \<not> enabled_agent s (tenant_id, am_recipient m)
           then failed_delivery now ''named_agent_recipient_disabled'' d
         else if fst key = tenant_id \<and> delivery_lapsed now d \<and> ad_attempts d \<ge> max_attempts
           then failed_delivery now ''delivery_attempts_exhausted'' d
         else d)"

fun expire_loop :: "string \<Rightarrow> instant \<Rightarrow> nat \<Rightarrow> (agent_key \<times> agent_delivery) list \<Rightarrow> agent_store \<Rightarrow> (agent_error + unit) \<times> agent_store" where
  "expire_loop tenant_id now max_attempts [] s = (Inr (), s)"
| "expire_loop tenant_id now max_attempts ((key, d) # rest) s =
     (case map_of (agent_messages s) key of
        None \<Rightarrow> (Inl AgentKeyError, s)
      | Some m \<Rightarrow> expire_loop tenant_id now max_attempts rest
                     (put_delivery key (expire_delivery s tenant_id now max_attempts key m d) s))"

definition expire_undeliverable :: "string \<Rightarrow> instant \<Rightarrow> nat \<Rightarrow> agent_store \<Rightarrow> (agent_error + unit) \<times> agent_store" where
  "expire_undeliverable tenant_id now max_attempts s = expire_loop tenant_id now max_attempts (agent_deliveries s) s"

definition interactive_waiting :: "agent_store \<Rightarrow> agent_key \<Rightarrow> bool" where
  "interactive_waiting s key \<longleftrightarrow>
     list_ex (\<lambda>((t, a, w), lane, asked, lapses). (t, a) = key \<and> TURN_LANE_PRIORITY lane < TURN_LANE_PRIORITY PEER)
       (agent_turn_waiters s)"

definition eligible_delivery :: "agent_store \<Rightarrow> string \<Rightarrow> instant \<Rightarrow> nat \<Rightarrow> agent_message \<Rightarrow> agent_delivery \<Rightarrow> bool" where
  "eligible_delivery s tenant_id now max_attempts m d \<longleftrightarrow>
     \<not> (\<not> delivery_due now d \<or> ad_attempts d \<ge> max_attempts) \<and> enabled_agent s (tenant_id, am_recipient m)
     \<and> current_lease s (tenant_id, am_recipient m) = None \<and> \<not> interactive_waiting s (tenant_id, am_recipient m)"

fun eligible_loop :: "agent_store \<Rightarrow> string \<Rightarrow> instant \<Rightarrow> nat \<Rightarrow> (agent_key \<times> agent_message) list
     \<Rightarrow> agent_error + (agent_message \<times> agent_delivery) list" where
  "eligible_loop s tenant_id now max_attempts [] = Inr []"
| "eligible_loop s tenant_id now max_attempts ((key, m) # rest) =
     (if fst key \<noteq> tenant_id then eligible_loop s tenant_id now max_attempts rest
      else case map_of (agent_deliveries s) key of
             None \<Rightarrow> Inl AgentKeyError
           | Some d \<Rightarrow> rbind (eligible_loop s tenant_id now max_attempts rest)
               (\<lambda>more. Inr (if eligible_delivery s tenant_id now max_attempts m d then (m, d) # more else more)))"

definition eligible_agent_deliveries ::
  "agent_store \<Rightarrow> string \<Rightarrow> instant \<Rightarrow> nat \<Rightarrow> agent_error + (agent_message \<times> agent_delivery) list" where
  "eligible_agent_deliveries s tenant_id now max_attempts = eligible_loop s tenant_id now max_attempts (agent_messages s)"

definition claimed_delivery :: "instant \<Rightarrow> string \<Rightarrow> instant \<Rightarrow> agent_delivery \<Rightarrow> agent_delivery" where
  "claimed_delivery now worker_id until d = d\<lparr>ad_status := DIN_FLIGHT, ad_attempts := ad_attempts d + 1,
     ad_lease_owner := Some worker_id, ad_lease_expires_at := Some until, ad_available_at := None, ad_updated_at := now\<rparr>"

definition claim_next_agent_message ::
  "instant \<Rightarrow> string \<Rightarrow> string \<Rightarrow> string \<Rightarrow> int \<Rightarrow> nat \<Rightarrow> agent_store
     \<Rightarrow> (agent_error + claimed_agent_message option) \<times> agent_store" where
  "claim_next_agent_message now token tenant_id worker_id lease_seconds max_attempts s =
     (let until = lease_until now lease_seconds;
          s1 = prune_agent_turn_state now (Some tenant_id) None s
      in case expire_undeliverable tenant_id now max_attempts s1 of
           (Inl e, s2) \<Rightarrow> (Inl e, s2)
         | (Inr _, s2) \<Rightarrow>
             (case eligible_agent_deliveries s2 tenant_id now max_attempts of
                Inl e \<Rightarrow> (Inl e, s2)
              | Inr [] \<Rightarrow> (Inr None, s2)
              | Inr (x # xs) \<Rightarrow>
                  (case min_by (\<lambda>(m, _). message_rank m) x xs of (m, d) \<Rightarrow>
                     let claimed = claimed_delivery now worker_id until d;
                         s3 = put_delivery (tenant_id, am_id m) claimed s2
                     in (case agent_turn_lease_new \<lparr>tl_tenant_id = tenant_id, tl_agent_address = am_recipient m, tl_owner = worker_id,
                                tl_token = ''atl_'' @ token, tl_lane = PEER, tl_expires_at = until\<rparr> of
                           Inl e \<Rightarrow> (Inl e, s3)
                         | Inr lease \<Rightarrow>
                             (Inr (Some \<lparr>cm_message = m, cm_delivery = claimed, cm_turn_lease = lease\<rparr>),
                              put_lease (tenant_id, am_recipient m) (Some lease) s3)))))"

definition live_delivery :: "agent_store \<Rightarrow> string \<Rightarrow> string \<Rightarrow> agent_turn_lease \<Rightarrow> instant \<Rightarrow> agent_delivery option" where
  "live_delivery s tenant_id message_id lease now =
     (case map_of (agent_deliveries s) (tenant_id, message_id) of
        None \<Rightarrow> None
      | Some d \<Rightarrow>
          if ad_status d \<noteq> DIN_FLIGHT \<or> ad_lease_owner d \<noteq> Some (tl_owner lease)
             \<or> (case ad_lease_expires_at d of None \<Rightarrow> True | Some e \<Rightarrow> e \<le> now)
          then None
          else (case current_lease s (tenant_id, ad_recipient d) of
                  None \<Rightarrow> None
                | Some current \<Rightarrow>
                    if tl_owner current \<noteq> tl_owner lease \<or> tl_token current \<noteq> tl_token lease
                       \<or> tl_lane current \<noteq> PEER \<or> tl_expires_at current \<le> now
                    then None else Some d))"

definition reply_matches :: "string \<Rightarrow> string \<Rightarrow> agent_message \<Rightarrow> agent_message \<Rightarrow> bool" where
  "reply_matches tenant_id message_id m reply \<longleftrightarrow>
     \<not> (am_tenant_id reply \<noteq> tenant_id \<or> am_reply_to reply \<noteq> Some message_id \<or> am_sender reply \<noteq> am_recipient m
        \<or> am_recipient reply \<noteq> am_sender m \<or> am_conversation_id reply \<noteq> am_conversation_id m)"

definition delivered_delivery :: "instant \<Rightarrow> agent_delivery \<Rightarrow> agent_delivery" where
  "delivered_delivery now d = d\<lparr>ad_status := DDELIVERED, ad_lease_owner := None, ad_lease_expires_at := None,
     ad_last_error := None, ad_delivered_at := Some now, ad_updated_at := now\<rparr>"

definition complete_agent_message ::
  "instant \<Rightarrow> string \<Rightarrow> string \<Rightarrow> agent_turn_lease \<Rightarrow> agent_message option \<Rightarrow> agent_store \<Rightarrow> (agent_error + bool) \<times> agent_store" where
  "complete_agent_message now tenant_id message_id lease reply s =
     (case live_delivery s tenant_id message_id lease now of
        None \<Rightarrow> (Inr False, s)
      | Some d \<Rightarrow>
          (let finish = (\<lambda>s1. (Inr True, put_lease (tenant_id, ad_recipient d) None
                                  (put_delivery (tenant_id, message_id) (delivered_delivery now d) s1)))
           in case reply of
                None \<Rightarrow> finish s
              | Some r \<Rightarrow>
                  (case map_of (agent_messages s) (tenant_id, message_id) of
                     None \<Rightarrow> (Inl AgentKeyError, s)
                   | Some m \<Rightarrow>
                       if \<not> reply_matches tenant_id message_id m r
                       then (Inl (AgentValueError ''agent reply does not match the claimed message''), s)
                       else (case enqueue_agent_message now r s of
                               (Inl e, s1) \<Rightarrow> (Inl e, s1)
                             | (Inr _, s1) \<Rightarrow> finish s1))))"

definition backoff_delay :: "int \<Rightarrow> nat \<Rightarrow> int" where
  "backoff_delay backoff_seconds attempts = max 0 backoff_seconds * min 64 (2 ^ (attempts - 1))"

definition failed_attempt :: "instant \<Rightarrow> string \<Rightarrow> bool \<Rightarrow> nat \<Rightarrow> int \<Rightarrow> agent_delivery \<Rightarrow> agent_delivery" where
  "failed_attempt now error_code retryable max_attempts backoff_seconds d =
     (let will_retry = (retryable \<and> ad_attempts d < max_attempts)
      in d\<lparr>ad_status := (if will_retry then DPENDING else DFAILED), ad_lease_owner := None, ad_lease_expires_at := None,
           ad_available_at := (if will_retry then Some (now + backoff_delay backoff_seconds (ad_attempts d)) else None),
           ad_last_error := Some (take 200 (if error_code = [] then ''delivery_failed'' else error_code)), ad_updated_at := now\<rparr>)"

definition fail_agent_message ::
  "instant \<Rightarrow> string \<Rightarrow> string \<Rightarrow> agent_turn_lease \<Rightarrow> string \<Rightarrow> bool \<Rightarrow> nat \<Rightarrow> int \<Rightarrow> agent_store \<Rightarrow> bool \<times> agent_store" where
  "fail_agent_message now tenant_id message_id lease error_code retryable max_attempts backoff_seconds s =
     (case live_delivery s tenant_id message_id lease now of
        None \<Rightarrow> (False, s)
      | Some d \<Rightarrow> (True, put_lease (tenant_id, ad_recipient d) None
                    (put_delivery (tenant_id, message_id) (failed_attempt now error_code retryable max_attempts backoff_seconds d) s)))"

definition renew_agent_message_claim ::
  "instant \<Rightarrow> string \<Rightarrow> string \<Rightarrow> agent_turn_lease \<Rightarrow> int \<Rightarrow> agent_store \<Rightarrow> agent_turn_lease option \<times> agent_store" where
  "renew_agent_message_claim now tenant_id message_id lease lease_seconds s =
     (case live_delivery s tenant_id message_id lease now of
        None \<Rightarrow> (None, s)
      | Some d \<Rightarrow>
          (let renewed = lease\<lparr>tl_expires_at := lease_until now lease_seconds\<rparr>
           in (Some renewed,
               put_delivery (tenant_id, message_id) (d\<lparr>ad_lease_expires_at := Some (tl_expires_at renewed), ad_updated_at := now\<rparr>)
                 (put_lease (tenant_id, ad_recipient d) (Some renewed) s))))"

subsection \<open>Summaries\<close>

definition session_summaries :: "agent_store \<Rightarrow> agent_key \<Rightarrow> agent_session_summary list" where
  "session_summaries s key = (case map_of (agent_summaries s) key of None \<Rightarrow> [] | Some rows \<Rightarrow> rows)"

definition add_agent_session_summary :: "agent_session_summary \<Rightarrow> agent_store \<Rightarrow> agent_store" where
  "add_agent_session_summary summary s =
     (let key = (su_tenant_id summary, su_session_id summary); rows = session_summaries s key
      in s\<lparr>agent_summaries := AList.update key
             (if list_ex (\<lambda>row. su_id row = su_id summary) rows then rows else rows @ [summary]) (agent_summaries s)\<rparr>)"

text \<open>\<^verbatim>\<open>max(rows, key=\<dots>)\<close>: the first row of greatest key.\<close>

fun max_by :: "('a \<Rightarrow> 'k :: linorder) \<Rightarrow> 'a \<Rightarrow> 'a list \<Rightarrow> 'a" where
  "max_by f best [] = best"
| "max_by f best (x # xs) = max_by f (if f best < f x then x else best) xs"

definition get_latest_agent_session_summary :: "agent_store \<Rightarrow> string \<Rightarrow> string \<Rightarrow> agent_session_summary option" where
  "get_latest_agent_session_summary s tenant_id session_id =
     (case session_summaries s (tenant_id, session_id) of
        [] \<Rightarrow> None
      | x # xs \<Rightarrow> Some (max_by (\<lambda>row. (su_covered_count row, su_created_at row)) x xs))"

end
