(* ===== verification/AgentInvariants.thy ===== *)
theory AgentInvariants
  imports AgentStore
begin

text \<open>
  Runs of the mailbox store and what they keep. A run is a sequence of calls of the operations that change the state, each with
  the reading of its clock, by any number of workers. The locale \<open>step_invariant\<close> states when a property of the state survives a
  run, \<open>turn_fence\<close> what a table of lease holders promises; both are interpreted on the store. \<open>delivery_step\<close> is the life of one
  delivery as a step relation, which every operation refines.
\<close>

subsection \<open>Runs\<close>

datatype agent_op =
    UpsertOp instant named_agent
  | DeactivateOp instant string "string list"
  | AcquireOp instant string string string string agent_turn_lane int int
  | RenewTurnOp instant agent_turn_lease int
  | ReleaseOp agent_turn_lease
  | CancelOp string string string
  | SessionOp agent_session
  | EnqueueOp instant agent_message
  | ClaimOp instant string string string int nat
  | CompleteOp instant string string agent_turn_lease "agent_message option"
  | FailOp instant string string agent_turn_lease string bool nat int
  | RenewClaimOp instant string string agent_turn_lease int
  | SummaryOp agent_session_summary

fun agent_apply :: "agent_op \<Rightarrow> agent_store \<Rightarrow> agent_store" where
  "agent_apply (UpsertOp now a) s = upsert_named_agent now a s"
| "agent_apply (DeactivateOp now t declared) s = snd (deactivate_absent_named_agents now t declared s)"
| "agent_apply (AcquireOp now token t a w lane n ttl) s = snd (acquire_agent_turn now token t a w lane n ttl s)"
| "agent_apply (RenewTurnOp now l n) s = snd (renew_agent_turn now l n s)"
| "agent_apply (ReleaseOp l) s = snd (release_agent_turn l s)"
| "agent_apply (CancelOp t a w) s = cancel_agent_turn_waiter t a w s"
| "agent_apply (SessionOp x) s = snd (ensure_agent_session x s)"
| "agent_apply (EnqueueOp now m) s = snd (enqueue_agent_message now m s)"
| "agent_apply (ClaimOp now token t w n M) s = snd (claim_next_agent_message now token t w n M s)"
| "agent_apply (CompleteOp now t i l reply) s = snd (complete_agent_message now t i l reply s)"
| "agent_apply (FailOp now t i l code retryable M b) s = snd (fail_agent_message now t i l code retryable M b s)"
| "agent_apply (RenewClaimOp now t i l n) s = snd (renew_agent_message_claim now t i l n s)"
| "agent_apply (SummaryOp x) s = add_agent_session_summary x s"

definition agent_run :: "agent_op list \<Rightarrow> agent_store \<Rightarrow> agent_store" where
  "agent_run xs s = fold agent_apply xs s"

text \<open>The messages of a run were built by their constructor, and its workers agree on a bound of attempts.\<close>

definition message_ok :: "agent_message \<Rightarrow> bool" where
  "message_ok m \<longleftrightarrow> agent_message_new m = Inr m"

fun agent_op_ok :: "nat \<Rightarrow> agent_op \<Rightarrow> bool" where
  "agent_op_ok M (EnqueueOp now m) = message_ok m"
| "agent_op_ok M (CompleteOp now t i l reply) = (case reply of None \<Rightarrow> True | Some r \<Rightarrow> message_ok r)"
| "agent_op_ok M (ClaimOp now token t w n N) = (N \<le> M)"
| "agent_op_ok M _ = True"

lemma agent_run_simps [simp]:
  "agent_run [] s = s" "agent_run (x # xs) s = agent_run xs (agent_apply x s)"
  "agent_run (xs @ ys) s = agent_run ys (agent_run xs s)"
  by (simp_all add: agent_run_def)

text \<open>A property of the state that every step keeps.\<close>

locale step_invariant =
  fixes step :: "'op \<Rightarrow> 's \<Rightarrow> 's" and ok :: "'op \<Rightarrow> bool" and inv :: "'s \<Rightarrow> bool"
  assumes step_keeps: "ok x \<Longrightarrow> inv s \<Longrightarrow> inv (step x s)"
begin

lemma run_keeps: "list_all ok xs \<Longrightarrow> inv s \<Longrightarrow> inv (fold step xs s)"
  by (induction xs arbitrary: s) (auto intro: step_keeps)

end

text \<open>A table of holders: a step puts a token there only by issuing it.\<close>

locale turn_fence =
  fixes step :: "'op \<Rightarrow> 's \<Rightarrow> 's" and holder :: "'s \<Rightarrow> 'k \<Rightarrow> 't option" and issues :: "'op \<Rightarrow> 't option"
  assumes step_holder: "holder (step x s) k = Some t \<Longrightarrow> holder s k = Some t \<or> issues x = Some t"
begin

lemma superseded_stays_out:
  "holder s k \<noteq> Some t \<Longrightarrow> list_all (\<lambda>x. issues x \<noteq> Some t) xs \<Longrightarrow> holder (fold step xs s) k \<noteq> Some t"
proof (induction xs arbitrary: s)
  case (Cons x xs)
  then have "holder (step x s) k \<noteq> Some t" using step_holder[of x s k t] by auto
  with Cons show ?case by simp
qed simp

end

subsection \<open>Tables\<close>

lemma map_of_map_entries: "map_of (map (\<lambda>(k, v). (k, f k v)) d) k = map_option (f k) (map_of d k)"
  by (induction d) auto

lemma min_by_spec: "min_by f x xs \<in> set (x # xs) \<and> (\<forall>y \<in> set (x # xs). f (min_by f x xs) \<le> f y)"
proof (induction xs arbitrary: x)
  case Nil
  then show ?case by simp
next
  case (Cons y ys)
  show ?case
  proof (cases "f y < f x")
    case True
    with Cons[of y] show ?thesis by auto
  next
    case False
    with Cons[of x] show ?thesis by auto
  qed
qed

lemma current_lease_put [simp]: "current_lease (put_lease k l s) k' = (if k' = k then l else current_lease s k')"
  by (simp add: current_lease_def put_lease_def update_conv')

lemma put_lease_tables [simp]:
  "agent_deliveries (put_lease k l s) = agent_deliveries s" "agent_messages (put_lease k l s) = agent_messages s"
  "named_agents (put_lease k l s) = named_agents s" "agent_turn_waiters (put_lease k l s) = agent_turn_waiters s"
  by (simp_all add: put_lease_def)

lemma put_delivery_tables [simp]:
  "map_of (agent_deliveries (put_delivery k d s)) k' = (if k' = k then Some d else map_of (agent_deliveries s) k')"
  "agent_messages (put_delivery k d s) = agent_messages s" "named_agents (put_delivery k d s) = named_agents s"
  "agent_turn_waiters (put_delivery k d s) = agent_turn_waiters s" "agent_turn_leases (put_delivery k d s) = agent_turn_leases s"
  "current_lease (put_delivery k d s) k'' = current_lease s k''"
  by (simp_all add: put_delivery_def update_conv' current_lease_def)

lemma prune_tables [simp]:
  "agent_deliveries (prune_agent_turn_state now t a s) = agent_deliveries s"
  "agent_messages (prune_agent_turn_state now t a s) = agent_messages s"
  "named_agents (prune_agent_turn_state now t a s) = named_agents s"
  by (simp_all add: prune_agent_turn_state_def Let_def)

lemma current_lease_prune:
  "current_lease (prune_agent_turn_state now t a s) k =
     (case current_lease s k of None \<Rightarrow> None
      | Some l \<Rightarrow> if \<not> ((t \<noteq> None \<and> fst k \<noteq> the t) \<or> (a \<noteq> None \<and> snd k \<noteq> the a)) \<and> tl_expires_at l \<le> now then None else Some l)"
proof -
  have e: "agent_turn_leases (prune_agent_turn_state now t a s) =
     map (\<lambda>(k, l). (k, if \<not> ((t \<noteq> None \<and> fst k \<noteq> the t) \<or> (a \<noteq> None \<and> snd k \<noteq> the a))
               \<and> (case l of None \<Rightarrow> False | Some l \<Rightarrow> tl_expires_at l \<le> now) then None else l)) (agent_turn_leases s)"
    by (auto simp: prune_agent_turn_state_def Let_def)
  show ?thesis unfolding current_lease_def e map_of_map_entries by (auto split: option.splits)
qed

lemma prune_keeps_live:
  "current_lease s k = Some l \<Longrightarrow> now < tl_expires_at l \<Longrightarrow> current_lease (prune_agent_turn_state now t a s) k = Some l"
  by (simp add: current_lease_prune)

lemma prune_current: "current_lease (prune_agent_turn_state now t a s) k = Some l \<Longrightarrow> current_lease s k = Some l"
  by (auto simp: current_lease_prune split: option.splits if_splits)


subsection \<open>Well-formed mailboxes\<close>

text \<open>Every message has one delivery, for its recipient, and the other way round.\<close>

definition mailbox_wf :: "agent_store \<Rightarrow> bool" where
  "mailbox_wf s \<longleftrightarrow> distinct (map fst (agent_messages s)) \<and> distinct (map fst (agent_deliveries s))
     \<and> (\<forall>k m. map_of (agent_messages s) k = Some m \<longrightarrow> message_ok m \<and> k = (am_tenant_id m, am_id m)
          \<and> (\<exists>d. map_of (agent_deliveries s) k = Some d \<and> ad_recipient d = am_recipient m))
     \<and> (\<forall>k d. map_of (agent_deliveries s) k = Some d \<longrightarrow> map_of (agent_messages s) k \<noteq> None)"

lemma wf_empty: "mailbox_wf empty_agent_store"
  by (simp add: mailbox_wf_def empty_agent_store_def)

lemma wf_cong:
  "agent_messages s' = agent_messages s \<Longrightarrow> agent_deliveries s' = agent_deliveries s \<Longrightarrow> mailbox_wf s' = mailbox_wf s"
  by (simp add: mailbox_wf_def)

lemma wf_messageD:
  "mailbox_wf s \<Longrightarrow> map_of (agent_messages s) k = Some m \<Longrightarrow>
     k = (am_tenant_id m, am_id m) \<and> (\<exists>d. map_of (agent_deliveries s) k = Some d \<and> ad_recipient d = am_recipient m)"
  unfolding mailbox_wf_def by blast

lemma wf_message_ok: "mailbox_wf s \<Longrightarrow> map_of (agent_messages s) k = Some m \<Longrightarrow> message_ok m"
  unfolding mailbox_wf_def by blast

lemma wf_deliveryD: "mailbox_wf s \<Longrightarrow> map_of (agent_deliveries s) k = Some d \<Longrightarrow> map_of (agent_messages s) k \<noteq> None"
  unfolding mailbox_wf_def by blast

lemma wf_delivery:
  assumes "mailbox_wf s" "map_of (agent_deliveries s) k = Some d"
  obtains m where "map_of (agent_messages s) k = Some m" "k = (am_tenant_id m, am_id m)" "ad_recipient d = am_recipient m"
proof -
  from wf_deliveryD[OF assms] obtain m where m: "map_of (agent_messages s) k = Some m" by blast
  from wf_messageD[OF assms(1) m] assms(2) have "k = (am_tenant_id m, am_id m)" "ad_recipient d = am_recipient m" by simp_all
  with m that show thesis by blast
qed

lemma wf_put_delivery:
  assumes wf: "mailbox_wf s" and d: "map_of (agent_deliveries s) k = Some d" and r: "ad_recipient d' = ad_recipient d"
  shows "mailbox_wf (put_delivery k d' s)"
  unfolding mailbox_wf_def put_delivery_tables
proof (intro conjI allI impI)
  show "distinct (map fst (agent_messages s))" using wf by (simp add: mailbox_wf_def)
  show "distinct (map fst (agent_deliveries (put_delivery k d' s)))"
    using wf by (simp add: mailbox_wf_def put_delivery_def distinct_update)
next
  fix k' m assume m: "map_of (agent_messages s) k' = Some m"
  from wf_messageD[OF wf m] show "k' = (am_tenant_id m, am_id m)" by simp
  from wf_message_ok[OF wf m] show "message_ok m" .
  from wf_messageD[OF wf m] d r
  show "\<exists>e. (if k' = k then Some d' else map_of (agent_deliveries s) k') = Some e \<and> ad_recipient e = am_recipient m"
    by (cases "k' = k") auto
next
  fix k' e assume "(if k' = k then Some d' else map_of (agent_deliveries s) k') = Some e"
  then show "map_of (agent_messages s) k' \<noteq> None" using wf_deliveryD[OF wf] d by (cases "k' = k") simp_all
qed

subsection \<open>Expiry and eligibility\<close>

lemma expire_delivery_tables:
  "expire_delivery (put_delivery k' d' s) t now M k m = expire_delivery s t now M k m"
  by (simp add: expire_delivery_def enabled_agent_def fun_eq_iff)

lemma expire_recipient [simp]:
  "ad_recipient (expire_delivery s t now M k m d) = ad_recipient d" "ad_attempts (expire_delivery s t now M k m d) = ad_attempts d"
  by (simp_all add: expire_delivery_def failed_delivery_def Let_def)

lemma expire_loop_spec:
  assumes "mailbox_wf s" "distinct (map fst ds)" "\<And>k d. (k, d) \<in> set ds \<Longrightarrow> map_of (agent_deliveries s) k = Some d"
  shows "\<exists>D. expire_loop t now M ds s = (Inr (), s\<lparr>agent_deliveries := D\<rparr>) \<and> mailbox_wf (s\<lparr>agent_deliveries := D\<rparr>)
    \<and> (\<forall>k. map_of D k = (if k \<in> fst ` set ds
          then map_option (expire_delivery s t now M k (the (map_of (agent_messages s) k))) (map_of (agent_deliveries s) k)
          else map_of (agent_deliveries s) k))"
  using assms
proof (induction ds arbitrary: s)
  case Nil
  then show ?case by (intro exI[of _ "agent_deliveries s"]) simp
next
  case (Cons e ds)
  obtain k d where e: "e = (k, d)" by (cases e)
  have kd: "map_of (agent_deliveries s) k = Some d" using Cons.prems(3) e by simp
  obtain m where m: "map_of (agent_messages s) k = Some m" using wf_delivery[OF Cons.prems(1) kd] by metis
  let ?s = "put_delivery k (expire_delivery s t now M k m d) s"
  have nk: "k \<notin> fst ` set ds" using Cons.prems(2) e by simp
  have wf: "mailbox_wf ?s" by (rule wf_put_delivery[OF Cons.prems(1) kd]) simp
  have look: "map_of (agent_deliveries ?s) k' = Some d'" if "(k', d') \<in> set ds" for k' d'
    using that nk Cons.prems(3)[of k' d'] by (auto simp: rev_image_eqI)
  obtain D where D: "expire_loop t now M ds ?s = (Inr (), ?s\<lparr>agent_deliveries := D\<rparr>)" "mailbox_wf (?s\<lparr>agent_deliveries := D\<rparr>)"
    "\<And>k'. map_of D k' = (if k' \<in> fst ` set ds
          then map_option (expire_delivery ?s t now M k' (the (map_of (agent_messages ?s) k'))) (map_of (agent_deliveries ?s) k')
          else map_of (agent_deliveries ?s) k')"
    using Cons.IH[OF wf _ look] Cons.prems(2) by auto
  have u: "?s\<lparr>agent_deliveries := D\<rparr> = s\<lparr>agent_deliveries := D\<rparr>" by (simp add: put_delivery_def)
  have "map_of D k' = (if k' \<in> fst ` set (e # ds)
          then map_option (expire_delivery s t now M k' (the (map_of (agent_messages s) k'))) (map_of (agent_deliveries s) k')
          else map_of (agent_deliveries s) k')" for k'
    unfolding D(3) using nk kd m by (auto simp: e expire_delivery_tables)
  then show ?case using D(1,2) e m unfolding u by (intro exI[of _ D]) simp
qed

lemma expire_spec:
  assumes "mailbox_wf s"
  obtains D where "expire_undeliverable t now M s = (Inr (), s\<lparr>agent_deliveries := D\<rparr>)" "mailbox_wf (s\<lparr>agent_deliveries := D\<rparr>)"
    "\<And>k. map_of D k = map_option (expire_delivery s t now M k (the (map_of (agent_messages s) k))) (map_of (agent_deliveries s) k)"
proof -
  have d: "distinct (map fst (agent_deliveries s))" using assms by (simp add: mailbox_wf_def)
  then have look: "map_of (agent_deliveries s) k = Some x" if "(k, x) \<in> set (agent_deliveries s)" for k x using that by simp
  have "map_of (agent_deliveries s) k = None" if "k \<notin> fst ` set (agent_deliveries s)" for k
    using that by (simp add: map_of_eq_None_iff)
  moreover obtain D where "expire_loop t now M (agent_deliveries s) s = (Inr (), s\<lparr>agent_deliveries := D\<rparr>)"
    "mailbox_wf (s\<lparr>agent_deliveries := D\<rparr>)"
    "\<And>k. map_of D k = (if k \<in> fst ` set (agent_deliveries s)
          then map_option (expire_delivery s t now M k (the (map_of (agent_messages s) k))) (map_of (agent_deliveries s) k)
          else map_of (agent_deliveries s) k)"
    using expire_loop_spec[OF assms d look, of t now M] by blast
  ultimately show thesis by (intro that[of D]) (simp_all add: expire_undeliverable_def)
qed

lemma eligible_loop_spec:
  assumes "\<And>k m. (k, m) \<in> set ms \<Longrightarrow> map_of (agent_deliveries s) k \<noteq> None"
  shows "\<exists>xs. eligible_loop s t now M ms = Inr xs \<and> (\<forall>m d. (m, d) \<in> set xs \<longleftrightarrow>
     (\<exists>k. (k, m) \<in> set ms \<and> fst k = t \<and> map_of (agent_deliveries s) k = Some d \<and> eligible_delivery s t now M m d))"
  using assms
proof (induction ms)
  case (Cons e ms)
  obtain k m where e: "e = (k, m)" by (cases e)
  obtain xs where xs: "eligible_loop s t now M ms = Inr xs"
    "\<forall>m d. (m, d) \<in> set xs \<longleftrightarrow> (\<exists>k. (k, m) \<in> set ms \<and> fst k = t \<and> map_of (agent_deliveries s) k = Some d \<and> eligible_delivery s t now M m d)"
    using Cons by (metis list.set_intros(2))
  obtain d where d: "map_of (agent_deliveries s) k = Some d" using Cons.prems[of k m] e by auto
  show ?case
  proof (cases "fst k = t \<and> eligible_delivery s t now M m d")
    case True
    then have "eligible_loop s t now M (e # ms) = Inr ((m, d) # xs)" using xs(1) d e by simp
    moreover have "(m', d') \<in> set ((m, d) # xs) \<longleftrightarrow> (\<exists>k'. (k', m') \<in> set (e # ms) \<and> fst k' = t
       \<and> map_of (agent_deliveries s) k' = Some d' \<and> eligible_delivery s t now M m' d')" for m' d'
      using xs(2) d e True by (metis Pair_inject list.set_intros(1) option.inject set_ConsD list.set_intros(2))
    ultimately show ?thesis by blast
  next
    case False
    then have "eligible_loop s t now M (e # ms) = Inr xs" using xs(1) d e by auto
    moreover have "(m', d') \<in> set xs \<longleftrightarrow> (\<exists>k'. (k', m') \<in> set (e # ms) \<and> fst k' = t
       \<and> map_of (agent_deliveries s) k' = Some d' \<and> eligible_delivery s t now M m' d')" for m' d'
      using xs(2) d e False by (metis Pair_inject list.set_intros(2) option.inject set_ConsD)
    ultimately show ?thesis by blast
  qed
qed simp

lemma eligible_spec:
  assumes "mailbox_wf s"
  obtains xs where "eligible_agent_deliveries s t now M = Inr xs"
    "\<And>m d. (m, d) \<in> set xs \<longleftrightarrow> (\<exists>k. map_of (agent_messages s) k = Some m \<and> fst k = t
        \<and> map_of (agent_deliveries s) k = Some d \<and> eligible_delivery s t now M m d)"
proof -
  have d: "distinct (map fst (agent_messages s))" using assms by (simp add: mailbox_wf_def)
  have look: "(k, m) \<in> set (agent_messages s) \<longleftrightarrow> map_of (agent_messages s) k = Some m" for k m using d by simp
  have n: "map_of (agent_deliveries s) k \<noteq> None" if "(k, m) \<in> set (agent_messages s)" for k m
    using that wf_messageD[OF assms, of k m] unfolding look by auto
  obtain xs where "eligible_loop s t now M (agent_messages s) = Inr xs"
    "\<forall>m d. (m, d) \<in> set xs \<longleftrightarrow> (\<exists>k. (k, m) \<in> set (agent_messages s) \<and> fst k = t
        \<and> map_of (agent_deliveries s) k = Some d \<and> eligible_delivery s t now M m d)"
    using eligible_loop_spec[of "agent_messages s" s t now M] n by blast
  then show thesis by (intro that[of xs]) (simp_all only: eligible_agent_deliveries_def look)
qed


text \<open>What a claim finds: the state after pruning and expiry, and whom it may serve there.\<close>

definition swept :: "instant \<Rightarrow> string \<Rightarrow> nat \<Rightarrow> agent_store \<Rightarrow> agent_store" where
  "swept now t M s = snd (expire_undeliverable t now M (prune_agent_turn_state now (Some t) None s))"

definition servable :: "instant \<Rightarrow> string \<Rightarrow> nat \<Rightarrow> agent_store \<Rightarrow> agent_message \<Rightarrow> bool" where
  "servable now t M s m \<longleftrightarrow> (\<exists>k d. map_of (agent_messages s) k = Some m \<and> fst k = t
     \<and> map_of (agent_deliveries (swept now t M s)) k = Some d \<and> eligible_delivery (swept now t M s) t now M m d)"

lemma swept_spec:
  assumes "mailbox_wf s"
  shows "expire_undeliverable t now M (prune_agent_turn_state now (Some t) None s) = (Inr (), swept now t M s)"
    and "mailbox_wf (swept now t M s)"
    and "agent_messages (swept now t M s) = agent_messages s"
    and "named_agents (swept now t M s) = named_agents s"
    and "current_lease (swept now t M s) k = current_lease (prune_agent_turn_state now (Some t) None s) k"
    and "agent_turn_waiters (swept now t M s) = agent_turn_waiters (prune_agent_turn_state now (Some t) None s)"
    and "map_of (agent_deliveries (swept now t M s)) k
      = map_option (expire_delivery s t now M k (the (map_of (agent_messages s) k))) (map_of (agent_deliveries s) k)"
proof -
  let ?p = "prune_agent_turn_state now (Some t) None s"
  have wf: "mailbox_wf ?p" using assms wf_cong[of ?p s] by simp
  obtain D where D: "expire_undeliverable t now M ?p = (Inr (), ?p\<lparr>agent_deliveries := D\<rparr>)" "mailbox_wf (?p\<lparr>agent_deliveries := D\<rparr>)"
    "\<And>k. map_of D k = map_option (expire_delivery ?p t now M k (the (map_of (agent_messages ?p) k))) (map_of (agent_deliveries ?p) k)"
    using expire_spec[OF wf, of t now M] by blast
  have same: "expire_delivery ?p t now M k m = expire_delivery s t now M k m" for k m
    by (simp add: expire_delivery_def enabled_agent_def fun_eq_iff)
  have e: "swept now t M s = ?p\<lparr>agent_deliveries := D\<rparr>" unfolding swept_def D(1) by simp
  show "expire_undeliverable t now M ?p = (Inr (), swept now t M s)" "mailbox_wf (swept now t M s)"
    using D(1,2) unfolding e by simp_all
  show "agent_messages (swept now t M s) = agent_messages s" "named_agents (swept now t M s) = named_agents s"
    "current_lease (swept now t M s) k = current_lease ?p k" "agent_turn_waiters (swept now t M s) = agent_turn_waiters ?p" unfolding e by (simp_all add: current_lease_def)
  show "map_of (agent_deliveries (swept now t M s)) k
      = map_option (expire_delivery s t now M k (the (map_of (agent_messages s) k))) (map_of (agent_deliveries s) k)"
    unfolding e using D(3)[of k] same by simp
qed

lemma claim_cases:
  assumes wf: "mailbox_wf s"
  obtains (none) "\<And>m. \<not> servable now t M s m" "claim_next_agent_message now token t w n M s = (Inr None, swept now t M s)"
  | (served) m d where "map_of (agent_messages s) (t, am_id m) = Some m" "am_tenant_id m = t"
      "map_of (agent_deliveries (swept now t M s)) (t, am_id m) = Some d" "ad_recipient d = am_recipient m"
      "eligible_delivery (swept now t M s) t now M m d" "\<And>m'. servable now t M s m' \<Longrightarrow> message_rank m \<le> message_rank m'"
      "claim_next_agent_message now token t w n M s =
        (let s3 = put_delivery (t, am_id m) (claimed_delivery now w (lease_until now n) d) (swept now t M s)
         in case agent_turn_lease_new \<lparr>tl_tenant_id = t, tl_agent_address = am_recipient m, tl_owner = w,
                   tl_token = ''atl_'' @ token, tl_lane = PEER, tl_expires_at = lease_until now n\<rparr> of
              Inl e \<Rightarrow> (Inl e, s3)
            | Inr lease \<Rightarrow> (Inr (Some \<lparr>cm_message = m, cm_delivery = claimed_delivery now w (lease_until now n) d, cm_turn_lease = lease\<rparr>),
                            put_lease (t, am_recipient m) (Some lease) s3))"
proof -
  note sw = swept_spec[OF wf, where t = t and now = now and M = M]
  obtain xs where xs: "eligible_agent_deliveries (swept now t M s) t now M = Inr xs"
    "\<And>m d. (m, d) \<in> set xs \<longleftrightarrow> (\<exists>k. map_of (agent_messages s) k = Some m \<and> fst k = t
        \<and> map_of (agent_deliveries (swept now t M s)) k = Some d \<and> eligible_delivery (swept now t M s) t now M m d)"
    using eligible_spec[OF sw(2), of t now M] unfolding sw(3) by blast
  have serv: "servable now t M s m \<longleftrightarrow> (\<exists>d. (m, d) \<in> set xs)" for m unfolding servable_def xs(2) by blast
  show thesis
  proof (cases xs)
    case Nil
    then have "claim_next_agent_message now token t w n M s = (Inr None, swept now t M s)"
      by (simp add: claim_next_agent_message_def Let_def sw(1) xs(1))
    moreover have "\<not> servable now t M s m" for m using serv Nil by simp
    ultimately show thesis using none by blast
  next
    case (Cons x ys)
    obtain m d where md: "min_by (\<lambda>(m, _). message_rank m) x ys = (m, d)" by fastforce
    have min: "(m, d) \<in> set xs" "\<And>m' d'. (m', d') \<in> set xs \<Longrightarrow> message_rank m \<le> message_rank m'"
      using min_by_spec[of "\<lambda>(m, _). message_rank m" x ys] unfolding md Cons by force+
    then obtain k where k: "map_of (agent_messages s) k = Some m" "fst k = t"
      "map_of (agent_deliveries (swept now t M s)) k = Some d" "eligible_delivery (swept now t M s) t now M m d"
      unfolding xs(2) by blast
    from wf_messageD[OF wf k(1)] k(2) have kk: "k = (t, am_id m)" "am_tenant_id m = t" by auto
    have r: "ad_recipient d = am_recipient m" using wf_messageD[OF sw(2), of k m] k(1,3) unfolding sw(3) by auto
    have least: "message_rank m \<le> message_rank m'" if "servable now t M s m'" for m' using that min(2) serv by blast
    have eq: "claim_next_agent_message now token t w n M s =
        (let s3 = put_delivery (t, am_id m) (claimed_delivery now w (lease_until now n) d) (swept now t M s)
         in case agent_turn_lease_new \<lparr>tl_tenant_id = t, tl_agent_address = am_recipient m, tl_owner = w,
                   tl_token = ''atl_'' @ token, tl_lane = PEER, tl_expires_at = lease_until now n\<rparr> of
              Inl e \<Rightarrow> (Inl e, s3)
            | Inr lease \<Rightarrow> (Inr (Some \<lparr>cm_message = m, cm_delivery = claimed_delivery now w (lease_until now n) d, cm_turn_lease = lease\<rparr>),
                            put_lease (t, am_recipient m) (Some lease) s3))"
      by (simp add: claim_next_agent_message_def Let_def sw(1) xs(1) Cons md)
    show thesis by (rule served[OF k(1)[unfolded kk(1)] kk(2) k(3)[unfolded kk(1)] r k(4) least eq])
  qed
qed


subsection \<open>Steps\<close>

lemma enqueue_cases:
  assumes "message_ok m"
  obtains (kept) r where "enqueue_agent_message now m s = (r, s)" "r \<noteq> Inr True"
  | (added) d where "map_of (agent_messages s) (am_tenant_id m, am_id m) = None"
      "map_of (named_agents s) (am_tenant_id m, am_sender m) \<noteq> None" "map_of (named_agents s) (am_tenant_id m, am_recipient m) \<noteq> None"
      "agent_delivery_new now m = Inr d"
      "enqueue_agent_message now m s = (Inr True, put_delivery (am_tenant_id m, am_id m) d
         (s\<lparr>agent_messages := AList.update (am_tenant_id m, am_id m) m (agent_messages s)\<rparr>))"
proof -
  have "agent_address (am_recipient m)" using assms by (auto simp: message_ok_def agent_message_new_def split: if_splits)
  then obtain d where d: "agent_delivery_new now m = Inr d" by (simp add: agent_delivery_new_def)
  show thesis
  proof (cases "map_of (agent_messages s) (am_tenant_id m, am_id m) \<noteq> None \<or> map_of (named_agents s) (am_tenant_id m, am_sender m) = None
      \<or> map_of (named_agents s) (am_tenant_id m, am_recipient m) = None")
    case True
    then have "\<exists>r. enqueue_agent_message now m s = (r, s) \<and> r \<noteq> Inr True" by (auto simp: enqueue_agent_message_def Let_def)
    then show thesis using kept by blast
  next
    case False
    then show thesis using added d by (auto simp: enqueue_agent_message_def Let_def)
  qed
qed

lemma delivery_newD: "agent_delivery_new now m = Inr d \<Longrightarrow> ad_recipient d = am_recipient m \<and> ad_status d = DPENDING \<and> ad_attempts d = 0"
  by (auto simp: agent_delivery_new_def split: if_splits)

lemma wf_enqueue:
  assumes "message_ok m" "mailbox_wf s"
  shows "mailbox_wf (snd (enqueue_agent_message now m s))"
  using assms(1)
proof (cases rule: enqueue_cases[of m now s])
  case (kept r)
  with assms show ?thesis by simp
next
  case (added d)
  let ?k = "(am_tenant_id m, am_id m)"
  let ?s = "put_delivery ?k d (s\<lparr>agent_messages := AList.update ?k m (agent_messages s)\<rparr>)"
  have msgs: "map_of (agent_messages ?s) k = (if k = ?k then Some m else map_of (agent_messages s) k)" for k
    by (simp add: update_conv')
  have "mailbox_wf ?s"
    unfolding mailbox_wf_def msgs put_delivery_tables(1)
  proof (intro conjI allI impI)
    show "distinct (map fst (agent_messages ?s))" "distinct (map fst (agent_deliveries ?s))"
      using assms(2) by (simp_all add: mailbox_wf_def put_delivery_def distinct_update)
  next
    fix k m' assume a: "(if k = ?k then Some m else map_of (agent_messages s) k) = Some m'"
    then show "k = (am_tenant_id m', am_id m')" using wf_messageD[OF assms(2), of k m'] by (auto split: if_splits)
    show "message_ok m'" using a wf_message_ok[OF assms(2), of k m'] assms(1) by (auto split: if_splits)
    show "\<exists>e. (if k = ?k then Some d else map_of (agent_deliveries (s\<lparr>agent_messages := AList.update ?k m (agent_messages s)\<rparr>)) k) = Some e
        \<and> ad_recipient e = am_recipient m'"
      using a wf_messageD[OF assms(2), of k m'] delivery_newD[OF added(4)] by (cases "k = ?k") auto
  next
    fix k e
    assume "(if k = ?k then Some d else map_of (agent_deliveries (s\<lparr>agent_messages := AList.update ?k m (agent_messages s)\<rparr>)) k) = Some e"
    then show "(if k = ?k then Some m else map_of (agent_messages s) k) \<noteq> None"
      using wf_deliveryD[OF assms(2), of k e] by (auto split: if_splits)
  qed
  then show ?thesis unfolding added(5) by simp
qed

lemma live_deliveryD:
  assumes "live_delivery s t i l now = Some d"
  obtains c where "map_of (agent_deliveries s) (t, i) = Some d" "ad_status d = DIN_FLIGHT"
    "current_lease s (t, ad_recipient d) = Some c" "tl_owner c = tl_owner l" "tl_token c = tl_token l" "tl_lane c = PEER" "now < tl_expires_at c"
  using assms by (auto simp: live_delivery_def split: option.splits if_splits)

text \<open>What an attempt to take a turn leaves: expired state pruned, the place in the queue, and a lease only where none was held.\<close>

lemma acquire_cases:
  obtains (refused) "snd (acquire_agent_turn now token t a w lane n ttl s) = s" "\<exists>e. fst (acquire_agent_turn now token t a w lane n ttl s) = Inl e"
  | (held) "snd (acquire_agent_turn now token t a w lane n ttl s) = prune_agent_turn_state now (Some t) (Some a) s"
      "fst (acquire_agent_turn now token t a w lane n ttl s) = Inr (current_lease (prune_agent_turn_state now (Some t) (Some a) s) (t, a))"
  | (queued) W where "snd (acquire_agent_turn now token t a w lane n ttl s)
        = (prune_agent_turn_state now (Some t) (Some a) s)\<lparr>agent_turn_waiters := W\<rparr>"
      "fst (acquire_agent_turn now token t a w lane n ttl s) = Inr None \<or> (\<exists>e. fst (acquire_agent_turn now token t a w lane n ttl s) = Inl e)"
  | (taken) W lease where "current_lease (prune_agent_turn_state now (Some t) (Some a) s) (t, a) = None"
      "tl_token lease = ''atl_'' @ token"
      "acquire_agent_turn now token t a w lane n ttl s = (Inr (Some lease),
         (put_lease (t, a) (Some lease) (prune_agent_turn_state now (Some t) (Some a) s))\<lparr>agent_turn_waiters := W\<rparr>)"
proof -
  let ?p = "prune_agent_turn_state now (Some t) (Some a) s"
  define s1 where "s1 = ?p\<lparr>agent_turn_waiters := AList.update (t, a, w) (lane,
      (case map_of (agent_turn_waiters ?p) (t, a, w) of Some (_, asked, _) \<Rightarrow> asked | None \<Rightarrow> now), lease_until now ttl) (agent_turn_waiters ?p)\<rparr>"
  define new where "new = \<lparr>tl_tenant_id = t, tl_agent_address = a, tl_owner = w, tl_token = ''atl_'' @ token, tl_lane = lane,
      tl_expires_at = lease_until now n\<rparr>"
  note d = acquire_agent_turn_def[of now token t a w lane n ttl s, unfolded Let_def, folded s1_def new_def]
  have q: "thesis" if "acquire_agent_turn now token t a w lane n ttl s = (r, s1)" "r = Inr None \<or> (\<exists>e. r = Inl e)" for r
    using queued[of "agent_turn_waiters s1"] that unfolding s1_def by simp
  show thesis
  proof (cases "enabled_agent s (t, a)")
    case False
    then show thesis using refused d by simp
  next
    case en: True
    show thesis
    proof (cases "current_lease ?p (t, a)")
      case (Some l)
      then show thesis using held q[of "Inr None"] en d by (cases "tl_owner l = w") simp_all
    next
      case None
      show thesis
      proof (cases "first_waiter s1 (t, a)")
        case None
        then show thesis using q en d \<open>current_lease ?p (t, a) = None\<close> by simp
      next
        case (Some f)
        obtain i v where f: "f = (i, v)" by (cases f)
        let ?due = "if lane = BACKGROUND then due_peer_message s1 t a now else Inr False"
        consider "i \<noteq> w" | e where "i = w" "?due = Inl e" | "i = w" "?due = Inr True" | "i = w" "?due = Inr False"
          by (metis (full_types) obj_sumE)
        then show thesis
        proof cases
          case 4
          show thesis
          proof (cases "agent_turn_lease_new new")
            case (Inl e)
            then show thesis using q en d None Some f 4 by simp
          next
            case (Inr lease)
            then have "lease = new" by (auto simp: agent_turn_lease_new_def split: if_splits)
            moreover have "(put_lease (t, a) (Some new) s1)\<lparr>agent_turn_waiters := W\<rparr> = (put_lease (t, a) (Some new) ?p)\<lparr>agent_turn_waiters := W\<rparr>" for W
              by (simp add: put_lease_def s1_def)
            ultimately show thesis using taken[of new] en d None Some f 4 Inr by (simp add: new_def)
          qed
        qed (use q en d None Some f in \<open>simp_all\<close>)
      qed
    qed
  qed
qed

lemma acquire_tables:
  "agent_deliveries (snd (acquire_agent_turn now token t a w lane n ttl s)) = agent_deliveries s"
  "agent_messages (snd (acquire_agent_turn now token t a w lane n ttl s)) = agent_messages s"
  by (cases rule: acquire_cases[of now token t a w lane n ttl s]; simp)+

lemma turn_tables:
  "agent_deliveries (snd (renew_agent_turn now l n s)) = agent_deliveries s" "agent_messages (snd (renew_agent_turn now l n s)) = agent_messages s"
  "agent_deliveries (snd (release_agent_turn l s)) = agent_deliveries s" "agent_messages (snd (release_agent_turn l s)) = agent_messages s"
  "agent_deliveries (cancel_agent_turn_waiter t a w s) = agent_deliveries s" "agent_messages (cancel_agent_turn_waiter t a w s) = agent_messages s"
  "agent_deliveries (upsert_named_agent now ag s) = agent_deliveries s" "agent_messages (upsert_named_agent now ag s) = agent_messages s"
  "agent_deliveries (snd (deactivate_absent_named_agents now t ds s)) = agent_deliveries s"
  "agent_messages (snd (deactivate_absent_named_agents now t ds s)) = agent_messages s"
  "agent_deliveries (snd (ensure_agent_session x s)) = agent_deliveries s" "agent_messages (snd (ensure_agent_session x s)) = agent_messages s"
  "agent_deliveries (add_agent_session_summary su s) = agent_deliveries s" "agent_messages (add_agent_session_summary su s) = agent_messages s"
  by (simp_all add: renew_agent_turn_def release_agent_turn_def cancel_agent_turn_waiter_def upsert_named_agent_def
      deactivate_absent_named_agents_def ensure_agent_session_def add_agent_session_summary_def Let_def split: option.splits)

text \<open>Completing a claim: refused, or the reply is stored and the delivery settled.\<close>

lemma complete_cases:
  obtains (kept) "snd (complete_agent_message now t i l reply s) = s" "fst (complete_agent_message now t i l reply s) \<noteq> Inr True"
  | (raised) r d m e where "reply = Some r" "live_delivery s t i l now = Some d" "map_of (agent_messages s) (t, i) = Some m"
      "reply_matches t i m r" "fst (enqueue_agent_message now r s) = Inl e"
      "complete_agent_message now t i l reply s = (Inl e, snd (enqueue_agent_message now r s))"
  | (answered) r d m b where "reply = Some r" "live_delivery s t i l now = Some d" "map_of (agent_messages s) (t, i) = Some m"
      "reply_matches t i m r" "fst (enqueue_agent_message now r s) = Inr b"
      "complete_agent_message now t i l reply s = (Inr True, put_lease (t, ad_recipient d) None
         (put_delivery (t, i) (delivered_delivery now d) (snd (enqueue_agent_message now r s))))"
  | (absorbed) d where "reply = None" "live_delivery s t i l now = Some d"
      "complete_agent_message now t i l reply s = (Inr True, put_lease (t, ad_recipient d) None
         (put_delivery (t, i) (delivered_delivery now d) s))"
proof (cases "live_delivery s t i l now")
  case None
  then show thesis by (intro kept) (simp_all add: complete_agent_message_def)
next
  case (Some d)
  show thesis
  proof (cases reply)
    case None
    with Some show thesis by (intro absorbed) (simp_all add: complete_agent_message_def Let_def)
  next
    case (Some r)
    note live = \<open>live_delivery s t i l now = Some d\<close>
    show thesis
    proof (cases "\<exists>m. map_of (agent_messages s) (t, i) = Some m \<and> reply_matches t i m r")
      case False
      then show thesis using live Some by (intro kept) (auto simp: complete_agent_message_def Let_def split: option.splits)
    next
      case True
      then obtain m where m: "map_of (agent_messages s) (t, i) = Some m" "reply_matches t i m r" by blast
      obtain res s1 where e: "enqueue_agent_message now r s = (res, s1)" by fastforce
      show thesis
      proof (cases res)
        case (Inl err)
        with live Some m e show thesis by (intro raised[of r d m err]) (simp_all add: complete_agent_message_def Let_def)
      next
        case (Inr b)
        with live Some m e show thesis by (intro answered[of r d m b]) (simp_all add: complete_agent_message_def Let_def)
      qed
    qed
  qed
qed


lemma recipient_moves [simp]:
  "ad_recipient (delivered_delivery now d) = ad_recipient d" "ad_recipient (claimed_delivery now w u d) = ad_recipient d"
  "ad_recipient (failed_attempt now code r M b d) = ad_recipient d"
  by (simp_all add: delivered_delivery_def claimed_delivery_def failed_attempt_def Let_def)

lemma enqueue_keeps_delivery:
  assumes "message_ok m" "mailbox_wf s" "map_of (agent_deliveries s) k = Some d"
  shows "map_of (agent_deliveries (snd (enqueue_agent_message now m s))) k = Some d"
    and "current_lease (snd (enqueue_agent_message now m s)) k' = current_lease s k'"
  using assms(1)
  by (cases rule: enqueue_cases[of m now s]; use assms(2,3) wf_deliveryD[OF assms(2,3)] in \<open>auto simp: current_lease_def\<close>)+

lemma wf_put_delivery_lease: "mailbox_wf (put_delivery k d s) \<Longrightarrow> mailbox_wf (put_lease k' l (put_delivery k d s))"
  by (subst wf_cong[of _ "put_delivery k d s"]) simp_all

lemma wf_complete:
  assumes wf: "mailbox_wf s" and ok: "agent_op_ok M (CompleteOp now t i l reply)"
  shows "mailbox_wf (snd (complete_agent_message now t i l reply s))"
proof (cases rule: complete_cases[of now t i l reply s])
  case (raised r d m e)
  then show ?thesis using wf_enqueue[OF _ wf, of r now] ok by simp
next
  case (answered r d m b)
  have r: "message_ok r" using ok answered(1) by simp
  from answered(2) have d: "map_of (agent_deliveries s) (t, i) = Some d" by (rule live_deliveryD)
  from wf_put_delivery[OF wf_enqueue[OF r wf] enqueue_keeps_delivery(1)[OF r wf d]] show ?thesis
    unfolding answered(6) by (simp add: wf_put_delivery_lease)
next
  case (absorbed d)
  then have d: "map_of (agent_deliveries s) (t, i) = Some d" by (auto elim: live_deliveryD)
  from wf_put_delivery[OF wf d] show ?thesis unfolding absorbed(3) by (simp add: wf_put_delivery_lease)
qed (use wf in simp)

lemma wf_claim:
  assumes wf: "mailbox_wf s"
  shows "mailbox_wf (snd (claim_next_agent_message now token t w n M s))"
  using wf
proof (cases rule: claim_cases[where now = now and t = t and M = M and token = token and w = w and n = n])
  case none
  then show ?thesis using swept_spec(2)[OF wf] by simp
next
  case (served m d)
  from wf_put_delivery[OF swept_spec(2)[OF wf] served(3)] show ?thesis
    unfolding served(7) Let_def by (simp add: wf_put_delivery_lease split: sum.splits)
qed

lemma wf_settle:
  assumes wf: "mailbox_wf s"
  shows "mailbox_wf (snd (fail_agent_message now t i l code retryable M b s))"
    and "mailbox_wf (snd (renew_agent_message_claim now t i l n s))"
proof -
  have l: "mailbox_wf (put_lease k x s) = mailbox_wf s" for k x s by (rule wf_cong) simp_all
  have d: "map_of (agent_deliveries s) (t, i) = Some d" if "live_delivery s t i l now = Some d" for d
    using that by (rule live_deliveryD)
  show "mailbox_wf (snd (fail_agent_message now t i l code retryable M b s))"
    using wf wf_put_delivery[OF wf d] by (simp add: fail_agent_message_def l split: option.splits)
  have "mailbox_wf (put_delivery (t, i) d' (put_lease k x s))" if "live_delivery s t i l now = Some d" "ad_recipient d' = ad_recipient d" for d d' k x
    using wf_put_delivery[of "put_lease k x s" "(t, i)" d d'] wf d[OF that(1)] that(2) by (simp add: l)
  then show "mailbox_wf (snd (renew_agent_message_claim now t i l n s))"
    using wf by (simp add: renew_agent_message_claim_def Let_def split: option.splits)
qed

lemma wf_others:
  "mailbox_wf (snd (acquire_agent_turn now token t a w lane n ttl s)) = mailbox_wf s"
  "mailbox_wf (snd (renew_agent_turn now l n s)) = mailbox_wf s"
  "mailbox_wf (snd (release_agent_turn l s)) = mailbox_wf s"
  "mailbox_wf (cancel_agent_turn_waiter t a w s) = mailbox_wf s"
  "mailbox_wf (upsert_named_agent now ag s) = mailbox_wf s"
  "mailbox_wf (snd (deactivate_absent_named_agents now t ds s)) = mailbox_wf s"
  "mailbox_wf (snd (ensure_agent_session x s)) = mailbox_wf s"
  "mailbox_wf (add_agent_session_summary su s) = mailbox_wf s"
  by (rule wf_cong; simp add: turn_tables acquire_tables)+

lemma wf_step: "agent_op_ok M x \<Longrightarrow> mailbox_wf s \<Longrightarrow> mailbox_wf (agent_apply x s)"
proof (cases x)
  case (CompleteOp now t i l reply)
  then show "agent_op_ok M x \<Longrightarrow> mailbox_wf s \<Longrightarrow> ?thesis" using wf_complete[of s M] by simp
qed (simp_all add: wf_enqueue wf_claim wf_settle wf_others)

interpretation mailbox: step_invariant agent_apply "agent_op_ok M" mailbox_wf
  by unfold_locales (rule wf_step)

lemma wf_run: "list_all (agent_op_ok M) xs \<Longrightarrow> mailbox_wf s \<Longrightarrow> mailbox_wf (agent_run xs s)"
  unfolding agent_run_def by (rule mailbox.run_keeps)

subsection \<open>The life of a delivery\<close>

inductive delivery_step :: "nat \<Rightarrow> agent_delivery \<Rightarrow> agent_delivery \<Rightarrow> bool" for M where
  expired: "ad_status d \<in> {DPENDING, DIN_FLIGHT} \<Longrightarrow> delivery_step M d (failed_delivery now code d)"
| claimed: "ad_status d \<in> {DPENDING, DIN_FLIGHT} \<Longrightarrow> ad_attempts d < M \<Longrightarrow> delivery_step M d (claimed_delivery now w until d)"
| delivered: "ad_status d = DIN_FLIGHT \<Longrightarrow> delivery_step M d (delivered_delivery now d)"
| attempt_failed: "ad_status d = DIN_FLIGHT \<Longrightarrow> delivery_step M d (failed_attempt now code retryable N b d)"
| renewed: "ad_status d = DIN_FLIGHT \<Longrightarrow> delivery_step M d (d\<lparr>ad_lease_expires_at := Some e, ad_updated_at := now\<rparr>)"

inductive_cases delivery_stepE: "delivery_step M d d'"

definition settled :: "agent_delivery \<Rightarrow> bool" where
  "settled d \<longleftrightarrow> ad_status d \<in> {DDELIVERED, DFAILED}"

lemma settled_no_step: "settled d \<Longrightarrow> \<not> delivery_step M d d'"
  by (auto simp: settled_def elim: delivery_stepE)

lemma settled_steps: "(delivery_step M)\<^sup>*\<^sup>* d d' \<Longrightarrow> settled d \<Longrightarrow> d' = d"
  by (induction rule: converse_rtranclp_induct) (auto dest: settled_no_step)

lemma step_attempts:
  "delivery_step M d d' \<Longrightarrow> ad_attempts d \<le> ad_attempts d' \<and> (ad_attempts d \<le> M \<longrightarrow> ad_attempts d' \<le> M)"
  by (erule delivery_stepE)
    (auto simp: failed_delivery_def claimed_delivery_def delivered_delivery_def failed_attempt_def Let_def)

lemma steps_attempts:
  "(delivery_step M)\<^sup>*\<^sup>* d d' \<Longrightarrow> ad_attempts d \<le> ad_attempts d' \<and> (ad_attempts d \<le> M \<longrightarrow> ad_attempts d' \<le> M)"
  by (induction rule: rtranclp_induct) (auto dest: step_attempts)

lemma expire_steps: "(delivery_step M)\<^sup>*\<^sup>* d (expire_delivery s t now N k m d)"
  by (auto simp: expire_delivery_def Let_def delivery_lapsed_def intro!: r_into_rtranclp delivery_step.expired)

lemma delivery_step_mono: "delivery_step N d d' \<Longrightarrow> N \<le> M \<Longrightarrow> delivery_step M d d'"
  by (erule delivery_stepE) (auto intro: delivery_step.intros)

lemma eligible_status: "eligible_delivery s t now M m d \<Longrightarrow> ad_status d \<in> {DPENDING, DIN_FLIGHT} \<and> ad_attempts d < M"
  by (auto simp: eligible_delivery_def delivery_due_def delivery_lapsed_def)


lemma claim_refines:
  assumes wf: "mailbox_wf s" and d: "map_of (agent_deliveries s) k = Some d" and N: "N \<le> M"
  shows "\<exists>d'. map_of (agent_deliveries (snd (claim_next_agent_message now token t w n N s))) k = Some d' \<and> (delivery_step M)\<^sup>*\<^sup>* d d'"
proof -
  let ?e = "expire_delivery s t now N k (the (map_of (agent_messages s) k)) d"
  have e: "map_of (agent_deliveries (swept now t N s)) k = Some ?e" using swept_spec(7)[OF wf] d by simp
  have de: "(delivery_step M)\<^sup>*\<^sup>* d ?e" by (rule expire_steps)
  show ?thesis using wf
  proof (cases rule: claim_cases[where now = now and t = t and M = N and token = token and w = w and n = n])
    case none
    then show ?thesis using e de by auto
  next
    case (served m x)
    show ?thesis
    proof (cases "k = (t, am_id m)")
      case True
      then have x: "x = ?e" using served(3) e by simp
      have "delivery_step M x (claimed_delivery now w (lease_until now n) x)"
        using eligible_status[OF served(5)] N by (intro delivery_step.claimed) auto
      then have "(delivery_step M)\<^sup>*\<^sup>* d (claimed_delivery now w (lease_until now n) ?e)" using de x by simp
      then show ?thesis unfolding served(7) Let_def x True[symmetric] by (auto split: sum.splits)
    next
      case False
      then show ?thesis using e de unfolding served(7) Let_def by (auto split: sum.splits)
    qed
  qed
qed

lemma complete_refines:
  assumes wf: "mailbox_wf s" and ok: "agent_op_ok M (CompleteOp now t i l reply)" and d: "map_of (agent_deliveries s) k = Some d"
  shows "\<exists>d'. map_of (agent_deliveries (snd (complete_agent_message now t i l reply s))) k = Some d' \<and> (delivery_step M)\<^sup>*\<^sup>* d d'"
proof -
  have fin: "(delivery_step M)\<^sup>*\<^sup>* d (delivered_delivery now d)" if "live_delivery s t i l now = Some x" "k = (t, i)" for x
    using that d by (auto intro!: r_into_rtranclp delivery_step.delivered elim!: live_deliveryD)
  have x: "x = d" if "live_delivery s t i l now = Some x" "k = (t, i)" for x using that d by (auto elim!: live_deliveryD)
  show ?thesis
  proof (cases rule: complete_cases[of now t i l reply s])
    case kept
    then show ?thesis using d by auto
  next
    case (raised r y m e)
    then show ?thesis using enqueue_keeps_delivery(1)[OF _ wf d, of r now] ok by auto
  next
    case (answered r y m b)
    have "map_of (agent_deliveries (snd (enqueue_agent_message now r s))) k = Some d"
      using enqueue_keeps_delivery(1)[OF _ wf d, of r now] ok answered(1) by simp
    then show ?thesis using fin[OF answered(2)] x[OF answered(2)] unfolding answered(6) by (cases "k = (t, i)") auto
  next
    case (absorbed y)
    then show ?thesis using fin[OF absorbed(2)] x[OF absorbed(2)] d unfolding absorbed(3) by (cases "k = (t, i)") auto
  qed
qed

lemma settle_refines:
  assumes "map_of (agent_deliveries s) k = Some d"
  shows "\<exists>d'. map_of (agent_deliveries (snd (fail_agent_message now t i l code retryable N b s))) k = Some d' \<and> (delivery_step M)\<^sup>*\<^sup>* d d'"
    and "\<exists>d'. map_of (agent_deliveries (snd (renew_agent_message_claim now t i l n s))) k = Some d' \<and> (delivery_step M)\<^sup>*\<^sup>* d d'"
proof -
  have live: "ad_status d = DIN_FLIGHT \<and> x = d" if "live_delivery s t i l now = Some x" "k = (t, i)" for x
    using that assms by (auto elim!: live_deliveryD)
  show "\<exists>d'. map_of (agent_deliveries (snd (fail_agent_message now t i l code retryable N b s))) k = Some d' \<and> (delivery_step M)\<^sup>*\<^sup>* d d'"
    using assms live by (cases "k = (t, i)")
      (auto simp: fail_agent_message_def split: option.splits intro!: r_into_rtranclp delivery_step.attempt_failed)
  show "\<exists>d'. map_of (agent_deliveries (snd (renew_agent_message_claim now t i l n s))) k = Some d' \<and> (delivery_step M)\<^sup>*\<^sup>* d d'"
    using assms live by (cases "k = (t, i)")
      (auto simp: renew_agent_message_claim_def Let_def split: option.splits intro!: r_into_rtranclp delivery_step.renewed)
qed

text \<open>Every operation of the store moves every delivery along the life of a delivery.\<close>

lemma step_refines:
  assumes ok: "agent_op_ok M x" and wf: "mailbox_wf s" and d: "map_of (agent_deliveries s) k = Some d"
  shows "\<exists>d'. map_of (agent_deliveries (agent_apply x s)) k = Some d' \<and> (delivery_step M)\<^sup>*\<^sup>* d d'"
proof (cases x)
  case (EnqueueOp now m)
  then show ?thesis using enqueue_keeps_delivery(1)[OF _ wf d, of m now] ok by auto
next
  case (ClaimOp now token t w n N)
  then show ?thesis using claim_refines[OF wf d, of N M] ok by simp
next
  case (CompleteOp now t i l reply)
  then show ?thesis using complete_refines[OF wf _ d, of M] ok by simp
next
  case (FailOp now t i l code retryable N b)
  then show ?thesis using settle_refines(1)[OF d] by simp
next
  case (RenewClaimOp now t i l n)
  then show ?thesis using settle_refines(2)[OF d] by simp
qed (use d in \<open>auto simp: turn_tables acquire_tables\<close>)

lemma run_refines:
  assumes "list_all (agent_op_ok M) xs" "mailbox_wf s" "map_of (agent_deliveries s) k = Some d"
  shows "\<exists>d'. map_of (agent_deliveries (agent_run xs s)) k = Some d' \<and> (delivery_step M)\<^sup>*\<^sup>* d d'"
  using assms
proof (induction xs arbitrary: s d)
  case (Cons x xs)
  obtain d1 where d1: "map_of (agent_deliveries (agent_apply x s)) k = Some d1" "(delivery_step M)\<^sup>*\<^sup>* d d1"
    using step_refines[of M x s k d] Cons.prems by auto
  obtain d2 where "map_of (agent_deliveries (agent_run xs (agent_apply x s))) k = Some d2" "(delivery_step M)\<^sup>*\<^sup>* d1 d2"
    using Cons.IH[OF _ wf_step d1(1)] Cons.prems by auto
  with d1(2) show ?case by auto
qed auto

end
