(* ===== verification/TextEnvelope.thy ===== *)
theory TextEnvelope
  imports Grants
begin

text \<open>
  The envelope that marks text as data for a model, \<^verbatim>\<open>boltrig/text_envelope.py\<close>, and the UTF-8 truncation the mailbox uses
  (\<^verbatim>\<open>_bounded_utf8\<close> of \<^verbatim>\<open>boltrig/fleet/agent_mailbox.py\<close>, \<^verbatim>\<open>_bounded_summary\<close> of \<^verbatim>\<open>agent_mailbox_continuity.py\<close>).
  The regular expressions are read off as recursive functions on Latin-1 text; of the gap characters the source lists beyond
  white space only the soft hyphen lies in that range.
\<close>

subsection \<open>Delimiters\<close>

definition tag_gap :: "char \<Rightarrow> bool" where
  "tag_gap c \<longleftrightarrow> py_isspace c \<or> (of_char c :: nat) = 173"

text \<open>A word character of \<^verbatim>\<open>\b\<close>: \<^verbatim>\<open>str.isalnum\<close> or the underscore.\<close>

definition word_char :: "char \<Rightarrow> bool" where
  "word_char c \<longleftrightarrow> (let n = (of_char c :: nat) in is_lower c \<or> is_upper c \<or> is_digit c \<or> n = 95
     \<or> n \<in> {170, 178, 179, 181, 185, 186, 188, 189, 190} \<or> (192 \<le> n \<and> n \<noteq> 215 \<and> n \<noteq> 247))"

text \<open>The literal, in any case, up to a word boundary.\<close>

fun literal_follows :: "string \<Rightarrow> string \<Rightarrow> bool" where
  "literal_follows [] s = (case s of [] \<Rightarrow> True | c # _ \<Rightarrow> \<not> word_char c)"
| "literal_follows (w # ws) [] = False"
| "literal_follows (w # ws) (c # s) = (lower_char c = w \<and> literal_follows ws s)"

text \<open>The lookahead of \<^verbatim>\<open>_UNTRUSTED_TAG_RE\<close>: gap, an optional slash, gap, the literal.\<close>

definition skip_slash :: "string \<Rightarrow> string" where
  "skip_slash s = (case s of [] \<Rightarrow> [] | c # r \<Rightarrow> if c = CHR ''/'' then r else s)"

definition tag_follows :: "string \<Rightarrow> bool" where
  "tag_follows s = literal_follows ''untrusted'' (dropWhile tag_gap (skip_slash (dropWhile tag_gap s)))"

fun neutralise_untrusted_delimiters :: "string \<Rightarrow> string" where
  "neutralise_untrusted_delimiters [] = []"
| "neutralise_untrusted_delimiters (c # s) =
     (if c = CHR ''<'' \<and> tag_follows s then ''&lt;'' @ neutralise_untrusted_delimiters s
      else c # neutralise_untrusted_delimiters s)"

definition safe_attr :: "string \<Rightarrow> string" where
  "safe_attr value = map (\<lambda>c. if c \<in> {CHR ''<'', CHR ''>'', CHR 0x22, CHR 0x0D, CHR 0x0A} then CHR ''_'' else c) value"

definition quoted :: "string \<Rightarrow> string" where
  "quoted s = CHR 0x22 # s @ [CHR 0x22]"

definition wrap_untrusted :: "string \<Rightarrow> string \<Rightarrow> string \<Rightarrow> string" where
  "wrap_untrusted kind source content =
     (let body = neutralise_untrusted_delimiters content
      in ''<untrusted kind='' @ quoted (safe_attr kind) @ '' source='' @ quoted (safe_attr source) @ ''>''
         @ body @ ''</untrusted>'')"

text \<open>Where a reader of the text sees the start of an envelope tag.\<close>

fun tag_positions :: "nat \<Rightarrow> string \<Rightarrow> nat list" where
  "tag_positions n [] = []"
| "tag_positions n (c # s) = (if c = CHR ''<'' \<and> tag_follows s then [n] else []) @ tag_positions (Suc n) s"

lemma gap_less [simp]: "\<not> tag_gap CHR ''<''" "\<not> tag_gap CHR ''&''" "\<not> word_char CHR ''<''" "\<not> word_char CHR ''&''"
  by (simp_all add: tag_gap_def py_isspace_def word_char_def is_lower_def is_upper_def is_digit_def)

lemma lower_markers [simp]: "lower_char CHR ''<'' = CHR ''<''" "lower_char CHR ''&'' = CHR ''&''"
  by (simp_all add: lower_char_def)

lemma literal_neutralised:
  "CHR ''<'' \<notin> set w \<Longrightarrow> CHR ''&'' \<notin> set w \<Longrightarrow>
     literal_follows w (neutralise_untrusted_delimiters s) = literal_follows w s"
proof (induction w s rule: literal_follows.induct)
  case (1 s)
  then show ?case by (cases s) auto
qed auto

lemma gap_neutralised: "dropWhile tag_gap (neutralise_untrusted_delimiters s) = neutralise_untrusted_delimiters (dropWhile tag_gap s)"
  by (induction s) auto

lemma slash_neutralised: "skip_slash (neutralise_untrusted_delimiters s) = neutralise_untrusted_delimiters (skip_slash s)"
  by (cases s) (auto simp: skip_slash_def)

lemma follows_neutralised: "tag_follows (neutralise_untrusted_delimiters s) = tag_follows s"
  by (simp add: tag_follows_def gap_neutralised slash_neutralised literal_neutralised)

text \<open>A delimiter character ends the search: what follows it does not matter.\<close>

lemma literal_cut: "CHR ''<'' \<notin> set w \<Longrightarrow> literal_follows w (s @ CHR ''<'' # t) = literal_follows w s"
proof (induction w s rule: literal_follows.induct)
  case (1 s)
  then show ?case by (cases s) auto
qed auto

lemma gap_cut: "dropWhile tag_gap (s @ CHR ''<'' # t) = dropWhile tag_gap s @ CHR ''<'' # t"
  by (induction s) auto

lemma slash_cut: "skip_slash (s @ CHR ''<'' # t) = skip_slash s @ CHR ''<'' # t"
  by (cases s) (auto simp: skip_slash_def)

lemma follows_cut: "tag_follows (s @ CHR ''<'' # t) = tag_follows s"
  by (simp add: tag_follows_def gap_cut slash_cut literal_cut)

lemma follows_amp: "\<not> tag_follows (CHR ''&'' # s)"
  by (simp add: tag_follows_def skip_slash_def)

lemma no_tags_without_marker: "CHR ''<'' \<notin> set a \<Longrightarrow> tag_positions n (a @ b) = tag_positions (n + length a) b"
  by (induction a arbitrary: n) auto

lemma no_tags_in_neutralised:
  "tag_positions n (neutralise_untrusted_delimiters s @ CHR ''<'' # t)
     = tag_positions (n + length (neutralise_untrusted_delimiters s)) (CHR ''<'' # t)"
proof (induction s arbitrary: n)
  case Nil
  then show ?case by simp
next
  case (Cons c s)
  have f: "tag_follows (neutralise_untrusted_delimiters s @ CHR ''<'' # t) = tag_follows s"
    by (simp add: follows_cut follows_neutralised)
  show ?case
  proof (cases "c = CHR ''<'' \<and> tag_follows s")
    case True
    then show ?thesis using Cons[of "Suc (Suc (Suc (Suc n)))"] by (simp add: add.commute add.left_commute)
  next
    case False
    then show ?thesis using Cons[of "Suc n"] f by auto
  qed
qed

lemma safe_attr_no_marker [simp]: "CHR ''<'' \<notin> set (safe_attr v)"
  by (auto simp: safe_attr_def split: if_splits)

lemma neutralise_untagged: "tag_positions n s = [] \<Longrightarrow> neutralise_untrusted_delimiters s = s"
  by (induction s arbitrary: n) (auto split: if_splits)

lemma envelope_tags:
  "tag_positions 0 (wrap_untrusted kind source content) = [0, length (wrap_untrusted kind source content) - 12]"
proof -
  let ?attrs = "''untrusted kind='' @ quoted (safe_attr kind) @ '' source='' @ quoted (safe_attr source) @ ''>''"
  let ?body = "neutralise_untrusted_delimiters content"
  have w: "wrap_untrusted kind source content = CHR ''<'' # ?attrs @ ?body @ CHR ''<'' # ''/untrusted>''"
    by (simp add: wrap_untrusted_def)
  have a: "CHR ''<'' \<notin> set ?attrs" by (auto simp: quoted_def)
  have o: "tag_follows (?attrs @ r)" for r
    by (simp add: tag_follows_def skip_slash_def tag_gap_def py_isspace_def lower_char_def word_char_def is_lower_def is_upper_def is_digit_def)
  have c: "tag_positions m (CHR ''<'' # ''/untrusted>'') = [m]" for m
    by (simp add: tag_follows_def skip_slash_def tag_gap_def py_isspace_def lower_char_def word_char_def is_lower_def is_upper_def is_digit_def)
  have "tag_positions 0 (wrap_untrusted kind source content) = 0 # tag_positions 1 (?attrs @ ?body @ CHR ''<'' # ''/untrusted>'')"
    unfolding w tag_positions.simps using o by simp
  also have "\<dots> = [0, 1 + length ?attrs + length ?body]"
    unfolding no_tags_without_marker[OF a] no_tags_in_neutralised c ..
  finally show ?thesis by (simp add: w del: append.simps)
qed


subsection \<open>UTF-8\<close>

definition utf8_char :: "char \<Rightarrow> nat list" where
  "utf8_char c = (let n = of_char c in if n < 128 then [n] else [192 + n div 64, 128 + n mod 64])"

definition utf8_encode :: "string \<Rightarrow> nat list" where
  "utf8_encode s = concat (map utf8_char s)"

text \<open>\<^verbatim>\<open>bytes.decode("utf-8", errors="ignore")\<close> on a slice of encoded Latin-1 text: a byte that belongs to no whole character is
  dropped.\<close>

fun utf8_decode_ignore :: "nat list \<Rightarrow> string" where
  "utf8_decode_ignore [] = []"
| "utf8_decode_ignore (b # bs) =
     (if b < 128 then char_of b # utf8_decode_ignore bs
      else case bs of [] \<Rightarrow> []
        | b2 # rest \<Rightarrow> if (b = 194 \<or> b = 195) \<and> 128 \<le> b2 \<and> b2 < 192
                       then char_of (64 * (b - 192) + (b2 - 128)) # utf8_decode_ignore rest
                       else utf8_decode_ignore bs)"

definition truncation_marker :: string where
  "truncation_marker = CHR 0x0A # ''[truncated]''"

definition bounded_utf8 :: "string \<Rightarrow> nat \<Rightarrow> string" where
  "bounded_utf8 value limit =
     (let encoded = utf8_encode value
      in if length encoded \<le> limit then value
         else let room = limit - length (utf8_encode truncation_marker)
              in utf8_decode_ignore (take room encoded) @ truncation_marker)"

definition elision_marker :: string where
  "elision_marker = CHR 0x0A # ''[older summary elided]'' @ [CHR 0x0A]"

definition bounded_summary :: "nat \<Rightarrow> string \<Rightarrow> string" where
  "bounded_summary limit value =
     (let encoded = utf8_encode value
      in if length encoded \<le> limit then value
         else let available = limit - length (utf8_encode elision_marker);
                  head = available div 2;
                  tail = available - head
              in utf8_decode_ignore (take head encoded) @ elision_marker
                 @ utf8_decode_ignore (drop (length encoded - tail) encoded))"

lemma utf8_encode_simps [simp]:
  "utf8_encode [] = []" "utf8_encode (c # s) = utf8_char c @ utf8_encode s" "utf8_encode (s @ t) = utf8_encode s @ utf8_encode t"
  by (simp_all add: utf8_encode_def)

lemma length_utf8_char: "length (utf8_char c) = (if (of_char c :: nat) < 128 then 1 else 2)"
  by (simp add: utf8_char_def Let_def)

lemma length_utf8_encode [simp]: "length (utf8_encode s) = utf8_len s"
  by (induction s) (auto simp: utf8_len_def length_utf8_char)

lemma of_char_bound: "(of_char c :: nat) < 256"
  by (metis mod_less_divisor of_char_mod_256 zero_less_numeral)

lemma decode_char: "utf8_decode_ignore (utf8_char c @ bs) = c # utf8_decode_ignore bs"
proof (cases "(of_char c :: nat) < 128")
  case True
  then show ?thesis by (simp add: utf8_char_def Let_def)
next
  case False
  let ?n = "of_char c :: nat"
  have n: "128 \<le> ?n" "?n < 256" using False of_char_bound by simp_all
  then have d: "?n div 64 = 2 \<or> ?n div 64 = 3" by (cases "?n < 192") (auto simp: div_nat_eqI)
  have m: "64 * (?n div 64) + ?n mod 64 = ?n" by simp
  have lt: "?n mod 64 < 64" by simp
  from False have e: "utf8_char c = [192 + ?n div 64, 128 + ?n mod 64]" by (simp add: utf8_char_def Let_def)
  have i: "char_of (64 * (192 + ?n div 64 - 192) + (128 + ?n mod 64 - 128)) = c" using m by simp
  show ?thesis unfolding e using d lt i by auto
qed

lemma decode_encode: "utf8_decode_ignore (utf8_encode s) = s"
  by (induction s) (simp_all add: decode_char)

lemma decode_cut_char: "n < length (utf8_char c) \<Longrightarrow> utf8_decode_ignore (take n (utf8_char c)) = []"
  by (auto simp: utf8_char_def Let_def less_Suc_eq split: if_splits)

lemma decode_take:
  "\<exists>k. utf8_decode_ignore (take n (utf8_encode s)) = take k s \<and> utf8_len (take k s) \<le> n"
proof (induction s arbitrary: n)
  case Nil
  then show ?case by (auto simp: utf8_len_def)
next
  case (Cons c s)
  show ?case
  proof (cases "n < length (utf8_char c)")
    case True
    then have "utf8_decode_ignore (take n (utf8_encode (c # s))) = take 0 (c # s)" using decode_cut_char by simp
    then show ?thesis by (auto simp: utf8_len_def intro!: exI[of _ 0])
  next
    case False
    obtain k where k: "utf8_decode_ignore (take (n - length (utf8_char c)) (utf8_encode s)) = take k s"
      "utf8_len (take k s) \<le> n - length (utf8_char c)" using Cons by blast
    have "utf8_decode_ignore (take n (utf8_encode (c # s))) = take (Suc k) (c # s)"
      using False k(1) by (simp add: decode_char)
    moreover have "utf8_len (take (Suc k) (c # s)) \<le> n"
      using False k(2) by (simp add: utf8_len_def length_utf8_char split: if_splits)
    ultimately show ?thesis by blast
  qed
qed

lemma decode_tail_byte:
  "128 \<le> b \<Longrightarrow> b < 192 \<Longrightarrow> utf8_decode_ignore (b # utf8_encode s) = s"
proof -
  assume b: "128 \<le> b" "b < 192"
  have "utf8_decode_ignore (b # bs) = utf8_decode_ignore bs" for bs using b by (cases bs) simp_all
  then show ?thesis by (simp only: decode_encode)
qed

lemma decode_drop:
  "\<exists>k. utf8_decode_ignore (drop n (utf8_encode s)) = drop k s \<and> utf8_len (drop k s) \<le> utf8_len s - n"
proof (induction s arbitrary: n)
  case Nil
  then show ?case by (auto simp: utf8_len_def)
next
  case (Cons c s)
  consider "n = 0" | "0 < n" "n < length (utf8_char c)" | "length (utf8_char c) \<le> n" by linarith
  then show ?case
  proof cases
    case 1
    then have "utf8_decode_ignore (drop n (utf8_encode (c # s))) = drop 0 (c # s)" using decode_encode[of "c # s"] by simp
    then show ?thesis using 1 by (intro exI[of _ 0]) simp
  next
    case 2
    then have n: "n = 1" "\<not> (of_char c :: nat) < 128" by (auto simp: length_utf8_char split: if_splits)
    then have "drop n (utf8_encode (c # s)) = (128 + of_char c mod 64) # utf8_encode s" by (simp add: utf8_char_def Let_def)
    then have "utf8_decode_ignore (drop n (utf8_encode (c # s))) = drop 1 (c # s)"
      using decode_tail_byte[of "128 + of_char c mod 64" s] by simp
    then show ?thesis using n by (intro exI[of _ 1]) (simp add: utf8_len_def)
  next
    case 3
    obtain k where k: "utf8_decode_ignore (drop (n - length (utf8_char c)) (utf8_encode s)) = drop k s"
      "utf8_len (drop k s) \<le> utf8_len s - (n - length (utf8_char c))" using Cons by blast
    have "utf8_decode_ignore (drop n (utf8_encode (c # s))) = drop (Suc k) (c # s)" using 3 k(1) by simp
    moreover have "utf8_len (drop (Suc k) (c # s)) \<le> utf8_len (c # s) - n"
      using 3 k(2) by (simp add: utf8_len_def length_utf8_char split: if_splits)
    ultimately show ?thesis by blast
  qed
qed

lemma utf8_len_append [simp]: "utf8_len (a @ b) = utf8_len a + utf8_len b"
  by (simp add: utf8_len_def)

lemma utf8_len_markers [simp]: "utf8_len truncation_marker = 12" "utf8_len elision_marker = 24"
  by (simp_all add: utf8_len_def truncation_marker_def elision_marker_def)

lemma bounded_utf8_within: "12 \<le> limit \<Longrightarrow> utf8_len (bounded_utf8 value limit) \<le> limit"
  using decode_take[of "limit - 12" "value"] by (auto simp: bounded_utf8_def Let_def)

lemma bounded_summary_within:
  assumes "24 \<le> limit"
  shows "utf8_len (bounded_summary limit value) \<le> limit"
proof (cases "utf8_len value \<le> limit")
  case False
  let ?h = "(limit - 24) div 2"
  let ?t = "limit - 24 - ?h"
  have "utf8_len (utf8_decode_ignore (take ?h (utf8_encode value))) \<le> ?h"
    using decode_take[of ?h "value"] by auto
  moreover have "utf8_len (utf8_decode_ignore (drop (utf8_len value - ?t) (utf8_encode value))) \<le> ?t"
    using decode_drop[of "utf8_len value - ?t" "value"] by auto
  moreover have "bounded_summary limit value = utf8_decode_ignore (take ?h (utf8_encode value)) @ elision_marker
      @ utf8_decode_ignore (drop (utf8_len value - ?t) (utf8_encode value))"
    unfolding bounded_summary_def Let_def using False by simp
  ultimately show ?thesis using assms by (simp only: utf8_len_append utf8_len_markers) linarith
qed (simp add: bounded_summary_def)

end
