(* ===== verification/AgentMailbox.thy ===== *)
theory AgentMailbox
  imports AgentStore TextEnvelope Dispatch
begin

text \<open>
  What uses the mailbox: the verb \<^verbatim>\<open>agent.send\<close> (\<^verbatim>\<open>boltrig/adapters/builtin/agent_messages.py\<close>) and the service that claims and
  processes messages (\<^verbatim>\<open>boltrig/fleet/agent_mailbox.py\<close>) with the continuity it gives a turn (\<^verbatim>\<open>agent_mailbox_continuity.py\<close>).

  The turn of the agent itself is the parameter \<open>respond\<close>. It stands for everything that happens while the service awaits the
  model: it gets the store and returns the result of the turn (or the class name of the exception it raised), the lease in the
  lease box, whether the heartbeat lost it, the clock and the store, in which other workers may have acted. \<open>heartbeat\<close> models
  the heartbeat by the instants at which it fires. SHA-256 (as the hexadecimal digest of the UTF-8 text) is the parameter
  \<open>sha256\<close>, \<^verbatim>\<open>str\<close> of a value that is not a string is \<open>pstr\<close>. The awaits of the in-memory store do not yield.
\<close>

subsection \<open>Identifiers and values\<close>

definition digest_id :: "(string \<Rightarrow> string) \<Rightarrow> string \<Rightarrow> string list \<Rightarrow> string" where
  "digest_id sha256 pre parts = pre @ take 32 (sha256 (join [CHR 0x00] parts))"

definition agent_session_id :: "(string \<Rightarrow> string) \<Rightarrow> string \<Rightarrow> string \<Rightarrow> string \<Rightarrow> string" where
  "agent_session_id sha256 tenant_id address conversation_id = digest_id sha256 ''as_'' [tenant_id, address, conversation_id]"

fun kind_value :: "agent_message_kind \<Rightarrow> string" where
  "kind_value ASK = ''ask''"
| "kind_value TELL = ''tell''"
| "kind_value REPLY = ''reply''"

fun parse_kind :: "string \<Rightarrow> agent_message_kind option" where
  "parse_kind v = (if v = ''ask'' then Some ASK else if v = ''tell'' then Some TELL
     else if v = ''reply'' then Some REPLY else None)"

text \<open>\<^verbatim>\<open>a or b\<close> for optional strings: the empty string is falsy.\<close>

definition or_else :: "string option \<Rightarrow> string option \<Rightarrow> string option" where
  "or_else a b = (if nonempty a then a else b)"

record mailbox_state =
  mb_store :: agent_store
  mb_events :: "(string \<times> string \<times> pydict) list"

definition publish_message :: "bool \<Rightarrow> agent_message \<Rightarrow> pydict \<Rightarrow> mailbox_state \<Rightarrow> mailbox_state" where
  "publish_message has_events m event st =
     (if \<not> has_events \<or> \<not> nonempty (am_run_id m) then st
      else st\<lparr>mb_events := mb_events st @ [(am_tenant_id m, the (am_run_id m), event)]\<rparr>)"

subsection \<open>The verb agent.send\<close>

record send_fresh =
  sf_now :: instant
  sf_message_uuid :: string
  sf_conversation_uuid :: string

definition sent_message_id :: "(string \<Rightarrow> string) \<Rightarrow> string \<Rightarrow> invocation_context \<Rightarrow> string option \<Rightarrow> string" where
  "sent_message_id sha256 uuid ctx correlation_id =
     (if nonempty correlation_id
      then ''am_'' @ take 32 (sha256 (ctx_tenant_id ctx @ CHR 0x00 # ctx_actor ctx @ CHR 0x00 #
             (case ctx_run_id ctx of None \<Rightarrow> [] | Some r \<Rightarrow> r) @ CHR 0x00 # the correlation_id))
      else ''am_'' @ uuid)"

definition result_failure :: "error_class \<Rightarrow> string \<Rightarrow> result" where
  "result_failure c msg = \<lparr>res_ok = False, res_output = PDict [], res_error = Some \<lparr>ax_error_class = c, ax_message = msg, ax_retry_after = None\<rparr>\<rparr>"

definition result_success :: "pydict \<Rightarrow> result" where
  "result_success output = \<lparr>res_ok = True, res_output = PDict output, res_error = None\<rparr>"

definition squoted :: "string \<Rightarrow> string" where
  "squoted s = CHR 0x27 # s @ [CHR 0x27]"

text \<open>\<^verbatim>\<open>str(params.get(key) or "")\<close>.\<close>

definition param_str :: "(pyval \<Rightarrow> string) \<Rightarrow> pydict \<Rightarrow> string \<Rightarrow> string" where
  "param_str pstr params key = (let v = dict_get params key in if truthy v then str_of pstr v else [])"

definition resolve_endpoints ::
  "(pyval \<Rightarrow> string) \<Rightarrow> agent_store \<Rightarrow> pydict \<Rightarrow> invocation_context \<Rightarrow> result + named_agent \<times> named_agent" where
  "resolve_endpoints pstr s params ctx =
     (case get_named_agent s (ctx_tenant_id ctx) (ctx_actor ctx) of
        None \<Rightarrow> Inl (result_failure UNAUTHORISED ''only a named tier-1 agent can send'')
      | Some sender \<Rightarrow>
          if ctx_actor_tier ctx \<noteq> ''tier1'' \<or> \<not> na_enabled sender
          then Inl (result_failure UNAUTHORISED ''only a named tier-1 agent can send'')
          else let recipient_address = param_str pstr params ''to''
               in if recipient_address = [] then Inl (result_failure INVALID (''agent.send requires '' @ squoted ''to'' @ '': the recipient'' @ [CHR 0x27] @ ''s named-agent address''))
                  else (case get_named_agent s (ctx_tenant_id ctx) recipient_address of
                          None \<Rightarrow> Inl (result_failure NOT_FOUND (''no enabled named agent at '' @ squoted recipient_address))
                        | Some recipient \<Rightarrow>
                            if \<not> na_enabled recipient
                            then Inl (result_failure NOT_FOUND (''no enabled named agent at '' @ squoted recipient_address))
                            else if na_address sender = na_address recipient
                            then Inl (result_failure INVALID ''agent messages require a peer recipient'')
                            else Inr (sender, recipient)))"

definition sent_message ::
  "(string \<Rightarrow> string) \<Rightarrow> (pyval \<Rightarrow> string) \<Rightarrow> send_fresh \<Rightarrow> pydict \<Rightarrow> invocation_context \<Rightarrow> named_agent \<Rightarrow> named_agent
     \<Rightarrow> agent_message_kind \<Rightarrow> agent_message" where
  "sent_message sha256 pstr f params ctx sender recipient kind =
     (let raw = dict_get params ''correlation_id'';
          correlation_id = (if truthy raw then Some (str_of pstr raw) else None);
          given = dict_get params ''conversation_id'';
          conversation_id = (if truthy given then str_of pstr given else ''ac_'' @ sf_conversation_uuid f)
      in \<lparr>am_id = sent_message_id sha256 (sf_message_uuid f) ctx correlation_id, am_tenant_id = ctx_tenant_id ctx,
          am_conversation_id = conversation_id, am_sender = na_address sender, am_recipient = na_address recipient,
          am_kind = kind, am_content = param_str pstr params ''content'', am_reply_to = None,
          am_correlation_id = correlation_id, am_run_id = or_else (ctx_parent_run_id ctx) (ctx_run_id ctx),
          am_authority = context_to_envelope ctx, am_created_at = sf_now f\<rparr>)"

definition sent_fields :: "agent_message \<Rightarrow> string \<Rightarrow> pydict" where
  "sent_fields m status = [(KStr ''message_id'', PStr (am_id m)), (KStr ''conversation_id'', PStr (am_conversation_id m)),
     (KStr ''status'', PStr status), (KStr ''to'', PStr (am_recipient m))]"

definition message_event :: "string \<Rightarrow> agent_message \<Rightarrow> pydict" where
  "message_event type m = [(KStr ''type'', PStr type), (KStr ''message_id'', PStr (am_id m)),
     (KStr ''conversation_id'', PStr (am_conversation_id m)), (KStr ''from'', PStr (am_sender m)),
     (KStr ''to'', PStr (am_recipient m)), (KStr ''kind'', PStr (kind_value (am_kind m)))]"

fun exception_name :: "agent_error \<Rightarrow> string" where
  "exception_name (AgentValueError _) = ''ValueError''"
| "exception_name AgentKeyError = ''KeyError''"
| "exception_name (AgentRuntimeError _) = ''RuntimeError''"

definition agent_send_execute ::
  "(string \<Rightarrow> string) \<Rightarrow> (pyval \<Rightarrow> string) \<Rightarrow> bool \<Rightarrow> send_fresh \<Rightarrow> mailbox_state adapter_execute" where
  "agent_send_execute sha256 pstr has_events f verb params0 credential ctx st =
     (if verb \<noteq> ''agent.send'' then (Inr (result_failure INVALID ''unknown agent verb''), st)
      else case params0 of
        PDict params \<Rightarrow>
          (case resolve_endpoints pstr (mb_store st) params ctx of
             Inl r \<Rightarrow> (Inr r, st)
           | Inr (sender, recipient) \<Rightarrow>
               (case parse_kind (param_str pstr params ''kind'') of
                  None \<Rightarrow> (Inr (result_failure INVALID ''agent message kind must be ask or tell''), st)
                | Some REPLY \<Rightarrow> (Inr (result_failure INVALID ''reply messages are system-created''), st)
                | Some kind \<Rightarrow>
                    (case agent_message_new (sent_message sha256 pstr f params ctx sender recipient kind) of
                       Inl e \<Rightarrow> (Inl (Crash (exception_name e)), st)
                     | Inr m \<Rightarrow>
                         (case enqueue_agent_message (sf_now f) m (mb_store st) of
                            (Inl e, s1) \<Rightarrow> (Inl (Crash (exception_name e)), st\<lparr>mb_store := s1\<rparr>)
                          | (Inr inserted, s1) \<Rightarrow>
                              (let status = (if inserted then ''queued'' else ''already_queued'')
                               in (Inr (result_success (sent_fields m status)),
                                   publish_message has_events m (message_event ''agent_message_sent'' m @ [(KStr ''status'', PStr status)])
                                     (st\<lparr>mb_store := s1\<rparr>)))))))
      | _ \<Rightarrow> (Inl (Crash ''AttributeError''), st))"

subsection \<open>Authority of a delivery\<close>

text \<open>\<^verbatim>\<open>_delivery_context\<close>: the context of the recipient's turn, rebuilt from the authority captured with the message.\<close>

definition delivery_extra :: "pydict \<Rightarrow> agent_message \<Rightarrow> pydict" where
  "delivery_extra extra m =
     AList.update (KStr ''named_agent_address'') (PStr (am_recipient m))
       (AList.update (KStr ''agent_conversation_id'') (PStr (am_conversation_id m))
         (AList.update (KStr ''conversation_id'') (PStr (am_conversation_id m)) extra))"

definition delivery_context :: "(string \<Rightarrow> string) \<Rightarrow> agent_message \<Rightarrow> string + invocation_context" where
  "delivery_context sha256 m =
     (case context_from_envelope (am_authority m) of
        Inl _ \<Rightarrow> Inl ''agent_message_authority_invalid''
      | Inr source \<Rightarrow>
          if ctx_tenant_id source \<noteq> am_tenant_id m then Inl ''agent_message_tenant_mismatch''
          else if ctx_actor source \<noteq> am_sender m \<or> ctx_actor_tier source \<noteq> ''tier1'' then Inl ''agent_message_sender_not_tier1''
          else Inr (source\<lparr>ctx_run_id := Some (digest_id sha256 ''amt_'' [am_tenant_id m, am_id m, am_recipient m]),
                 ctx_parent_run_id := or_else (or_else (am_run_id m) (ctx_parent_run_id source)) (ctx_run_id source),
                 ctx_grants := grant_set_of (Some (allow (ctx_grants source) @ [''agent.send'']))
                                            (Some (deny (ctx_grants source) @ [''chat.present''])),
                 ctx_actor := am_recipient m, ctx_actor_tier := ''tier1'',
                 ctx_extra := delivery_extra (ctx_extra source) m\<rparr>))"

definition MAX_AGENT_REPLY_BYTES :: nat where "MAX_AGENT_REPLY_BYTES = 32 * 1024"

definition reply_message :: "(string \<Rightarrow> string) \<Rightarrow> instant \<Rightarrow> agent_message \<Rightarrow> string \<Rightarrow> invocation_context \<Rightarrow> agent_message" where
  "reply_message sha256 now m answer ctx =
     \<lparr>am_id = digest_id sha256 ''amr_'' [am_tenant_id m, am_id m], am_tenant_id = am_tenant_id m,
      am_conversation_id = am_conversation_id m, am_sender = am_recipient m, am_recipient = am_sender m, am_kind = REPLY,
      am_content = bounded_utf8 answer MAX_AGENT_REPLY_BYTES, am_reply_to = Some (am_id m),
      am_correlation_id = am_correlation_id m, am_run_id = am_run_id m, am_authority = context_to_envelope ctx,
      am_created_at = now\<rparr>"

subsection \<open>Continuity\<close>

definition message_block :: "nat \<Rightarrow> agent_message \<Rightarrow> string" where
  "message_block position m =
     join [CHR 0x0A] [''Message '' @ show_nat position @ '' ('' @ kind_value (am_kind m) @ '') '' @ am_sender m @ '' -> '' @ am_recipient m @ '':'',
       wrap_untrusted ''agent_message'' (am_sender m) (am_content m)]"

fun through_current :: "agent_message list \<Rightarrow> string \<Rightarrow> agent_error + agent_message list" where
  "through_current [] current_id = Inl (AgentRuntimeError ''claimed agent message is absent from its conversation'')"
| "through_current (m # ms) current_id =
     (if am_id m = current_id then Inr [m] else rbind (through_current ms current_id) (\<lambda>rest. Inr (m # rest)))"

definition session_of :: "(string \<Rightarrow> string) \<Rightarrow> instant \<Rightarrow> agent_message \<Rightarrow> agent_session" where
  "session_of sha256 now m =
     \<lparr>ss_id = agent_session_id sha256 (am_tenant_id m) (am_recipient m) (am_conversation_id m), ss_tenant_id = am_tenant_id m,
      ss_agent_address = am_recipient m, ss_conversation_id = am_conversation_id m, ss_created_at = now, ss_updated_at = now\<rparr>"

fun numbered_blocks :: "nat \<Rightarrow> agent_message list \<Rightarrow> string list" where
  "numbered_blocks position [] = []"
| "numbered_blocks position (m # ms) = message_block position m # numbered_blocks (Suc position) ms"

definition continuity_text :: "agent_message \<Rightarrow> agent_session_summary option \<Rightarrow> agent_message list \<Rightarrow> string" where
  "continuity_text m summary messages =
     (let covered = (case summary of None \<Rightarrow> 0 | Some su \<Rightarrow> min (su_covered_count su) (length messages));
          first = (case summary of None \<Rightarrow> []
             | Some su \<Rightarrow> [''Derived summary of messages 1-'' @ show_nat covered @ '':'',
                          wrap_untrusted ''agent_session_summary'' (am_recipient m) (su_summary su)])
      in join [CHR 0x0A, CHR 0x0A] (first @ numbered_blocks (covered + 1) (drop covered messages)))"

definition continuity :: "(string \<Rightarrow> string) \<Rightarrow> instant \<Rightarrow> agent_message \<Rightarrow> agent_store \<Rightarrow> (agent_error + string) \<times> agent_store" where
  "continuity sha256 now m s =
     (if \<not> agent_session_ok (session_of sha256 now m) then (Inl (AgentValueError ''agent session''), s)
      else case ensure_agent_session (session_of sha256 now m) s of (session, s1) \<Rightarrow>
        (rbind (through_current (list_agent_conversation_messages s1 (am_tenant_id m) (am_conversation_id m) None) (am_id m))
           (\<lambda>messages. Inr (continuity_text m (get_latest_agent_session_summary s1 (am_tenant_id m) (ss_id session)) messages)), s1))"

definition summary_line :: "agent_message \<Rightarrow> string" where
  "summary_line row = am_sender row @ '' -> '' @ am_recipient row @ '' ['' @ kind_value (am_kind row) @ '']: ''
     @ take 240 (map (\<lambda>c. if c = CHR 0x0A then CHR '' '' else c) (am_content row))"

definition next_summary ::
  "(string \<Rightarrow> string) \<Rightarrow> instant \<Rightarrow> string \<Rightarrow> string \<Rightarrow> agent_session_summary option \<Rightarrow> agent_message list \<Rightarrow> nat \<Rightarrow> agent_session_summary" where
  "next_summary sha256 now tenant_id session_id current messages covered_count =
     (let boundary = messages ! (covered_count - 1);
          start = (case current of None \<Rightarrow> 0 | Some c \<Rightarrow> su_covered_count c);
          lines = (case current of None \<Rightarrow> [] | Some c \<Rightarrow> [su_summary c])
                  @ map summary_line (drop start (take covered_count messages))
      in \<lparr>su_id = digest_id sha256 ''ass_'' [tenant_id, session_id, am_id boundary, show_nat covered_count],
          su_tenant_id = tenant_id, su_session_id = session_id, su_up_to_message_id = am_id boundary,
          su_covered_count = covered_count,
          su_summary = bounded_summary MAX_AGENT_SUMMARY_BYTES (join [CHR 0x0A] lines), su_created_at = now\<rparr>)"

definition compact_session ::
  "(string \<Rightarrow> string) \<Rightarrow> nat \<Rightarrow> nat \<Rightarrow> instant \<Rightarrow> agent_message \<Rightarrow> agent_store \<Rightarrow> (agent_error + unit) \<times> agent_store" where
  "compact_session sha256 compaction_threshold keep_recent now m s =
     (if compaction_threshold = 0 then (Inr (), s)
      else case through_current (list_agent_conversation_messages s (am_tenant_id m) (am_conversation_id m) None) (am_id m) of
        Inl e \<Rightarrow> (Inl e, s)
      | Inr messages \<Rightarrow>
          if length messages < compaction_threshold then (Inr (), s)
          else let covered_count = length messages - keep_recent
               in if covered_count = 0 then (Inr (), s)
                  else if \<not> agent_session_ok (session_of sha256 now m) then (Inl (AgentValueError ''agent session''), s)
                  else (case ensure_agent_session (session_of sha256 now m) s of (session, s1) \<Rightarrow>
                    let current = get_latest_agent_session_summary s1 (am_tenant_id m) (ss_id session)
                    in if (case current of None \<Rightarrow> False | Some c \<Rightarrow> su_covered_count c \<ge> covered_count) then (Inr (), s1)
                       else let summary = next_summary sha256 now (am_tenant_id m) (ss_id session) current messages covered_count
                            in if agent_session_summary_ok summary then (Inr (), add_agent_session_summary summary s1)
                               else (Inl (AgentValueError ''agent session summary''), s1)))"

subsection \<open>The service\<close>

record mailbox_service =
  sv_worker_id :: string
  sv_lease_seconds :: int
  sv_max_attempts :: nat
  sv_compaction_threshold :: nat
  sv_keep_recent :: nat
  sv_has_events :: bool

definition mailbox_service_new ::
  "string \<Rightarrow> string option \<Rightarrow> int \<Rightarrow> int \<Rightarrow> int \<Rightarrow> int \<Rightarrow> bool \<Rightarrow> agent_error + mailbox_service" where
  "mailbox_service_new uuid worker_id lease_seconds max_attempts compaction_threshold keep_recent has_events =
     (if compaction_threshold < 0 \<or> keep_recent < 0 then Inl (AgentValueError ''agent compaction limits cannot be negative'')
      else if compaction_threshold \<noteq> 0 \<and> keep_recent \<ge> compaction_threshold
        then Inl (AgentValueError ''agent keep_recent must be below the compaction threshold'')
      else Inr \<lparr>sv_worker_id = (if nonempty worker_id then the worker_id else ''agent-mailbox-'' @ take 8 uuid),
                sv_lease_seconds = max 1 lease_seconds, sv_max_attempts = nat (max 1 max_attempts),
                sv_compaction_threshold = nat compaction_threshold, sv_keep_recent = nat keep_recent, sv_has_events = has_events\<rparr>)"

record agent_result =
  ar_ok :: bool
  ar_output :: pyval
  ar_summary :: string
  ar_degraded :: bool

definition degrade_reason :: "(pyval \<Rightarrow> string) \<Rightarrow> agent_result \<Rightarrow> string option" where
  "degrade_reason pstr r =
     (case ar_output r of
        PDict output \<Rightarrow>
          (case dict_get output ''_degraded'' of
             PDict marker \<Rightarrow> (let reason = dict_get marker ''reason''
                              in if truthy reason then Some (take 200 (str_of pstr reason)) else None)
           | _ \<Rightarrow> None)
      | _ \<Rightarrow> None)"

definition agent_result_text :: "agent_result \<Rightarrow> string" where
  "agent_result_text r =
     (case (case ar_output r of PDict output \<Rightarrow> dict_get output ''text'' | _ \<Rightarrow> PNone) of
        PStr text \<Rightarrow> if strip text \<noteq> [] then strip text else strip (ar_summary r)
      | _ \<Rightarrow> strip (ar_summary r))"

record turn_outcome =
  to_result :: "string + agent_result"
  to_lease :: agent_turn_lease
  to_lost :: bool
  to_now :: instant
  to_store :: agent_store

type_synonym responder = "agent_message \<Rightarrow> string \<Rightarrow> invocation_context \<Rightarrow> agent_store \<Rightarrow> turn_outcome"

datatype turn_exception = AuthorityError string | OtherException string

text \<open>\<^verbatim>\<open>_heartbeat_claim\<close> as it fires at the given instants: the lease it leaves in the box and whether the claim is lost.\<close>

fun heartbeat :: "mailbox_service \<Rightarrow> agent_message \<Rightarrow> instant list \<Rightarrow> agent_turn_lease \<Rightarrow> agent_store \<Rightarrow> (agent_turn_lease \<times> bool) \<times> agent_store" where
  "heartbeat sv m [] lease s = ((lease, False), s)"
| "heartbeat sv m (now # later) lease s =
     (case renew_agent_message_claim now (am_tenant_id m) (am_id m) lease (sv_lease_seconds sv) s of
        (None, s1) \<Rightarrow> ((lease, True), s1)
      | (Some renewed, s1) \<Rightarrow> heartbeat sv m later renewed s1)"

definition fail_turn :: "mailbox_service \<Rightarrow> instant \<Rightarrow> agent_message \<Rightarrow> agent_turn_lease \<Rightarrow> string \<Rightarrow> bool \<Rightarrow> mailbox_state \<Rightarrow> mailbox_state" where
  "fail_turn sv now m lease error_code retryable st =
     (case fail_agent_message now (am_tenant_id m) (am_id m) lease error_code retryable (sv_max_attempts sv) 2 (mb_store st) of
        (changed, s1) \<Rightarrow>
          let st1 = st\<lparr>mb_store := s1\<rparr>
          in if changed
             then publish_message (sv_has_events sv) m
                    [(KStr ''type'', PStr ''agent_message_failed''), (KStr ''message_id'', PStr (am_id m)),
                     (KStr ''conversation_id'', PStr (am_conversation_id m)), (KStr ''from'', PStr (am_sender m)),
                     (KStr ''to'', PStr (am_recipient m)), (KStr ''reason'', PStr (take 200 error_code)),
                     (KStr ''retryable'', PBool retryable)] st1
             else st1)"

definition reply_event :: "agent_message \<Rightarrow> agent_message \<Rightarrow> pydict" where
  "reply_event m reply = [(KStr ''type'', PStr ''agent_message_reply''), (KStr ''message_id'', PStr (am_id reply)),
     (KStr ''reply_to'', PStr (am_id m)), (KStr ''conversation_id'', PStr (am_conversation_id reply)),
     (KStr ''from'', PStr (am_sender reply)), (KStr ''to'', PStr (am_recipient reply)), (KStr ''content'', PStr (am_content reply))]"

definition commit_turn ::
  "(string \<Rightarrow> string) \<Rightarrow> mailbox_service \<Rightarrow> instant \<Rightarrow> agent_message \<Rightarrow> agent_turn_lease \<Rightarrow> agent_message option \<Rightarrow> mailbox_state
     \<Rightarrow> (turn_exception + unit) \<times> mailbox_state" where
  "commit_turn sha256 sv now m lease reply st =
     (case complete_agent_message now (am_tenant_id m) (am_id m) lease reply (mb_store st) of
        (Inl e, s1) \<Rightarrow> (Inl (OtherException (exception_name e)), st\<lparr>mb_store := s1\<rparr>)
      | (Inr False, s1) \<Rightarrow> (Inr (), st\<lparr>mb_store := s1\<rparr>)
      | (Inr True, s1) \<Rightarrow>
          (let st1 = publish_message (sv_has_events sv) m (message_event ''agent_message_delivered'' m) (st\<lparr>mb_store := s1\<rparr>);
               st2 = (case reply of None \<Rightarrow> st1 | Some r \<Rightarrow> publish_message (sv_has_events sv) m (reply_event m r) st1)
           in case compact_session sha256 (sv_compaction_threshold sv) (sv_keep_recent sv) now m (mb_store st2) of
                (Inl e, s2) \<Rightarrow> (Inl (OtherException (exception_name e)), st2\<lparr>mb_store := s2\<rparr>)
              | (Inr _, s2) \<Rightarrow> (Inr (), st2\<lparr>mb_store := s2\<rparr>)))"

text \<open>What follows a turn that returned: the failure, or the reply and the commit.\<close>

definition settle_turn ::
  "(string \<Rightarrow> string) \<Rightarrow> (pyval \<Rightarrow> string) \<Rightarrow> mailbox_service \<Rightarrow> instant \<Rightarrow> agent_message \<Rightarrow> agent_turn_lease \<Rightarrow> bool \<Rightarrow> invocation_context
     \<Rightarrow> agent_result \<Rightarrow> mailbox_state \<Rightarrow> (turn_exception + unit) \<times> mailbox_state" where
  "settle_turn sha256 pstr sv now m lease lost ctx result st =
     (if \<not> ar_ok result \<or> ar_degraded result
      then (Inr (), fail_turn sv now m lease
              (case degrade_reason pstr result of None \<Rightarrow> ''named_agent_turn_failed'' | Some [] \<Rightarrow> ''named_agent_turn_failed'' | Some r \<Rightarrow> r) True st)
      else if am_kind m = ASK \<and> agent_result_text result = []
      then (Inr (), fail_turn sv now m lease ''named_agent_empty_reply'' True st)
      else case (if am_kind m = ASK
                 then rbind (agent_message_new (reply_message sha256 now m (agent_result_text result) ctx)) (\<lambda>r. Inr (Some r))
                 else Inr None) of
             Inl e \<Rightarrow> (Inl (OtherException (exception_name e)), st)
           | Inr reply \<Rightarrow> if lost then (Inr (), st) else commit_turn sha256 sv now m lease reply st)"

definition deliver_claimed ::
  "(string \<Rightarrow> string) \<Rightarrow> (pyval \<Rightarrow> string) \<Rightarrow> mailbox_service \<Rightarrow> responder \<Rightarrow> instant \<Rightarrow> agent_message \<Rightarrow> agent_turn_lease \<Rightarrow> mailbox_state
     \<Rightarrow> (turn_exception + unit) \<times> agent_turn_lease \<times> instant \<times> mailbox_state" where
  "deliver_claimed sha256 pstr sv respond now m lease st =
     (case delivery_context sha256 m of
        Inl code \<Rightarrow> (Inl (AuthorityError code), lease, now, st)
      | Inr ctx \<Rightarrow>
          (case continuity sha256 now m (mb_store st) of
             (Inl e, s1) \<Rightarrow> (Inl (OtherException (exception_name e)), lease, now, st\<lparr>mb_store := s1\<rparr>)
           | (Inr text, s1) \<Rightarrow>
               (let st1 = publish_message (sv_has_events sv) m (message_event ''agent_message_received'' m) (st\<lparr>mb_store := s1\<rparr>);
                    out = respond m text ctx (mb_store st1);
                    st2 = st1\<lparr>mb_store := to_store out\<rparr>
                in case to_result out of
                     Inl name \<Rightarrow> (Inl (OtherException name), to_lease out, to_now out, st2)
                   | Inr result \<Rightarrow>
                       (case settle_turn sha256 pstr sv (to_now out) m (to_lease out) (to_lost out) ctx result st2 of
                          (r, st3) \<Rightarrow> (r, to_lease out, to_now out, st3)))))"

definition process_claimed ::
  "(string \<Rightarrow> string) \<Rightarrow> (pyval \<Rightarrow> string) \<Rightarrow> mailbox_service \<Rightarrow> (string \<Rightarrow> responder option) \<Rightarrow> instant \<Rightarrow> claimed_agent_message
     \<Rightarrow> mailbox_state \<Rightarrow> mailbox_state" where
  "process_claimed sha256 pstr sv agents now claimed st =
     (let m = cm_message claimed; lease = cm_turn_lease claimed
      in case agents (am_recipient m) of
           None \<Rightarrow> fail_turn sv now m lease ''named_agent_runtime_not_loaded'' False st
         | Some respond \<Rightarrow>
             (case deliver_claimed sha256 pstr sv respond now m lease st of
                (Inl (AuthorityError code), lease1, now1, st1) \<Rightarrow> fail_turn sv now1 m lease1 code False st1
              | (Inl (OtherException name), lease1, now1, st1) \<Rightarrow>
                  fail_turn sv now1 m lease1 (''named_agent_turn_exception:'' @ name) True st1
              | (Inr _, lease1, now1, st1) \<Rightarrow> st1))"

definition run_once ::
  "(string \<Rightarrow> string) \<Rightarrow> (pyval \<Rightarrow> string) \<Rightarrow> mailbox_service \<Rightarrow> (string \<Rightarrow> responder option) \<Rightarrow> instant \<Rightarrow> string \<Rightarrow> string \<Rightarrow> mailbox_state
     \<Rightarrow> (agent_error + bool) \<times> mailbox_state" where
  "run_once sha256 pstr sv agents now token tenant_id st =
     (case claim_next_agent_message now token tenant_id (sv_worker_id sv) (sv_lease_seconds sv) (sv_max_attempts sv) (mb_store st) of
        (Inl e, s1) \<Rightarrow> (Inl e, st\<lparr>mb_store := s1\<rparr>)
      | (Inr None, s1) \<Rightarrow> (Inr False, st\<lparr>mb_store := s1\<rparr>)
      | (Inr (Some claimed), s1) \<Rightarrow> (Inr True, process_claimed sha256 pstr sv agents now claimed (st\<lparr>mb_store := s1\<rparr>)))"

end
