(* ===== verification/AgentProps.thy ===== *)
theory AgentProps
  imports AgentInvariants AgentMailbox
begin

text \<open>
  The properties of the named-agent mailboxes over arbitrary runs of the store (who holds a turn, how often a message is handed
  out, that settled deliveries stay settled, that replies answer delivered questions, which message a claim takes) and of the
  authority a delivery carries.
\<close>

subsection \<open>Hand-outs\<close>

text \<open>The message an operation hands to a worker, and how often a run hands out one message.\<close>

fun handed_out :: "agent_op \<Rightarrow> agent_store \<Rightarrow> agent_key option" where
  "handed_out (ClaimOp now token t w n M) s = (case fst (claim_next_agent_message now token t w n M s) of
     Inr (Some c) \<Rightarrow> Some (t, am_id (cm_message c)) | _ \<Rightarrow> None)"
| "handed_out _ s = None"

fun handouts :: "agent_key \<Rightarrow> agent_op list \<Rightarrow> agent_store \<Rightarrow> nat" where
  "handouts k [] s = 0"
| "handouts k (x # xs) s = (if handed_out x s = Some k then 1 else 0) + handouts k xs (agent_apply x s)"

definition attempts_of :: "agent_store \<Rightarrow> agent_key \<Rightarrow> nat" where
  "attempts_of s k = (case map_of (agent_deliveries s) k of None \<Rightarrow> 0 | Some d \<Rightarrow> ad_attempts d)"

lemma handout_counts:
  assumes wf: "mailbox_wf s" and h: "handed_out x s = Some k"
  obtains d d' where "map_of (agent_deliveries s) k = Some d" "\<not> settled d"
    "map_of (agent_deliveries (agent_apply x s)) k = Some d'" "ad_attempts d' = Suc (ad_attempts d)"
proof -
  from h obtain now token t w n N where x: "x = ClaimOp now token t w n N" by (cases x) auto
  show thesis using wf
  proof (cases rule: claim_cases[where now = now and t = t and M = N and token = token and w = w and n = n])
    case none
    then show thesis using h x by simp
  next
    case (served m e)
    from h x served(7) have k: "k = (t, am_id m)" by (auto simp: Let_def split: sum.splits)
    obtain d where d: "map_of (agent_deliveries s) k = Some d"
      and e: "e = expire_delivery s t now N k (the (map_of (agent_messages s) k)) d"
      using served(3) swept_spec(7)[OF wf, of now t N k] unfolding k by auto
    have "ad_status e \<in> {DPENDING, DIN_FLIGHT}" using eligible_status[OF served(5)] by simp
    then have "\<not> settled d" unfolding e by (auto simp: settled_def expire_delivery_def failed_delivery_def Let_def split: if_splits)
    moreover have "map_of (agent_deliveries (agent_apply x s)) k = Some (claimed_delivery now w (lease_until now n) e)"
      unfolding x k by (simp add: served(7) Let_def split: sum.splits)
    moreover have "ad_attempts (claimed_delivery now w (lease_until now n) e) = Suc (ad_attempts d)"
      unfolding e by (simp add: claimed_delivery_def)
    ultimately show thesis using d that by blast
  qed
qed

lemma new_delivery_unattempted:
  assumes ok: "agent_op_ok M x" and wf: "mailbox_wf s" and k: "map_of (agent_deliveries s) k = None"
  shows "attempts_of (agent_apply x s) k = 0"
proof -
  have enq: "attempts_of (snd (enqueue_agent_message now m s)) k = 0" if "message_ok m" for now m
    using that by (cases rule: enqueue_cases[of m now s]) (auto simp: attempts_of_def k dest: delivery_newD)
  have live: "live_delivery s t i l now = Some d \<Longrightarrow> k \<noteq> (t, i)" for t i l now d using k by (auto elim: live_deliveryD)
  show ?thesis
  proof (cases x)
    case (EnqueueOp now m)
    then show ?thesis using enq ok by simp
  next
    case (ClaimOp now token t w n N)
    have sw: "map_of (agent_deliveries (swept now t N s)) k = None" using swept_spec(7)[OF wf, of now t N k] k by simp
    show ?thesis using wf
      by (cases rule: claim_cases[where now = now and t = t and M = N and token = token and w = w and n = n];
          use sw ClaimOp in \<open>auto simp: attempts_of_def Let_def split: sum.splits\<close>)
  next
    case (CompleteOp now t i l reply)
    show ?thesis
    proof (cases rule: complete_cases[of now t i l reply s])
      case kept
      then show ?thesis using k CompleteOp by (simp add: attempts_of_def)
    next
      case (raised r d m e)
      then show ?thesis using enq[of r now] ok CompleteOp by simp
    next
      case (answered r d m b)
      have "agent_apply x s = put_lease (t, ad_recipient d) None
         (put_delivery (t, i) (delivered_delivery now d) (snd (enqueue_agent_message now r s)))"
        unfolding CompleteOp agent_apply.simps answered(6) by simp
      then show ?thesis using enq[of r now] live[OF answered(2)] ok CompleteOp answered(1) by (simp add: attempts_of_def)
    next
      case (absorbed d)
      then show ?thesis using live[OF absorbed(2)] k CompleteOp by (simp add: attempts_of_def)
    qed
  next
    case (FailOp now t i l code retryable N b)
    then show ?thesis using live k by (auto simp: fail_agent_message_def attempts_of_def split: option.splits)
  next
    case (RenewClaimOp now t i l n)
    then show ?thesis using live k by (auto simp: renew_agent_message_claim_def attempts_of_def Let_def split: option.splits)
  qed (use k in \<open>auto simp: attempts_of_def turn_tables acquire_tables\<close>)
qed

lemma step_attempts_of:
  assumes "agent_op_ok M x" "mailbox_wf s"
  shows "attempts_of s k + (if handed_out x s = Some k then 1 else 0) \<le> attempts_of (agent_apply x s) k"
    and "attempts_of s k \<le> M \<Longrightarrow> attempts_of (agent_apply x s) k \<le> M"
proof -
  show "attempts_of s k + (if handed_out x s = Some k then 1 else 0) \<le> attempts_of (agent_apply x s) k"
  proof (cases "handed_out x s = Some k")
    case True
    obtain d d' where "map_of (agent_deliveries s) k = Some d" "map_of (agent_deliveries (agent_apply x s)) k = Some d'"
      "ad_attempts d' = Suc (ad_attempts d)" by (rule handout_counts[OF assms(2) True])
    then show ?thesis using True by (simp add: attempts_of_def)
  next
    case False
    then show ?thesis using step_refines[OF assms, of k]
      by (cases "map_of (agent_deliveries s) k") (auto simp: attempts_of_def dest: steps_attempts)
  qed
  show "attempts_of (agent_apply x s) k \<le> M" if "attempts_of s k \<le> M"
    using that step_refines[OF assms, of k] new_delivery_unattempted[OF assms, of k]
    by (cases "map_of (agent_deliveries s) k") (auto simp: attempts_of_def dest: steps_attempts)
qed

lemma run_attempts_of:
  assumes "list_all (agent_op_ok M) xs" "mailbox_wf s" "attempts_of s k \<le> M"
  shows "attempts_of s k + handouts k xs s \<le> attempts_of (agent_run xs s) k \<and> attempts_of (agent_run xs s) k \<le> M"
  using assms
proof (induction xs arbitrary: s)
  case (Cons x xs)
  have x: "agent_op_ok M x" using Cons.prems by simp
  note st = step_attempts_of[OF x Cons.prems(2), of k]
  from Cons.IH[OF _ wf_step[OF x Cons.prems(2)] st(2)[OF Cons.prems(3)]] Cons.prems(1) st(1) show ?case by simp
qed simp

lemma settled_run:
  assumes "list_all (agent_op_ok M) xs" "mailbox_wf s" "map_of (agent_deliveries s) k = Some d" "settled d"
  shows "map_of (agent_deliveries (agent_run xs s)) k = Some d \<and> handouts k xs s = 0"
  using assms
proof (induction xs arbitrary: s)
  case (Cons x xs)
  have x: "agent_op_ok M x" using Cons.prems by simp
  have d: "map_of (agent_deliveries (agent_apply x s)) k = Some d"
    using step_refines[OF x Cons.prems(2,3)] settled_steps Cons.prems(4) by blast
  have "handed_out x s \<noteq> Some k"
  proof
    assume "handed_out x s = Some k"
    then obtain e where "map_of (agent_deliveries s) k = Some e" "\<not> settled e" by (rule handout_counts[OF Cons.prems(2)])
    with Cons.prems(3,4) show False by simp
  qed
  with Cons.IH[OF _ wf_step[OF x Cons.prems(2)] d Cons.prems(4)] Cons.prems(1) show ?case by simp
qed simp

text \<open>Property C20. A message is handed out at most as often as the workers' bound of attempts allows, in any run of any number of
  workers, crashed ones included: however claims, expiries, failures, retries and renewals interleave, the number of claims that returned it never exceeds
  the bound.\<close>

theorem message_is_handed_out_within_its_attempts:
  assumes "list_all (agent_op_ok M) xs"
  shows "handouts k xs empty_agent_store \<le> M"
  using run_attempts_of[OF assms wf_empty, of k] by (simp add: attempts_of_def empty_agent_store_def)

text \<open>A delivery that was delivered or has failed is final: nothing a later run does changes it, and the message is
  never handed out again.\<close>

lemma settled_delivery_is_final:
  assumes "list_all (agent_op_ok M) xs" "list_all (agent_op_ok M) ys"
    and "map_of (agent_deliveries (agent_run xs empty_agent_store)) k = Some d" "ad_status d \<in> {DDELIVERED, DFAILED}"
  shows "map_of (agent_deliveries (agent_run (xs @ ys) empty_agent_store)) k = Some d
    \<and> handouts k ys (agent_run xs empty_agent_store) = 0"
  using settled_run[OF assms(2) wf_run[OF assms(1) wf_empty] assms(3)] assms(4) by (simp add: settled_def)

subsection \<open>Leases\<close>

text \<open>The token of the lease that holds the turn of an agent, the token an operation issues, the token it acts with and its clock.\<close>

definition turn_token :: "agent_store \<Rightarrow> agent_key \<Rightarrow> string option" where
  "turn_token s k = map_option tl_token (current_lease s k)"

fun op_issues :: "agent_op \<Rightarrow> string option" where
  "op_issues (AcquireOp now token t a w lane n ttl) = Some (''atl_'' @ token)"
| "op_issues (ClaimOp now token t w n M) = Some (''atl_'' @ token)"
| "op_issues _ = None"

fun op_lease_token :: "agent_op \<Rightarrow> string option" where
  "op_lease_token (RenewTurnOp now l n) = Some (tl_token l)"
| "op_lease_token (ReleaseOp l) = Some (tl_token l)"
| "op_lease_token (CompleteOp now t i l reply) = Some (tl_token l)"
| "op_lease_token (FailOp now t i l code retryable M b) = Some (tl_token l)"
| "op_lease_token (RenewClaimOp now t i l n) = Some (tl_token l)"
| "op_lease_token _ = None"

fun op_clock :: "agent_op \<Rightarrow> instant option" where
  "op_clock (AcquireOp now token t a w lane n ttl) = Some now"
| "op_clock (ClaimOp now token t w n M) = Some now"
| "op_clock _ = None"

lemma expire_loop_leases: "agent_turn_leases (snd (expire_loop t now M ds s)) = agent_turn_leases s"
  by (induction t now M ds s rule: expire_loop.induct) (auto split: option.splits)

lemma swept_leases: "current_lease (swept now t M s) k = current_lease (prune_agent_turn_state now (Some t) None s) k"
  by (simp add: swept_def expire_undeliverable_def current_lease_def expire_loop_leases)

lemma claim_leases:
  "current_lease (snd (claim_next_agent_message now token t w n M s)) k = current_lease (swept now t M s) k \<or>
   (\<exists>l. current_lease (snd (claim_next_agent_message now token t w n M s)) k = Some l \<and> tl_token l = ''atl_'' @ token)"
proof -
  obtain r s2 where e: "expire_undeliverable t now M (prune_agent_turn_state now (Some t) None s) = (r, s2)" by fastforce
  then have s2: "swept now t M s = s2" by (simp add: swept_def)
  show ?thesis unfolding claim_next_agent_message_def Let_def e s2
    by (auto simp: agent_turn_lease_new_def split: sum.splits list.splits prod.splits)
qed

lemma current_lease_others [simp]:
  "current_lease (s\<lparr>agent_turn_waiters := W\<rparr>) k = current_lease s k"
  "current_lease (cancel_agent_turn_waiter t a w s) k = current_lease s k"
  "current_lease (snd (ensure_agent_session x s)) k = current_lease s k"
  "current_lease (add_agent_session_summary su s) k = current_lease s k"
  "current_lease (snd (deactivate_absent_named_agents now t ds s)) k = current_lease s k"
  "current_lease (upsert_named_agent now ag s) k = current_lease s k"
  by (auto simp: current_lease_def cancel_agent_turn_waiter_def ensure_agent_session_def add_agent_session_summary_def
      deactivate_absent_named_agents_def upsert_named_agent_def Let_def update_conv' split: option.splits)

lemma enqueue_leases [simp]: "current_lease (snd (enqueue_agent_message now m s)) k = current_lease s k"
  by (auto simp: enqueue_agent_message_def Let_def current_lease_def split: sum.splits)

lemma complete_leases:
  "current_lease (snd (complete_agent_message now t i l reply s)) k \<in> {None, current_lease s k}"
  by (cases rule: complete_cases[of now t i l reply s]) simp_all

lemma step_token:
  assumes "turn_token (agent_apply x s) k = Some tok"
  shows "turn_token s k = Some tok \<or> op_issues x = Some tok"
proof (cases x)
  case (AcquireOp now token t a w lane n ttl)
  have p: "current_lease (prune_agent_turn_state now' t' a' s) k = Some l \<Longrightarrow> turn_token s k = Some (tl_token l)" for now' t' a' l
    by (auto simp: turn_token_def dest: prune_current)
  show ?thesis
    by (cases rule: acquire_cases[of now token t a w lane n ttl s]; use assms AcquireOp p in \<open>auto simp: turn_token_def split: if_splits\<close>)
next
  case (ClaimOp now token t w n M)
  from assms obtain l where l: "current_lease (snd (claim_next_agent_message now token t w n M s)) k = Some l" "tl_token l = tok"
    unfolding ClaimOp by (auto simp: turn_token_def)
  have "current_lease s k = Some l \<or> tok = ''atl_'' @ token"
    using claim_leases[of now token t w n M s k] l prune_current[of now "Some t" None s k l] unfolding swept_leases by fastforce
  then show ?thesis using l(2) unfolding ClaimOp by (auto simp: turn_token_def)
next
  case (CompleteOp now t i l reply)
  then show ?thesis using assms complete_leases[of now t i l reply s k] by (auto simp: turn_token_def)
next
  case (RenewClaimOp now t i l n)
  then show ?thesis using assms
    by (auto simp: turn_token_def renew_agent_message_claim_def Let_def split: option.splits if_splits elim!: live_deliveryD)
qed (use assms in \<open>auto simp: turn_token_def renew_agent_turn_def release_agent_turn_def fail_agent_message_def Let_def
      split: option.splits if_splits\<close>)

interpretation turns: turn_fence agent_apply turn_token op_issues
  by unfold_locales (rule step_token)

lemma no_token_no_delivery:
  assumes "map_of (agent_deliveries s) (t, i) = Some d" "turn_token s (t, ad_recipient d) \<noteq> Some (tl_token l)"
  shows "live_delivery s t i l now = None"
  using assms by (auto simp: live_delivery_def turn_token_def split: option.splits)

text \<open>Property C19. A lease that no longer holds the turn of its agent never works again: as long as its token is not issued
  anew, whatever runs in between, completing, failing or renewing the message with it is refused and changes nothing. The work of a
  stale worker is discarded.\<close>

theorem superseded_lease_is_refused:
  assumes "turn_token s (t, a) \<noteq> Some (tl_token l)" and "list_all (\<lambda>x. op_issues x \<noteq> Some (tl_token l)) xs"
    and "map_of (agent_deliveries (agent_run xs s)) (t, i) = Some d" and "ad_recipient d = a"
  shows "complete_agent_message now t i l reply (agent_run xs s) = (Inr False, agent_run xs s)
    \<and> fail_agent_message now t i l code retryable M b (agent_run xs s) = (False, agent_run xs s)
    \<and> renew_agent_message_claim now t i l n (agent_run xs s) = (None, agent_run xs s)"
proof -
  have "turn_token (agent_run xs s) (t, a) \<noteq> Some (tl_token l)"
    unfolding agent_run_def by (rule turns.superseded_stays_out[OF assms(1,2)])
  then have "live_delivery (agent_run xs s) t i l now = None" using no_token_no_delivery assms(3,4) by blast
  then show ?thesis by (simp add: complete_agent_message_def fail_agent_message_def renew_agent_message_claim_def)
qed

subsection \<open>Live claims\<close>

lemma live_cong:
  assumes "live_delivery s t i l now = Some d" "map_of (agent_deliveries s') (t, i) = Some d"
    "current_lease s' (t, ad_recipient d) = current_lease s (t, ad_recipient d)"
  shows "live_delivery s' t i l now = Some d"
  using assms by (auto simp: live_delivery_def split: option.splits if_splits)

lemma live_not_due: "live_delivery s t i l now = Some d \<Longrightarrow> now' \<le> now \<Longrightarrow> \<not> delivery_due now' d"
  by (auto simp: live_delivery_def delivery_due_def delivery_lapsed_def split: option.splits if_splits)

lemma live_not_expired: "live_delivery s t i l now = Some d \<Longrightarrow> now' \<le> now \<Longrightarrow> expire_delivery s t' now' N k m d = d"
  by (auto simp: live_delivery_def expire_delivery_def delivery_lapsed_def Let_def split: option.splits if_splits)

lemma live_prune:
  assumes "live_delivery s t i l now = Some d" "now' \<le> now"
  shows "current_lease (prune_agent_turn_state now' t' a' s) (t, ad_recipient d) = current_lease s (t, ad_recipient d)"
    and "current_lease s (t, ad_recipient d) \<noteq> None"
  using assms by (auto elim!: live_deliveryD simp: prune_keeps_live)

lemma live_claim:
  assumes wf: "mailbox_wf s" and live: "live_delivery s t i l now = Some d" and now: "now' \<le> now"
  shows "live_delivery (snd (claim_next_agent_message now' token t' w n N s)) t i l now = Some d"
    and "fst (claim_next_agent_message now' token t w n N s) = Inr (Some c) \<Longrightarrow> am_recipient (cm_message c) \<noteq> ad_recipient d"
proof -
  have d: "map_of (agent_deliveries s) (t, i) = Some d" using live by (rule live_deliveryD)
  have sw: "map_of (agent_deliveries (swept now' u N s)) (t, i) = Some d" for u
    using swept_spec(7)[OF wf, of now' u N "(t, i)"] d live_not_expired[OF live now] by simp
  have lease: "current_lease (swept now' u N s) (t, ad_recipient d) = current_lease s (t, ad_recipient d)" for u
    unfolding swept_leases by (rule live_prune(1)[OF live now])
  have free: "(u, am_recipient m) \<noteq> (t, ad_recipient d)" if "eligible_delivery (swept now' u N s) u now' N m e" for u m e
    using that lease live_prune(2)[OF live now] by (auto simp: eligible_delivery_def)
  show "live_delivery (snd (claim_next_agent_message now' token t' w n N s)) t i l now = Some d" using wf
  proof (cases rule: claim_cases[where now = now' and t = t' and M = N and token = token and w = w and n = n])
    case none
    then show ?thesis using live_cong[OF live sw lease] by simp
  next
    case (served m e)
    have k: "(t, i) \<noteq> (t', am_id m)"
    proof
      assume "(t, i) = (t', am_id m)"
      then have "e = d" using served(3) sw[of t'] by simp
      then show False using served(5) live_not_due[OF live now] by (simp add: eligible_delivery_def)
    qed
    have f: "(t, ad_recipient d) \<noteq> (t', am_recipient m)" using free[OF served(5)] by auto
    show ?thesis by (rule live_cong[OF live]; unfold served(7) Let_def; use k f sw lease in \<open>auto split: sum.splits\<close>)
  qed
  show "am_recipient (cm_message c) \<noteq> ad_recipient d" if "fst (claim_next_agent_message now' token t w n N s) = Inr (Some c)"
    using wf
  proof (cases rule: claim_cases[where now = now' and t = t and M = N and token = token and w = w and n = n])
    case none
    then show ?thesis using that by simp
  next
    case (served m e)
    then have "cm_message c = m" using that by (auto simp: Let_def split: sum.splits)
    then show ?thesis using free[OF served(5)] by simp
  qed
qed


lemma live_elsewhere:
  assumes "live_delivery s t i l now = Some d" "live_delivery s t' i' l' now' = Some d'" "tl_token l' \<noteq> tl_token l"
  shows "(t', i') \<noteq> (t, i)" and "(t', ad_recipient d') \<noteq> (t, ad_recipient d)"
proof -
  show r: "(t', ad_recipient d') \<noteq> (t, ad_recipient d)"
    using assms by (auto elim!: live_deliveryD)
  show "(t', i') \<noteq> (t, i)" using r assms(1,2) by (auto elim!: live_deliveryD)
qed

lemma live_step:
  assumes wf: "mailbox_wf s" and ok: "agent_op_ok M x" and live: "live_delivery s t i l now = Some d"
    and tok: "op_lease_token x \<noteq> Some (tl_token l)" and clock: "\<And>c. op_clock x = Some c \<Longrightarrow> c \<le> now"
  shows "live_delivery (agent_apply x s) t i l now = Some d"
proof -
  obtain c where d: "map_of (agent_deliveries s) (t, i) = Some d" and c: "current_lease s (t, ad_recipient d) = Some c"
    and ct: "tl_token c = tl_token l" using live by (rule live_deliveryD)
  note away = live_elsewhere[OF live]
  show ?thesis
  proof (cases x)
    case (AcquireOp now' token t' a w lane n ttl)
    have now: "now' \<le> now" using clock AcquireOp by simp
    note p = live_prune(1)[OF live now, of "Some t'" "Some a"]
    show ?thesis
      by (rule live_cong[OF live], simp add: AcquireOp acquire_tables d)
        (cases rule: acquire_cases[of now' token t' a w lane n ttl s]; use p c AcquireOp in \<open>auto\<close>)
  next
    case (RenewTurnOp now' l' n)
    then show ?thesis using tok c ct
      by (intro live_cong[OF live]) (auto simp: turn_tables d renew_agent_turn_def Let_def split: option.splits)
  next
    case (ReleaseOp l')
    then show ?thesis using tok c ct
      by (intro live_cong[OF live]) (auto simp: turn_tables d release_agent_turn_def Let_def split: option.splits)
  next
    case (EnqueueOp now' m)
    then show ?thesis using ok enqueue_keeps_delivery(1)[OF _ wf d] by (intro live_cong[OF live]) simp_all
  next
    case (ClaimOp now' token t' w n N)
    then show ?thesis using live_claim(1)[OF wf live] clock by simp
  next
    case (CompleteOp now' t' i' l' reply)
    have t: "tl_token l' \<noteq> tl_token l" using tok CompleteOp by simp
    show ?thesis
    proof (cases rule: complete_cases[of now' t' i' l' reply s])
      case kept
      then show ?thesis using live CompleteOp by simp
    next
      case (raised r d' m e)
      then show ?thesis using ok CompleteOp enqueue_keeps_delivery(1)[OF _ wf d] by (intro live_cong[OF live]) simp_all
    next
      case (answered r d' m b)
      then have "message_ok r" using ok CompleteOp by simp
      then show ?thesis using away[OF answered(2) t] enqueue_keeps_delivery(1)[OF _ wf d, of r now'] answered(6) CompleteOp
        by (intro live_cong[OF live]) auto
    next
      case (absorbed d')
      then show ?thesis using away[OF absorbed(2) t] d CompleteOp by (intro live_cong[OF live]) auto
    qed
  next
    case (FailOp now' t' i' l' code retryable N b)
    then show ?thesis using away[of t' i' l' now'] tok d
      by (intro live_cong[OF live]; cases "live_delivery s t' i' l' now'") (auto simp: fail_agent_message_def)
  next
    case (RenewClaimOp now' t' i' l' n)
    then show ?thesis using away[of t' i' l' now'] tok d
      by (intro live_cong[OF live]; cases "live_delivery s t' i' l' now'") (auto simp: renew_agent_message_claim_def Let_def)
  qed (intro live_cong[OF live]; simp add: turn_tables d)+
qed

definition leaves_alone :: "nat \<Rightarrow> string \<Rightarrow> instant \<Rightarrow> agent_op \<Rightarrow> bool" where
  "leaves_alone M token until x \<longleftrightarrow> agent_op_ok M x \<and> op_lease_token x \<noteq> Some token
     \<and> (case op_clock x of None \<Rightarrow> True | Some c \<Rightarrow> c \<le> until)"

interpretation live: step_invariant agent_apply "leaves_alone M (tl_token l) now" "\<lambda>s. mailbox_wf s \<and> live_delivery s t i l now = Some d"
proof unfold_locales
  fix x s assume a: "leaves_alone M (tl_token l) now x" "mailbox_wf s \<and> live_delivery s t i l now = Some d"
  then have x: "agent_op_ok M x" "op_lease_token x \<noteq> Some (tl_token l)" "op_clock x = Some c \<Longrightarrow> c \<le> now" for c
    by (auto simp: leaves_alone_def)
  with a(2) show "mailbox_wf (agent_apply x s) \<and> live_delivery (agent_apply x s) t i l now = Some d"
    using wf_step[OF x(1)] live_step[OF _ x(1) _ x(2,3)] by blast
qed

text \<open>Property C18. A live claim is exclusive and nobody can take it away: up to the instant its lease runs out, whatever other
  workers, chats and administrators do, the delivery stays with the worker that claimed it, no message for the same agent is
  handed out, and the worker's completion is then accepted.\<close>

theorem live_claim_is_exclusive:
  assumes "list_all (agent_op_ok M) xs" and "live_delivery (agent_run xs empty_agent_store) t i l now = Some d"
    and "list_all (leaves_alone M (tl_token l) now) ys"
  shows "live_delivery (agent_run (xs @ ys) empty_agent_store) t i l now = Some d
    \<and> (\<forall>now' token w n N c. now' \<le> now
         \<longrightarrow> fst (claim_next_agent_message now' token t w n N (agent_run (xs @ ys) empty_agent_store)) = Inr (Some c)
         \<longrightarrow> am_recipient (cm_message c) \<noteq> ad_recipient d)
    \<and> fst (complete_agent_message now t i l None (agent_run (xs @ ys) empty_agent_store)) = Inr True"
proof -
  have inv: "mailbox_wf (agent_run (xs @ ys) empty_agent_store) \<and> live_delivery (agent_run (xs @ ys) empty_agent_store) t i l now = Some d"
    using live.run_keeps[OF assms(3), of "agent_run xs empty_agent_store" t i d] wf_run[OF assms(1) wf_empty] assms(2)
    by (simp add: agent_run_def)
  moreover have "am_recipient (cm_message c) \<noteq> ad_recipient d"
    if "now' \<le> now" "fst (claim_next_agent_message now' token t w n N (agent_run (xs @ ys) empty_agent_store)) = Inr (Some c)" for now' token w n N c
    using live_claim(2)[of "agent_run (xs @ ys) empty_agent_store"] inv that by blast
  moreover have "fst (complete_agent_message now t i l None (agent_run (xs @ ys) empty_agent_store)) = Inr True"
    using inv by (simp add: complete_agent_message_def Let_def)
  ultimately show ?thesis by blast
qed

subsection \<open>Replies\<close>

lemma enqueue_messages:
  assumes "message_ok m"
  shows "agent_messages (snd (enqueue_agent_message now m s)) = agent_messages s
    \<or> map_of (agent_messages s) (am_tenant_id m, am_id m) = None \<and> fst (enqueue_agent_message now m s) = Inr True
      \<and> agent_messages (snd (enqueue_agent_message now m s)) = AList.update (am_tenant_id m, am_id m) m (agent_messages s)"
  using assms by (cases rule: enqueue_cases[of m now s]) simp_all

lemma claim_messages: "mailbox_wf s \<Longrightarrow> agent_messages (snd (claim_next_agent_message now token t w n M s)) = agent_messages s"
  by (cases rule: claim_cases[where now = now and t = t and M = M and token = token and w = w and n = n and s = s])
    (auto simp: swept_spec(3) Let_def split: sum.splits)

lemma settle_messages:
  "agent_messages (snd (fail_agent_message now t i l code retryable N b s)) = agent_messages s"
  "agent_messages (snd (renew_agent_message_claim now t i l n s)) = agent_messages s"
  by (simp_all add: fail_agent_message_def renew_agent_message_claim_def Let_def split: option.splits)

lemma complete_messages:
  assumes "agent_op_ok M (CompleteOp now t i l reply)"
  obtains (same) "agent_messages (snd (complete_agent_message now t i l reply s)) = agent_messages s"
  | (reply) r m d where "reply = Some r" "am_tenant_id r = t" "map_of (agent_messages s) (t, am_id r) = None"
      "map_of (agent_messages s) (t, i) = Some m" "reply_matches t i m r"
      "map_of (agent_deliveries (snd (complete_agent_message now t i l reply s))) (t, i) = Some (delivered_delivery now d)"
      "agent_messages (snd (complete_agent_message now t i l reply s)) = AList.update (t, am_id r) r (agent_messages s)"
proof (cases rule: complete_cases[of now t i l reply s])
  case (raised r d m e)
  have "message_ok r" using assms raised(1) by simp
  from enqueue_messages[OF this, of now s] raised(5) show thesis by (intro same) (auto simp: raised(6))
next
  case (answered r d m b)
  have r: "message_ok r" using assms answered(1) by simp
  have t: "am_tenant_id r = t" using answered(4) by (simp add: reply_matches_def)
  show thesis
  proof (cases "agent_messages (snd (enqueue_agent_message now r s)) = agent_messages s")
    case True
    then show thesis by (intro same) (simp add: answered(6))
  next
    case False
    with enqueue_messages[OF r, of now s] answered t show thesis by (intro reply[of r m d]) simp_all
  qed
qed (use same in \<open>auto\<close>)

text \<open>The messages of a run that were not built as replies of a completion are no replies, as \<^verbatim>\<open>agent.send\<close> ensures.\<close>

fun op_asks :: "agent_op \<Rightarrow> bool" where
  "op_asks (EnqueueOp now m) = (am_reply_to m = None)"
| "op_asks _ = True"

definition answers :: "agent_store \<Rightarrow> string \<Rightarrow> agent_message \<Rightarrow> string \<Rightarrow> bool" where
  "answers s t r i \<longleftrightarrow> (\<exists>m d. map_of (agent_messages s) (t, i) = Some m \<and> map_of (agent_deliveries s) (t, i) = Some d
     \<and> ad_status d = DDELIVERED \<and> am_sender r = am_recipient m \<and> am_recipient r = am_sender m
     \<and> am_conversation_id r = am_conversation_id m)"

definition replies_answer :: "agent_store \<Rightarrow> bool" where
  "replies_answer s \<longleftrightarrow> (\<forall>t j r i. map_of (agent_messages s) (t, j) = Some r \<longrightarrow> am_reply_to r = Some i \<longrightarrow> answers s t r i)"

lemma step_messages:
  assumes ok: "agent_op_ok M x" and wf: "mailbox_wf s" and asks: "op_asks x"
    and k: "map_of (agent_messages (agent_apply x s)) (t, j) = Some r" "am_reply_to r = Some i"
  shows "map_of (agent_messages s) (t, j) = Some r \<or> answers (agent_apply x s) t r i"
proof (cases x)
  case (EnqueueOp now m)
  then show ?thesis using k asks ok enqueue_messages[of m now s] by (auto simp: update_conv' split: if_splits)
next
  case (CompleteOp now t' i' l reply)
  from ok[unfolded CompleteOp] show ?thesis
  proof (cases rule: complete_messages[where s = s])
    case same
    then show ?thesis using k CompleteOp by simp
  next
    case (reply r' m d)
    show ?thesis
    proof (cases "(t, j) = (t', am_id r')")
      case True
      then have "r' = r" "t' = t" using k(1) reply(7) by (simp_all add: CompleteOp update_conv')
      moreover then have "i' = i" using reply(5) k(2) by (simp add: reply_matches_def)
      moreover have "(t', i') \<noteq> (t', am_id r')" using reply(3,4) by auto
      ultimately show ?thesis using reply(4-7) unfolding answers_def CompleteOp agent_apply.simps reply(7)
        by (intro disjI2 exI[of _ m] exI[of _ "delivered_delivery now d"]) (simp add: update_conv' reply_matches_def delivered_delivery_def)
    next
      case False
      then have "(if (t, j) = (t', am_id r') then Some r' else map_of (agent_messages s) (t, j)) = map_of (agent_messages s) (t, j)"
        by (rule if_not_P)
      then show ?thesis using k(1) reply(7) unfolding CompleteOp agent_apply.simps by (simp add: update_conv')
    qed
  qed
qed (use k wf in \<open>simp_all add: turn_tables acquire_tables claim_messages settle_messages\<close>)

lemma step_keeps_message:
  assumes ok: "agent_op_ok M x" and wf: "mailbox_wf s" and k: "map_of (agent_messages s) k = Some m"
  shows "map_of (agent_messages (agent_apply x s)) k = Some m"
proof (cases x)
  case (EnqueueOp now r)
  then show ?thesis using k ok enqueue_messages[of r now s] by (auto simp: update_conv' split: if_splits)
next
  case (CompleteOp now t i l reply)
  from ok[unfolded CompleteOp] show ?thesis
    by (cases rule: complete_messages[where s = s]) (use k CompleteOp in \<open>auto simp: update_conv'\<close>)
qed (use k wf in \<open>simp_all add: turn_tables acquire_tables claim_messages settle_messages\<close>)

lemma step_keeps_answers:
  assumes "agent_op_ok M x" "mailbox_wf s" "answers s t r i"
  shows "answers (agent_apply x s) t r i"
proof -
  obtain m d where m: "map_of (agent_messages s) (t, i) = Some m" and d: "map_of (agent_deliveries s) (t, i) = Some d"
    and st: "ad_status d = DDELIVERED" and e: "am_sender r = am_recipient m" "am_recipient r = am_sender m" "am_conversation_id r = am_conversation_id m"
    using assms(3) by (auto simp: answers_def)
  have "map_of (agent_deliveries (agent_apply x s)) (t, i) = Some d"
    using step_refines[OF assms(1,2) d] settled_steps[of M d] st by (auto simp: settled_def)
  with step_keeps_message[OF assms(1,2) m] st e show ?thesis by (auto simp: answers_def)
qed

interpretation replies: step_invariant agent_apply "\<lambda>x. agent_op_ok M x \<and> op_asks x" "\<lambda>s. mailbox_wf s \<and> replies_answer s"
proof unfold_locales
  fix x s assume x: "agent_op_ok M x \<and> op_asks x" and s: "mailbox_wf s \<and> replies_answer s"
  have "replies_answer (agent_apply x s)"
    unfolding replies_answer_def using step_messages[of M x s] step_keeps_answers[of M x s] x s by (meson replies_answer_def)
  then show "mailbox_wf (agent_apply x s) \<and> replies_answer (agent_apply x s)" using wf_step x s by blast
qed

text \<open>Property C21. A reply in a mailbox always answers a question that was delivered: in every run, a stored message that replies
  to another one goes from the recipient of that message back to its sender in the same conversation, and the delivery of the question
  is complete. A reply is stored together with the completion of its question or not at all.\<close>

theorem every_reply_answers_a_delivered_message:
  assumes "list_all (\<lambda>x. agent_op_ok M x \<and> op_asks x) xs"
    and "map_of (agent_messages (agent_run xs empty_agent_store)) (t, j) = Some r" "am_reply_to r = Some i"
  shows "\<exists>m d. map_of (agent_messages (agent_run xs empty_agent_store)) (t, i) = Some m
    \<and> map_of (agent_deliveries (agent_run xs empty_agent_store)) (t, i) = Some d \<and> ad_status d = DDELIVERED
    \<and> am_sender r = am_recipient m \<and> am_recipient r = am_sender m \<and> am_conversation_id r = am_conversation_id m"
proof -
  have "replies_answer empty_agent_store" by (simp add: replies_answer_def empty_agent_store_def)
  then have "replies_answer (agent_run xs empty_agent_store)"
    using replies.run_keeps[OF assms(1), of empty_agent_store] wf_empty unfolding agent_run_def by blast
  then show ?thesis using assms(2,3) unfolding replies_answer_def answers_def by blast
qed


subsection \<open>Which message a claim takes\<close>

text \<open>What makes a message deliverable, read off the state: it is due with an attempt left, its recipient is enabled, no unexpired
  lease holds the recipient's turn and no interactive caller waits for it.\<close>

definition deliverable :: "instant \<Rightarrow> string \<Rightarrow> nat \<Rightarrow> agent_store \<Rightarrow> agent_message \<Rightarrow> bool" where
  "deliverable now t M s m \<longleftrightarrow> map_of (agent_messages s) (t, am_id m) = Some m
     \<and> (case map_of (agent_deliveries s) (t, am_id m) of None \<Rightarrow> False | Some d \<Rightarrow> delivery_due now d \<and> ad_attempts d < M)
     \<and> enabled_agent s (t, am_recipient m)
     \<and> (case current_lease s (t, am_recipient m) of None \<Rightarrow> True | Some l \<Rightarrow> tl_expires_at l \<le> now)
     \<and> \<not> list_ex (\<lambda>((t', a, w), lane, asked, lapses). t' = t \<and> a = am_recipient m \<and> lane = INTERACTIVE \<and> now < lapses) (agent_turn_waiters s)"

lemma lane_before_peer: "TURN_LANE_PRIORITY lane < TURN_LANE_PRIORITY PEER \<longleftrightarrow> lane = INTERACTIVE"
  by (cases lane) simp_all

lemma list_ex_filter: "list_ex P (filter Q xs) = list_ex (\<lambda>x. Q x \<and> P x) xs"
  by (induction xs) auto

lemma swept_waiting:
  assumes "mailbox_wf s"
  shows "interactive_waiting (swept now t M s) (t, a) \<longleftrightarrow>
    list_ex (\<lambda>((t', a', w), lane, asked, lapses). t' = t \<and> a' = a \<and> lane = INTERACTIVE \<and> now < lapses) (agent_turn_waiters s)"
  unfolding interactive_waiting_def swept_spec(6)[OF assms] lane_before_peer prune_agent_turn_state_def Let_def
  by (simp add: list_ex_filter) (rule list_ex_cong[OF refl], auto simp: not_le)

lemma servable_iff:
  assumes wf: "mailbox_wf s"
  shows "servable now t M s m \<longleftrightarrow> deliverable now t M s m"
proof -
  have key: "k = (t, am_id m)" if "map_of (agent_messages s) k = Some m" "fst k = t" for k
    using wf_messageD[OF wf that(1)] that(2) by auto
  have en: "enabled_agent (swept now t M s) k = enabled_agent s k" for k by (simp add: enabled_agent_def swept_spec(4)[OF wf])
  have free: "current_lease (swept now t M s) (t, a) = None \<longleftrightarrow> (case current_lease s (t, a) of None \<Rightarrow> True | Some l \<Rightarrow> tl_expires_at l \<le> now)" for a
    unfolding swept_leases current_lease_prune by (auto split: option.splits)
  have exp: "(\<exists>e. map_of (agent_deliveries (swept now t M s)) (t, am_id m) = Some e \<and> delivery_due now e \<and> ad_attempts e < M)
      \<longleftrightarrow> (case map_of (agent_deliveries s) (t, am_id m) of None \<Rightarrow> False | Some d \<Rightarrow> delivery_due now d \<and> ad_attempts d < M)"
    if "map_of (agent_messages s) (t, am_id m) = Some m" "enabled_agent s (t, am_recipient m)"
  proof -
    have "delivery_due now (expire_delivery s t now M k m d) \<and> ad_attempts d < M \<longleftrightarrow> delivery_due now d \<and> ad_attempts d < M" for k d
      using that(2) by (auto simp: expire_delivery_def Let_def)
    then show ?thesis unfolding swept_spec(7)[OF wf] using that(1) by (auto split: option.splits)
  qed
  have "servable now t M s m \<longleftrightarrow> map_of (agent_messages s) (t, am_id m) = Some m \<and>
      (\<exists>e. map_of (agent_deliveries (swept now t M s)) (t, am_id m) = Some e \<and> eligible_delivery (swept now t M s) t now M m e)"
    unfolding servable_def using key by (metis fst_conv)
  also have "\<dots> \<longleftrightarrow> map_of (agent_messages s) (t, am_id m) = Some m \<and> enabled_agent s (t, am_recipient m) \<and>
      (\<exists>e. map_of (agent_deliveries (swept now t M s)) (t, am_id m) = Some e \<and> delivery_due now e \<and> ad_attempts e < M) \<and>
      current_lease (swept now t M s) (t, am_recipient m) = None \<and> \<not> interactive_waiting (swept now t M s) (t, am_recipient m)"
    unfolding eligible_delivery_def en by (auto simp: not_le)
  finally show ?thesis unfolding deliverable_def free swept_waiting[OF wf] using exp by blast
qed

lemma strip_nonblank: "c \<in> set s \<Longrightarrow> \<not> py_isspace c \<Longrightarrow> strip s \<noteq> []"
proof -
  assume c: "c \<in> set s" "\<not> py_isspace c"
  then have "c \<in> set (dropWhile py_isspace s)" by (induction s) auto
  then show ?thesis using c(2) by (auto simp: strip_def)
qed

text \<open>Property C23. A claim serves the mailbox in order: when some message is deliverable, the claim hands out a deliverable message,
  the oldest one by creation time and id, so that messages to one agent are processed in the order they were created and none that can be
  delivered is passed over for ever.\<close>

theorem oldest_deliverable_message_is_claimed:
  assumes "list_all (agent_op_ok M) xs" and "deliverable now t N (agent_run xs empty_agent_store) m"
    and "required_text t 256" "required_text w 256" "length token \<le> 124"
  shows "\<exists>c. fst (claim_next_agent_message now token t w n N (agent_run xs empty_agent_store)) = Inr (Some c)
    \<and> deliverable now t N (agent_run xs empty_agent_store) (cm_message c)
    \<and> (\<forall>m'. deliverable now t N (agent_run xs empty_agent_store) m' \<longrightarrow> message_rank (cm_message c) \<le> message_rank m')"
proof -
  let ?s = "agent_run xs empty_agent_store"
  have wf: "mailbox_wf ?s" by (rule wf_run[OF assms(1) wf_empty])
  have tok: "required_text (''atl_'' @ token) 128" using assms(5) strip_nonblank[of "CHR ''a''" "''atl_'' @ token"]
    by (simp add: required_text_def py_isspace_def)
  show ?thesis using wf
  proof (cases rule: claim_cases[where now = now and t = t and M = N and token = token and w = w and n = n])
    case none
    then show ?thesis using assms(2) servable_iff[OF wf] by blast
  next
    case (served x d)
    have "agent_address (am_recipient x)"
      using wf_message_ok[OF wf served(1)] by (auto simp: message_ok_def agent_message_new_def split: if_splits)
    then have l: "agent_turn_lease_new \<lparr>tl_tenant_id = t, tl_agent_address = am_recipient x, tl_owner = w, tl_token = ''atl_'' @ token,
        tl_lane = PEER, tl_expires_at = lease_until now n\<rparr> = Inr \<lparr>tl_tenant_id = t, tl_agent_address = am_recipient x, tl_owner = w,
        tl_token = ''atl_'' @ token, tl_lane = PEER, tl_expires_at = lease_until now n\<rparr>"
      using assms(3,4) tok by (simp add: agent_turn_lease_new_def)
    have "deliverable now t N ?s x" using served servable_iff[OF wf, of now t N x] unfolding servable_def by fastforce
    moreover have "message_rank x \<le> message_rank m'" if "deliverable now t N ?s m'" for m'
      using served(6) that servable_iff[OF wf] by blast
    ultimately show ?thesis unfolding served(7) Let_def l by simp
  qed
qed

subsection \<open>Authority\<close>

lemma grants_matches_agent_send:
  assumes "nfkc_ascii nfkc" "is_ascii v" "matches nfkc p v" "p \<in> {''agent.send'', ''chat.present''}"
  shows "v = p"
proof -
  have "is_ascii p" using assms(4) by (auto simp: is_ascii_def)
  then have "nfkc p = p" "nfkc v = v" using assms(1,2) by (simp_all add: nfkc_ascii_fixed)
  moreover have "\<not> endswith p ''.*''" using assms(4) by (auto simp: endswith_code)
  ultimately show ?thesis using assms(3,4) by (auto simp: matches_iff)
qed

lemma delivery_contextD:
  assumes "delivery_context sha256 m = Inr ctx"
  obtains source where "context_from_envelope (am_authority m) = Inr source" "ctx_tenant_id source = am_tenant_id m"
    "ctx_actor source = am_sender m" "ctx_tenant_id ctx = am_tenant_id m" "ctx_actor ctx = am_recipient m" "ctx_actor_tier ctx = ''tier1''"
    "allow (ctx_grants ctx) = allow (ctx_grants source) @ [''agent.send'']" "deny (ctx_grants ctx) = deny (ctx_grants source) @ [''chat.present'']"
    "ctx_on_behalf_of ctx = ctx_on_behalf_of source" "ctx_depth ctx = ctx_depth source"
  using assms by (auto simp: delivery_context_def grant_set_of_def split: sum.splits if_splits)

text \<open>Property C24. Peer messages never widen authority. The turn that processes a message runs for the recipient, in the tenant of the
  message and on behalf of the same person; every verb it may use was permitted by the authority the sender captured, but for the
  mailbox verb \<^verbatim>\<open>agent.send\<close>, and \<^verbatim>\<open>chat.present\<close> is never among them. The reply is deliverable to the sender, under the same verbs:
  a dialogue does not gain authority however long it runs.\<close>

theorem peer_messages_never_widen_authority:
  assumes "nfkc_ascii nfkc" "delivery_context sha256 m = Inr ctx" "context_from_envelope (am_authority m) = Inr source" "is_ascii v"
  shows "ctx_tenant_id ctx = am_tenant_id m \<and> ctx_actor ctx = am_recipient m \<and> ctx_on_behalf_of ctx = ctx_on_behalf_of source
    \<and> (permits nfkc (ctx_grants ctx) v \<longrightarrow> v \<noteq> ''chat.present'' \<and> (v = ''agent.send'' \<or> permits nfkc (ctx_grants source) v)
         \<and> (\<forall>p \<in> set (deny (ctx_grants source)). \<not> matches nfkc p v))
    \<and> (\<exists>ctx'. delivery_context sha256 (reply_message sha256 now m answer ctx) = Inr ctx' \<and> ctx_actor ctx' = am_sender m
         \<and> (permits nfkc (ctx_grants ctx') v \<longleftrightarrow> permits nfkc (ctx_grants ctx) v))"
proof -
  obtain src where src: "context_from_envelope (am_authority m) = Inr src" "ctx_tenant_id ctx = am_tenant_id m"
    "ctx_actor ctx = am_recipient m" "ctx_actor_tier ctx = ''tier1''" "allow (ctx_grants ctx) = allow (ctx_grants src) @ [''agent.send'']"
    "deny (ctx_grants ctx) = deny (ctx_grants src) @ [''chat.present'']" "ctx_on_behalf_of ctx = ctx_on_behalf_of src"
    using assms(2) by (rule delivery_contextD)
  have s: "src = source" using src(1) assms(3) by simp
  have present: "matches nfkc ''chat.present'' v" if "v = ''chat.present'' "
    using assms(1) that by (auto simp: matches_iff is_safe_identifier_def normalize_identifier_def nfkc_ascii_def is_ascii_def SAFE_ID_CHARS_def)
  have "permits nfkc (ctx_grants ctx) v \<longrightarrow> v \<noteq> ''chat.present'' \<and> (v = ''agent.send'' \<or> permits nfkc (ctx_grants source) v)
         \<and> (\<forall>p \<in> set (deny (ctx_grants source)). \<not> matches nfkc p v)"
    unfolding permits_iff src(5,6) s using grants_matches_agent_send[OF assms(1,4), of "''agent.send''"] present by auto
  moreover have "\<exists>ctx'. delivery_context sha256 (reply_message sha256 now m answer ctx) = Inr ctx' \<and> ctx_actor ctx' = am_sender m
         \<and> (permits nfkc (ctx_grants ctx') v \<longleftrightarrow> permits nfkc (ctx_grants ctx) v)"
    using src(2-4) by (auto simp: delivery_context_def reply_message_def envelope_roundtrip grant_set_of_def permits_iff src(5,6))
  ultimately show ?thesis using src(2,3,7) s by blast
qed


subsection \<open>Sending\<close>

definition agents_keyed :: "agent_store \<Rightarrow> bool" where
  "agents_keyed s \<longleftrightarrow> (\<forall>k a. map_of (named_agents s) k = Some a \<longrightarrow> k = (na_tenant_id a, na_address a))"

lemma expire_loop_agents: "named_agents (snd (expire_loop t now M ds s)) = named_agents s"
  by (induction t now M ds s rule: expire_loop.induct) (auto split: option.splits)

lemma claim_agents: "named_agents (snd (claim_next_agent_message now token t w n M s)) = named_agents s"
proof -
  obtain r s2 where e: "expire_undeliverable t now M (prune_agent_turn_state now (Some t) None s) = (r, s2)" by fastforce
  then have "named_agents s2 = named_agents s"
    using expire_loop_agents[of t now M "agent_deliveries s" "prune_agent_turn_state now (Some t) None s"]
    by (simp add: expire_undeliverable_def)
  then show ?thesis unfolding claim_next_agent_message_def Let_def e
    by (auto split: sum.splits list.splits prod.splits)
qed

lemma enqueue_agents: "named_agents (snd (enqueue_agent_message now m s)) = named_agents s"
  by (simp add: enqueue_agent_message_def Let_def split: sum.splits)

lemma complete_agents: "named_agents (snd (complete_agent_message now t i l reply s)) = named_agents s"
  by (cases rule: complete_cases[of now t i l reply s]) (simp_all add: enqueue_agents)

lemma acquire_agents: "named_agents (snd (acquire_agent_turn now token t a w lane n ttl s)) = named_agents s"
  by (cases rule: acquire_cases[of now token t a w lane n ttl s]) simp_all

lemma keyed_upsert:
  assumes "agents_keyed s"
  shows "agents_keyed (upsert_named_agent now a s)"
proof -
  let ?f = "\<lambda>k other. if fst k = na_tenant_id a \<and> na_address other \<noteq> na_address a
     then other\<lparr>na_default_for_intake := False, na_updated_at := now\<rparr> else other"
  have "k = (na_tenant_id b, na_address b)" if "map_option (?f k) (map_of (named_agents s) k) = Some b" for k b
  proof -
    from that obtain x where x: "map_of (named_agents s) k = Some x" "b = ?f k x" by blast
    then have "k = (na_tenant_id x, na_address x)" using assms unfolding agents_keyed_def by blast
    then show ?thesis using x(2) by simp
  qed
  note moved = this
  let ?others = "if na_default_for_intake a then map (\<lambda>(k, other). (k, ?f k other)) (named_agents s) else named_agents s"
  have others: "k = (na_tenant_id b, na_address b)" if "map_of ?others k = Some b" for k b
  proof (cases "na_default_for_intake a")
    case True
    then have "map_of ?others k = map_option (?f k) (map_of (named_agents s) k)" by (simp only: if_True map_of_map_entries)
    with that have "map_option (?f k) (map_of (named_agents s) k) = Some b" by (rule trans[OF sym, rotated])
    then show ?thesis by (rule moved)
  next
    case False
    then show ?thesis using that assms unfolding agents_keyed_def by (cases k) simp
  qed
  obtain row where row: "named_agents (upsert_named_agent now a s) = AList.update (na_tenant_id a, na_address a) row ?others"
    "na_tenant_id row = na_tenant_id a" "na_address row = na_address a"
    by (simp add: upsert_named_agent_def Let_def)
  show ?thesis unfolding agents_keyed_def
  proof (intro allI impI)
    fix k b assume "map_of (named_agents (upsert_named_agent now a s)) k = Some b"
    then have e: "(if k = (na_tenant_id a, na_address a) then Some row else map_of ?others k) = Some b"
      unfolding row(1) by (simp only: update_conv' fun_upd_apply)
    show "k = (na_tenant_id b, na_address b)"
    proof (cases "k = (na_tenant_id a, na_address a)")
      case True
      then show ?thesis using e row(2,3) by simp
    next
      case False
      then show ?thesis using e others[of k b] by (simp only: if_False)
    qed
  qed
qed

lemma keyed_deactivate: "agents_keyed s \<Longrightarrow> agents_keyed (snd (deactivate_absent_named_agents now t ds s))"
  by (auto simp: agents_keyed_def deactivate_absent_named_agents_def map_of_map_entries split: if_splits)

lemma keyed_step: "agents_keyed s \<Longrightarrow> agents_keyed (agent_apply x s)"
proof -
  assume s: "agents_keyed s"
  have same: "named_agents s' = named_agents s \<Longrightarrow> agents_keyed s'" for s' using s by (simp add: agents_keyed_def)
  show ?thesis
  proof (cases x)
    case (UpsertOp now a)
    then show ?thesis using keyed_upsert[OF s] by simp
  next
    case (DeactivateOp now t ds)
    then show ?thesis using keyed_deactivate[OF s] by simp
  qed (auto intro!: same simp: claim_agents enqueue_agents complete_agents acquire_agents renew_agent_turn_def release_agent_turn_def
      cancel_agent_turn_waiter_def ensure_agent_session_def fail_agent_message_def renew_agent_message_claim_def
      add_agent_session_summary_def Let_def split: option.splits)
qed

interpretation registry: step_invariant agent_apply "\<lambda>_. True" agents_keyed
  by unfold_locales (rule keyed_step)

lemma keyed_run: "agents_keyed (agent_run xs empty_agent_store)"
  unfolding agent_run_def
  by (rule registry.run_keeps) (simp_all add: list_all_iff agents_keyed_def empty_agent_store_def)

lemma resolve_endpointsD:
  assumes "resolve_endpoints pstr s params ctx = Inr (sender, recipient)" "agents_keyed s"
  shows "ctx_actor_tier ctx = ''tier1''" "na_address sender = ctx_actor ctx"
    "enabled_agent s (ctx_tenant_id ctx, ctx_actor ctx)" "enabled_agent s (ctx_tenant_id ctx, na_address recipient)"
  using assms unfolding resolve_endpoints_def get_named_agent_def agents_keyed_def Let_def
  by (auto simp: enabled_agent_def split: option.splits if_splits)

lemma agent_send_cases:
  assumes "agent_send_execute sha256 pstr ev f ''agent.send'' (PDict params) cred ctx st = (Inr r, st')"
  obtains (refused) "\<not> res_ok r" "st' = st"
  | (sent) sender recipient kind m inserted where "resolve_endpoints pstr (mb_store st) params ctx = Inr (sender, recipient)"
      "kind \<noteq> REPLY" "m = sent_message sha256 pstr f params ctx sender recipient kind" "message_ok m"
      "fst (enqueue_agent_message (sf_now f) m (mb_store st)) = Inr inserted"
      "mb_store st' = snd (enqueue_agent_message (sf_now f) m (mb_store st))"
      "r = result_success (sent_fields m (if inserted then ''queued'' else ''already_queued''))"
proof (cases "resolve_endpoints pstr (mb_store st) params ctx")
  case (Inl x)
  then have "\<not> res_ok x"
    unfolding resolve_endpoints_def by (auto simp: result_failure_def Let_def split: option.splits if_splits)
  with assms Inl show thesis by (intro refused) (simp_all add: agent_send_execute_def)
next
  case (Inr e)
  obtain sender recipient where e: "e = (sender, recipient)" by (cases e)
  show thesis
  proof (cases "parse_kind (param_str pstr params ''kind'')")
    case None
    with assms Inr e show thesis by (intro refused) (auto simp: agent_send_execute_def result_failure_def)
  next
    case (Some kind)
    show thesis
    proof (cases "kind = REPLY")
      case True
      with assms Inr e Some show thesis by (intro refused) (auto simp: agent_send_execute_def result_failure_def)
    next
      case False
      let ?m = "sent_message sha256 pstr f params ctx sender recipient kind"
      have d: "agent_send_execute sha256 pstr ev f ''agent.send'' (PDict params) cred ctx st =
          (case agent_message_new ?m of
             Inl e \<Rightarrow> (Inl (Crash (exception_name e)), st)
           | Inr m \<Rightarrow> (case enqueue_agent_message (sf_now f) m (mb_store st) of
                  (Inl e, s1) \<Rightarrow> (Inl (Crash (exception_name e)), st\<lparr>mb_store := s1\<rparr>)
                | (Inr inserted, s1) \<Rightarrow>
                    (let status = (if inserted then ''queued'' else ''already_queued'')
                     in (Inr (result_success (sent_fields m status)),
                         publish_message ev m (message_event ''agent_message_sent'' m @ [(KStr ''status'', PStr status)])
                           (st\<lparr>mb_store := s1\<rparr>)))))"
        using Inr e Some False by (cases kind) (simp_all add: agent_send_execute_def)
      obtain m where m: "agent_message_new ?m = Inr m" using assms unfolding d by (cases "agent_message_new ?m") auto
      then have mm: "m = ?m" by (auto simp: agent_message_new_def split: if_splits)
      obtain b s1 where q: "enqueue_agent_message (sf_now f) m (mb_store st) = (Inr b, s1)"
        using assms unfolding d m by (cases "enqueue_agent_message (sf_now f) m (mb_store st)") (auto split: sum.splits)
      let ?status = "if b then ''queued'' else ''already_queued''"
      have out: "r = result_success (sent_fields m ?status)"
        "st' = publish_message ev m (message_event ''agent_message_sent'' m @ [(KStr ''status'', PStr ?status)]) (st\<lparr>mb_store := s1\<rparr>)"
        using assms unfolding d m by (simp_all add: q Let_def)
      have "mb_store st' = s1" unfolding out(2) by (simp add: publish_message_def)
      then show thesis using out(1) m mm Inr e False q by (intro sent[of sender recipient kind m b]) (simp_all add: message_ok_def)
    qed
  qed
qed



subsection \<open>Turns end\<close>

definition landed :: "agent_store \<Rightarrow> agent_message \<Rightarrow> bool" where
  "landed s m \<longleftrightarrow> (\<exists>d. map_of (agent_deliveries s) (am_tenant_id m, am_id m) = Some d \<and> ad_status d \<noteq> DIN_FLIGHT)"

definition claim_live :: "agent_store \<Rightarrow> agent_message \<Rightarrow> agent_turn_lease \<Rightarrow> instant \<Rightarrow> bool" where
  "claim_live s m lease now \<longleftrightarrow> live_delivery s (am_tenant_id m) (am_id m) lease now \<noteq> None"

text \<open>A turn that keeps its claim: started with a live claim, it returns with the heartbeat's lease still live. (By
  \<open>live_claim_is_exclusive\<close> nobody else can end it.)\<close>

definition keeps_claim :: "responder \<Rightarrow> agent_message \<Rightarrow> agent_turn_lease \<Rightarrow> instant \<Rightarrow> bool" where
  "keeps_claim respond m lease now \<longleftrightarrow> (\<forall>text ctx s. claim_live s m lease now \<longrightarrow>
     (let out = respond m text ctx s in \<not> to_lost out \<and> claim_live (to_store out) m (to_lease out) (to_now out)))"

lemma publish_store [simp]: "mb_store (publish_message ev m e st) = mb_store st"
  by (simp add: publish_message_def)

lemma fail_turn_store:
  "mb_store (fail_turn sv now m lease code retryable st)
     = snd (fail_agent_message now (am_tenant_id m) (am_id m) lease code retryable (sv_max_attempts sv) 2 (mb_store st))"
  by (simp add: fail_turn_def Let_def split: prod.splits)

lemma fail_turn_lands:
  "claim_live (mb_store st) m lease now \<or> landed (mb_store st) m \<Longrightarrow> landed (mb_store (fail_turn sv now m lease code retryable st)) m"
  by (auto simp: fail_turn_store claim_live_def landed_def fail_agent_message_def failed_attempt_def Let_def split: option.splits)

lemma compact_deliveries [simp]: "agent_deliveries (snd (compact_session sha256 threshold keep now m s)) = agent_deliveries s"
  by (auto simp: compact_session_def Let_def ensure_agent_session_def add_agent_session_summary_def split: sum.splits option.splits)

lemma commit_true:
  assumes "complete_agent_message now (am_tenant_id m) (am_id m) lease reply (mb_store st) = (Inr True, s1)"
    and "commit_turn sha256 sv now m lease reply st = (res, st')"
  shows "agent_deliveries (mb_store st') = agent_deliveries s1"
proof -
  obtain x s2 where x: "compact_session sha256 (sv_compaction_threshold sv) (sv_keep_recent sv) now m s1 = (x, s2)" by fastforce
  have "agent_deliveries s2 = agent_deliveries s1" using compact_deliveries[of sha256 "sv_compaction_threshold sv" "sv_keep_recent sv" now m s1] x by simp
  then show ?thesis using assms x by (cases reply; cases x) (auto simp: commit_turn_def Let_def)
qed

lemma enqueue_keeps_live:
  assumes "message_ok r" "fst (enqueue_agent_message now r s) = Inl e"
  shows "snd (enqueue_agent_message now r s) = s"
  using assms(1) by (cases rule: enqueue_cases[of r now s]) (use assms(2) in simp_all)

lemma commit_turn_lands:
  assumes live: "claim_live (mb_store st) m lease now" and ok: "\<And>r. reply = Some r \<Longrightarrow> message_ok r"
    and c: "commit_turn sha256 sv now m lease reply st = (res, st')"
  shows "landed (mb_store st') m \<or> (\<exists>e. res = Inl (OtherException e)) \<and> claim_live (mb_store st') m lease now"
proof (cases rule: complete_cases[of now "am_tenant_id m" "am_id m" lease reply "mb_store st"])
  case kept
  obtain r0 where r0: "complete_agent_message now (am_tenant_id m) (am_id m) lease reply (mb_store st) = (r0, mb_store st)"
    using kept(1) by (metis prod.collapse)
  have "r0 \<noteq> Inr True" using kept(2) r0 by simp
  moreover have "r0 \<noteq> Inr False"
    using r0 live by (auto simp: complete_agent_message_def claim_live_def Let_def split: option.splits if_splits sum.splits prod.splits)
  ultimately obtain e where "r0 = Inl e" by (cases r0) auto
  then show ?thesis using c r0 live by (auto simp: commit_turn_def)
next
  case (raised r d m' e)
  then have "snd (enqueue_agent_message now r (mb_store st)) = mb_store st" using enqueue_keeps_live ok by blast
  then show ?thesis using c live raised(6) by (auto simp: commit_turn_def)
next
  case (answered r d m' b)
  then show ?thesis using commit_true[OF answered(6) c] by (simp add: landed_def delivered_delivery_def)
next
  case (absorbed d)
  then show ?thesis using commit_true[OF absorbed(3) c] by (simp add: landed_def delivered_delivery_def)
qed

lemma settle_turn_lands:
  assumes live: "claim_live (mb_store st) m lease now"
    and c: "settle_turn sha256 pstr sv now m lease False ctx result st = (res, st')"
  shows "landed (mb_store st') m \<or> (\<exists>e. res = Inl (OtherException e)) \<and> claim_live (mb_store st') m lease now"
proof (cases "\<not> ar_ok result \<or> ar_degraded result \<or> am_kind m = ASK \<and> agent_result_text result = []")
  case True
  then show ?thesis using c fail_turn_lands[of st m lease now] live by (auto simp: settle_turn_def split: if_splits)
next
  case False
  let ?reply = "if am_kind m = ASK
    then rbind (agent_message_new (reply_message sha256 now m (agent_result_text result) ctx)) (\<lambda>r. Inr (Some r)) else Inr None"
  have c': "(case ?reply of Inl e \<Rightarrow> (Inl (OtherException (exception_name e)), st)
      | Inr reply \<Rightarrow> commit_turn sha256 sv now m lease reply st) = (res, st')"
    using c False unfolding settle_turn_def if_False by auto
  show ?thesis
  proof (cases ?reply)
    case (Inl e)
    then show ?thesis using c' live by auto
  next
    case (Inr reply)
    have "message_ok r" if "reply = Some r" for r
      using Inr that by (auto simp: rbind_Inr_iff message_ok_def agent_message_new_def split: if_splits)
    then show ?thesis using commit_turn_lands[OF live, of reply] c' Inr by simp
  qed
qed

lemma deliver_claimed_lands:
  assumes live: "claim_live (mb_store st) m lease now" and keeps: "keeps_claim respond m lease now"
    and c: "deliver_claimed sha256 pstr sv respond now m lease st = (res, lease', now', st')"
  shows "landed (mb_store st') m \<or> (\<exists>e. res = Inl e) \<and> claim_live (mb_store st') m lease' now'"
proof (cases "delivery_context sha256 m")
  case (Inl e)
  then show ?thesis using c live by (auto simp: deliver_claimed_def)
next
  case (Inr ctx)
  obtain r s1 where q: "continuity sha256 now m (mb_store st) = (r, s1)" by fastforce
  have s1: "agent_deliveries s1 = agent_deliveries (mb_store st)" "current_lease s1 k = current_lease (mb_store st) k" for k
    using q by (auto simp: continuity_def ensure_agent_session_def current_lease_def Let_def split: if_splits option.splits)
  have l1: "claim_live s1 m lease now" using live unfolding claim_live_def live_delivery_def s1 .
  show ?thesis
  proof (cases r)
    case (Inl e)
    then show ?thesis using c Inr q l1 by (auto simp: deliver_claimed_def)
  next
    case (Inr prompt)
    define out where "out = respond m prompt ctx s1"
    have out: "\<not> to_lost out" "claim_live (to_store out) m (to_lease out) (to_now out)"
      using keeps l1 unfolding keeps_claim_def out_def Let_def by blast+
    define st2 where "st2 = (publish_message (sv_has_events sv) m (message_event ''agent_message_received'' m) (st\<lparr>mb_store := s1\<rparr>))\<lparr>mb_store := to_store out\<rparr>"
    have st2: "mb_store st2 = to_store out" by (simp add: st2_def)
    have pub: "mb_store (publish_message (sv_has_events sv) m (message_event ''agent_message_received'' m) (st\<lparr>mb_store := s1\<rparr>)) = s1" by simp
    have d: "(case to_result out of Inl name \<Rightarrow> (Inl (OtherException name), to_lease out, to_now out, st2)
        | Inr result \<Rightarrow> (case settle_turn sha256 pstr sv (to_now out) m (to_lease out) (to_lost out) ctx result st2 of
            (r, st3) \<Rightarrow> (r, to_lease out, to_now out, st3))) = (res, lease', now', st')"
      using c unfolding deliver_claimed_def \<open>delivery_context sha256 m = Inr ctx\<close> q Inr sum.case prod.case Let_def pub out_def[symmetric] st2_def[symmetric] .
    show ?thesis
    proof (cases "to_result out")
      case (Inl name)
      then show ?thesis using d out st2 by auto
    next
      case (Inr result)
      obtain r3 st3 where s3: "settle_turn sha256 pstr sv (to_now out) m (to_lease out) False ctx result st2 = (r3, st3)" by fastforce
      show ?thesis using settle_turn_lands[OF _ s3] out st2 d Inr s3 by auto
    qed
  qed
qed

lemma process_claimed_lands:
  assumes "claim_live (mb_store st) (cm_message c) (cm_turn_lease c) now"
    and "\<And>respond. agents (am_recipient (cm_message c)) = Some respond \<Longrightarrow> keeps_claim respond (cm_message c) (cm_turn_lease c) now"
  shows "landed (mb_store (process_claimed sha256 pstr sv agents now c st)) (cm_message c)"
proof (cases "agents (am_recipient (cm_message c))")
  case None
  then show ?thesis using fail_turn_lands assms(1) by (simp add: process_claimed_def Let_def)
next
  case (Some respond)
  obtain res l n st1 where d: "deliver_claimed sha256 pstr sv respond now (cm_message c) (cm_turn_lease c) st = (res, l, n, st1)"
    by (metis prod_cases4)
  note lands = deliver_claimed_lands[OF assms(1) assms(2)[OF Some] d]
  show ?thesis
  proof (cases res)
    case (Inl e)
    then have "landed (mb_store (fail_turn sv n (cm_message c) l code b st1)) (cm_message c)" for code b
      using lands by (intro fail_turn_lands) auto
    then show ?thesis using Inl Some d by (cases e) (simp_all add: process_claimed_def Let_def)
  next
    case (Inr u)
    then show ?thesis using lands Some d by (simp add: process_claimed_def Let_def)
  qed
qed

lemma claim_is_live:
  assumes wf: "mailbox_wf s" and c: "claim_next_agent_message now token t w n M s = (Inr (Some c), s')"
  shows "claim_live s' (cm_message c) (cm_turn_lease c) now \<and> am_tenant_id (cm_message c) = t"
  using wf
proof (cases rule: claim_cases[where now = now and t = t and M = M and token = token and w = w and n = n])
  case (served m d)
  then have e: "cm_message c = m" "cm_turn_lease c = \<lparr>tl_tenant_id = t, tl_agent_address = am_recipient m, tl_owner = w,
        tl_token = ''atl_'' @ token, tl_lane = PEER, tl_expires_at = lease_until now n\<rparr>"
    "s' = put_lease (t, am_recipient m) (Some (cm_turn_lease c)) (put_delivery (t, am_id m) (claimed_delivery now w (lease_until now n) d) (swept now t M s))"
    using c by (auto simp: Let_def agent_turn_lease_new_def split: sum.splits if_splits)
  show ?thesis unfolding e(3) using served(2,4)
    by (simp add: e(1,2) claim_live_def live_delivery_def claimed_delivery_def lease_until_def)
qed (use c in simp)



subsection \<open>The heartbeat\<close>

text \<open>Beats that each come before the lease runs out.\<close>

fun timely :: "int \<Rightarrow> instant \<Rightarrow> instant list \<Rightarrow> bool" where
  "timely n until [] = True"
| "timely n until (b # bs) = (b < until \<and> timely n (lease_until b n) bs)"

fun kept_until :: "int \<Rightarrow> instant \<Rightarrow> instant list \<Rightarrow> instant" where
  "kept_until n until [] = until"
| "kept_until n until (b # bs) = kept_until n (lease_until b n) bs"

text \<open>A worker whose heartbeat is timely never loses its claim: after any number of beats the claim is live up to one lease after the
  last of them.\<close>

lemma timely_heartbeat_keeps_the_claim:
  assumes "tl_lane lease = PEER" "\<And>now. now < until \<Longrightarrow> claim_live s m lease now" "timely (sv_lease_seconds sv) until beats"
  shows "\<exists>lease' s'. heartbeat sv m beats lease s = ((lease', False), s')
    \<and> (\<forall>now < kept_until (sv_lease_seconds sv) until beats. claim_live s' m lease' now)"
  using assms
proof (induction beats arbitrary: lease s until)
  case (Cons b bs)
  let ?until = "lease_until b (sv_lease_seconds sv)"
  have "claim_live s m lease b" using Cons.prems by simp
  then obtain d where d: "live_delivery s (am_tenant_id m) (am_id m) lease b = Some d" by (auto simp: claim_live_def)
  obtain r s1 where r: "renew_agent_message_claim b (am_tenant_id m) (am_id m) lease (sv_lease_seconds sv) s = (Some r, s1)"
    "r = lease\<lparr>tl_expires_at := ?until\<rparr>"
    "s1 = put_delivery (am_tenant_id m, am_id m) (d\<lparr>ad_lease_expires_at := Some ?until, ad_updated_at := b\<rparr>)
      (put_lease (am_tenant_id m, ad_recipient d) (Some r) s)"
    using d by (simp add: renew_agent_message_claim_def Let_def)
  have "ad_status d = DIN_FLIGHT" "ad_lease_owner d = Some (tl_owner lease)"
    using d by (auto simp: live_delivery_def split: option.splits if_splits)
  then have "claim_live s1 m r now" if "now < ?until" for now
    using that Cons.prems(1) by (simp add: r(2,3) claim_live_def live_delivery_def)
  moreover have "tl_lane r = PEER" using Cons.prems(1) r(2) by simp
  ultimately obtain l' s' where "heartbeat sv m bs r s1 = ((l', False), s')"
    "\<forall>now < kept_until (sv_lease_seconds sv) ?until bs. claim_live s' m l' now"
    using Cons.IH[of r ?until s1] Cons.prems(3) by auto
  then show ?case by (simp add: r(1))
qed simp

end
