(* ===== verification/AgentExamples.thy ===== *)
theory AgentExamples
  imports AgentProps
begin

text \<open>
  A small organisation: two named agents of one tenant, a question between them, two mailbox workers and a chat. Its runs
  show that the hypotheses of the properties of \<open>AgentProps\<close> hold together. The last lemmas show a defect of the continuity of a turn.
\<close>

definition ex_agent :: "string \<Rightarrow> named_agent" where
  "ex_agent a = \<lparr>na_tenant_id = ''acme'', na_address = a, na_name = a, na_runtime = ''codex'', na_model_endpoint = None,
     na_supported_skills = [''*''], na_max_depth = 3, na_cost_tier = ''standard'', na_purpose = [], na_brief = [],
     na_scope_id = None, na_default_for_intake = False, na_enabled = True, na_created_at = 0, na_updated_at = 0\<rparr>"

definition ex_context :: invocation_context where
  "ex_context = \<lparr>ctx_tenant_id = ''acme'', ctx_run_id = Some ''run'', ctx_parent_run_id = None, ctx_depth = 0,
     ctx_on_behalf_of = Some ''ann'', ctx_workspace_id = None, ctx_ip_address = None, ctx_user_agent = None,
     ctx_grants = \<lparr>allow = [''jira.*''], deny = []\<rparr>, ctx_actor = ''x'', ctx_actor_tier = ''tier1'', ctx_skills_loaded = [],
     ctx_extra = []\<rparr>"

definition ex_message :: "string \<Rightarrow> instant \<Rightarrow> agent_message" where
  "ex_message i now = \<lparr>am_id = i, am_tenant_id = ''acme'', am_conversation_id = ''c'', am_sender = ''x'', am_recipient = ''y'',
     am_kind = ASK, am_content = ''hi'', am_reply_to = None, am_correlation_id = None, am_run_id = Some ''run'',
     am_authority = context_to_envelope ex_context, am_created_at = now\<rparr>"

definition ex_reply :: agent_message where
  "ex_reply = \<lparr>am_id = ''R'', am_tenant_id = ''acme'', am_conversation_id = ''c'', am_sender = ''y'', am_recipient = ''x'',
     am_kind = REPLY, am_content = ''yes'', am_reply_to = Some ''A'', am_correlation_id = None, am_run_id = Some ''run'',
     am_authority = [], am_created_at = 20\<rparr>"

definition ex_lease :: "string \<Rightarrow> string \<Rightarrow> instant \<Rightarrow> agent_turn_lease" where
  "ex_lease w token e = \<lparr>tl_tenant_id = ''acme'', tl_agent_address = ''y'', tl_owner = w, tl_token = ''atl_'' @ token, tl_lane = PEER, tl_expires_at = e\<rparr>"

text \<open>Both agents are registered and the question is claimed by the worker \<open>w1\<close> until 310.\<close>

definition ex_setup :: "agent_op list" where
  "ex_setup = [UpsertOp 1 (ex_agent ''x''), UpsertOp 1 (ex_agent ''y''), EnqueueOp 2 (ex_message ''A'' 2)]"

definition ex_claimed :: "agent_op list" where
  "ex_claimed = ex_setup @ [ClaimOp 10 ''k1'' ''acme'' ''w1'' 300 3]"

lemma ex_messages_ok [simp]: "message_ok (ex_message ''A'' 2)" "message_ok (ex_message ''B'' 3)" "message_ok ex_reply"
  by code_simp+

subsection \<open>Witnesses\<close>

definition ex_retaken :: "agent_op list" where
  "ex_retaken = ex_claimed @ [ClaimOp 320 ''k2'' ''acme'' ''w2'' 300 3]"

lemma ex_retaken_ok: "list_all (agent_op_ok 3) ex_retaken"
  by (simp add: ex_retaken_def ex_claimed_def ex_setup_def)

theorem message_is_handed_out_within_its_attempts_witness:
  "handouts (''acme'', ''A'') ex_retaken empty_agent_store = 2 \<and> handouts (''acme'', ''A'') ex_retaken empty_agent_store \<le> 3"
  using message_is_handed_out_within_its_attempts[OF ex_retaken_ok, of "(''acme'', ''A'')"] by code_simp

lemma ex_retaken_state:
  "turn_token (agent_run ex_retaken empty_agent_store) (''acme'', ''y'') = Some ''atl_k2''"
  "map_option ad_recipient (map_of (agent_deliveries (agent_run [RenewClaimOp 330 ''acme'' ''A'' (ex_lease ''w2'' ''k2'' 620) 300]
      (agent_run ex_retaken empty_agent_store))) (''acme'', ''A'')) = Some ''y''"
  by code_simp+

theorem superseded_lease_is_refused_witness:
  "fst (complete_agent_message 340 ''acme'' ''A'' (ex_lease ''w1'' ''k1'' 310) (Some ex_reply)
     (agent_run [RenewClaimOp 330 ''acme'' ''A'' (ex_lease ''w2'' ''k2'' 620) 300] (agent_run ex_retaken empty_agent_store))) = Inr False"
proof -
  obtain d where "map_of (agent_deliveries (agent_run [RenewClaimOp 330 ''acme'' ''A'' (ex_lease ''w2'' ''k2'' 620) 300]
      (agent_run ex_retaken empty_agent_store))) (''acme'', ''A'') = Some d" "ad_recipient d = ''y''"
    using ex_retaken_state(2) by blast
  then show ?thesis
    using superseded_lease_is_refused[of "agent_run ex_retaken empty_agent_store" "''acme''" "''y''" "ex_lease ''w1'' ''k1'' 310"
        "[RenewClaimOp 330 ''acme'' ''A'' (ex_lease ''w2'' ''k2'' 620) 300]" "''A''" d 340 "Some ex_reply"]
    by (simp add: ex_retaken_state(1) ex_lease_def)
qed

definition ex_others :: "agent_op list" where
  "ex_others = [ClaimOp 20 ''k2'' ''acme'' ''w2'' 300 3, AcquireOp 30 ''k3'' ''acme'' ''y'' ''chat'' INTERACTIVE 300 900,
     EnqueueOp 40 (ex_message ''B'' 3), DeactivateOp 50 ''acme'' [], ClaimOp 60 ''k4'' ''acme'' ''w2'' 300 3]"

lemma ex_live: "live_delivery (agent_run ex_claimed empty_agent_store) ''acme'' ''A'' (ex_lease ''w1'' ''k1'' 310) 300 \<noteq> None"
  by code_simp

theorem live_claim_is_exclusive_witness:
  "fst (complete_agent_message 300 ''acme'' ''A'' (ex_lease ''w1'' ''k1'' 310) None (agent_run (ex_claimed @ ex_others) empty_agent_store)) = Inr True"
proof -
  obtain d where d: "live_delivery (agent_run ex_claimed empty_agent_store) ''acme'' ''A'' (ex_lease ''w1'' ''k1'' 310) 300 = Some d"
    using ex_live by blast
  have "list_all (agent_op_ok 3) ex_claimed" by (simp add: ex_claimed_def ex_setup_def)
  moreover have "list_all (leaves_alone 3 (tl_token (ex_lease ''w1'' ''k1'' 310)) 300) ex_others" by (simp add: ex_others_def leaves_alone_def)
  ultimately show ?thesis using live_claim_is_exclusive[OF _ d, of 3 ex_others] by blast
qed

definition ex_answered :: "agent_op list" where
  "ex_answered = ex_claimed @ [CompleteOp 20 ''acme'' ''A'' (ex_lease ''w1'' ''k1'' 310) (Some ex_reply)]"

lemma ex_answered_state:
  "map_of (agent_messages (agent_run ex_answered empty_agent_store)) (''acme'', ''R'') = Some ex_reply"
  by code_simp

theorem every_reply_answers_a_delivered_message_witness:
  "map_option ad_status (map_of (agent_deliveries (agent_run ex_answered empty_agent_store)) (''acme'', ''A'')) = Some DDELIVERED"
proof -
  have a: "am_reply_to (ex_message ''A'' 2) = None" by (simp add: ex_message_def)
  have ok: "list_all (\<lambda>x. agent_op_ok 3 x \<and> op_asks x) ex_answered" by (simp add: ex_answered_def ex_claimed_def ex_setup_def a)
  have r: "am_reply_to ex_reply = Some ''A''" by (simp add: ex_reply_def)
  from every_reply_answers_a_delivered_message[OF ok ex_answered_state r] show ?thesis by auto
qed

definition ex_two :: "agent_op list" where
  "ex_two = ex_setup @ [EnqueueOp 3 (ex_message ''B'' 3)]"

lemma ex_deliverable: "deliverable 10 ''acme'' 3 (agent_run ex_two empty_agent_store) (ex_message ''B'' 3)"
  by code_simp

theorem oldest_deliverable_message_is_claimed_witness:
  "\<exists>c. fst (claim_next_agent_message 10 ''k1'' ''acme'' ''w1'' 300 3 (agent_run ex_two empty_agent_store)) = Inr (Some c)
     \<and> message_rank (cm_message c) \<le> (3, ''B'')"
proof -
  have ok: "list_all (agent_op_ok 3) ex_two" by (simp add: ex_two_def ex_setup_def)
  have t: "required_text ''acme'' 256" "required_text ''w1'' 256" "length ''k1'' \<le> 124" by code_simp+
  have "message_rank (ex_message ''B'' 3) = (3, ''B'')" by (simp add: message_rank_def ex_message_def)
  with oldest_deliverable_message_is_claimed[OF ok ex_deliverable t, of 300] ex_deliverable show ?thesis by metis
qed

lemma id_nfkc: "nfkc_ascii (\<lambda>s. s)"
  by (simp add: nfkc_ascii_def)

theorem peer_messages_never_widen_authority_witness:
  "\<exists>ctx. delivery_context (\<lambda>_. ''h'') (ex_message ''A'' 2) = Inr ctx \<and> ctx_actor ctx = ''y'' \<and> ctx_on_behalf_of ctx = Some ''ann''
     \<and> (\<exists>back. delivery_context (\<lambda>_. ''h'') (reply_message (\<lambda>_. ''h'') 20 (ex_message ''A'' 2) ''yes'' ctx) = Inr back \<and> ctx_actor back = ''x'')"
proof -
  have a: "context_from_envelope (am_authority (ex_message ''A'' 2)) = Inr ex_context" by (simp add: ex_message_def envelope_roundtrip)
  obtain ctx where c: "delivery_context (\<lambda>_. ''h'') (ex_message ''A'' 2) = Inr ctx"
    using a by (simp add: delivery_context_def) (simp add: ex_message_def ex_context_def)
  have v: "is_ascii ''jira.issue''" by code_simp
  from peer_messages_never_widen_authority[OF id_nfkc c a v, of 20 "''yes''"] c show ?thesis
    by (auto simp: ex_context_def ex_message_def)
qed

definition ex_params :: pydict where
  "ex_params = [(KStr ''to'', PStr ''y''), (KStr ''content'', PStr ''hi''), (KStr ''kind'', PStr ''ask'')]"

definition ex_fresh :: send_fresh where
  "ex_fresh = \<lparr>sf_now = 5, sf_message_uuid = ''1'', sf_conversation_uuid = ''2''\<rparr>"

definition ex_mailbox :: mailbox_state where
  "ex_mailbox = \<lparr>mb_store = agent_run ex_setup empty_agent_store, mb_events = []\<rparr>"

lemma ex_send:
  "(case fst (agent_send_execute (\<lambda>_. ''h'') (\<lambda>_. []) True ex_fresh ''agent.send'' (PDict ex_params) None ex_context ex_mailbox) of
      Inr r \<Rightarrow> res_ok r | Inl _ \<Rightarrow> False)"
  by code_simp


definition ex_service :: mailbox_service where
  "ex_service = \<lparr>sv_worker_id = ''w1'', sv_lease_seconds = 300, sv_max_attempts = 3, sv_compaction_threshold = 40,
     sv_keep_recent = 12, sv_has_events = True\<rparr>"

text \<open>A runtime that answers at once and leaves the store as it found it.\<close>

definition ex_respond :: responder where
  "ex_respond m prompt ctx s = \<lparr>to_result = Inr \<lparr>ar_ok = True, ar_output = PDict [(KStr ''text'', PStr ''yes'')], ar_summary = [], ar_degraded = False\<rparr>,
     to_lease = ex_lease ''w1'' ''k1'' 310, to_lost = False, to_now = 10, to_store = s\<rparr>"

lemma ex_claim:
  "(case fst (claim_next_agent_message 10 ''k1'' ''acme'' ''w1'' 300 3 (agent_run ex_setup empty_agent_store)) of
      Inr (Some c) \<Rightarrow> cm_turn_lease c = ex_lease ''w1'' ''k1'' 310 \<and> am_id (cm_message c) = ''A'' | _ \<Rightarrow> False)"
  by code_simp


subsection \<open>A retried message that its own prompt leaves out\<close>

text \<open>The first question fails and waits for its retry; the second one is answered and the conversation is compacted past the first.
  When the first is tried again, the prompt of its turn holds the summary alone: the block of the message to be answered is missing.\<close>

definition ex_late :: "agent_op list" where
  "ex_late = ex_claimed @ [FailOp 11 ''acme'' ''A'' (ex_lease ''w1'' ''k1'' 310) ''model_down'' True 3 2, EnqueueOp 12 (ex_message ''B'' 12),
     ClaimOp 12 ''k2'' ''acme'' ''w1'' 300 3]"

definition ex_compacting :: mailbox_service where
  "ex_compacting = ex_service\<lparr>sv_compaction_threshold := 2, sv_keep_recent := 1\<rparr>"

definition ex_compacted :: agent_store where
  "ex_compacted = mb_store (snd (commit_turn (\<lambda>_. ''h'') ex_compacting 12 (ex_message ''B'' 12) (ex_lease ''w1'' ''k2'' 312) None
     \<lparr>mb_store = agent_run ex_late empty_agent_store, mb_events = []\<rparr>))"

lemma summary_alone:
  assumes "length messages \<le> su_covered_count su"
  shows "continuity_text m (Some su) messages = join [CHR 0x0A, CHR 0x0A]
    [''Derived summary of messages 1-'' @ show_nat (length messages) @ '':'', wrap_untrusted ''agent_session_summary'' (am_recipient m) (su_summary su)]"
  using assms by (simp add: continuity_text_def min_absorb2)

lemma retried_message_is_missing_from_its_prompt:
  "(case fst (claim_next_agent_message 13 ''k3'' ''acme'' ''w1'' 300 3 ex_compacted) of Inr (Some c) \<Rightarrow> cm_message c = ex_message ''A'' 2 | _ \<Rightarrow> False)"
  "(case get_latest_agent_session_summary ex_compacted ''acme'' ''as_h'' of None \<Rightarrow> False
     | Some su \<Rightarrow> fst (continuity (\<lambda>_. ''h'') 13 (ex_message ''A'' 2) ex_compacted)
         = Inr (join [CHR 0x0A, CHR 0x0A] [''Derived summary of messages 1-1:'', wrap_untrusted ''agent_session_summary'' ''y'' (su_summary su)]))"
  by code_simp+


end
