(* ===== verification/Spec2Isabelle.thy ===== *)
theory Spec2Isabelle
  imports Governance Cost LedgerExamples AgentExamples
begin

text \<open>
  \<^bold>\<open>Boltrig\<close>: a self-hostable platform that lets people and agents act on a company's systems through one governed kernel. This library
  models the kernel of the Python package \<^verbatim>\<open>src/boltrig\<close>: the path every capability call takes from its caller to the outside world, the
  stores that path relies on, the ledger in which longer executions are recorded, and the mailboxes of the named agents.

  \<^bold>\<open>The program.\<close> A caller (a person, an agent, a workflow) invokes a verb of a noun. \<^verbatim>\<open>Dispatcher.invoke\<close> resolves the verb, checks the
  grants of the tenant and of the caller, claims an idempotency key, asks the rate limiter, holds the call for a human where the approval
  posture says so, resolves credentials, runs the adapter or the agent behind the verb, and records what happened in a hash-chained
  audit log and in run events. Beside it, budgets are reserved and trued up, security events have a chain of their own that is anchored,
  and the execution ledger keeps roots, phases, work items, assignments, results and verifications under optimistic versions with a
  transactional outbox. Named agents send each other messages through \<^verbatim>\<open>agent.send\<close>; a mailbox service claims them, one turn per agent, and
  runs the recipient under the authority captured with the message.

  \<^bold>\<open>The theories\<close>, in the order they build on each other. A dataclass is a \<open>record\<close>, an enum a \<open>datatype\<close>, a raise is \<open>Inl\<close>, a store is an explicit
  state that each operation takes and returns, a dictionary an association list or a map.
    \<^item> \<open>Prelude\<close>: results of fallible code, the operations of \<^verbatim>\<open>str\<close> on Latin-1 text, instants in seconds, generic lemmas on lists.
    \<^item> \<open>Values\<close>, \<open>Json\<close>: dynamically typed data, \<^verbatim>\<open>json.dumps\<close>, the secret detectors, canonical approval values. Serialisation is
      injective on canonical values, and the approver's view shows everything but secrets.
    \<^item> \<open>Floats\<close>: binary64 rounding to nearest even on rationals, with monotonicity and overflow, for the arithmetic of prices and tones.
    \<^item> \<open>Grants\<close> (\<^verbatim>\<open>models/grants.py\<close>, \<^verbatim>\<open>kernel/grants.py\<close>): patterns, grant sets, intersection with a ceiling. The intersection never widens.
    \<^item> \<open>RateLimit\<close> (\<^verbatim>\<open>kernel/ratelimit.py\<close>), \<open>Idempotency\<close> (\<^verbatim>\<open>kernel/idempotency.py\<close>, \<^verbatim>\<open>store/idempotency.py\<close>): windows and counters; claim, start,
      complete, release with leases. A started key has one owner; a completed result replays.
    \<^item> \<open>Context\<close>, \<open>Registry\<close>, \<open>Routing\<close> (\<^verbatim>\<open>models/context.py\<close>, \<^verbatim>\<open>kernel/registry.py\<close>, \<^verbatim>\<open>kernel/routing.py\<close>, \<^verbatim>\<open>kernel/approval_posture.py\<close>): the invocation
      context and its envelope, nouns, verbs and bindings with revertible registration, the choice of a destination, and which actions need
      a human.
    \<^item> \<open>Hitl\<close>, \<open>HeldCall\<close>, \<open>ApprovalGate\<close> (\<^verbatim>\<open>kernel/hitl.py\<close>, \<^verbatim>\<open>kernel/held_call.py\<close>, \<^verbatim>\<open>kernel/approval_gate.py\<close>): questions to people, calls held
      for them, the fingerprint that binds an approval to one action. An approval is used at most once, for the action it was given for.
    \<^item> \<open>Chain\<close>, \<open>AuditLog\<close>, \<open>Security\<close> (\<^verbatim>\<open>kernel/audit.py\<close>, \<^verbatim>\<open>kernel/audit_outbox.py\<close>, \<^verbatim>\<open>kernel/security_events.py\<close>): the locale \<open>hash_chain\<close> states what a
      chain of rows needs, and both streams interpret it. Chains verify after any interleaving, key rotation included; a head or an anchor
      pins the history.
    \<^item> \<open>Cost\<close> (\<^verbatim>\<open>kernel/cost.py\<close>, \<^verbatim>\<open>store/budget_*.py\<close>, \<^verbatim>\<open>fleet/spawn_budget.py\<close>): windows, reservation, true-up, pricing.
    \<^item> \<open>Credentials\<close> (\<^verbatim>\<open>kernel/credentials.py\<close>, \<^verbatim>\<open>kernel/integration_*.py\<close>, \<^verbatim>\<open>store/integrations.py\<close>): connections, scope selection, sealed answers.
    \<^item> \<open>RunEvents\<close>, \<open>Dispatch\<close>, \<open>Governance\<close> (\<^verbatim>\<open>kernel/run_event_projection.py\<close>, \<^verbatim>\<open>kernel/schema_diagnosis.py\<close>, \<^verbatim>\<open>kernel/dispatch.py\<close>): the whole of
      \<^verbatim>\<open>invoke\<close> over the state \<open>dispatch_state\<close>, which joins the states above; \<open>Governance\<close> holds the properties of the composition.
    \<^item> \<open>LedgerPayload\<close>, \<open>LedgerRecords\<close>, \<open>LedgerStore\<close> (\<^verbatim>\<open>models/execution_*.py\<close>, \<^verbatim>\<open>models/runtime_*.py\<close>, \<^verbatim>\<open>fleet/ports/execution_ledger.py\<close>,
      \<^verbatim>\<open>fleet/infrastructure/memory_ledger_*.py\<close>): payloads, records with what their constructors accept, and the store: \<open>commit\<close>, \<open>append_event\<close>,
      \<open>write_runtime_identity\<close>, \<open>append_binding\<close>. \<open>LedgerInvariants\<close> defines runs and the locale \<open>record_invariant\<close>, the contract of an
      invariant of the stored records; \<open>LedgerProps\<close> interprets it three times and proves the properties; \<open>LedgerExamples\<close> carries one
      root run from its creation to its end and gives the witnesses.
    \<^item> \<open>AgentStore\<close> (\<^verbatim>\<open>models/agent_comms.py\<close>, \<^verbatim>\<open>store/agent_turn_memory.py\<close>, \<^verbatim>\<open>store/agent_message_memory.py\<close>): named agents, the scheduler that gives each
      of them one turn at a time, messages and their deliveries. \<open>TextEnvelope\<close> (\<^verbatim>\<open>text_envelope.py\<close>): the envelope of untrusted text, which
      the text cannot leave. \<open>AgentMailbox\<close> (\<^verbatim>\<open>fleet/agent_mailbox*.py\<close>, \<^verbatim>\<open>adapters/builtin/agent_messages.py\<close>): the verb \<^verbatim>\<open>agent.send\<close>, an adapter of the
      type the dispatcher of \<open>Dispatch\<close> calls, and the service that processes messages. \<open>AgentInvariants\<close> defines runs, the locales \<open>step_invariant\<close>
      and \<open>turn_fence\<close>, and the life of a delivery as a step relation that every operation refines; \<open>AgentProps\<close> interprets the locales and
      proves that claims are exclusive, stale leases are refused, attempts are bounded, replies answer delivered messages, turns end and
      authority never grows; \<open>AgentExamples\<close> gives the witnesses.

  \<^bold>\<open>Parameters.\<close> What is not in the repository is an argument: the hash functions \<open>sha256\<close> and \<open>hmac\<close>, Unicode normalisation (\<open>nfc\<close>, \<open>nfkc\<close>), the
  shortest rendering of a float (\<open>frepr\<close>), the adapters and the agent runtime (functions on a world of their own), the turn of a named agent (a function of the mailbox, in which
  others may have acted meanwhile), the JSON Schema
  validator, the PII detectors, secret stores, fresh identifiers and the clock. Where a property relies on such code, the documented fact
  is a named hypothesis (collision freedom on the inputs at hand, ASCII strings unchanged by NFKC), and its witness instantiates the parameter.

  \<^bold>\<open>Bounds.\<close> Strings range over code points below 256. Loops are structural, except the verifier of a chain, which reads page by page and
  is shown to return within one read per row and one more, and the walks over JSON documents, by size. Integers are unbounded as in Python;
  the signed 64-bit bounds the ledger enforces are written out, and floats round as binary64.

  \<^bold>\<open>Concurrency.\<close> Operations of the in-memory stores hold a lock, or do not await between reading and writing, so each is one step; properties
  quantify over arbitrary sequences of such steps.

  \<^bold>\<open>Not modelled.\<close> The PostgreSQL twins of the stores (\<^verbatim>\<open>store/postgres*.py\<close>: their logic is SQL text run by a server), the HTTP, MCP and WebSocket
  routes (\<^verbatim>\<open>api\<close>, \<^verbatim>\<open>kernel/*_routes.py\<close>), the adapters to third-party services, the model runtimes and chat loops of \<^verbatim>\<open>fleet\<close> (calls to language models),
  identity providers, memory and knowledge retrieval, camera and voice, configuration loading, the channel gateway service, scripts and
  migrations, and the TypeScript, Rust and Swift clients. They are glue around external systems or lie outside the governed path; the manifest
  lists each with its reason.
\<close>

end
